(* ===== verification/Prelude.thy ===== *)
theory Prelude
  imports Main "HOL-Library.AList" "HOL-Library.Char_ord" "HOL-Library.List_Lexorder"
begin

text \<open>
  The layer every component shares.

  \<^item> The exceptions of the source, as values (\<open>exn\<close>), and the programs that may raise
    them: a program takes the state of its component and returns a result and the new state.
    A Python exception does not undo the effects made before it, so the state is returned
    on every path. A call that blocks for ever (a lock taken twice by one thread) is the
    third kind of result, \<open>Stuck\<close>; no handler catches it.
  \<^item> The combinators the source's control flow is written with (\<open>bind_p\<close> for a sequence,
    \<open>catch_p\<close> for \<open>try/except\<close>, \<open>finally_p\<close> for \<open>try/finally\<close>, \<open>foreach_p\<close> for a
    loop over a list, \<open>retry_p\<close> for a bounded loop with a break), with their rules.
  \<^item> \<open>keeps f m\<close>: the program \<open>m\<close> never changes the part \<open>f\<close> of the state, on any path.
  \<^item> A directory of files: a list of entries with distinct names, and the interface of
    such a store as a locale, interpreted on it.
  \<^item> The interface of a machine whose steps keep an invariant.
\<close>

section \<open>Exceptions and programs\<close>

datatype exn_kind =
    ValueError | RuntimeError | PermissionError | OSError | TypeError | KeyError
  | UnicodeDecodeError | JSONDecodeError
  | EvidencePayloadTooLarge | EvidenceEventLimitReached | RuntimeControlError
  | IndexError | OverflowError | AssertionError | TimeoutExpired | TimeoutError | AttributeError | CalledProcessError | SystemExit

text \<open>The subclass relation of the classes the source catches by a base class.\<close>

fun is_value_error :: "exn_kind \<Rightarrow> bool" where
  "is_value_error ValueError = True"
| "is_value_error UnicodeDecodeError = True"
| "is_value_error JSONDecodeError = True"
| "is_value_error EvidencePayloadTooLarge = True"
| "is_value_error EvidenceEventLimitReached = True"
| "is_value_error _ = False"

fun is_os_error :: "exn_kind \<Rightarrow> bool" where
  "is_os_error OSError = True"
| "is_os_error PermissionError = True"
| "is_os_error TimeoutError = True"
| "is_os_error _ = False"

datatype exn = Exn (exn_kind: exn_kind) (exn_msg: string)

datatype 'a res = Ret 'a | Raise exn | Stuck

type_synonym ('s, 'a) prog = "'s \<Rightarrow> 'a res \<times> 's"

definition return_p :: "'a \<Rightarrow> ('s, 'a) prog" where
  "return_p x s = (Ret x, s)"

definition raise_p :: "exn_kind \<Rightarrow> string \<Rightarrow> ('s, 'a) prog" where
  "raise_p k m s = (Raise (Exn k m), s)"

definition throw_p :: "exn \<Rightarrow> ('s, 'a) prog" where
  "throw_p e s = (Raise e, s)"

definition stuck_p :: "('s, 'a) prog" where
  "stuck_p s = (Stuck, s)"

definition gets_p :: "('s \<Rightarrow> 'a) \<Rightarrow> ('s, 'a) prog" where
  "gets_p f s = (Ret (f s), s)"

definition modify_p :: "('s \<Rightarrow> 's) \<Rightarrow> ('s, unit) prog" where
  "modify_p f s = (Ret (), f s)"

definition bind_p :: "('s, 'a) prog \<Rightarrow> ('a \<Rightarrow> ('s, 'b) prog) \<Rightarrow> ('s, 'b) prog" where
  "bind_p m f s =
     (case m s of (Ret x, t) \<Rightarrow> f x t | (Raise e, t) \<Rightarrow> (Raise e, t) | (Stuck, t) \<Rightarrow> (Stuck, t))"

definition then_p :: "('s, 'a) prog \<Rightarrow> ('s, 'b) prog \<Rightarrow> ('s, 'b) prog" where
  "then_p m k = bind_p m (\<lambda>_. k)"

definition catch_p :: "('s, 'a) prog \<Rightarrow> (exn \<Rightarrow> ('s, 'a) prog) \<Rightarrow> ('s, 'a) prog" where
  "catch_p m h s =
     (case m s of (Ret x, t) \<Rightarrow> (Ret x, t) | (Raise e, t) \<Rightarrow> h e t | (Stuck, t) \<Rightarrow> (Stuck, t))"

definition finally_p :: "('s, 'a) prog \<Rightarrow> ('s, unit) prog \<Rightarrow> ('s, 'a) prog" where
  "finally_p m f s =
     (case m s of
        (Ret x, t) \<Rightarrow> (case f t of (Ret _, u) \<Rightarrow> (Ret x, u) | (Raise e, u) \<Rightarrow> (Raise e, u) | (Stuck, u) \<Rightarrow> (Stuck, u))
      | (Raise e, t) \<Rightarrow> (case f t of (Ret _, u) \<Rightarrow> (Raise e, u) | (Raise e', u) \<Rightarrow> (Raise e', u) | (Stuck, u) \<Rightarrow> (Stuck, u))
      | (Stuck, t) \<Rightarrow> (Stuck, t))"

text \<open>\<open>if cond: body\<close>, \<open>for x in xs: body\<close>, and a comprehension that runs a program per element.\<close>

definition when_p :: "bool \<Rightarrow> ('s, unit) prog \<Rightarrow> ('s, unit) prog" where
  "when_p b m = (if b then m else return_p ())"

fun foreach_p :: "'x list \<Rightarrow> ('x \<Rightarrow> ('s, unit) prog) \<Rightarrow> ('s, unit) prog" where
  "foreach_p [] f = return_p ()"
| "foreach_p (x # xs) f = then_p (f x) (foreach_p xs f)"

fun fold_p :: "('x \<Rightarrow> 'a \<Rightarrow> ('s, 'a) prog) \<Rightarrow> 'x list \<Rightarrow> 'a \<Rightarrow> ('s, 'a) prog" where
  "fold_p f [] a = return_p a"
| "fold_p f (x # xs) a = bind_p (f x a) (fold_p f xs)"

text \<open>
  \<open>for _ in range(n): if attempt(): ...; break; else: pause\<close>: the result says whether
  an attempt succeeded.
\<close>

fun retry_p :: "nat \<Rightarrow> ('s, bool) prog \<Rightarrow> ('s, unit) prog \<Rightarrow> ('s, bool) prog" where
  "retry_p 0 attempt pause = return_p False"
| "retry_p (Suc n) attempt pause =
     bind_p attempt (\<lambda>ok. if ok then return_p True else then_p pause (retry_p n attempt pause))"

named_theorems prog_simps \<open>equations of the program combinators\<close>
named_theorems ret_iffs \<open>when a combination of programs returns, raises or blocks\<close>
named_theorems keeps_intros \<open>composition rules for the frame predicate\<close>

lemma return_p_run [prog_simps, simp]: "return_p x s = (Ret x, s)"
  by (simp add: return_p_def)

lemma raise_p_run [prog_simps, simp]: "raise_p k m s = (Raise (Exn k m), s)"
  by (simp add: raise_p_def)

lemma throw_p_run [prog_simps, simp]: "throw_p e s = (Raise e, s)"
  by (simp add: throw_p_def)

lemma stuck_p_run [prog_simps, simp]: "stuck_p s = (Stuck, s)"
  by (simp add: stuck_p_def)

lemma gets_p_run [prog_simps, simp]: "gets_p f s = (Ret (f s), s)"
  by (simp add: gets_p_def)

lemma modify_p_run [prog_simps, simp]: "modify_p f s = (Ret (), f s)"
  by (simp add: modify_p_def)

lemma when_p_simps [prog_simps, simp]:
  "when_p True m = m" "when_p False m = return_p ()"
  by (simp_all add: when_p_def)

lemma bind_p_step [prog_simps]:
  "m s = (Ret x, t) \<Longrightarrow> bind_p m f s = f x t"
  "m s = (Raise e, t) \<Longrightarrow> bind_p m f s = (Raise e, t)"
  "m s = (Stuck, t) \<Longrightarrow> bind_p m f s = (Stuck, t)"
  by (simp_all add: bind_p_def)

lemma bind_p_prim [simp]:
  "bind_p (return_p x) f s = f x s"
  "bind_p (gets_p g) f s = f (g s) s"
  "bind_p (modify_p h) f' s = f' () (h s)"
  "bind_p (raise_p k m) f'' s = (Raise (Exn k m), s)"
  "bind_p (throw_p e) f'' s = (Raise e, s)"
  by (simp_all add: bind_p_def)

lemma bind_p_Ret_iff [ret_iffs]:
  "bind_p m f s = (Ret y, t) \<longleftrightarrow> (\<exists>x u. m s = (Ret x, u) \<and> f x u = (Ret y, t))"
  by (auto simp: bind_p_def split: prod.splits res.splits)

lemma bind_p_Raise_iff [ret_iffs]:
  "bind_p m f s = (Raise e, t) \<longleftrightarrow>
     m s = (Raise e, t) \<or> (\<exists>x u. m s = (Ret x, u) \<and> f x u = (Raise e, t))"
  by (auto simp: bind_p_def split: prod.splits res.splits)

lemma bind_p_Stuck_iff [ret_iffs]:
  "bind_p m f s = (Stuck, t) \<longleftrightarrow>
     m s = (Stuck, t) \<or> (\<exists>x u. m s = (Ret x, u) \<and> f x u = (Stuck, t))"
  by (auto simp: bind_p_def split: prod.splits res.splits)

lemma then_p_Ret_iff [ret_iffs]:
  "then_p m k s = (Ret y, t) \<longleftrightarrow> (\<exists>x u. m s = (Ret x, u) \<and> k u = (Ret y, t))"
  by (simp add: then_p_def bind_p_Ret_iff)

lemma then_p_Raise_iff [ret_iffs]:
  "then_p m k s = (Raise e, t) \<longleftrightarrow>
     m s = (Raise e, t) \<or> (\<exists>x u. m s = (Ret x, u) \<and> k u = (Raise e, t))"
  by (simp add: then_p_def bind_p_Raise_iff)

lemma then_p_Stuck_iff [ret_iffs]:
  "then_p m k s = (Stuck, t) \<longleftrightarrow>
     m s = (Stuck, t) \<or> (\<exists>x u. m s = (Ret x, u) \<and> k u = (Stuck, t))"
  by (simp add: then_p_def bind_p_Stuck_iff)

lemma then_p_step: "m s = (Ret x, t) \<Longrightarrow> then_p m k s = k t"
  by (simp add: then_p_def bind_p_def)

lemma then_p_prim [simp]:
  "then_p (return_p x) k s = k s"
  "then_p (modify_p h) k s = k (h s)"
  "then_p (gets_p g) k s = k s"
  "then_p (raise_p kd m) k s = (Raise (Exn kd m), s)"
  by (simp_all add: then_p_def)

lemma catch_p_Ret_iff [ret_iffs]:
  "catch_p m h s = (Ret x, t) \<longleftrightarrow>
     m s = (Ret x, t) \<or> (\<exists>e u. m s = (Raise e, u) \<and> h e u = (Ret x, t))"
  by (auto simp: catch_p_def split: prod.splits res.splits)

lemma catch_p_Raise_iff [ret_iffs]:
  "catch_p m h s = (Raise e', t) \<longleftrightarrow> (\<exists>e u. m s = (Raise e, u) \<and> h e u = (Raise e', t))"
  by (auto simp: catch_p_def split: prod.splits res.splits)

lemma catch_p_Stuck_iff [ret_iffs]:
  "catch_p m h s = (Stuck, t) \<longleftrightarrow>
     m s = (Stuck, t) \<or> (\<exists>e u. m s = (Raise e, u) \<and> h e u = (Stuck, t))"
  by (auto simp: catch_p_def split: prod.splits res.splits)

lemma finally_p_Ret_iff [ret_iffs]:
  "finally_p m f s = (Ret x, t) \<longleftrightarrow> (\<exists>u. m s = (Ret x, u) \<and> f u = (Ret (), t))"
  by (auto simp: finally_p_def split: prod.splits res.splits)

lemma finally_p_Raise_iff [ret_iffs]:
  "finally_p m f s = (Raise e, t) \<longleftrightarrow>
     (\<exists>u. m s = (Raise e, u) \<and> f u = (Ret (), t)) \<or>
     (\<exists>r u. m s = (r, u) \<and> r \<noteq> Stuck \<and> f u = (Raise e, t))"
  by (auto simp: finally_p_def split: prod.splits res.splits)

lemma finally_p_Stuck_iff [ret_iffs]:
  "finally_p m f s = (Stuck, t) \<longleftrightarrow>
     m s = (Stuck, t) \<or> (\<exists>r u. m s = (r, u) \<and> r \<noteq> Stuck \<and> f u = (Stuck, t))"
  by (auto simp: finally_p_def split: prod.splits res.splits)

text \<open>A computation without effects inside a program.\<close>

definition lift_p :: "exn + 'a \<Rightarrow> ('s, 'a) prog" where
  "lift_p x = (case x of Inl e \<Rightarrow> throw_p e | Inr v \<Rightarrow> return_p v)"

lemma lift_p_Ret: "lift_p x s = (Ret v, t) \<longleftrightarrow> x = Inr v \<and> t = s"
  by (auto simp: lift_p_def split: sum.splits)

lemma lift_p_Raise: "lift_p x s = (Raise e, t) \<longleftrightarrow> x = Inl e \<and> t = s"
  by (auto simp: lift_p_def split: sum.splits)

lemma lift_p_simps: "lift_p (Inr x) = return_p x" "lift_p (Inl e) = throw_p e"
  by (simp_all add: lift_p_def)

lemma bind_return: "bind_p (return_p x) f = f x"
  by (rule ext) simp

lemma then_return: "then_p (return_p x) m = m"
  by (rule ext) simp

text \<open>A program on a part of the state.\<close>

definition zoom_p :: "('s \<Rightarrow> 't) \<Rightarrow> ('t \<Rightarrow> 's \<Rightarrow> 's) \<Rightarrow> ('t, 'a) prog \<Rightarrow> ('s, 'a) prog" where
  "zoom_p get put m s = (case m (get s) of (r, t) \<Rightarrow> (r, put t s))"

lemma zoom_p_run: "m (get s) = (r, t) \<Longrightarrow> zoom_p get put m s = (r, put t s)"
  by (simp add: zoom_p_def)

lemma map_sum_Inr_iff: "map_sum f g x = Inr y \<longleftrightarrow> (\<exists>z. x = Inr z \<and> y = g z)"
  by (cases x) auto

section \<open>Programs that always return\<close>

definition returns :: "('s, 'a) prog \<Rightarrow> bool" where
  "returns m \<longleftrightarrow> (\<forall>s. \<exists>x t. m s = (Ret x, t))"

named_theorems returns_intros \<open>composition rules for programs that always return\<close>

lemma returnsD: "returns m \<Longrightarrow> \<exists>x t. m s = (Ret x, t)"
  by (simp add: returns_def)

lemma returns_unit: "returns m \<Longrightarrow> \<exists>t. m s = (Ret (), t)" for m :: "('s, unit) prog"
  using returnsD [of m s] by auto

lemma returns_prim [returns_intros, simp]:
  "returns (return_p x)" "returns (gets_p g)" "returns (modify_p h)"
  by (simp_all add: returns_def)

lemma returns_bind [returns_intros]: "returns m \<Longrightarrow> (\<And>x. returns (k x)) \<Longrightarrow> returns (bind_p m k)"
  unfolding returns_def bind_p_def by (metis (no_types, lifting) prod.case res.case(1))

lemma returns_then [returns_intros]: "returns m \<Longrightarrow> returns k \<Longrightarrow> returns (then_p m k)"
  by (simp add: then_p_def returns_bind)

lemma returns_when [returns_intros]: "returns m \<Longrightarrow> returns (when_p b m)"
  by (simp add: when_p_def)

lemma returns_if [returns_intros]: "returns m \<Longrightarrow> returns k \<Longrightarrow> returns (if b then m else k)"
  by simp

lemma returns_option [returns_intros]:
  "returns m \<Longrightarrow> (\<And>x. returns (k x)) \<Longrightarrow> returns (case v of None \<Rightarrow> m | Some x \<Rightarrow> k x)"
  by (cases v) simp_all

lemma returns_foreach [returns_intros]: "(\<And>x. returns (g x)) \<Longrightarrow> returns (foreach_p xs g)"
  by (induction xs) (simp_all add: returns_then)

section \<open>What a program leaves unchanged\<close>

definition keeps :: "('s \<Rightarrow> 'v) \<Rightarrow> ('s, 'a) prog \<Rightarrow> bool" where
  "keeps f m \<longleftrightarrow> (\<forall>s. f (snd (m s)) = f s)"

lemma keepsD: "keeps f m \<Longrightarrow> m s = (r, t) \<Longrightarrow> f t = f s"
  unfolding keeps_def by (metis snd_conv)

lemma keepsI: "(\<And>s. f (snd (m s)) = f s) \<Longrightarrow> keeps f m"
  by (simp add: keeps_def)

lemma keeps_prim [keeps_intros, simp]:
  "keeps f (return_p x)" "keeps f (raise_p k e)" "keeps f (gets_p g)" "keeps f (throw_p ex)"
  "keeps f stuck_p"
  by (simp_all add: keeps_def)

lemma keeps_modify [keeps_intros]: "(\<And>s. f (h s) = f s) \<Longrightarrow> keeps f (modify_p h)"
  by (simp add: keeps_def)

lemma keeps_bind [keeps_intros]:
  assumes "keeps f m" and "\<And>x. keeps f (k x)"
  shows "keeps f (bind_p m k)"
proof (rule keepsI)
  fix s
  show "f (snd (bind_p m k s)) = f s"
    using keepsD [OF assms(1)] keepsD [OF assms(2)]
    by (cases "m s") (auto simp: bind_p_def split: res.splits, metis prod.collapse)
qed

lemma keeps_bind_post:
  assumes "keeps f m" and "\<And>s x t. m s = (Ret x, t) \<Longrightarrow> keeps f (k x)"
  shows "keeps f (bind_p m k)"
proof (rule keepsI)
  fix s
  obtain r t where m: "m s = (r, t)" by (cases "m s")
  show "f (snd (bind_p m k s)) = f s"
  proof (cases r)
    case (Ret x)
    obtain r' u where "k x t = (r', u)" by (cases "k x t")
    with keepsD [OF assms(1) m] keepsD [OF assms(2) [OF m [unfolded Ret]]] m Ret show ?thesis
      by (simp add: bind_p_def)
  qed (use keepsD [OF assms(1) m] m in \<open>simp_all add: bind_p_def\<close>)
qed

lemma keeps_then [keeps_intros]: "keeps f m \<Longrightarrow> keeps f k \<Longrightarrow> keeps f (then_p m k)"
  by (simp add: then_p_def keeps_bind)

lemma keeps_catch [keeps_intros]:
  assumes "keeps f m" and "\<And>e. keeps f (h e)"
  shows "keeps f (catch_p m h)"
proof (rule keepsI)
  fix s
  show "f (snd (catch_p m h s)) = f s"
    using keepsD [OF assms(1)] keepsD [OF assms(2)]
    by (cases "m s") (auto simp: catch_p_def split: res.splits, metis prod.collapse)
qed

lemma keeps_finally [keeps_intros]:
  assumes "keeps f m" and "keeps f c"
  shows "keeps f (finally_p m c)"
proof (rule keepsI)
  fix s
  obtain r t where t: "m s = (r, t)" by (cases "m s")
  obtain r' u where u: "c t = (r', u)" by (cases "c t")
  from keepsD [OF assms(1) t] keepsD [OF assms(2) u] t u
  show "f (snd (finally_p m c s)) = f s"
    by (cases r; cases r') (simp_all add: finally_p_def)
qed

lemma keeps_when [keeps_intros]: "keeps f m \<Longrightarrow> keeps f (when_p b m)"
  by (simp add: when_p_def)

lemma keeps_if [keeps_intros]: "keeps f m \<Longrightarrow> keeps f k \<Longrightarrow> keeps f (if b then m else k)"
  by simp

lemma keeps_foreach [keeps_intros]: "(\<And>x. keeps f (g x)) \<Longrightarrow> keeps f (foreach_p xs g)"
  by (induction xs) (simp_all add: keeps_then)

lemma keeps_fold [keeps_intros]: "(\<And>x a. keeps f (g x a)) \<Longrightarrow> keeps f (fold_p g xs a)"
  by (induction xs arbitrary: a) (simp_all add: keeps_bind)

lemma keeps_fold_set: "(\<And>x a. x \<in> set xs \<Longrightarrow> keeps f (g x a)) \<Longrightarrow> keeps f (fold_p g xs a)"
  by (induction xs arbitrary: a) (simp_all add: keeps_bind)

lemma keeps_pair: "keeps f m \<Longrightarrow> keeps g m \<Longrightarrow> keeps (\<lambda>s. (f s, g s)) m"
  by (simp add: keeps_def)

lemma keeps_retry [keeps_intros]:
  "keeps f a \<Longrightarrow> keeps f p \<Longrightarrow> keeps f (retry_p n a p)"
  by (induction n) (auto intro!: keeps_bind keeps_then)

lemma keeps_option [keeps_intros]:
  "keeps f m \<Longrightarrow> (\<And>x. keeps f (k x)) \<Longrightarrow> keeps f (case v of None \<Rightarrow> m | Some x \<Rightarrow> k x)"
  by (cases v) simp_all

lemma keeps_sum [keeps_intros]:
  "(\<And>x. keeps f (m x)) \<Longrightarrow> (\<And>x. keeps f (k x)) \<Longrightarrow> keeps f (case v of Inl x \<Rightarrow> m x | Inr x \<Rightarrow> k x)"
  by (cases v) simp_all

lemma keeps_list [keeps_intros]:
  "keeps f m \<Longrightarrow> (\<And>x xs. keeps f (k x xs)) \<Longrightarrow> keeps f (case v of [] \<Rightarrow> m | x # xs \<Rightarrow> k x xs)"
  by (cases v) simp_all

lemma keeps_prod [keeps_intros]:
  "(\<And>x y. keeps f (k x y)) \<Longrightarrow> keeps f (case v of (x, y) \<Rightarrow> k x y)"
  by (cases v) simp_all

lemma keeps_lift [keeps_intros]: "keeps f (lift_p x)"
  by (simp add: lift_p_def split: sum.splits)

text \<open>An invariant of the accumulator and the state, along a fold that returns.\<close>

lemma fold_p_inv:
  assumes "fold_p g xs a s = (Ret a', s')" and "I a s"
    and "\<And>x a s a' s'. x \<in> set xs \<Longrightarrow> I a s \<Longrightarrow> g x a s = (Ret a', s') \<Longrightarrow> I a' s'"
  shows "I a' s'"
  using assms
proof (induction xs arbitrary: a s)
  case (Cons x xs)
  then obtain b u where "g x a s = (Ret b, u)" "fold_p g xs b u = (Ret a', s')" by (auto simp: bind_p_Ret_iff)
  with Cons.IH [of b u] Cons.prems(2,3) show ?case by (metis list.set_intros)
qed simp

lemma fold_p_append_Ret:
  "fold_p g (xs @ ys) a s = (Ret a', s') \<longleftrightarrow>
     (\<exists>b u. fold_p g xs a s = (Ret b, u) \<and> fold_p g ys b u = (Ret a', s'))"
  by (induction xs arbitrary: a s) (auto simp: bind_p_Ret_iff)

section \<open>Programs that do not block\<close>

definition unstuck :: "('s, 'a) prog \<Rightarrow> bool" where
  "unstuck m \<longleftrightarrow> (\<forall>s. fst (m s) \<noteq> Stuck)"

named_theorems unstuck_intros \<open>composition rules for programs that never block\<close>

lemma unstuckD: "unstuck m \<Longrightarrow> m s \<noteq> (Stuck, t)"
  unfolding unstuck_def by (metis fst_conv)

lemma unstuckI: "(\<And>s t. m s \<noteq> (Stuck, t)) \<Longrightarrow> unstuck m"
  unfolding unstuck_def by (metis prod.collapse)

lemma unstuck_prim [unstuck_intros, simp]:
  "unstuck (return_p x)" "unstuck (raise_p k e)" "unstuck (gets_p g)" "unstuck (throw_p ex)" "unstuck (modify_p h)"
  by (simp_all add: unstuck_def)

lemma unstuck_bind [unstuck_intros]: "unstuck m \<Longrightarrow> (\<And>x. unstuck (k x)) \<Longrightarrow> unstuck (bind_p m k)"
  by (rule unstuckI) (auto simp: bind_p_Stuck_iff dest: unstuckD)

lemma unstuck_then [unstuck_intros]: "unstuck m \<Longrightarrow> unstuck k \<Longrightarrow> unstuck (then_p m k)"
  by (simp add: then_p_def unstuck_bind)

lemma unstuck_catch [unstuck_intros]: "unstuck m \<Longrightarrow> (\<And>e. unstuck (h e)) \<Longrightarrow> unstuck (catch_p m h)"
  by (rule unstuckI) (auto simp: catch_p_Stuck_iff dest: unstuckD)

lemma unstuck_finally [unstuck_intros]: "unstuck m \<Longrightarrow> unstuck c \<Longrightarrow> unstuck (finally_p m c)"
  by (rule unstuckI) (auto simp: finally_p_Stuck_iff dest: unstuckD)

lemma unstuck_when [unstuck_intros]: "unstuck m \<Longrightarrow> unstuck (when_p b m)"
  by (simp add: when_p_def)

lemma unstuck_if [unstuck_intros]: "unstuck m \<Longrightarrow> unstuck k \<Longrightarrow> unstuck (if b then m else k)"
  by simp

lemma unstuck_foreach [unstuck_intros]: "(\<And>x. unstuck (g x)) \<Longrightarrow> unstuck (foreach_p xs g)"
  by (induction xs) (simp_all add: unstuck_then)

lemma unstuck_retry [unstuck_intros]: "unstuck a \<Longrightarrow> unstuck p \<Longrightarrow> unstuck (retry_p n a p)"
  by (induction n) (auto intro!: unstuck_bind unstuck_then)

lemma unstuck_option [unstuck_intros]:
  "unstuck m \<Longrightarrow> (\<And>x. unstuck (k x)) \<Longrightarrow> unstuck (case v of None \<Rightarrow> m | Some x \<Rightarrow> k x)"
  by (cases v) simp_all

lemma unstuck_list [unstuck_intros]:
  "unstuck m \<Longrightarrow> (\<And>x xs. unstuck (k x xs)) \<Longrightarrow> unstuck (case v of [] \<Rightarrow> m | x # xs \<Rightarrow> k x xs)"
  by (cases v) simp_all

lemma unstuck_prod [unstuck_intros]:
  "(\<And>x y. unstuck (k x y)) \<Longrightarrow> unstuck (case v of (x, y) \<Rightarrow> k x y)"
  by (cases v) simp_all

section \<open>Directories\<close>

text \<open>
  A directory: the entries by name. Names are distinct; a write replaces the entry, an
  unlink of a missing name does nothing (\<open>missing_ok=True\<close>).
\<close>

type_synonym 'f dir = "(string \<times> 'f) list"

definition dir_ok :: "'f dir \<Rightarrow> bool" where
  "dir_ok d \<longleftrightarrow> distinct (map fst d)"

definition dir_get :: "'f dir \<Rightarrow> string \<Rightarrow> 'f option" where
  "dir_get d n = map_of d n"

definition dir_put :: "string \<Rightarrow> 'f \<Rightarrow> 'f dir \<Rightarrow> 'f dir" where
  "dir_put n f d = AList.update n f d"

definition dir_del :: "string \<Rightarrow> 'f dir \<Rightarrow> 'f dir" where
  "dir_del n d = AList.delete n d"

definition dir_names :: "'f dir \<Rightarrow> string list" where
  "dir_names d = map fst d"

text \<open>The interface of a store of named entries, and what follows from it alone.\<close>

locale named_store =
  fixes get :: "'d \<Rightarrow> 'k \<Rightarrow> 'f option"
    and put :: "'k \<Rightarrow> 'f \<Rightarrow> 'd \<Rightarrow> 'd"
    and del :: "'k \<Rightarrow> 'd \<Rightarrow> 'd"
    and names :: "'d \<Rightarrow> 'k list"
    and ok :: "'d \<Rightarrow> bool"
  assumes get_put: "get (put k f d) k' = (if k' = k then Some f else get d k')"
    and get_del: "get (del k d) k' = (if k' = k then None else get d k')"
    and names_iff: "k \<in> set (names d) \<longleftrightarrow> get d k \<noteq> None"
    and ok_put: "ok d \<Longrightarrow> ok (put k f d)"
    and ok_del: "ok d \<Longrightarrow> ok (del k d)"
    and ok_distinct: "ok d \<Longrightarrow> distinct (names d)"
begin

lemma get_put_same: "get (put k f d) k = Some f"
  by (simp add: get_put)

lemma get_put_other: "k' \<noteq> k \<Longrightarrow> get (put k f d) k' = get d k'"
  by (simp add: get_put)

lemma get_del_same: "get (del k d) k = None"
  by (simp add: get_del)

lemma get_del_other: "k' \<noteq> k \<Longrightarrow> get (del k d) k' = get d k'"
  by (simp add: get_del)

lemma put_then_del: "get (del k (put k f d)) k' = (if k' = k then None else get d k')"
  by (simp add: get_del get_put)

text \<open>Unlinking a list of names removes exactly those.\<close>

lemma get_fold_del: "get (fold del ks d) k = (if k \<in> set ks then None else get d k)"
  by (induction ks arbitrary: d) (auto simp: get_del)

lemma ok_fold_del: "ok d \<Longrightarrow> ok (fold del ks d)"
  by (induction ks arbitrary: d) (auto intro: ok_del)

lemma names_put: "set (names (put k f d)) = insert k (set (names d))"
  by (auto simp: names_iff get_put split: if_splits)

lemma names_del: "set (names (del k d)) = set (names d) - {k}"
  by (auto simp: names_iff get_del split: if_splits)

end

interpretation dirs: named_store dir_get dir_put dir_del dir_names dir_ok
proof unfold_locales
  fix d :: "'f dir" and k k' :: string and f :: 'f
  show "dir_get (dir_put k f d) k' = (if k' = k then Some f else dir_get d k')"
    by (simp add: dir_get_def dir_put_def update_conv')
  show "dir_get (dir_del k d) k' = (if k' = k then None else dir_get d k')"
    by (simp add: dir_get_def dir_del_def delete_conv')
  show "k \<in> set (dir_names d) \<longleftrightarrow> dir_get d k \<noteq> None"
    by (simp add: dir_names_def dir_get_def map_of_eq_None_iff)
  show "dir_ok d \<Longrightarrow> dir_ok (dir_put k f d)"
    by (simp add: dir_ok_def dir_put_def distinct_update)
  show "dir_ok d \<Longrightarrow> dir_ok (dir_del k d)"
    by (simp add: dir_ok_def dir_del_def distinct_delete)
  show "dir_ok d \<Longrightarrow> distinct (dir_names d)"
    by (simp add: dir_ok_def dir_names_def)
qed

lemmas dir_simps = dirs.get_put dirs.get_del dirs.get_fold_del

section \<open>Machines that keep an invariant\<close>

text \<open>
  The interface of a component whose operations are the steps of a machine: every step
  keeps the invariant, so every run does. A component proves the law for its own steps
  and gets the statement about runs.
\<close>

fun run_steps :: "('s \<Rightarrow> 'e \<Rightarrow> 's) \<Rightarrow> 's \<Rightarrow> 'e list \<Rightarrow> 's" where
  "run_steps step s [] = s"
| "run_steps step s (e # es) = run_steps step (step s e) es"

locale invariant_machine =
  fixes step :: "'s \<Rightarrow> 'e \<Rightarrow> 's"
    and inv :: "'s \<Rightarrow> bool"
    and allowed :: "'e \<Rightarrow> bool"
  assumes step_inv: "inv s \<Longrightarrow> allowed e \<Longrightarrow> inv (step s e)"
begin

lemma run_inv: "inv s \<Longrightarrow> list_all allowed es \<Longrightarrow> inv (run_steps step s es)"
  by (induction es arbitrary: s) (auto intro: step_inv)

lemma run_append: "run_steps step s (es @ fs) = run_steps step (run_steps step s es) fs"
  by (induction es arbitrary: s) simp_all

end

text \<open>A machine that, besides, only ever extends what it has recorded.\<close>

locale append_only_machine = invariant_machine step inv allowed
  for step :: "'s \<Rightarrow> 'e \<Rightarrow> 's" and inv :: "'s \<Rightarrow> bool" and allowed :: "'e \<Rightarrow> bool" +
  fixes recorded :: "'s \<Rightarrow> 'x list"
  assumes step_extends: "\<exists>xs. recorded (step s e) = recorded s @ xs"
begin

lemma run_extends: "\<exists>xs. recorded (run_steps step s es) = recorded s @ xs"
proof (induction es arbitrary: s)
  case Nil
  show ?case by simp
next
  case (Cons e es)
  obtain xs where "recorded (step s e) = recorded s @ xs"
    using step_extends by blast
  moreover obtain ys where "recorded (run_steps step (step s e) es) = recorded (step s e) @ ys"
    using Cons.IH by blast
  ultimately show ?case by simp
qed

lemma run_keeps_recorded: "i < length (recorded s) \<Longrightarrow> recorded (run_steps step s es) ! i = recorded s ! i"
  using run_extends [of s es] by (auto simp: nth_append)

end

end
