(* ===== verification/PyStr.thy ===== *)
theory PyStr
  imports Prelude
begin

text \<open>
  The operations of Python's \<open>str\<close> and \<open>bytes\<close> the source uses. A \<open>string\<close> is a list of
  8-bit characters; as text it stands for code points below 256, as bytes for itself.
  Characters beyond that range do not occur in the names, keys and protocol words the
  program decides on; text that holds them is outside the model.
\<close>

section \<open>Characters\<close>

definition ascii_digit :: "char \<Rightarrow> bool" where
  "ascii_digit c \<longleftrightarrow> 48 \<le> (of_char c :: nat) \<and> (of_char c :: nat) \<le> 57"

text \<open>\<open>str.isdigit\<close> also accepts the superscript digits two, three and one.\<close>

definition is_digit :: "char \<Rightarrow> bool" where
  "is_digit c \<longleftrightarrow> ascii_digit c \<or> (of_char c :: nat) \<in> {178, 179, 185}"

definition ascii_lower :: "char \<Rightarrow> bool" where
  "ascii_lower c \<longleftrightarrow> 97 \<le> (of_char c :: nat) \<and> (of_char c :: nat) \<le> 122"

definition ascii_upper :: "char \<Rightarrow> bool" where
  "ascii_upper c \<longleftrightarrow> 65 \<le> (of_char c :: nat) \<and> (of_char c :: nat) \<le> 90"

definition is_space :: "char \<Rightarrow> bool" where
  "is_space c \<longleftrightarrow> (of_char c :: nat) \<in> {9, 10, 11, 12, 13, 28, 29, 30, 31, 32, 133, 160}"

definition lower_char :: "char \<Rightarrow> char" where
  "lower_char c =
     (let n = (of_char c :: nat)
      in if ascii_upper c \<or> (192 \<le> n \<and> n \<le> 222 \<and> n \<noteq> 215) then char_of (n + 32) else c)"

definition py_lower :: "string \<Rightarrow> string" where
  "py_lower s = map lower_char s"

section \<open>Searching and splitting\<close>

definition starts_with :: "string \<Rightarrow> string \<Rightarrow> bool" where
  "starts_with p s \<longleftrightarrow> take (length p) s = p"

definition ends_with :: "string \<Rightarrow> string \<Rightarrow> bool" where
  "ends_with p s \<longleftrightarrow> length p \<le> length s \<and> drop (length s - length p) s = p"

text \<open>\<open>needle in s\<close>.\<close>

fun contains_str :: "string \<Rightarrow> string \<Rightarrow> bool" where
  "contains_str p [] = (p = [])"
| "contains_str p (c # s) = (starts_with p (c # s) \<or> contains_str p s)"

definition py_strip :: "string \<Rightarrow> string" where
  "py_strip s = rev (dropWhile is_space (rev (dropWhile is_space s)))"

definition rstrip_char :: "char \<Rightarrow> string \<Rightarrow> string" where
  "rstrip_char c s = rev (dropWhile (\<lambda>d. d = c) (rev s))"

definition lstrip_char :: "char \<Rightarrow> string \<Rightarrow> string" where
  "lstrip_char c s = dropWhile (\<lambda>d. d = c) s"

text \<open>\<open>s.split(c)\<close> for one character: always at least one field.\<close>

fun split_on :: "char \<Rightarrow> string \<Rightarrow> string list" where
  "split_on c [] = [[]]"
| "split_on c (d # s) =
     (if d = c then [] # split_on c s
      else case split_on c s of [] \<Rightarrow> [[d]] | w # ws \<Rightarrow> (d # w) # ws)"

text \<open>\<open>s.split()\<close>: the maximal runs of non-space characters.\<close>

fun split_ws :: "string \<Rightarrow> string list" where
  "split_ws [] = []"
| "split_ws (c # s) =
     (if is_space c then split_ws s
      else case s of
             [] \<Rightarrow> [[c]]
           | d # _ \<Rightarrow>
               (if is_space d then [c] # split_ws s
                else case split_ws s of [] \<Rightarrow> [[c]] | w # ws \<Rightarrow> (c # w) # ws))"

text \<open>\<open>s.splitlines()\<close>, for the line ends of the commands the source reads.\<close>

fun split_lines :: "string \<Rightarrow> string list" where
  "split_lines [] = []"
| "split_lines (c # s) =
     (if c = CHR 0x0A then [] # split_lines s
      else case s of
             [] \<Rightarrow> [[c]]
           | _ \<Rightarrow> (if hd s = CHR 0x0A then [c] # split_lines (tl s)
                   else case split_lines s of [] \<Rightarrow> [[c]] | w # ws \<Rightarrow> (c # w) # ws))"

fun join_with :: "string \<Rightarrow> string list \<Rightarrow> string" where
  "join_with sep [] = []"
| "join_with sep [w] = w"
| "join_with sep (w # ws) = w @ sep @ join_with sep ws"

text \<open>\<open>s.rsplit("/", 1)[-1]\<close> and the name of a path: what follows the last separator.\<close>

definition after_last :: "char \<Rightarrow> string \<Rightarrow> string" where
  "after_last c s = rev (takeWhile (\<lambda>d. d \<noteq> c) (rev s))"

section \<open>Decimal numbers\<close>

definition digit_char :: "nat \<Rightarrow> char" where
  "digit_char d = char_of (48 + d)"

definition digit_val :: "char \<Rightarrow> nat" where
  "digit_val c = of_char c - 48"

fun nat_str :: "nat \<Rightarrow> string" where
  "nat_str n = (if n < 10 then [digit_char n] else nat_str (n div 10) @ [digit_char (n mod 10)])"

declare nat_str.simps [simp del]

definition int_str :: "int \<Rightarrow> string" where
  "int_str i = (if i < 0 then CHR ''-'' # nat_str (nat (- i)) else nat_str (nat i))"

definition read_digits :: "string \<Rightarrow> nat" where
  "read_digits s = foldl (\<lambda>n c. 10 * n + digit_val c) 0 s"

text \<open>
  \<open>int(s)\<close>: surrounding space, an optional sign, and digits that single underscores may
  group. Superscript digits are refused, although \<open>str.isdigit\<close> accepts them.
\<close>

fun digit_groups :: "string \<Rightarrow> bool" where
  "digit_groups [] = False"
| "digit_groups [c] = ascii_digit c"
| "digit_groups (c # d # s) =
     (ascii_digit c \<and> (if d = CHR ''_'' then digit_groups s else digit_groups (d # s)))"

definition py_int :: "string \<Rightarrow> int option" where
  "py_int s =
     (let t = py_strip s;
          (sgn, ds) = (case t of [] \<Rightarrow> (1, [])
                       | c # r \<Rightarrow> if c = CHR ''-'' then (-1, r) else if c = CHR ''+'' then (1, r) else (1, t))
      in if digit_groups ds then Some (sgn * int (read_digits (filter ascii_digit ds))) else None)"

section \<open>Bytes\<close>

definition utf8_encode :: "string \<Rightarrow> string" where
  "utf8_encode s =
     concat (map (\<lambda>c. let n = (of_char c :: nat)
                      in if n < 128 then [c] else [char_of (192 + n div 64), char_of (128 + n mod 64)]) s)"

fun utf8_decode :: "string \<Rightarrow> string option" where
  "utf8_decode [] = Some []"
| "utf8_decode (c # s) =
     (let n = (of_char c :: nat)
      in if n < 128 then map_option ((#) c) (utf8_decode s)
         else case s of
                [] \<Rightarrow> None
              | d # r \<Rightarrow>
                  (let m = (of_char d :: nat)
                   in if n \<in> {194, 195} \<and> 128 \<le> m \<and> m < 192
                      then map_option ((#) (char_of ((n - 192) * 64 + (m - 128)))) (utf8_decode r)
                      else None))"

definition hex_digit :: "nat \<Rightarrow> char" where
  "hex_digit d = (if d < 10 then char_of (48 + d) else char_of (87 + d))"

definition is_hex_digit :: "char \<Rightarrow> bool" where
  "is_hex_digit c \<longleftrightarrow> ascii_digit c \<or>
     97 \<le> (of_char c :: nat) \<and> (of_char c :: nat) \<le> 102 \<or> 65 \<le> (of_char c :: nat) \<and> (of_char c :: nat) \<le> 70"

text \<open>
  \<open>repr(s)\<close> of a string: single quotes, unless only double quotes avoid an escape; the
  characters Python does not print are escaped.
\<close>

definition repr_char :: "char \<Rightarrow> char \<Rightarrow> string" where
  "repr_char q c =
     (let n = (of_char c :: nat)
      in if c = q \<or> c = CHR 0x5C then [CHR 0x5C, c]
         else if c = CHR 0x0A then [CHR 0x5C, CHR ''n'']
         else if c = CHR 0x0D then [CHR 0x5C, CHR ''r'']
         else if c = CHR 0x09 then [CHR 0x5C, CHR ''t'']
         else if n < 32 \<or> (127 \<le> n \<and> n \<le> 160) \<or> n = 173
           then [CHR 0x5C, CHR ''x'', hex_digit (n div 16), hex_digit (n mod 16)]
         else [c])"

definition py_repr :: "string \<Rightarrow> string" where
  "py_repr s =
     (let q = (if CHR 0x27 \<in> set s \<and> CHR 0x22 \<notin> set s then CHR 0x22 else CHR 0x27)
      in q # concat (map (repr_char q) s) @ [q])"

section \<open>Lemmas\<close>

lemma ascii_digit_digit_char [simp]: "d < 10 \<Longrightarrow> ascii_digit (digit_char d)"
  by (simp add: ascii_digit_def digit_char_def)

lemma digit_val_digit_char [simp]: "d < 10 \<Longrightarrow> digit_val (digit_char d) = d"
  by (simp add: digit_val_def digit_char_def)

lemma digit_char_numerals [simp]:
  "digit_char 0 = CHR ''0''" "digit_char (Suc 0) = CHR ''1''" "digit_char 1 = CHR ''1''" "digit_char 2 = CHR ''2''"
  "digit_char 3 = CHR ''3''" "digit_char 4 = CHR ''4''" "digit_char 5 = CHR ''5''" "digit_char 6 = CHR ''6''"
  "digit_char 7 = CHR ''7''" "digit_char 8 = CHR ''8''" "digit_char 9 = CHR ''9''"
  by code_simp+

lemma nat_str_digits: "c \<in> set (nat_str n) \<Longrightarrow> ascii_digit c"
proof (induction n rule: nat_str.induct)
  case (1 n)
  then show ?case
    by (subst (asm) (2) nat_str.simps) (auto split: if_splits)
qed

lemma nat_str_nonempty [simp]: "nat_str n \<noteq> []"
  by (subst nat_str.simps) simp

lemma read_digits_append: "read_digits (s @ [c]) = 10 * read_digits s + digit_val c"
  by (simp add: read_digits_def)

lemma read_nat_str [simp]: "read_digits (nat_str n) = n"
proof (induction n rule: nat_str.induct)
  case (1 n)
  show ?case
  proof (cases "n < 10")
    case True
    then show ?thesis by (subst nat_str.simps) (simp add: read_digits_def)
  next
    case False
    then show ?thesis using "1.IH"
      by (subst nat_str.simps) (simp add: read_digits_append)
  qed
qed

lemma nat_str_inject [simp]: "nat_str m = nat_str n \<longleftrightarrow> m = n"
  by (metis read_nat_str)

lemma ascii_digit_not:
  "ascii_digit c \<Longrightarrow> c \<noteq> CHR ''.''" "ascii_digit c \<Longrightarrow> c \<noteq> CHR ''/''" "ascii_digit c \<Longrightarrow> c \<noteq> CHR ''-''"
  "ascii_digit c \<Longrightarrow> c \<noteq> CHR ''+''" "ascii_digit c \<Longrightarrow> c \<noteq> CHR '':''" "ascii_digit c \<Longrightarrow> c \<noteq> CHR ''_''"
  by (auto simp: ascii_digit_def)

lemma nat_str_no_dot [simp]: "CHR ''.'' \<notin> set (nat_str n)"
  using ascii_digit_not(1) nat_str_digits by blast

lemma starts_with_append [simp]: "starts_with p (p @ s)"
  by (simp add: starts_with_def)

lemma starts_with_iff: "starts_with p s \<longleftrightarrow> (\<exists>r. s = p @ r)"
  unfolding starts_with_def by (metis append_eq_conv_conj append_take_drop_id)

lemma ends_with_append [simp]: "ends_with p (s @ p)"
  by (simp add: ends_with_def)

lemma split_on_nonempty [simp]: "split_on c s \<noteq> []"
  by (cases s) (auto split: list.splits)

lemma split_on_no_sep: "c \<notin> set s \<Longrightarrow> split_on c s = [s]"
  by (induction s) auto

lemma split_on_append:
  "c \<notin> set s \<Longrightarrow> split_on c (s @ c # t) = s # split_on c t"
  by (induction s) auto

lemma split_on_join:
  assumes "ws \<noteq> []" and "\<And>w. w \<in> set ws \<Longrightarrow> c \<notin> set w"
  shows "split_on c (join_with [c] ws) = ws"
  using assms
proof (induction ws)
  case Nil
  then show ?case by simp
next
  case (Cons w ws)
  then show ?case
    by (cases ws) (simp_all add: split_on_no_sep split_on_append)
qed

lemma split_on_sep_free: "w \<in> set (split_on c s) \<Longrightarrow> c \<notin> set w"
proof (induction s arbitrary: w)
  case Nil
  then show ?case by simp
next
  case (Cons d s)
  show ?case
  proof (cases "split_on c s")
    case Nil
    then show ?thesis by simp
  next
    case (Cons v vs)
    with Cons.prems Cons.IH show ?thesis
      by (auto split: if_splits)
  qed
qed

lemma join_with_inject:
  assumes "join_with [c] vs = join_with [c] ws" "vs \<noteq> []" "ws \<noteq> []"
    and "\<And>w. w \<in> set vs \<union> set ws \<Longrightarrow> c \<notin> set w"
  shows "vs = ws"
proof -
  have "split_on c (join_with [c] vs) = vs"
    by (rule split_on_join [OF assms(2)]) (rule assms(4), simp)
  moreover have "split_on c (join_with [c] ws) = ws"
    by (rule split_on_join [OF assms(3)]) (rule assms(4), simp)
  ultimately show ?thesis using assms(1) by metis
qed

lemma utf8_encode_ascii: "(\<And>c. c \<in> set s \<Longrightarrow> (of_char c :: nat) < 128) \<Longrightarrow> utf8_encode s = s"
  by (induction s) (auto simp: utf8_encode_def)

lemma utf8_decode_ascii: "(\<And>c. c \<in> set s \<Longrightarrow> (of_char c :: nat) < 128) \<Longrightarrow> utf8_decode s = Some s"
  by (induction s) auto

lemma utf8_encode_Cons: "utf8_encode (c # s) = utf8_encode [c] @ utf8_encode s"
  by (simp add: utf8_encode_def)

lemma utf8_round_trip [simp]: "utf8_decode (utf8_encode s) = Some s"
proof (induction s)
  case Nil
  show ?case by (simp add: utf8_encode_def)
next
  case (Cons c s)
  have lt: "(of_char c :: nat) < 256" by simp
  show ?case
  proof (cases "(of_char c :: nat) < 128")
    case True
    with Cons show ?thesis by (subst utf8_encode_Cons) (simp add: utf8_encode_def)
  next
    case False
    define n where "n = (of_char c :: nat)"
    from False lt have n: "128 \<le> n" "n < 256" by (simp_all add: n_def)
    then have "n div 64 \<in> {2, 3}" by auto
    moreover have "char_of (n div 64 * 64 + n mod 64) = c"
      by (simp add: n_def)
    moreover have "(192 + n div 64) mod 256 = 192 + n div 64" "(128 + n mod 64) mod 256 = 128 + n mod 64"
      using n by auto
    ultimately show ?thesis
      using Cons n by (subst utf8_encode_Cons) (auto simp: utf8_encode_def n_def [symmetric] Let_def)
  qed
qed

lemma utf8_encode_length_ge: "length s \<le> length (utf8_encode s)"
  by (induction s) (auto simp: utf8_encode_def Let_def)

lemma join_split [simp]: "join_with [c] (split_on c s) = s"
proof (induction s)
  case Nil
  then show ?case by simp
next
  case (Cons d s)
  then show ?case
    by (cases "split_on c s" rule: list.exhaust [case_names Nil Fields]; cases "tl (split_on c s)") auto
qed

lemma join_append: "ws \<noteq> [] \<Longrightarrow> vs \<noteq> [] \<Longrightarrow> join_with c (ws @ vs) = join_with c ws @ c @ join_with c vs"
proof (induction ws)
  case Nil
  then show ?case by simp
next
  case (Cons w ws)
  then show ?case by (cases ws; cases vs) auto
qed

lemma join_Cons: "vs \<noteq> [] \<Longrightarrow> join_with c (w # vs) = w @ c @ join_with c vs"
  using join_append [of "[w]" vs c] by simp

lemma digit_groups_digits: "s \<noteq> [] \<Longrightarrow> list_all ascii_digit s \<Longrightarrow> digit_groups s"
  by (induction s rule: digit_groups.induct) (auto simp: ascii_digit_not)

lemma ascii_digit_not_space: "ascii_digit c \<Longrightarrow> \<not> is_space c"
  by (auto simp: ascii_digit_def is_space_def)

lemma py_strip_id:
  assumes "\<And>c. c \<in> set s \<Longrightarrow> \<not> is_space c"
  shows "py_strip s = s"
proof -
  have "dropWhile is_space t = t" if "set t \<subseteq> set s" for t
    using that assms by (cases t) auto
  from this [of s] this [of "rev s"] show ?thesis by (simp add: py_strip_def)
qed

lemma py_int_nat_str [simp]: "py_int (nat_str n) = Some (int n)"
proof -
  have digits: "list_all ascii_digit (nat_str n)" by (simp add: list_all_iff nat_str_digits)
  then have "py_strip (nat_str n) = nat_str n"
    by (intro py_strip_id) (simp add: list_all_iff ascii_digit_not_space)
  moreover have "filter ascii_digit (nat_str n) = nat_str n"
    using digits by (simp add: list_all_iff)
  moreover obtain c r where "nat_str n = c # r" "c \<noteq> CHR ''-''" "c \<noteq> CHR ''+''"
    using digits nat_str_nonempty [of n] by (cases "nat_str n") (auto simp: ascii_digit_not)
  moreover have "digit_groups (nat_str n)" using digits by (simp add: digit_groups_digits)
  ultimately show ?thesis by (simp add: py_int_def) (metis read_nat_str)
qed

end
