(* ===== verification/Json.thy ===== *)
theory Json
  imports PyStr
begin

text \<open>
  The Python values the program passes around as documents, and the part of the \<open>json\<close>
  module it uses: \<open>json.dumps(v, sort_keys=True, separators=(",", ":"))\<close> with and without
  \<open>ensure_ascii\<close>, and \<open>json.loads\<close>. A dict is the list of its items in insertion order, with
  distinct keys; the directory operations of the prelude are its operations. A float is
  kept as its text. The parser is fuelled by twice the length of its input, which is enough
  (\<open>parse_fuel\<close> in the theory \<open>Json_Round_Trip\<close>, which also proves that what \<open>dumps\<close>
  prints, \<open>loads\<close> reads back).
\<close>

section \<open>Values\<close>

datatype pyval =
    PNone
  | PBool bool
  | PInt int
  | PFloat string
  | PStr string
  | PList "pyval list"
  | PTuple "pyval list"
  | PSet "pyval list"
  | PFrozenset "pyval list"
  | PDict "(string \<times> pyval) list"

text \<open>A document: the items of a dict.\<close>

type_synonym record_doc = "(string \<times> pyval) list"

text \<open>\<open>d.get(k)\<close> and \<open>d.get(k, default)\<close>.\<close>

definition pget :: "(string \<times> pyval) list \<Rightarrow> string \<Rightarrow> pyval" where
  "pget d k = (case dir_get d k of None \<Rightarrow> PNone | Some v \<Rightarrow> v)"

definition pget_default :: "(string \<times> pyval) list \<Rightarrow> string \<Rightarrow> pyval \<Rightarrow> pyval" where
  "pget_default d k v = (case dir_get d k of None \<Rightarrow> v | Some w \<Rightarrow> w)"

text \<open>Truth of a value, as \<open>if v\<close> and \<open>v or w\<close> read it.\<close>

fun truthy :: "pyval \<Rightarrow> bool" where
  "truthy PNone = False"
| "truthy (PBool b) = b"
| "truthy (PInt i) = (i \<noteq> 0)"
| "truthy (PFloat t) = (t \<noteq> ''0.0'' \<and> t \<noteq> ''-0.0'')"
| "truthy (PStr s) = (s \<noteq> [])"
| "truthy (PList xs) = (xs \<noteq> [])"
| "truthy (PTuple xs) = (xs \<noteq> [])"
| "truthy (PSet xs) = (xs \<noteq> [])"
| "truthy (PFrozenset xs) = (xs \<noteq> [])"
| "truthy (PDict d) = (d \<noteq> [])"

text \<open>
  \<open>v == i\<close> for an int on the right: Python compares numbers by value, so \<open>True == 1\<close> and
  \<open>1.0 == 1\<close>.
\<close>

fun py_eq_int :: "pyval \<Rightarrow> int \<Rightarrow> bool" where
  "py_eq_int (PInt j) i = (j = i)"
| "py_eq_int (PBool b) i = ((if b then 1 else 0) = i)"
| "py_eq_int (PFloat t) i = (t = int_str i @ ''.0'' \<or> (i = 0 \<and> t = ''-0.0''))"
| "py_eq_int _ i = False"

fun py_eq_str :: "pyval \<Rightarrow> string \<Rightarrow> bool" where
  "py_eq_str (PStr t) s = (t = s)"
| "py_eq_str _ s = False"

section \<open>Printing\<close>

definition hex4 :: "nat \<Rightarrow> string" where
  "hex4 n = [hex_digit (n div 4096 mod 16), hex_digit (n div 256 mod 16),
             hex_digit (n div 16 mod 16), hex_digit (n mod 16)]"

definition escape_char :: "bool \<Rightarrow> char \<Rightarrow> string" where
  "escape_char ascii c =
     (if c = CHR 0x22 then [CHR 0x5C, CHR 0x22]
      else if c = CHR 0x5C then [CHR 0x5C, CHR 0x5C]
      else if c = CHR 0x0A then [CHR 0x5C, CHR ''n'']
      else if c = CHR 0x0D then [CHR 0x5C, CHR ''r'']
      else if c = CHR 0x09 then [CHR 0x5C, CHR ''t'']
      else if c = CHR 0x0C then [CHR 0x5C, CHR ''f'']
      else if c = CHR 0x08 then [CHR 0x5C, CHR ''b'']
      else if (of_char c :: nat) < 32 \<or> (ascii \<and> (of_char c :: nat) > 126)
        then CHR 0x5C # CHR ''u'' # hex4 (of_char c)
      else [c])"

definition json_string :: "bool \<Rightarrow> string \<Rightarrow> string" where
  "json_string ascii s = CHR 0x22 # concat (map (escape_char ascii) s) @ [CHR 0x22]"

fun serialisable :: "pyval \<Rightarrow> bool" where
  "serialisable (PSet xs) = False"
| "serialisable (PFrozenset xs) = False"
| "serialisable (PList xs) = list_all serialisable xs"
| "serialisable (PTuple xs) = list_all serialisable xs"
| "serialisable (PDict d) = list_all (\<lambda>p. serialisable (snd p)) d"
| "serialisable _ = True"

fun json_text :: "bool \<Rightarrow> pyval \<Rightarrow> string" where
  "json_text a PNone = ''null''"
| "json_text a (PBool b) = (if b then ''true'' else ''false'')"
| "json_text a (PInt i) = int_str i"
| "json_text a (PFloat t) = t"
| "json_text a (PStr s) = json_string a s"
| "json_text a (PList xs) = CHR ''['' # join_with '','' (map (json_text a) xs) @ '']''"
| "json_text a (PTuple xs) = CHR ''['' # join_with '','' (map (json_text a) xs) @ '']''"
| "json_text a (PSet xs) = []"
| "json_text a (PFrozenset xs) = []"
| "json_text a (PDict d) =
     CHR ''{'' # join_with '',''
        (map (\<lambda>(k, t). json_string a k @ '':'' @ t)
          (sort_key fst (map (\<lambda>p. (fst p, json_text a (snd p))) d))) @ ''}''"

text \<open>\<open>json.dumps\<close> raises TypeError on a set; \<open>None\<close> is that error.\<close>

definition dumps :: "bool \<Rightarrow> pyval \<Rightarrow> string option" where
  "dumps ascii v = (if serialisable v then Some (json_text ascii v) else None)"

section \<open>Parsing\<close>

definition json_ws :: "char \<Rightarrow> bool" where
  "json_ws c \<longleftrightarrow> c = CHR '' '' \<or> c = CHR 0x09 \<or> c = CHR 0x0A \<or> c = CHR 0x0D"

definition skip_ws :: "string \<Rightarrow> string" where
  "skip_ws s = dropWhile json_ws s"

definition hex_val :: "char \<Rightarrow> nat" where
  "hex_val c = (let n = (of_char c :: nat)
                in if n \<le> 57 then n - 48 else if n \<le> 70 then n - 55 else n - 87)"

definition unescape :: "char \<Rightarrow> char option" where
  "unescape e =
     (if e = CHR 0x22 then Some (CHR 0x22)
      else if e = CHR 0x5C then Some (CHR 0x5C)
      else if e = CHR ''/'' then Some (CHR ''/'')
      else if e = CHR ''b'' then Some (CHR 0x08)
      else if e = CHR ''f'' then Some (CHR 0x0C)
      else if e = CHR ''n'' then Some (CHR 0x0A)
      else if e = CHR ''r'' then Some (CHR 0x0D)
      else if e = CHR ''t'' then Some (CHR 0x09)
      else None)"

text \<open>The rest of a string literal after its opening quote, and what follows it.\<close>

fun parse_str :: "string \<Rightarrow> (string \<times> string) option" where
  "parse_str [] = None"
| "parse_str (c # s) =
     (if c = CHR 0x22 then Some ([], s)
      else if c = CHR 0x5C then
        (case s of
           [] \<Rightarrow> None
         | e # r \<Rightarrow>
             (if e = CHR ''u'' then
                (case r of
                   h1 # h2 # h3 # h4 # r' \<Rightarrow>
                     (let n = ((hex_val h1 * 16 + hex_val h2) * 16 + hex_val h3) * 16 + hex_val h4
                      in if list_all is_hex_digit [h1, h2, h3, h4] \<and> n < 256
                         then map_option (apfst ((#) (char_of n))) (parse_str r') else None)
                 | _ \<Rightarrow> None)
              else case unescape e of
                     None \<Rightarrow> None
                   | Some d \<Rightarrow> map_option (apfst ((#) d)) (parse_str r)))
      else if (of_char c :: nat) < 32 then None
      else map_option (apfst ((#) c)) (parse_str s))"

text \<open>The fraction and the exponent of a number, where the text has one.\<close>

definition scan_frac :: "string \<Rightarrow> string" where
  "scan_frac s =
     (case s of [] \<Rightarrow> []
      | c # q \<Rightarrow> if c = CHR ''.'' \<and> takeWhile ascii_digit q \<noteq> [] then CHR ''.'' # takeWhile ascii_digit q else [])"

definition scan_exp :: "string \<Rightarrow> string" where
  "scan_exp s =
     (case s of [] \<Rightarrow> []
      | c # q \<Rightarrow>
          (if c = CHR ''e'' \<or> c = CHR ''E'' then
             (let sg = (case q of [] \<Rightarrow> [] | d # _ \<Rightarrow> if d = CHR ''+'' \<or> d = CHR ''-'' then [d] else []);
                  es = takeWhile ascii_digit (drop (length sg) q)
              in if es = [] then [] else c # sg @ es)
           else []))"

text \<open>A number after its sign \<open>neg\<close>, which the Python regular expression makes optional.\<close>

definition parse_unsigned :: "bool \<Rightarrow> string \<Rightarrow> (pyval \<times> string) option" where
  "parse_unsigned neg r =
     (let ds = takeWhile ascii_digit r
      in if ds = [] then
           (if starts_with ''Infinity'' r
            then Some (PFloat ((if neg then ''-'' else []) @ ''Infinity''), drop 8 r)
            else if \<not> neg \<and> starts_with ''NaN'' r then Some (PFloat ''NaN'', drop 3 r) else None)
         else
           (let ip = (if hd ds = CHR ''0'' then [CHR ''0''] else ds);
                fr = scan_frac (drop (length ip) r);
                ex = scan_exp (drop (length ip + length fr) r);
                rest = drop (length ip + length fr + length ex) r
            in if fr = [] \<and> ex = []
               then Some (PInt (if neg then - int (read_digits ip) else int (read_digits ip)), rest)
               else Some (PFloat ((if neg then ''-'' else []) @ ip @ fr @ ex), rest)))"

definition parse_number :: "string \<Rightarrow> (pyval \<times> string) option" where
  "parse_number s =
     (case s of [] \<Rightarrow> None
      | c # r \<Rightarrow> if c = CHR ''-'' then parse_unsigned True r else parse_unsigned False s)"

text \<open>A dict built from the pairs of an object: the last value of a repeated key wins.\<close>

definition dict_of_pairs :: "(string \<times> pyval) list \<Rightarrow> (string \<times> pyval) list" where
  "dict_of_pairs ps = fold (\<lambda>(k, v). dir_put k v) ps []"

fun parse_value :: "nat \<Rightarrow> string \<Rightarrow> (pyval \<times> string) option"
and parse_items :: "nat \<Rightarrow> string \<Rightarrow> (pyval list \<times> string) option"
and parse_pairs :: "nat \<Rightarrow> string \<Rightarrow> ((string \<times> pyval) list \<times> string) option" where
  "parse_value 0 s = None"
| "parse_value (Suc n) s =
     (case s of
        [] \<Rightarrow> None
      | c # r \<Rightarrow>
          (if c = CHR 0x22 then map_option (apfst PStr) (parse_str r)
           else if c = CHR ''{'' then
             (case skip_ws r of
                [] \<Rightarrow> None
              | d # u \<Rightarrow> if d = CHR ''}'' then Some (PDict [], u)
                         else map_option (apfst (\<lambda>ps. PDict (dict_of_pairs ps))) (parse_pairs n (d # u)))
           else if c = CHR ''['' then
             (case skip_ws r of
                [] \<Rightarrow> None
              | d # u \<Rightarrow> if d = CHR '']'' then Some (PList [], u)
                         else map_option (apfst PList) (parse_items n (d # u)))
           else if starts_with ''null'' s then Some (PNone, drop 4 s)
           else if starts_with ''true'' s then Some (PBool True, drop 4 s)
           else if starts_with ''false'' s then Some (PBool False, drop 5 s)
           else parse_number s))"
| "parse_items 0 s = None"
| "parse_items (Suc n) s =
     (case parse_value n s of
        None \<Rightarrow> None
      | Some (v, t) \<Rightarrow>
          (case skip_ws t of
             [] \<Rightarrow> None
           | d # u \<Rightarrow> if d = CHR '','' then map_option (apfst ((#) v)) (parse_items n (skip_ws u))
                      else if d = CHR '']'' then Some ([v], u) else None))"
| "parse_pairs 0 s = None"
| "parse_pairs (Suc n) s =
     (case s of
        [] \<Rightarrow> None
      | c # r \<Rightarrow>
          (if c \<noteq> CHR 0x22 then None
           else case parse_str r of
                  None \<Rightarrow> None
                | Some (k, t) \<Rightarrow>
                    (case skip_ws t of
                       [] \<Rightarrow> None
                     | e # u \<Rightarrow>
                         (if e \<noteq> CHR '':'' then None
                          else case parse_value n (skip_ws u) of
                                 None \<Rightarrow> None
                               | Some (v, w) \<Rightarrow>
                                   (case skip_ws w of
                                      [] \<Rightarrow> None
                                    | d # x \<Rightarrow> if d = CHR '','' then map_option (apfst ((#) (k, v))) (parse_pairs n (skip_ws x))
                                               else if d = CHR ''}'' then Some ([(k, v)], x) else None)))))"

definition loads :: "string \<Rightarrow> pyval option" where
  "loads s =
     (case parse_value (2 * length s + 1) (skip_ws s) of
        None \<Rightarrow> None
      | Some (v, t) \<Rightarrow> if skip_ws t = [] then Some v else None)"

end
