(* ===== verification/Json_Round_Trip.thy ===== *)
theory Json_Round_Trip
  imports Json
begin

text \<open>
  The parser of \<open>Json\<close> stops on every input without running out of fuel, and reads back
  what the printer writes, up to what JSON does not keep: tuples come back as lists, the
  items of a dict in the order of their keys.
\<close>

section \<open>The parser consumes its input, and its fuel is enough\<close>

lemma skip_ws_length: "length (skip_ws s) \<le> length s"
  by (simp add: skip_ws_def length_dropWhile_le)

lemma skip_ws_Cons_length: "skip_ws s = c # t \<Longrightarrow> length t < length s"
  using skip_ws_length [of s] by simp

lemma parse_str_length: "parse_str s = Some (v, t) \<Longrightarrow> length t < length s"
proof (induction s arbitrary: v t rule: parse_str.induct)
  case 1
  then show ?case by simp
next
  case (2 c s)
  consider (q) "c = CHR 0x22" | (esc) "c = CHR 0x5C" "c \<noteq> CHR 0x22" | (plain) "c \<noteq> CHR 0x22" "c \<noteq> CHR 0x5C"
    by blast
  then show ?case
  proof cases
    case q
    with "2.prems" show ?thesis by simp
  next
    case plain
    with "2.prems" obtain v' where "parse_str s = Some (v', t)" and "\<not> (of_char c :: nat) < 32"
      by (auto split: if_splits)
    with "2.IH"(3) plain have "length t < length s" by blast
    then show ?thesis by simp
  next
    case esc
    show ?thesis
    proof (cases s)
      case Nil
      with esc "2.prems" show ?thesis by simp
    next
      case (Cons e r)
      show ?thesis
      proof (cases "e = CHR ''u''")
        case True
        with esc Cons "2.prems" obtain h1 h2 h3 h4 r' v' where r: "r = h1 # h2 # h3 # h4 # r'"
          and p: "parse_str r' = Some (v', t)"
          and "list_all is_hex_digit [h1, h2, h3, h4] \<and>
               ((hex_val h1 * 16 + hex_val h2) * 16 + hex_val h3) * 16 + hex_val h4 < 256"
          by (simp add: Let_def split: list.splits if_splits) blast
        with "2.IH"(1) [OF _ _ Cons True r refl refl refl refl _ p] esc
        have "length t < length r'" by simp
        with Cons r show ?thesis by simp
      next
        case False
        with esc Cons "2.prems" obtain d v' where u: "unescape e = Some d"
          and p: "parse_str r = Some (v', t)"
          by (auto split: option.splits)
        from "2.IH"(2) [OF _ _ Cons False u p] esc Cons show ?thesis by simp
      qed
    qed
  qed
qed

lemma drop_less: "0 < n \<Longrightarrow> s \<noteq> [] \<Longrightarrow> length (drop n s) < length s"
  by (cases s) auto

lemma parse_unsigned_length: "parse_unsigned neg r = Some (v, t) \<Longrightarrow> length t < length r"
proof -
  assume a: "parse_unsigned neg r = Some (v, t)"
  show ?thesis
  proof (cases "takeWhile ascii_digit r = []")
    case True
    with a show ?thesis
      by (auto simp: parse_unsigned_def starts_with_iff split: if_splits)
  next
    case False
    then have "r \<noteq> []" by auto
    define ip where "ip = (if hd (takeWhile ascii_digit r) = CHR ''0'' then [CHR ''0''] else takeWhile ascii_digit r)"
    from False have "0 < length ip" by (simp add: ip_def)
    moreover have "\<exists>m. t = drop (length ip + m) r"
      using a False unfolding parse_unsigned_def Let_def ip_def [symmetric]
      by (auto simp: add.assoc split: if_splits intro: exI [of _ "0::nat"])
    then obtain m where "t = drop (length ip + m) r" by blast
    ultimately show ?thesis using \<open>r \<noteq> []\<close> drop_less [of "length ip + m" r] by simp
  qed
qed

lemma parse_number_length: "parse_number s = Some (v, t) \<Longrightarrow> length t < length s"
  by (auto simp: parse_number_def less_Suc_eq split: list.splits if_splits
      dest!: parse_unsigned_length)

lemma parse_length:
  "parse_value n s = Some (v, t) \<Longrightarrow> length t < length s"
  "parse_items n s = Some (vs, t) \<Longrightarrow> length t < length s"
  "parse_pairs n s = Some (ps, t) \<Longrightarrow> length t < length s"
proof (induction n s and n s and n s arbitrary: v t and vs t and ps t
    rule: parse_value_parse_items_parse_pairs.induct)
  case (2 n s)
  show ?case
  proof (cases s)
    case Nil
    with "2.prems" show ?thesis by simp
  next
    case (Cons c r)
    consider (str) "c = CHR 0x22" | (obj) "c = CHR ''{''" | (arr) "c = CHR ''[''"
      | (other) "c \<noteq> CHR 0x22" "c \<noteq> CHR ''{''" "c \<noteq> CHR ''[''" by blast
    then show ?thesis
    proof cases
      case str
      with "2.prems" Cons show ?thesis
        by (auto dest!: parse_str_length)
    next
      case obj
      with "2.prems" Cons "2.IH"(1) show ?thesis
        using skip_ws_Cons_length [of r]
        by (fastforce split: list.splits if_splits)
    next
      case arr
      with "2.prems" Cons "2.IH"(2) show ?thesis
        using skip_ws_Cons_length [of r]
        by (fastforce split: list.splits if_splits)
    next
      case other
      with "2.prems" Cons show ?thesis
        by (auto split: if_splits simp: less_Suc_eq_le le_diff_conv dest: parse_number_length)
    qed
  qed
next
  case (4 n s)
  from "4.prems" obtain v w d u where pv: "parse_value n s = Some (v, w)" and ws: "skip_ws w = d # u"
    by (auto split: option.splits list.splits)
  have 1: "length w < length s" using "4.IH"(1) [OF pv] .
  have 2: "length u < length w" using ws by (rule skip_ws_Cons_length)
  show ?case
  proof (cases "d = CHR '',''")
    case True
    with "4.prems" pv ws obtain vs' where "parse_items n (skip_ws u) = Some (vs', t)"
      by auto
    from "4.IH"(2) [OF pv refl ws True this] 1 2 skip_ws_length [of u] show ?thesis by simp
  next
    case False
    with "4.prems" pv ws 1 2 show ?thesis by (auto split: if_splits)
  qed
next
  case (6 n s)
  from "6.prems" obtain c r k t1 e u v w d x where s: "s = c # r" and c: "\<not> c \<noteq> CHR 0x22"
    and ps: "parse_str r = Some (k, t1)" and t1: "skip_ws t1 = e # u" and e: "\<not> e \<noteq> CHR '':''"
    and pv: "parse_value n (skip_ws u) = Some (v, w)" and ws: "skip_ws w = d # x"
    by (auto split: option.splits list.splits if_splits)
  have "length t1 < length r" using ps by (rule parse_str_length)
  moreover have "length u < length t1" using t1 by (rule skip_ws_Cons_length)
  moreover have "length w < length (skip_ws u)" using "6.IH"(1) [OF s c ps refl t1 e pv] .
  moreover have "length x < length w" using ws by (rule skip_ws_Cons_length)
  ultimately have lt: "length x < length s" using s skip_ws_length [of u] by simp
  show ?case
  proof (cases "d = CHR '',''")
    case True
    with "6.prems" s c ps t1 e pv ws obtain ps' where "parse_pairs n (skip_ws x) = Some (ps', t)"
      by auto
    from "6.IH"(2) [OF s c ps refl t1 e pv refl ws True this] lt skip_ws_length [of x]
    show ?thesis by simp
  next
    case False
    with "6.prems" s c ps t1 e pv ws lt show ?thesis by (auto split: if_splits)
  qed
qed simp_all

lemma parse_fuel:
  "2 * length s < n \<Longrightarrow> 2 * length s < m \<Longrightarrow> parse_value n s = parse_value m s"
  "2 * length s + 1 < n \<Longrightarrow> 2 * length s + 1 < m \<Longrightarrow> parse_items n s = parse_items m s"
  "2 * length s + 1 < n \<Longrightarrow> 2 * length s + 1 < m \<Longrightarrow> parse_pairs n s = parse_pairs m s"
proof (induction n s and n s and n s arbitrary: m and m and m
    rule: parse_value_parse_items_parse_pairs.induct)
  case (2 n s)
  have "m \<noteq> 0" using "2.prems" by simp
  then obtain m' where m: "m = Suc m'" by (cases m) auto
  show ?case
  proof (cases s)
    case Nil
    then show ?thesis by (simp add: m)
  next
    case (Cons c r)
    have *: "2 * length (d # u) + 1 < n \<and> 2 * length (d # u) + 1 < m'" if "skip_ws r = d # u" for d u
      using skip_ws_length [of r] that "2.prems" Cons m by simp
    have obj: "parse_pairs n (d # u) = parse_pairs m' (d # u)"
      if "c = CHR ''{''" "skip_ws r = d # u" "d \<noteq> CHR ''}''" for d u
      using "2.IH"(1) [OF Cons _ that] * [OF that(2)] that(1) by simp
    have arr: "parse_items n (d # u) = parse_items m' (d # u)"
      if "c = CHR ''[''" "skip_ws r = d # u" "d \<noteq> CHR '']''" for d u
      using "2.IH"(2) [OF Cons _ _ that] * [OF that(2)] that(1) by simp
    show ?thesis
      unfolding m Cons by (simp add: obj arr split: list.split)
  qed
next
  case (4 n s)
  have "m \<noteq> 0" using "4.prems" by simp
  then obtain m' where m: "m = Suc m'" by (cases m) auto
  from "4.prems" m have v: "parse_value n s = parse_value m' s" by (intro "4.IH"(1)) auto
  have it: "parse_items n (skip_ws u) = parse_items m' (skip_ws u)"
    if "parse_value n s = Some (x, w)" "skip_ws w = CHR '','' # u" for x w u
  proof -
    have "2 * length (skip_ws u) + 1 < n \<and> 2 * length (skip_ws u) + 1 < m'"
      using parse_length(1) [OF that(1)] skip_ws_Cons_length [OF that(2)] skip_ws_length [of u] "4.prems" m
      by simp
    with "4.IH"(2) [OF that(1) refl that(2) refl] show ?thesis by blast
  qed
  show ?case
  proof (cases "parse_value n s")
    case None
    with v show ?thesis by (simp add: m)
  next
    case (Some p)
    obtain x w where "p = (x, w)" by (cases p)
    with Some it [of x w] v show ?thesis
      by (auto simp: m split: list.split)
  qed
next
  case (6 n s)
  have "m \<noteq> 0" using "6.prems" by simp
  then obtain m' where m: "m = Suc m'" by (cases m) auto
  show ?case
  proof (cases s)
    case Nil
    then show ?thesis by (simp add: m)
  next
    case (Cons c r)
    show ?thesis
    proof (cases "\<exists>k t u. c = CHR 0x22 \<and> parse_str r = Some (k, t) \<and> skip_ws t = CHR '':'' # u")
      case False
      then show ?thesis unfolding m Cons
        by (auto split: option.split list.split)
    next
      case True
      then obtain k t u where c: "c = CHR 0x22" and k: "parse_str r = Some (k, t)"
        and u: "skip_ws t = CHR '':'' # u" by blast
      have len: "length u < length r"
        using parse_str_length [OF k] skip_ws_Cons_length [OF u] by simp
      have v: "parse_value n (skip_ws u) = parse_value m' (skip_ws u)"
        using "6.IH"(1) [OF Cons _ k refl u] c len skip_ws_length [of u] "6.prems" m Cons by simp
      have "parse_pairs n (skip_ws x) = parse_pairs m' (skip_ws x)"
        if "parse_value n (skip_ws u) = Some (y, w)" "skip_ws w = CHR '','' # x" for y w x
        using "6.IH"(2) [OF Cons _ k refl u _ that(1) refl that(2) refl] c len skip_ws_length [of u]
          parse_length(1) [OF that(1)] skip_ws_Cons_length [OF that(2)] skip_ws_length [of x]
          "6.prems" m Cons by simp
      with c k u v show ?thesis unfolding m Cons
        by (auto split: option.split list.split)
    qed
  qed
qed auto

section \<open>What is printed is read back\<close>

text \<open>The value \<open>loads\<close> builds from the text of \<open>v\<close>.\<close>

fun json_norm :: "pyval \<Rightarrow> pyval" where
  "json_norm (PList xs) = PList (map json_norm xs)"
| "json_norm (PTuple xs) = PList (map json_norm xs)"
| "json_norm (PDict d) = PDict (sort_key fst (map (\<lambda>p. (fst p, json_norm (snd p))) d))"
| "json_norm v = v"

text \<open>Documents: no sets, no floats (whose text the model does not normalise), distinct keys.\<close>

fun json_ok :: "pyval \<Rightarrow> bool" where
  "json_ok (PSet xs) = False"
| "json_ok (PFrozenset xs) = False"
| "json_ok (PFloat t) = False"
| "json_ok (PList xs) = list_all json_ok xs"
| "json_ok (PTuple xs) = list_all json_ok xs"
| "json_ok (PDict d) = (distinct (map fst d) \<and> list_all (\<lambda>p. json_ok (snd p)) d)"
| "json_ok _ = True"

lemma json_ok_serialisable: "json_ok v \<Longrightarrow> serialisable v"
  by (induction v rule: json_ok.induct) (auto simp: list_all_iff)

definition number_stop :: "string \<Rightarrow> bool" where
  "number_stop s \<longleftrightarrow>
     (case s of [] \<Rightarrow> True
      | c # _ \<Rightarrow> \<not> ascii_digit c \<and> c \<noteq> CHR ''.'' \<and> c \<noteq> CHR ''e'' \<and> c \<noteq> CHR ''E'')"

lemma number_stop_simps [simp]:
  "number_stop []" "number_stop (CHR '','' # s)" "number_stop (CHR '']'' # s)" "number_stop (CHR ''}'' # s)"
  "number_stop (CHR 0x0A # s)"
  by (simp_all add: number_stop_def ascii_digit_def)

lemma insort_key_map: "insort_key f (h x) (map h xs) = map h (insort_key (\<lambda>y. f (h y)) x xs)"
  by (induction xs) simp_all

lemma sort_key_map: "sort_key f (map h xs) = map h (sort_key (\<lambda>y. f (h y)) xs)"
  by (induction xs) (simp_all add: insort_key_map)

lemma hex_digit_val [simp]: "d < 16 \<Longrightarrow> hex_val (hex_digit d) = d"
  by (auto simp: hex_val_def hex_digit_def Let_def)

lemma is_hex_digit_hex_digit [simp]: "d < 16 \<Longrightarrow> is_hex_digit (hex_digit d)"
  by (auto simp: is_hex_digit_def ascii_digit_def hex_digit_def)

lemma parse_str_hex4:
  "parse_str (CHR 0x5C # CHR ''u'' # hex4 (of_char c) @ t) = map_option (apfst ((#) c)) (parse_str t)"
proof -
  define n where "n = (of_char c :: nat)"
  have n: "n < 256" by (simp add: n_def)
  then have "n div 4096 mod 16 = 0" "n div 256 mod 16 = 0" "n div 16 mod 16 < 16"
    "n div 16 mod 16 * 16 + n mod 16 = n" by auto
  moreover have "char_of n = c" by (simp add: n_def)
  ultimately show ?thesis
    using n by (simp add: hex4_def n_def [symmetric] Let_def)
qed

lemma parse_str_escape: "parse_str (escape_char a c @ t) = map_option (apfst ((#) c)) (parse_str t)"
  using parse_str_hex4 [of c t]
  by (auto simp: escape_char_def unescape_def)

lemma parse_str_json_string:
  "parse_str (concat (map (escape_char a) s) @ CHR 0x22 # t) = Some (s, t)"
  by (induction s) (simp_all add: parse_str_escape)

lemma digit_char_0: "digit_char 0 = CHR ''0''"
  by code_simp

lemma nat_str_leading_zero: "hd (nat_str n) = CHR ''0'' \<Longrightarrow> nat_str n = ''0''"
proof (induction n rule: nat_str.induct)
  case (1 n)
  show ?case
  proof (cases "n < 10")
    case True
    have *: "nat_str n = [digit_char n]" using True by (subst nat_str.simps) simp
    from "1.prems" have "(of_char (digit_char n) :: nat) = 48" by (simp add: *)
    with True have "n = 0" by (simp add: digit_char_def)
    with * show ?thesis by (simp add: digit_char_0)
  next
    case False
    then have *: "nat_str n = nat_str (n div 10) @ [digit_char (n mod 10)]" by (subst nat_str.simps) simp
    with "1.prems" have "hd (nat_str (n div 10)) = CHR ''0''" by simp
    with "1.IH" False have "nat_str (n div 10) = nat_str 0"
      by (subst (2) nat_str.simps) (simp add: digit_char_0)
    then have "n div 10 = 0" by simp
    with False show ?thesis by simp
  qed
qed

lemma takeWhile_nat_str: "number_stop t \<Longrightarrow> takeWhile ascii_digit (nat_str n @ t) = nat_str n"
  by (subst takeWhile_append2) (auto simp: nat_str_digits number_stop_def split: list.splits)

lemma parse_unsigned_nat_str:
  assumes "number_stop t"
  shows "parse_unsigned neg (nat_str n @ t) = Some (PInt (if neg then - int n else int n), t)"
proof -
  have ip: "(if hd (nat_str n) = CHR ''0'' then [CHR ''0''] else nat_str n) = nat_str n"
    using nat_str_leading_zero by auto
  have "scan_frac t = []" "scan_exp t = []"
    using assms by (auto simp: scan_frac_def scan_exp_def number_stop_def split: list.splits)
  then show ?thesis
    unfolding parse_unsigned_def takeWhile_nat_str [OF assms] Let_def ip by simp
qed

lemma nat_str_hd: "ascii_digit (hd (nat_str n))"
  by (rule nat_str_digits [of _ n]) simp

lemma parse_number_int_str:
  assumes "number_stop t"
  shows "parse_number (int_str i @ t) = Some (PInt i, t)"
proof (cases "i < 0")
  case True
  then show ?thesis
    using parse_unsigned_nat_str [OF assms, of True "nat (- i)"] by (simp add: parse_number_def int_str_def)
next
  case False
  obtain c r where cr: "nat_str (nat i) = c # r" by (cases "nat_str (nat i)") auto
  with nat_str_hd [of "nat i"] have "c \<noteq> CHR ''-''" by (auto simp: ascii_digit_def)
  with False cr show ?thesis
    using parse_unsigned_nat_str [OF assms, of False "nat i"] by (simp add: parse_number_def int_str_def)
qed

lemma parse_value_int_str:
  assumes "number_stop t"
  shows "parse_value (Suc n) (int_str i @ t) = Some (PInt i, t)"
proof -
  obtain c r where cr: "int_str i @ t = c # r" by (cases "int_str i") (auto simp: int_str_def split: if_splits)
  have c: "ascii_digit c \<or> c = CHR ''-''"
  proof (cases "i < 0")
    case True
    with cr show ?thesis by (simp add: int_str_def)
  next
    case False
    with cr nat_str_hd [of "nat i"] show ?thesis
      by (cases "nat_str (nat i)") (auto simp: int_str_def)
  qed
  then have "c \<noteq> CHR 0x22" "c \<noteq> CHR ''{''" "c \<noteq> CHR ''[''" "c \<noteq> CHR ''n''" "c \<noteq> CHR ''t''" "c \<noteq> CHR ''f''"
    by (auto simp: ascii_digit_def)
  then have "parse_value (Suc n) (c # r) = parse_number (c # r)"
    by (simp add: starts_with_def)
  with parse_number_int_str [OF assms, of i] cr show ?thesis by simp
qed

lemma json_text_start: "json_ok v \<Longrightarrow> \<exists>c r. json_text a v = c # r \<and> \<not> json_ws c \<and> c \<noteq> CHR '']'' \<and> c \<noteq> CHR ''}''"
proof (cases v)
  case (PInt i)
  then show ?thesis
    using nat_str_hd [of "nat i"]
    by (cases "nat_str (nat i)") (auto simp: int_str_def json_ws_def ascii_digit_def)
qed (auto simp: json_ws_def json_string_def)

lemma skip_ws_json_text: "json_ok v \<Longrightarrow> skip_ws (json_text a v @ t) = json_text a v @ t"
  using json_text_start [of v a] by (auto simp: skip_ws_def)

lemma skip_ws_simps [simp]:
  "skip_ws (CHR '','' # s) = CHR '','' # s" "skip_ws (CHR '']'' # s) = CHR '']'' # s"
  "skip_ws (CHR ''}'' # s) = CHR ''}'' # s" "skip_ws (CHR '':'' # s) = CHR '':'' # s"
  "skip_ws (CHR 0x22 # s) = CHR 0x22 # s" "skip_ws [] = []"
  by (simp_all add: skip_ws_def json_ws_def)

text \<open>The items of an array and of an object, given that each value is read back.\<close>

lemma parse_items_join:
  assumes "vs \<noteq> []" and "\<And>v. v \<in> set vs \<Longrightarrow> json_ok v"
    and "\<And>v n t. v \<in> set vs \<Longrightarrow> number_stop t \<Longrightarrow> 2 * length (json_text a v) < n \<Longrightarrow>
           parse_value n (json_text a v @ t) = Some (json_norm v, t)"
    and "2 * length (join_with '','' (map (json_text a) vs)) + 1 < n"
  shows "parse_items n (join_with '','' (map (json_text a) vs) @ CHR '']'' # t) = Some (map json_norm vs, t)"
  using assms
proof (induction vs arbitrary: n)
  case Nil
  then show ?case by simp
next
  case (Cons v vs)
  from Cons.prems(4) obtain m where n: "n = Suc m" by (cases n) auto
  show ?case
  proof (cases vs)
    case Nil
    with Cons.prems(3) [of v "CHR '']'' # t" m] Cons.prems(4) n show ?thesis by simp
  next
    case (Cons w ws)
    define rest where "rest = join_with '','' (map (json_text a) vs)"
    have len: "2 * length (json_text a v) < m" "2 * length rest + 1 < m"
      using Cons.prems(4) n Cons by (simp_all add: rest_def)
    have v: "parse_value m (json_text a v @ CHR '','' # rest @ CHR '']'' # t)
        = Some (json_norm v, CHR '','' # rest @ CHR '']'' # t)"
      using Cons.prems(3) len(1) by simp
    obtain r where "rest @ CHR '']'' # t = json_text a w @ r"
      by (cases ws) (auto simp: rest_def Cons)
    then have sk: "skip_ws (rest @ CHR '']'' # t) = rest @ CHR '']'' # t"
      using skip_ws_json_text [of w a r] Cons.prems(2) Cons by simp
    have "parse_items m (rest @ CHR '']'' # t) = Some (map json_norm vs, t)"
      unfolding rest_def
      using Cons.IH [of m] Cons.prems(2,3) len(2) Cons by (simp add: rest_def)
    moreover have "join_with '','' (map (json_text a) (v # vs)) = json_text a v @ CHR '','' # rest"
      by (simp add: Cons rest_def)
    ultimately show ?thesis using v sk by (simp add: n)
  qed
qed

abbreviation json_member :: "bool \<Rightarrow> string \<times> pyval \<Rightarrow> string" where
  "json_member a p \<equiv> json_string a (fst p) @ '':'' @ json_text a (snd p)"

lemma parse_pairs_join:
  assumes "ps \<noteq> []" and "\<And>p. p \<in> set ps \<Longrightarrow> json_ok (snd p)"
    and "\<And>p n t. p \<in> set ps \<Longrightarrow> number_stop t \<Longrightarrow> 2 * length (json_text a (snd p)) < n \<Longrightarrow>
           parse_value n (json_text a (snd p) @ t) = Some (json_norm (snd p), t)"
    and "2 * length (join_with '','' (map (json_member a) ps)) + 1 < n"
  shows "parse_pairs n (join_with '','' (map (json_member a) ps) @ CHR ''}'' # t)
     = Some (map (\<lambda>p. (fst p, json_norm (snd p))) ps, t)"
  using assms
proof (induction ps arbitrary: n)
  case Nil
  then show ?case by simp
next
  case (Cons p ps)
  from Cons.prems(4) obtain m where n: "n = Suc m" by (cases n) auto
  have key: "parse_str (concat (map (escape_char a) (fst p)) @ CHR 0x22 # u) = Some (fst p, u)" for u
    by (rule parse_str_json_string)
  have sk: "skip_ws (json_text a (snd p) @ u) = json_text a (snd p) @ u" for u
    using Cons.prems(2) by (simp add: skip_ws_json_text)
  show ?case
  proof (cases ps)
    case Nil
    with Cons.prems(3) [of p "CHR ''}'' # t" m] Cons.prems(4) n key sk show ?thesis
      by (simp add: json_string_def)
  next
    case (Cons q qs)
    define rest where "rest = join_with '','' (map (json_member a) ps)"
    have len: "2 * length (json_text a (snd p)) < m" "2 * length rest + 1 < m"
      using Cons.prems(4) n Cons by (simp_all add: rest_def)
    have v: "parse_value m (json_text a (snd p) @ CHR '','' # rest @ CHR ''}'' # t)
        = Some (json_norm (snd p), CHR '','' # rest @ CHR ''}'' # t)"
      using Cons.prems(3) len(1) by simp
    have sk': "skip_ws (rest @ CHR ''}'' # t) = rest @ CHR ''}'' # t"
      by (cases qs) (simp_all add: rest_def Cons json_string_def)
    have "parse_pairs m (rest @ CHR ''}'' # t) = Some (map (\<lambda>p. (fst p, json_norm (snd p))) ps, t)"
      unfolding rest_def
      using Cons.IH [of m] Cons.prems(2,3) len(2) Cons by (simp add: rest_def)
    moreover have "join_with '','' (map (json_member a) (p # ps)) = json_member a p @ CHR '','' # rest"
      by (simp add: Cons rest_def)
    ultimately show ?thesis using v sk sk' key by (simp add: n json_string_def)
  qed
qed

lemma dict_of_pairs_distinct:
  assumes "distinct (map fst ps)"
  shows "dict_of_pairs ps = ps"
proof -
  have app: "dir_put k v d = d @ [(k, v)]" if "k \<notin> fst ` set d" for k and v :: pyval and d
    using that unfolding dir_put_def by (induction d) auto
  have "fold (\<lambda>(k, v). dir_put k v) ps d = d @ ps"
    if "distinct (map fst ps)" "fst ` set d \<inter> fst ` set ps = {}" for d
    using that
  proof (induction ps arbitrary: d)
    case (Cons p ps)
    have "fst p \<notin> fst ` set d" using Cons.prems by auto
    then have "fold (\<lambda>(k, v). dir_put k v) (p # ps) d = fold (\<lambda>(k, v). dir_put k v) ps (d @ [p])"
      using app [of "fst p" d "snd p"] by (simp add: case_prod_beta)
    also have "\<dots> = d @ p # ps" using Cons.IH [of "d @ [p]"] Cons.prems by auto
    finally show ?case .
  qed simp
  from this [OF assms, of "[]"] show ?thesis by (simp add: dict_of_pairs_def)
qed

lemma json_text_dict:
  "json_text a (PDict d) = CHR ''{'' # join_with '','' (map (json_member a) (sort_key fst d)) @ ''}''"
  by (simp add: sort_key_map case_prod_beta comp_def)

lemma json_norm_dict: "json_norm (PDict d) = PDict (map (\<lambda>p. (fst p, json_norm (snd p))) (sort_key fst d))"
  by (simp add: sort_key_map)

lemma parse_value_array:
  assumes "list_all json_ok vs"
    and "\<And>v n t. v \<in> set vs \<Longrightarrow> number_stop t \<Longrightarrow> 2 * length (json_text a v) < n \<Longrightarrow>
           parse_value n (json_text a v @ t) = Some (json_norm v, t)"
    and "2 * length (join_with '','' (map (json_text a) vs)) + 2 < n"
  shows "parse_value n (CHR ''['' # join_with '','' (map (json_text a) vs) @ CHR '']'' # t)
     = Some (PList (map json_norm vs), t)"
proof -
  from assms(3) obtain m where n: "n = Suc m" by (cases n) auto
  show ?thesis
  proof (cases vs)
    case Nil
    then show ?thesis by (simp add: n)
  next
    case (Cons w ws)
    define body where "body = join_with '','' (map (json_text a) vs) @ CHR '']'' # t"
    from assms(1) Cons have w: "json_ok w" by simp
    obtain r where r: "body = json_text a w @ r"
      by (cases ws) (auto simp: body_def Cons)
    have sk: "skip_ws body = body" using skip_ws_json_text [OF w] by (simp add: r)
    obtain c q where "body = c # q" "c \<noteq> CHR '']''"
      using json_text_start [OF w, of a] by (auto simp: r)
    moreover have "parse_items m body = Some (map json_norm vs, t)"
      unfolding body_def using assms Cons by (intro parse_items_join) (auto simp: n list_all_iff)
    ultimately show ?thesis using sk by (simp add: n flip: body_def)
  qed
qed

lemma parse_value_json_text:
  "json_ok v \<Longrightarrow> number_stop t \<Longrightarrow> 2 * length (json_text a v) < n \<Longrightarrow>
     parse_value n (json_text a v @ t) = Some (json_norm v, t)"
proof (induction v arbitrary: n t rule: json_norm.induct
    [case_names List Tuple Dict None Bool Int Float Str Set Frozenset])
  case (List xs)
  then show ?case using parse_value_array [of xs a n t] by (simp add: list_all_iff)
next
  case (Tuple xs)
  then show ?case using parse_value_array [of xs a n t] by (simp add: list_all_iff)
next
  case (Dict d)
  define ps where "ps = sort_key fst d"
  have set_ps: "set ps = set d" by (simp add: ps_def)
  have dist: "distinct (map fst ps)"
    using Dict.prems(1) by (simp add: ps_def distinct_map)
  from Dict.prems(3) obtain m where n: "n = Suc m" by (cases n) auto
  show ?case
  proof (cases ps)
    case Nil
    then show ?thesis
      by (simp add: n json_text_dict json_norm_dict flip: ps_def del: json_text.simps json_norm.simps)
  next
    case (Cons q qs)
    have "parse_pairs m (join_with '','' (map (json_member a) ps) @ CHR ''}'' # t)
        = Some (map (\<lambda>p. (fst p, json_norm (snd p))) ps, t)"
    proof (rule parse_pairs_join)
      show "ps \<noteq> []" using Cons by simp
      show "json_ok (snd p)" if "p \<in> set ps" for p
        using Dict.prems(1) that set_ps by (auto simp: list_all_iff)
      show "parse_value k (json_text a (snd p) @ u) = Some (json_norm (snd p), u)"
        if "p \<in> set ps" "number_stop u" "2 * length (json_text a (snd p)) < k" for p k u
        using Dict.IH [of p] Dict.prems(1) that set_ps by (auto simp: list_all_iff)
      show "2 * length (join_with '','' (map (json_member a) ps)) + 1 < m"
        using Dict.prems(3) n by (simp add: json_text_dict flip: ps_def del: json_text.simps)
    qed
    moreover obtain r where "join_with '','' (map (json_member a) ps) @ CHR ''}'' # t = CHR 0x22 # r"
      by (cases qs) (auto simp: Cons json_string_def)
    moreover have "distinct (map fst (map (\<lambda>p. (fst p, json_norm (snd p))) ps))"
      using dist by (simp add: comp_def)
    ultimately show ?thesis
      by (simp add: n json_text_dict json_norm_dict dict_of_pairs_distinct flip: ps_def
          del: json_text.simps json_norm.simps)
  qed
next
  case None
  then obtain m where "n = Suc m" by (cases n) auto
  then show ?case by (simp add: starts_with_def)
next
  case (Bool b)
  then obtain m where "n = Suc m" by (cases n) auto
  then show ?case by (simp add: starts_with_def)
next
  case (Int i)
  then obtain m where "n = Suc m" by (cases n) auto
  with Int show ?case by (simp add: parse_value_int_str del: parse_value.simps)
next
  case (Str s)
  then obtain m where "n = Suc m" by (cases n) auto
  then show ?case by (simp add: json_string_def parse_str_json_string)
qed simp_all

lemma loads_json_text:
  assumes "json_ok v"
  shows "loads (json_text a v) = Some (json_norm v)"
proof -
  have "skip_ws (json_text a v) = json_text a v"
    using skip_ws_json_text [OF assms, of a "[]"] by simp
  moreover have "parse_value (2 * length (json_text a v) + 1) (json_text a v) = Some (json_norm v, [])"
    using parse_value_json_text [OF assms, of "[]" a] by (simp del: parse_value.simps)
  ultimately show ?thesis by (simp add: loads_def del: parse_value.simps)
qed

text \<open>A line end after the text does not change what is read.\<close>

lemma loads_json_text_newline:
  assumes "json_ok v"
  shows "loads (json_text a v @ [CHR 0x0A]) = Some (json_norm v)"
proof -
  have "skip_ws (json_text a v @ [CHR 0x0A]) = json_text a v @ [CHR 0x0A]"
    using skip_ws_json_text [OF assms] by simp
  moreover have "parse_value (2 * length (json_text a v @ [CHR 0x0A]) + 1) (json_text a v @ [CHR 0x0A])
      = Some (json_norm v, [CHR 0x0A])"
    using assms by (intro parse_value_json_text) (simp_all del: parse_value.simps)
  ultimately show ?thesis
    by (simp add: loads_def skip_ws_def [of "[_]"] json_ws_def del: parse_value.simps)
qed

text \<open>Reading a key of a document that went through the text.\<close>

lemma map_of_sort_key: "distinct (map fst d) \<Longrightarrow> map_of (sort_key fst d) k = map_of d k"
  by (rule map_of_inject_set [THEN iffD2, THEN fun_cong]) (simp_all add: distinct_map)

lemma dir_get_norm:
  assumes "distinct (map fst d)" and "json_norm (PDict d) = PDict d'"
  shows "dir_get d' k = map_option json_norm (dir_get d k)"
proof -
  have d': "d' = map (\<lambda>p. (fst p, json_norm (snd p))) (sort_key fst d)"
    using assms(2) by (simp add: sort_key_map)
  have "map_of (map (\<lambda>p. (fst p, json_norm (snd p))) ps) k = map_option json_norm (map_of ps k)" for ps
    by (induction ps) auto
  then show ?thesis using map_of_sort_key [OF assms(1)] by (simp add: dir_get_def d')
qed

text \<open>With \<open>ensure_ascii\<close> the text is ASCII, so its UTF-8 encoding is itself.\<close>

lemma hex_digit_ascii: "d < 16 \<Longrightarrow> (of_char (hex_digit d) :: nat) < 128"
  by (simp add: hex_digit_def)

lemma escape_char_ascii: "c' \<in> set (escape_char True c) \<Longrightarrow> (of_char c' :: nat) < 128"
  by (auto simp: escape_char_def hex4_def hex_digit_ascii split: if_splits)

lemma int_str_ascii: "c \<in> set (int_str i) \<Longrightarrow> (of_char c :: nat) < 128"
  by (auto simp: int_str_def ascii_digit_def dest!: nat_str_digits split: if_splits)

lemma set_join_with: "c \<in> set (join_with sep ws) \<Longrightarrow> c \<in> set sep \<or> (\<exists>w \<in> set ws. c \<in> set w)"
  by (induction sep ws rule: join_with.induct) auto

lemma json_string_ascii: "c \<in> set (json_string True s) \<Longrightarrow> (of_char c :: nat) < 128"
  by (auto simp: json_string_def dest: escape_char_ascii)

lemma json_text_ascii: "json_ok v \<Longrightarrow> c \<in> set (json_text True v) \<Longrightarrow> (of_char c :: nat) < 128"
proof (induction v rule: json_norm.induct)
  case (3 d)
  show ?case
    using "3.prems" "3.IH"
    by (auto simp: sort_key_map list_all_iff dest!: set_join_with json_string_ascii)
qed (auto simp: list_all_iff json_string_ascii int_str_ascii split: if_splits dest!: set_join_with)

text \<open>The text is one line, whatever the strings hold: control characters are escaped.\<close>

lemma hex_digit_printable: "d < 16 \<Longrightarrow> hex_digit d \<noteq> CHR 0x0A"
proof
  assume "d < 16" "hex_digit d = CHR 0x0A"
  then have "(of_char (hex_digit d) :: nat) = 10" by simp
  with \<open>d < 16\<close> show False by (simp add: hex_digit_def split: if_splits)
qed

lemma hex4_no_newline: "CHR 0x0A \<notin> set (hex4 n)"
  unfolding hex4_def using hex_digit_printable by (auto dest!: sym [of "CHR 0x0A"])

lemma escape_char_no_newline: "CHR 0x0A \<notin> set (escape_char a c)"
  using hex4_no_newline by (auto simp: escape_char_def)

lemma json_string_no_newline: "CHR 0x0A \<notin> set (json_string a s)"
  using escape_char_no_newline by (auto simp: json_string_def)

lemma int_str_no_newline: "CHR 0x0A \<notin> set (int_str i)"
  by (auto simp: int_str_def ascii_digit_def dest!: nat_str_digits split: if_splits)

lemma json_text_no_newline: "json_ok v \<Longrightarrow> CHR 0x0A \<notin> set (json_text a v)"
proof (induction v rule: json_norm.induct)
  case (3 d)
  show ?case
    using "3.prems" "3.IH" json_string_no_newline
    by (auto simp: sort_key_map list_all_iff dest!: set_join_with)
qed (auto simp: list_all_iff json_string_no_newline int_str_no_newline split: if_splits dest!: set_join_with)

lemma loads_of_bytes:
  assumes "json_ok v"
  shows "utf8_decode (utf8_encode (json_text True v)) = Some (json_text True v)"
    and "utf8_encode (json_text True v) = json_text True v"
  using json_text_ascii [OF assms] by (simp_all add: utf8_encode_ascii utf8_decode_ascii)

text \<open>The size of a text.\<close>

lemma escape_char_length: "length (escape_char a c) \<le> 6"
  by (simp add: escape_char_def hex4_def)

lemma json_string_length: "length (json_string a s) \<le> 6 * length s + 2"
  using escape_char_length by (induction s) (auto simp: json_string_def intro: add_le_mono)

lemma join_with_length: "length (join_with [c] ws) \<le> sum_list (map length ws) + length ws"
  by (induction "[c]" ws rule: join_with.induct) auto

lemma sum_list_sort_key: "sum_list (map f (sort_key g xs)) = sum_list (map f xs)" for f :: "'a \<Rightarrow> nat"
proof (induction xs)
  case (Cons x xs)
  have "sum_list (map f (insort_key g x ys)) = f x + sum_list (map f ys)" for ys
    by (induction ys) simp_all
  with Cons show ?case by simp
qed simp

lemma json_dict_length:
  "length (json_text a (PDict d)) \<le> sum_list (map (\<lambda>p. 6 * length (fst p) + length (json_text a (snd p)) + 4) d) + 2"
proof -
  let ?ps = "map (\<lambda>p. (fst p, json_text a (snd p))) d" and ?e = "\<lambda>(k, t). json_string a k @ '':'' @ t"
  have one: "sum_list (map (length \<circ> ?e) ps) + length ps \<le> sum_list (map (\<lambda>q. 6 * length (fst q) + length (snd q) + 4) ps)" for ps
  proof (induction ps)
    case (Cons q ps)
    then show ?case using json_string_length [of a "fst q"] by (auto split: prod.split)
  qed simp
  have "length (join_with '','' (map ?e (sort_key fst ?ps))) \<le> sum_list (map (length \<circ> ?e) (sort_key fst ?ps)) + length ?ps"
    using join_with_length [of "CHR '',''" "map ?e (sort_key fst ?ps)"] by simp
  also have "\<dots> = sum_list (map (length \<circ> ?e) ?ps) + length ?ps" by (simp only: sum_list_sort_key)
  also have "\<dots> \<le> sum_list (map (\<lambda>p. 6 * length (fst p) + length (json_text a (snd p)) + 4) d)"
    using one [of ?ps] by (simp add: comp_def)
  finally show ?thesis by (simp del: map_map)
qed

lemma utf8_encode_length: "length (utf8_encode s) \<le> 2 * length s"
  by (induction s) (auto simp: utf8_encode_def Let_def)

end
