(* ===== verification/Json_Pretty.thy ===== *)
theory Json_Pretty
  imports Json_Round_Trip
begin

text \<open>
  The indented form of a JSON text, \<open>json.dumps(v, indent=2)\<close>: the members of a dict stay in
  their order, every member of a list or a dict has a line of its own. \<open>loads_json_pretty\<close>
  is the round trip with the parser: a value comes back with its dicts in the same order.
\<close>

definition new_line :: "nat \<Rightarrow> string" where
  "new_line k = CHR 0x0A # replicate k (CHR '' '')"

fun json_pretty :: "nat \<Rightarrow> pyval \<Rightarrow> string" where
  "json_pretty k (PList xs) =
     (if xs = [] then ''[]''
      else CHR ''['' # new_line (k + 2) @ join_with ('','' @ new_line (k + 2)) (map (json_pretty (k + 2)) xs)
             @ new_line k @ '']'')"
| "json_pretty k (PTuple xs) =
     (if xs = [] then ''[]''
      else CHR ''['' # new_line (k + 2) @ join_with ('','' @ new_line (k + 2)) (map (json_pretty (k + 2)) xs)
             @ new_line k @ '']'')"
| "json_pretty k (PDict d) =
     (if d = [] then ''{}''
      else CHR ''{'' # new_line (k + 2)
             @ join_with ('','' @ new_line (k + 2))
                 (map (\<lambda>p. json_string True (fst p) @ '': '' @ json_pretty (k + 2) (snd p)) d)
             @ new_line k @ ''}'')"
| "json_pretty k v = json_text True v"

definition dumps_pretty :: "pyval \<Rightarrow> string option" where
  "dumps_pretty v = (if serialisable v then Some (json_pretty 0 v) else None)"

text \<open>\<open>json.dumps(v)\<close>: the members in their order, a space after each separator.\<close>

fun json_spaced :: "pyval \<Rightarrow> string" where
  "json_spaced (PList xs) = CHR ''['' # join_with '', '' (map json_spaced xs) @ '']''"
| "json_spaced (PTuple xs) = CHR ''['' # join_with '', '' (map json_spaced xs) @ '']''"
| "json_spaced (PDict d) =
     CHR ''{'' # join_with '', '' (map (\<lambda>p. json_string True (fst p) @ '': '' @ json_spaced (snd p)) d) @ ''}''"
| "json_spaced v = json_text True v"

text \<open>What the text keeps of a value: a tuple becomes a list.\<close>

fun json_tree :: "pyval \<Rightarrow> pyval" where
  "json_tree (PList xs) = PList (map json_tree xs)"
| "json_tree (PTuple xs) = PList (map json_tree xs)"
| "json_tree (PDict d) = PDict (map (\<lambda>p. (fst p, json_tree (snd p))) d)"
| "json_tree v = v"

section \<open>The round trip\<close>

lemma skip_ws_new_line [simp]: "skip_ws (new_line k @ s) = skip_ws s"
proof -
  have "dropWhile json_ws (replicate k (CHR '' '') @ s) = dropWhile json_ws s"
    by (induction k) (simp_all add: json_ws_def)
  then show ?thesis by (simp add: skip_ws_def new_line_def json_ws_def)
qed

lemma number_stop_new_line [simp]: "number_stop (new_line k @ s)"
  by (simp add: new_line_def)

definition reads_as :: "string \<Rightarrow> pyval \<Rightarrow> bool" where
  "reads_as s v \<longleftrightarrow>
     (\<forall>n t. number_stop t \<longrightarrow> 2 * length s < n \<longrightarrow> parse_value n (s @ t) = Some (v, t)) \<and>
     (\<exists>c r. s = c # r \<and> \<not> json_ws c \<and> c \<noteq> CHR '']'' \<and> c \<noteq> CHR ''}'')"

lemma reads_asD: "reads_as s v \<Longrightarrow> number_stop t \<Longrightarrow> 2 * length s < n \<Longrightarrow> parse_value n (s @ t) = Some (v, t)"
  by (simp add: reads_as_def)

lemma reads_as_skip [simp]: "reads_as s v \<Longrightarrow> skip_ws (s @ t) = s @ t"
  by (auto simp: reads_as_def skip_ws_def)

lemma join_with_hd: "xs \<noteq> [] \<Longrightarrow> \<exists>r. join_with sep (map f xs) = f (hd xs) @ r"
proof (cases xs)
  case (Cons x ys)
  then show ?thesis by (cases ys) simp_all
qed simp

lemma reads_as_join_skip:
  assumes "xs \<noteq> []" "reads_as (f (hd xs)) v"
  shows "skip_ws (join_with sep (map f xs) @ t) = join_with sep (map f xs) @ t"
  using join_with_hd [OF assms(1), of sep f] reads_as_skip [OF assms(2)] by auto

text \<open>The members of a list, and of a dict, each after a separator and blank space.\<close>

lemma parse_items_lines:
  assumes "ps \<noteq> []" and "\<And>p. p \<in> set ps \<Longrightarrow> reads_as (fst p) (snd p)"
    and "2 * length (join_with ('','' @ new_line k) (map fst ps)) + 1 < n"
  shows "parse_items n (join_with ('','' @ new_line k) (map fst ps) @ new_line j @ CHR '']'' # t) = Some (map snd ps, t)"
  using assms
proof (induction ps arbitrary: n)
  case Nil
  then show ?case by simp
next
  case (Cons p ps)
  from Cons.prems(3) obtain m where n: "n = Suc m" by (cases n) auto
  have p: "reads_as (fst p) (snd p)" using Cons.prems(2) by simp
  show ?case
  proof (cases "ps = []")
    case True
    then show ?thesis using reads_asD [OF p, of "new_line j @ CHR '']'' # t" m] Cons.prems(3) n by simp
  next
    case False
    define rest where "rest = join_with ('','' @ new_line k) (map fst ps)"
    have eq: "join_with ('','' @ new_line k) (map fst (p # ps)) = fst p @ CHR '','' # new_line k @ rest"
      using False by (simp add: join_Cons rest_def)
    have len: "2 * length (fst p) < m" "2 * length rest + 1 < m"
      using Cons.prems(3) n by (simp_all only: eq) simp_all
    have "skip_ws (rest @ u) = rest @ u" for u
      unfolding rest_def using False Cons.prems(2) by (intro reads_as_join_skip [of _ _ "snd (hd ps)"]) auto
    moreover have "parse_value m (fst p @ CHR '','' # u) = Some (snd p, CHR '','' # u)" for u
      using reads_asD [OF p _ len(1)] by simp
    moreover have "parse_items m (rest @ new_line j @ CHR '']'' # t) = Some (map snd ps, t)"
      unfolding rest_def using Cons.IH [of m] Cons.prems(2) False len(2) by (simp add: rest_def)
    ultimately show ?thesis by (simp only: eq n) simp
  qed
qed

definition member_line :: "string \<times> string \<Rightarrow> string" where
  "member_line p = json_string True (fst p) @ '': '' @ snd p"

lemma parse_pairs_lines:
  assumes "ps \<noteq> []" and "\<And>p. p \<in> set ps \<Longrightarrow> reads_as (f p) (g p)"
    and "2 * length (join_with ('','' @ new_line k) (map (\<lambda>p. member_line (fst p, f p)) ps)) + 1 < n"
  shows "parse_pairs n (join_with ('','' @ new_line k) (map (\<lambda>p. member_line (fst p, f p)) ps) @ new_line j @ CHR ''}'' # t)
     = Some (map (\<lambda>p. (fst p, g p)) ps, t)"
  using assms
proof (induction ps arbitrary: n)
  case Nil
  then show ?case by simp
next
  case (Cons p ps)
  let ?m = "\<lambda>p. member_line (fst p, f p)"
  from Cons.prems(3) obtain m where n: "n = Suc m" by (cases n) auto
  have p: "reads_as (f p) (g p)" using Cons.prems(2) by simp
  have key: "parse_str (concat (map (escape_char True) (fst p)) @ CHR 0x22 # u) = Some (fst p, u)" for u
    by (rule parse_str_json_string)
  have blank: "skip_ws (CHR '' '' # u) = skip_ws u" for u by (simp add: skip_ws_def json_ws_def)
  show ?case
  proof (cases "ps = []")
    case True
    then show ?thesis
      using reads_asD [OF p, of "new_line j @ CHR ''}'' # t" m] Cons.prems(3) n key p
      by (simp add: member_line_def json_string_def blank)
  next
    case False
    define rest where "rest = join_with ('','' @ new_line k) (map ?m ps)"
    have eq: "join_with ('','' @ new_line k) (map ?m (p # ps)) = ?m p @ CHR '','' # new_line k @ rest"
      using False by (simp add: join_Cons rest_def)
    have len: "2 * length (f p) < m" "2 * length rest + 1 < m"
      using Cons.prems(3) n by (simp_all only: eq) (simp_all add: member_line_def)
    have "skip_ws (rest @ u) = rest @ u" for u
    proof -
      obtain r where "rest = ?m (hd ps) @ r"
        using join_with_hd [OF False, of "'','' @ new_line k" ?m] by (auto simp: rest_def)
      then show ?thesis by (simp add: member_line_def json_string_def skip_ws_def json_ws_def)
    qed
    moreover have "parse_value m (f p @ CHR '','' # u) = Some (g p, CHR '','' # u)" for u
      using reads_asD [OF p _ len(1)] by simp
    moreover have "parse_pairs m (rest @ new_line j @ CHR ''}'' # t) = Some (map (\<lambda>p. (fst p, g p)) ps, t)"
      unfolding rest_def using Cons.IH [of m] Cons.prems(2) False len(2) by (simp add: rest_def)
    ultimately show ?thesis using key p by (simp only: eq n) (simp add: member_line_def json_string_def blank)
  qed
qed

lemma reads_as_list:
  assumes "xs \<noteq> []" and "\<And>x. x \<in> set xs \<Longrightarrow> reads_as (f x) (g x)"
  shows "reads_as (CHR ''['' # new_line k @ join_with ('','' @ new_line k) (map f xs) @ new_line j @ '']'')
     (PList (map g xs))"
proof -
  let ?body = "join_with ('','' @ new_line k) (map f xs)" and ?ps = "map (\<lambda>x. (f x, g x)) xs"
  have ps: "map fst ?ps = map f xs" "map snd ?ps = map g xs" by simp_all
  have sk: "skip_ws (?body @ u) = ?body @ u" for u
    using assms by (intro reads_as_join_skip [of _ _ "g (hd xs)"]) auto
  have "parse_value n (CHR ''['' # new_line k @ ?body @ new_line j @ CHR '']'' # t) = Some (PList (map g xs), t)"
    if "2 * length (CHR ''['' # new_line k @ ?body @ new_line j @ '']'') < n" for n t
  proof -
    from that obtain m where n: "n = Suc m" "2 * length ?body + 1 < m" by (cases n) auto
    have "parse_items m (?body @ new_line j @ CHR '']'' # t) = Some (map g xs, t)"
      using parse_items_lines [of ?ps k m j t] assms n(2) by (fastforce simp: ps simp del: map_map)
    moreover obtain c r where "f (hd xs) = c # r" "c \<noteq> CHR '']''"
      using assms unfolding reads_as_def by (metis list.set_sel(1))
    then obtain r' where "?body = c # r'" using join_with_hd [OF assms(1), of "'','' @ new_line k" f] by auto
    ultimately show ?thesis using sk \<open>c \<noteq> _\<close> by (simp add: n(1))
  qed
  then show ?thesis by (auto simp: reads_as_def json_ws_def)
qed

lemma reads_as_dict:
  assumes "d \<noteq> []" and "distinct (map fst d)" and "\<And>p. p \<in> set d \<Longrightarrow> reads_as (f p) (g p)"
  shows "reads_as (CHR ''{'' # new_line k @ join_with ('','' @ new_line k) (map (\<lambda>p. member_line (fst p, f p)) d)
       @ new_line j @ ''}'') (PDict (map (\<lambda>p. (fst p, g p)) d))"
proof -
  let ?body = "join_with ('','' @ new_line k) (map (\<lambda>p. member_line (fst p, f p)) d)"
  obtain r where r: "?body = CHR 0x22 # r"
    using join_with_hd [OF assms(1), of "'','' @ new_line k" "\<lambda>p. member_line (fst p, f p)"]
    by (auto simp: member_line_def json_string_def)
  then have sk: "skip_ws (?body @ u) = ?body @ u" for u by (simp add: skip_ws_def json_ws_def)
  have dict: "dict_of_pairs (map (\<lambda>p. (fst p, g p)) d) = map (\<lambda>p. (fst p, g p)) d"
    using assms(2) by (intro dict_of_pairs_distinct) (simp add: comp_def)
  have "parse_value n (CHR ''{'' # new_line k @ ?body @ new_line j @ CHR ''}'' # t) = Some (PDict (map (\<lambda>p. (fst p, g p)) d), t)"
    if "2 * length (CHR ''{'' # new_line k @ ?body @ new_line j @ ''}'') < n" for n t
  proof -
    from that obtain m where n: "n = Suc m" "2 * length ?body + 1 < m" by (cases n) auto
    have "parse_pairs m (?body @ new_line j @ CHR ''}'' # t) = Some (map (\<lambda>p. (fst p, g p)) d, t)"
      using assms n(2) by (intro parse_pairs_lines) auto
    then show ?thesis using sk dict r by (simp add: n(1))
  qed
  then show ?thesis by (auto simp: reads_as_def json_ws_def)
qed

lemma reads_as_text:
  assumes "json_ok v" "json_pretty k v = json_text True v" "json_norm v = json_tree v"
  shows "reads_as (json_pretty k v) (json_tree v)"
  using parse_value_json_text [OF assms(1)] json_text_start [OF assms(1), of True] assms(2,3)
  by (simp add: reads_as_def)

lemma reads_as_pretty: "json_ok v \<Longrightarrow> reads_as (json_pretty k v) (json_tree v)"
proof (induction v arbitrary: k rule: json_tree.induct
    [case_names List Tuple Dict None Bool Int Float Str Set Frozenset])
  case (List xs)
  then show ?case
    using reads_as_text [of "PList []" k] reads_as_list [of xs "json_pretty (k + 2)" json_tree "k + 2" k]
    by (cases "xs = []") (auto simp: list_all_iff)
next
  case (Tuple xs)
  then show ?case
    using reads_as_text [of "PTuple []" k] reads_as_list [of xs "json_pretty (k + 2)" json_tree "k + 2" k]
    by (cases "xs = []") (auto simp: list_all_iff)
next
  case (Dict d)
  then show ?case
    using reads_as_text [of "PDict []" k]
      reads_as_dict [of d "\<lambda>p. json_pretty (k + 2) (snd p)" "\<lambda>p. json_tree (snd p)" "k + 2" k]
    by (cases "d = []") (auto simp: list_all_iff member_line_def)
qed (use reads_as_text [of PNone] reads_as_text [of "PBool _"] reads_as_text [of "PInt _"] reads_as_text [of "PStr _"]
    in \<open>simp_all del: json_text.simps\<close>)

lemma loads_json_pretty:
  assumes "json_ok v"
  shows "loads (json_pretty 0 v @ [CHR 0x0A]) = Some (json_tree v)"
proof -
  note r = reads_as_pretty [OF assms, of 0]
  have "parse_value (2 * length (json_pretty 0 v @ [CHR 0x0A]) + 1) (json_pretty 0 v @ [CHR 0x0A]) = Some (json_tree v, [CHR 0x0A])"
    using r by (intro reads_asD) simp_all
  then show ?thesis
    using reads_as_skip [OF r] by (simp add: loads_def skip_ws_def [of "[_]"] json_ws_def del: parse_value.simps)
qed

lemma json_pretty_ascii: "json_ok v \<Longrightarrow> c \<in> set (json_pretty k v) \<Longrightarrow> (of_char c :: nat) < 128"
proof (induction v arbitrary: k rule: json_tree.induct)
  case (3 d)
  then show ?case
    using json_string_ascii
    by (auto simp: list_all_iff new_line_def split: if_splits dest!: set_join_with)
next
  case (1 xs)
  then show ?case by (auto simp: list_all_iff new_line_def split: if_splits dest!: set_join_with)
next
  case (2 xs)
  then show ?case by (auto simp: list_all_iff new_line_def split: if_splits dest!: set_join_with)
qed (auto dest: json_text_ascii [rotated] simp del: json_text.simps)

lemma json_pretty_bytes: "json_ok v \<Longrightarrow> utf8_encode (json_pretty 0 v @ [CHR 0x0A]) = json_pretty 0 v @ [CHR 0x0A]"
  by (rule utf8_encode_ascii) (auto dest: json_pretty_ascii)

text \<open>A value read from a JSON text holds lists only, so it is its own tree.\<close>

fun json_plain :: "pyval \<Rightarrow> bool" where
  "json_plain (PList xs) = list_all json_plain xs"
| "json_plain (PDict d) = (distinct (map fst d) \<and> list_all (\<lambda>p. json_plain (snd p)) d)"
| "json_plain (PTuple xs) = False"
| "json_plain (PSet xs) = False"
| "json_plain (PFrozenset xs) = False"
| "json_plain (PFloat t) = False"
| "json_plain _ = True"

lemma json_plain_ok: "json_plain v \<Longrightarrow> json_ok v \<and> json_tree v = v"
proof (induction v rule: json_tree.induct)
  case (3 d)
  then have "map (\<lambda>p. (fst p, json_tree (snd p))) d = map (\<lambda>p. p) d"
    by (intro map_cong refl) (auto simp: list_all_iff)
  with 3 show ?case by (auto simp: list_all_iff)
qed (auto simp: list_all_iff intro!: map_idI)

lemma json_plain_loads: "json_plain v \<Longrightarrow> loads (json_pretty 0 v @ [CHR 0x0A]) = Some v"
  using loads_json_pretty json_plain_ok by simp

end
