(* ===== verification/Remote_Connection.thy ===== *)
theory Remote_Connection
  imports Json_Pretty
begin

text \<open>
  remote_connection.py: the kernel command with the connection file replaced, the ports of a
  Jupyter connection document, and the rewriting of the connection file to the leased tunnel
  ports with its restoration. The kernel manager is a dict of attributes, the directory of
  the connection file a directory of entries; \<open>conn_io\<close> holds what the operating system and
  the \<open>ipaddress\<close> library answer, a fault of the write included.
\<close>

section \<open>The kernel command\<close>

definition path_name :: "string \<Rightarrow> string" where
  "path_name p = after_last (CHR ''/'') (rstrip_char (CHR ''/'') p)"

definition remote_kernel_command ::
    "(string \<Rightarrow> string) \<Rightarrow> string list \<Rightarrow> string \<Rightarrow> string \<Rightarrow> exn + string list" where
  "remote_kernel_command resolve command host_file remote_file =
     (let candidates = {host_file, resolve host_file, path_name host_file}
      in if \<exists>a \<in> set command. a \<in> candidates
         then Inr (map (\<lambda>a. if a \<in> candidates then remote_file else a) command)
         else Inl (Exn RuntimeError ''Kernel command does not contain the Jupyter connection file''))"

section \<open>The ports of a connection document\<close>

definition connection_port_fields :: "string list" where
  "connection_port_fields = [''shell_port'', ''iopub_port'', ''stdin_port'', ''control_port'', ''hb_port'']"

fun collect_ports :: "record_doc \<Rightarrow> string list \<Rightarrow> exn + int list" where
  "collect_ports doc [] = Inr []"
| "collect_ports doc (f # fs) =
     (case pget doc f of
        PInt v \<Rightarrow>
          (if 1 \<le> v \<and> v \<le> 65535 then map_sum id ((#) v) (collect_ports doc fs)
           else Inl (Exn ValueError (''Invalid Jupyter connection port: '' @ f)))
      | _ \<Rightarrow> Inl (Exn ValueError (''Invalid Jupyter connection port: '' @ f)))"

definition connection_ports :: "pyval \<Rightarrow> exn + int list" where
  "connection_ports document =
     (case document of
        PDict doc \<Rightarrow>
          (case collect_ports doc connection_port_fields of
             Inl e \<Rightarrow> Inl e
           | Inr ports \<Rightarrow>
               if distinct ports then Inr ports
               else Inl (Exn ValueError ''Jupyter connection ports must be unique''))
      | _ \<Rightarrow> Inl (Exn ValueError ''Connection document must be a dictionary''))"

text \<open>\<open>tuple(ports)\<close>: what is not iterable raises TypeError, and text is refused before.\<close>

definition port_elements :: "pyval \<Rightarrow> pyval list option" where
  "port_elements v =
     (case v of PList xs \<Rightarrow> Some xs | PTuple xs \<Rightarrow> Some xs | PSet xs \<Rightarrow> Some xs | PFrozenset xs \<Rightarrow> Some xs
      | PDict d \<Rightarrow> Some (map (\<lambda>p. PStr (fst p)) d) | _ \<Rightarrow> None)"

definition validate_port_sequence :: "pyval \<Rightarrow> exn + int list" where
  "validate_port_sequence ports =
     (case port_elements ports of
        None \<Rightarrow> Inl (Exn ValueError ''Expected 5 Jupyter connection ports'')
      | Some xs \<Rightarrow>
          if length xs \<noteq> length connection_port_fields
          then Inl (Exn ValueError ''Expected 5 Jupyter connection ports'')
          else connection_ports (PDict (zip connection_port_fields xs)))"

section \<open>The connection file\<close>

datatype conn_entry = ConnLink | ConnFile string | ConnOther

record conn_state =
  cs_attrs :: record_doc
  cs_dir :: "conn_entry dir"

text \<open>A write stops half way, or the change of mode or the rename fails after it.\<close>

datatype write_fault = WriteStops string | ChmodFails | ReplaceFails

record conn_io =
  ci_resolve :: "string \<Rightarrow> string"
  ci_is_ip :: "string \<Rightarrow> bool"
  ci_str :: "pyval \<Rightarrow> string"
  ci_unreadable :: bool
  ci_fault :: "write_fault option"

definition set_attr :: "string \<Rightarrow> pyval \<Rightarrow> ('a conn_state_scheme, unit) prog" where
  "set_attr name v = modify_p (\<lambda>s. s\<lparr>cs_attrs := dir_put name v (cs_attrs s)\<rparr>)"

definition set_port_attrs :: "int list \<Rightarrow> ('a conn_state_scheme, unit) prog" where
  "set_port_attrs ports = foreach_p (zip connection_port_fields ports) (\<lambda>(f, v). set_attr f (PInt v))"

definition put_ports :: "int list \<Rightarrow> record_doc \<Rightarrow> record_doc" where
  "put_ports ports doc = fold (\<lambda>(f, v). dir_put f (PInt v)) (zip connection_port_fields ports) doc"

definition put_entry :: "string \<Rightarrow> conn_entry \<Rightarrow> ('a conn_state_scheme, unit) prog" where
  "put_entry name e = modify_p (\<lambda>s. s\<lparr>cs_dir := dir_put name e (cs_dir s)\<rparr>)"

definition del_entry :: "string \<Rightarrow> ('a conn_state_scheme, unit) prog" where
  "del_entry name = modify_p (\<lambda>s. s\<lparr>cs_dir := dir_del name (cs_dir s)\<rparr>)"

definition entry_of :: "string \<Rightarrow> ('a conn_state_scheme, conn_entry option) prog" where
  "entry_of path = gets_p (\<lambda>s. dir_get (cs_dir s) (path_name path))"

text \<open>\<open>json.loads(path.read_text(encoding="utf-8"))\<close>\<close>

definition load_document :: "conn_io \<Rightarrow> string \<Rightarrow> ('a conn_state_scheme, pyval) prog" where
  "load_document io path =
     bind_p (entry_of path) (\<lambda>e.
       case e of
         Some (ConnFile b) \<Rightarrow>
           (if ci_unreadable io then raise_p OSError ''Input/output error''
            else case utf8_decode b of
                   None \<Rightarrow> raise_p UnicodeDecodeError ''invalid start byte''
                 | Some text \<Rightarrow>
                     (case loads text of
                        None \<Rightarrow> raise_p JSONDecodeError ''Expecting value''
                      | Some v \<Rightarrow> return_p v))
       | _ \<Rightarrow> raise_p OSError ''No such file or directory'')"

definition document_bytes :: "record_doc \<Rightarrow> string" where
  "document_bytes doc = utf8_encode (json_pretty 0 (PDict doc) @ [CHR 0x0A])"

definition temporary :: "string \<Rightarrow> string \<Rightarrow> string" where
  "temporary suffix path = CHR ''.'' # path_name path @ suffix"

text \<open>The temporary file beside the connection file, written, made private and renamed over it.\<close>

definition replace_through :: "conn_io \<Rightarrow> string \<Rightarrow> string \<Rightarrow> string \<Rightarrow> ('a conn_state_scheme, unit) prog" where
  "replace_through io suffix path bytes =
     (let name = path_name path; tmp = temporary suffix path
      in bind_p (gets_p (\<lambda>s. dir_get (cs_dir s) tmp)) (\<lambda>e.
         then_p (when_p (e = Some ConnLink) (del_entry tmp))
           (if e = Some ConnOther then raise_p OSError ''Is a directory''
            else case ci_fault io of
              Some (WriteStops part) \<Rightarrow> then_p (put_entry tmp (ConnFile part)) (raise_p OSError ''No space left on device'')
            | Some _ \<Rightarrow> then_p (put_entry tmp (ConnFile bytes)) (raise_p OSError ''Operation not permitted'')
            | None \<Rightarrow> then_p (del_entry tmp) (put_entry name (ConnFile bytes)))))"

definition py_text :: "conn_io \<Rightarrow> pyval \<Rightarrow> string" where
  "py_text io v = (case v of PStr s \<Rightarrow> s | _ \<Rightarrow> ci_str io v)"

definition parent_file :: "conn_io \<Rightarrow> ('a conn_state_scheme, string option) prog" where
  "parent_file io =
     gets_p (\<lambda>s. let v = pget (cs_attrs s) ''connection_file'' in if truthy v then Some (py_text io v) else None)"

definition read_for_rewrite :: "conn_io \<Rightarrow> string \<Rightarrow> ('a conn_state_scheme, record_doc) prog" where
  "read_for_rewrite io host =
     bind_p (catch_p (load_document io host)
        (\<lambda>e. if is_os_error (exn_kind e) \<or> exn_kind e = JSONDecodeError
             then raise_p ValueError (''Invalid connection file JSON: '' @ exn_msg e) else throw_p e))
       (\<lambda>v. case v of
              PDict doc \<Rightarrow>
                (if py_eq_str (pget_default doc ''transport'' (PStr ''tcp'')) ''tcp'' then return_p doc
                 else raise_p ValueError ''SSH kernel transport requires Jupyter TCP connections'')
            | _ \<Rightarrow> raise_p ValueError ''SSH kernel transport requires Jupyter TCP connections'')"

definition bind_document ::
    "conn_io \<Rightarrow> string \<Rightarrow> string \<Rightarrow> record_doc \<Rightarrow> int list \<Rightarrow> ('a conn_state_scheme, unit) prog" where
  "bind_document io bind_ip host doc ports =
     then_p (set_attr ''ip'' (PStr bind_ip))
     (then_p (set_port_attrs ports)
       (replace_through io ''.remote.tmp'' host (document_bytes (put_ports ports (dir_put ''ip'' (PStr bind_ip) doc)))))"

definition rewrite_connection_file ::
    "conn_io \<Rightarrow> string \<Rightarrow> pyval option \<Rightarrow> ('a conn_state_scheme, string \<times> string \<times> int list \<times> int list) prog" where
  "rewrite_connection_file io bind_ip ports =
     (if \<not> ci_is_ip io bind_ip then raise_p ValueError (''Invalid bind_ip: '' @ bind_ip)
      else bind_p (parent_file io) (\<lambda>cf.
        case cf of
          None \<Rightarrow> raise_p RuntimeError ''Kernel manager connection file is unavailable''
        | Some raw \<Rightarrow>
            bind_p (entry_of raw) (\<lambda>e.
            if e = Some ConnLink then raise_p RuntimeError (''Connection file must not be a symbolic link: '' @ raw)
            else let host = ci_resolve io raw in
              bind_p (entry_of host) (\<lambda>f.
              if (case f of Some (ConnFile _) \<Rightarrow> False | _ \<Rightarrow> True)
              then raise_p RuntimeError (''Connection file is unavailable: '' @ host)
              else bind_p (read_for_rewrite io host) (\<lambda>doc.
                bind_p (lift_p (connection_ports (PDict doc))) (\<lambda>original_ports.
                bind_p (case ports of None \<Rightarrow> return_p original_ports | Some p \<Rightarrow> lift_p (validate_port_sequence p))
                  (\<lambda>tunnel_ports.
                bind_p (gets_p (\<lambda>s. py_text io (pget_default doc ''ip'' (pget_default (cs_attrs s) ''ip'' (PStr []))))) (\<lambda>original_ip.
                  then_p (bind_document io bind_ip host doc tunnel_ports)
                    (return_p (host, original_ip, original_ports, tunnel_ports))))))))))"

definition restored_document :: "string option \<Rightarrow> int list \<Rightarrow> record_doc \<Rightarrow> record_doc" where
  "restored_document original_ip ports doc =
     (let doc1 = (case original_ip of None \<Rightarrow> doc | Some ip \<Rightarrow> dir_put ''ip'' (PStr ip) doc)
      in if ports = [] then doc1 else put_ports ports doc1)"

definition restore_file :: "conn_io \<Rightarrow> string option \<Rightarrow> int list \<Rightarrow> string \<Rightarrow> ('a conn_state_scheme, unit) prog" where
  "restore_file io original_ip ports path =
     catch_p
       (bind_p (load_document io path) (\<lambda>v.
          case v of
            PDict doc \<Rightarrow>
              replace_through io ''.restore.tmp'' path (document_bytes (restored_document original_ip ports doc))
          | _ \<Rightarrow> return_p ()))
       (\<lambda>e. if is_os_error (exn_kind e) \<or> is_value_error (exn_kind e) \<or> exn_kind e = TypeError
            then return_p () else throw_p e)"

definition restore_connection_file ::
    "conn_io \<Rightarrow> string option \<Rightarrow> pyval \<Rightarrow> ('a conn_state_scheme, unit) prog" where
  "restore_connection_file io original_ip original_ports =
     (let ports = (if truthy original_ports
                   then (case validate_port_sequence original_ports of Inl _ \<Rightarrow> [] | Inr ps \<Rightarrow> ps) else [])
      in then_p (case original_ip of None \<Rightarrow> return_p () | Some ip \<Rightarrow> set_attr ''ip'' (PStr ip))
        (then_p (when_p (ports \<noteq> []) (set_port_attrs ports))
          (bind_p (parent_file io) (\<lambda>cf.
            case cf of
              None \<Rightarrow> return_p ()
            | Some raw \<Rightarrow>
                bind_p (entry_of raw) (\<lambda>e.
                if e = Some ConnLink then return_p ()
                else let path = ci_resolve io raw in
                  bind_p (entry_of path) (\<lambda>f.
                  if (case f of Some (ConnFile _) \<Rightarrow> False | _ \<Rightarrow> True) then return_p ()
                  else restore_file io original_ip ports path))))))"


section \<open>Lemmas on documents\<close>

lemma dir_put_keys: "dir_get d k \<noteq> None \<Longrightarrow> map fst (dir_put k v d) = map fst d"
  by (induction d) (auto simp: dir_put_def dir_get_def)

lemma dir_ext:
  "map fst d = map fst d' \<Longrightarrow> distinct (map fst d) \<Longrightarrow> (\<And>k. dir_get d k = dir_get d' k) \<Longrightarrow> d = d'"
proof (induction d arbitrary: d')
  case (Cons p d)
  then obtain q e where d': "d' = q # e" "fst q = fst p" "map fst d = map fst e" by (cases d') auto
  have "dir_get d k = dir_get e k" for k
  proof (cases "k = fst p")
    case True
    with Cons.prems(2) d' have "k \<notin> fst ` set d" "k \<notin> fst ` set e" by (auto simp flip: set_map)
    then show ?thesis by (metis dir_get_def map_of_eq_None_iff)
  next
    case False
    with Cons.prems(3) [of k] d' show ?thesis by (cases p; cases q) (auto simp: dir_get_def split: if_splits)
  qed
  with Cons.IH [of e] Cons.prems d' have "d = e" by simp
  with Cons.prems(3) [of "fst p"] d' show ?case by (cases p; cases q) (auto simp: dir_get_def)
qed simp

lemma port_fields_facts:
  "length connection_port_fields = 5" "distinct connection_port_fields" "''ip'' \<notin> set connection_port_fields"
  "''connection_file'' \<notin> set connection_port_fields"
  by (simp_all add: connection_port_fields_def)

lemma fold_put_get:
  "distinct (map fst fvs) \<Longrightarrow>
     dir_get (fold (\<lambda>(f, v). dir_put f (h v)) fvs d) k = (case map_of fvs k of None \<Rightarrow> dir_get d k | Some v \<Rightarrow> Some (h v))"
proof (induction fvs arbitrary: d)
  case (Cons fv fvs)
  then have "map_of fvs (fst fv) = None" by (simp add: map_of_eq_None_iff)
  with Cons show ?case by (cases fv) (auto simp: dirs.get_put split: option.splits)
qed simp

lemma put_ports_get:
  assumes "length ports = 5"
  shows "dir_get (put_ports ports doc) k =
     (case map_of (zip connection_port_fields ports) k of None \<Rightarrow> dir_get doc k | Some v \<Rightarrow> Some (PInt v))"
  unfolding put_ports_def using assms
  by (intro fold_put_get) (simp add: port_fields_facts)

lemma put_ports_other:
  assumes "k \<notin> set connection_port_fields"
  shows "dir_get (put_ports ports doc) k = dir_get doc k"
proof -
  have "dir_get (fold (\<lambda>(f, v). dir_put f (PInt v)) fvs d) k = dir_get d k" if "k \<notin> fst ` set fvs" for fvs d
    using that by (induction fvs arbitrary: d) (auto simp: dirs.get_put)
  moreover have "k \<notin> fst ` set (zip connection_port_fields ports)" using assms by (auto dest: set_zip_leftD)
  ultimately show ?thesis by (simp add: put_ports_def)
qed

lemma put_ports_keys:
  assumes "\<And>f. f \<in> set connection_port_fields \<Longrightarrow> dir_get doc f \<noteq> None"
  shows "map fst (put_ports ports doc) = map fst doc"
proof -
  have "map fst (fold (\<lambda>(f, v). dir_put f (PInt v)) fvs d) = map fst d"
    if "\<And>f. f \<in> fst ` set fvs \<Longrightarrow> dir_get d f \<noteq> None" for fvs d
    using that
  proof (induction fvs arbitrary: d)
    case (Cons fv fvs)
    then have "map fst (dir_put (fst fv) (PInt (snd fv)) d) = map fst d" by (intro dir_put_keys) auto
    moreover have "map fst (fold (\<lambda>(f, v). dir_put f (PInt v)) fvs (dir_put (fst fv) (PInt (snd fv)) d))
        = map fst (dir_put (fst fv) (PInt (snd fv)) d)"
      using Cons.prems by (intro Cons.IH) (auto simp: dirs.get_put)
    ultimately show ?case by (cases fv) simp
  qed simp
  note this [of "zip connection_port_fields ports" doc]
  moreover have "dir_get doc f \<noteq> None" if "f \<in> fst ` set (zip connection_port_fields ports)" for f
    using that assms by (auto dest: set_zip_leftD)
  ultimately show ?thesis unfolding put_ports_def by simp
qed

lemma collect_ports_ok:
  "collect_ports doc fs = Inr ps \<Longrightarrow>
     length ps = length fs \<and> (\<forall>v \<in> set ps. 1 \<le> v \<and> v \<le> 65535) \<and>
     map (dir_get doc) fs = map (\<lambda>v. Some (PInt v)) ps"
proof (induction fs arbitrary: ps)
  case (Cons f fs)
  then obtain v qs where "pget doc f = PInt v" "1 \<le> v" "v \<le> 65535" "collect_ports doc fs = Inr qs" "ps = v # qs"
    by (cases "collect_ports doc fs") (auto split: pyval.splits if_splits)
  with Cons.IH [of qs] show ?case by (auto simp: pget_def split: option.splits)
qed simp

lemma connection_ports_ok:
  assumes "connection_ports (PDict doc) = Inr ps"
  shows "length ps = 5" "distinct ps" "\<And>v. v \<in> set ps \<Longrightarrow> 1 \<le> v \<and> v \<le> 65535"
    "map (dir_get doc) connection_port_fields = map (\<lambda>v. Some (PInt v)) ps"
  using assms collect_ports_ok [of doc connection_port_fields ps]
  by (auto simp: connection_ports_def port_fields_facts split: sum.splits if_splits)

lemma validate_port_sequence_ok:
  assumes "validate_port_sequence v = Inr ps"
  shows "length ps = 5" "distinct ps" "\<And>v. v \<in> set ps \<Longrightarrow> 1 \<le> v \<and> v \<le> 65535"
  using assms connection_ports_ok
  by (auto simp: validate_port_sequence_def split: option.splits if_splits)

lemma ports_in_document:
  assumes "connection_ports (PDict doc) = Inr ps"
  shows "map_of (zip connection_port_fields ps) k = Some v \<Longrightarrow> dir_get doc k = Some (PInt v)"
    and "f \<in> set connection_port_fields \<Longrightarrow> dir_get doc f \<noteq> None"
proof -
  note ok = connection_ports_ok [OF assms]
  have nth: "dir_get doc (connection_port_fields ! i) = Some (PInt (ps ! i))" if "i < 5" for i
    using arg_cong [OF ok(4), of "\<lambda>l. l ! i"] that ok(1) by (simp add: port_fields_facts)
  then show "dir_get doc f \<noteq> None" if "f \<in> set connection_port_fields"
    using that by (auto simp: in_set_conv_nth port_fields_facts)
  show "dir_get doc k = Some (PInt v)" if "map_of (zip connection_port_fields ps) k = Some v"
    using map_of_SomeD [OF that] nth ok(1) by (auto simp: set_zip port_fields_facts)
qed

text \<open>Putting the read ports and address back over other ports and another address.\<close>

lemma restored_document_id:
  assumes "connection_ports (PDict doc) = Inr ops" "dir_get doc ''ip'' = Some (PStr ip)"
    and "distinct (map fst doc)" "length ps = 5"
  shows "restored_document (Some ip) ops (put_ports ps (dir_put ''ip'' (PStr b) doc)) = doc"
proof -
  note ok = connection_ports_ok [OF assms(1)] and inn = ports_in_document [OF assms(1)]
  let ?d1 = "dir_put ''ip'' (PStr b) doc"
  have k1: "map fst ?d1 = map fst doc" using assms(2) by (simp add: dir_put_keys)
  have f1: "f \<in> set connection_port_fields \<Longrightarrow> dir_get ?d1 f \<noteq> None" for f using inn(2) by (simp add: dirs.get_put)
  let ?d2 = "put_ports ps ?d1"
  have k2: "map fst ?d2 = map fst doc" using put_ports_keys [OF f1] k1 by simp
  have f2: "f \<in> set connection_port_fields \<or> f = ''ip'' \<Longrightarrow> dir_get ?d2 f \<noteq> None" for f
    using put_ports_get [OF assms(4), of ?d1 f] inn(2) by (auto simp: dirs.get_put split: option.splits)
  let ?d3 = "dir_put ''ip'' (PStr ip) ?d2"
  have k3: "map fst ?d3 = map fst doc" using dir_put_keys [of ?d2 "''ip''"] f2 k2 by simp
  have f3: "f \<in> set connection_port_fields \<Longrightarrow> dir_get ?d3 f \<noteq> None" for f using f2 by (simp add: dirs.get_put)
  let ?d4 = "put_ports ops ?d3"
  have k4: "map fst ?d4 = map fst doc" using put_ports_keys [OF f3] k3 by simp
  have zips: "map_of (zip connection_port_fields ps) k = None \<longleftrightarrow> map_of (zip connection_port_fields ops) k = None" for k
    using assms(4) ok(1) port_fields_facts(1) by (simp add: map_of_eq_None_iff flip: set_map)
  have ip: "map_of (zip connection_port_fields ps) ''ip'' = None"
    using port_fields_facts(3) by (auto simp: map_of_eq_None_iff dest: set_zip_leftD)
  have "dir_get ?d4 k = dir_get doc k" for k
  proof (cases "map_of (zip connection_port_fields ops) k")
    case (Some v)
    then show ?thesis using inn(1) put_ports_get [OF ok(1), of ?d3 k] by simp
  next
    case None
    then show ?thesis
      using put_ports_get [OF ok(1), of ?d3 k] put_ports_get [OF assms(4), of ?d1 k] zips [of k] assms(2) by (auto simp: dirs.get_put)
  qed
  then have "?d4 = doc" using k4 assms(3) by (intro dir_ext) simp_all
  moreover have "ops \<noteq> []" using ok(1) by auto
  ultimately show ?thesis by (simp add: restored_document_def Let_def)
qed


section \<open>What a rewriting writes, and what a restoration brings back\<close>

lemma set_port_attrs_run: "set_port_attrs ports s = (Ret (), s\<lparr>cs_attrs := put_ports ports (cs_attrs s)\<rparr>)"
proof -
  have "foreach_p fvs (\<lambda>(f, v). set_attr f (PInt v)) s
      = (Ret (), s\<lparr>cs_attrs := fold (\<lambda>(f, v). dir_put f (PInt v)) fvs (cs_attrs s)\<rparr>)" for fvs
    by (induction fvs arbitrary: s) (auto simp: set_attr_def then_p_def bind_p_def)
  then show ?thesis by (simp add: set_port_attrs_def put_ports_def)
qed

lemma load_document_Ret:
  "load_document io path s = (Ret v, t) \<longleftrightarrow>
     t = s \<and> \<not> ci_unreadable io \<and>
     (\<exists>b text. dir_get (cs_dir s) (path_name path) = Some (ConnFile b) \<and> utf8_decode b = Some text \<and> loads text = Some v)"
  by (auto simp: load_document_def entry_of_def split: option.splits conn_entry.splits)

text \<open>A rewriting of the file that returns: the temporary is gone, the file has the bytes.\<close>

lemma replace_through_ok:
  assumes "ci_fault io = None" "dir_get (cs_dir s) (temporary suffix path) \<noteq> Some ConnOther"
  shows "\<exists>d. replace_through io suffix path bytes s = (Ret (), s\<lparr>cs_dir := dir_put (path_name path) (ConnFile bytes) d\<rparr>) \<and>
     (\<forall>n. dir_get d n = (if n = temporary suffix path then None else dir_get (cs_dir s) n))"
  using assms
  by (cases "dir_get (cs_dir s) (temporary suffix path) = Some ConnLink")
    (auto simp: replace_through_def Let_def put_entry_def del_entry_def dirs.get_del)

lemma replace_through_RetD:
  assumes "replace_through io suffix path bytes s = (Ret (), t)"
  shows "ci_fault io = None" "dir_get (cs_dir s) (temporary suffix path) \<noteq> Some ConnOther"
  using assms
  by (auto simp: replace_through_def Let_def put_entry_def del_entry_def when_p_def
      split: option.splits write_fault.splits if_splits)

lemma parent_file_run: "parent_file io s = (Ret (if truthy (pget (cs_attrs s) ''connection_file'')
    then Some (py_text io (pget (cs_attrs s) ''connection_file'')) else None), s)"
  by (simp add: parent_file_def Let_def)

lemma entry_of_run [simp]: "entry_of p s = (Ret (dir_get (cs_dir s) (path_name p)), s)"
  by (simp add: entry_of_def)

lemma read_for_rewrite_Ret:
  "read_for_rewrite io host s = (Ret doc, t) \<longleftrightarrow>
     t = s \<and> load_document io host s = (Ret (PDict doc), s) \<and>
     py_eq_str (pget_default doc ''transport'' (PStr ''tcp'')) ''tcp''"
proof -
  have "load_document io host s = (r, u) \<Longrightarrow> u = s" for r u
    by (auto simp: load_document_def bind_p_def split: option.splits conn_entry.splits if_splits)
  moreover have "(case v of PDict doc \<Rightarrow>
        (if py_eq_str (pget_default doc ''transport'' (PStr ''tcp'')) ''tcp'' then return_p doc
         else raise_p ValueError ''SSH kernel transport requires Jupyter TCP connections'')
      | _ \<Rightarrow> raise_p ValueError ''SSH kernel transport requires Jupyter TCP connections'') u = (Ret doc, t) \<longleftrightarrow>
      v = PDict doc \<and> t = u \<and> py_eq_str (pget_default doc ''transport'' (PStr ''tcp'')) ''tcp''" for v u
    by (cases v) auto
  ultimately show ?thesis
    by (auto simp: read_for_rewrite_def bind_p_Ret_iff catch_p_Ret_iff split: if_splits)
qed

text \<open>The steps of a rewriting that returns.\<close>

lemma rewrite_steps:
  assumes "rewrite_connection_file io bind_ip ports s = (Ret (host, oip, oports, tports), t)"
  obtains raw doc where
    "truthy (pget (cs_attrs s) ''connection_file'')" "raw = py_text io (pget (cs_attrs s) ''connection_file'')"
    "dir_get (cs_dir s) (path_name raw) \<noteq> Some ConnLink" "host = ci_resolve io raw"
    "load_document io host s = (Ret (PDict doc), s)" "connection_ports (PDict doc) = Inr oports"
    "case ports of None \<Rightarrow> tports = oports | Some p \<Rightarrow> validate_port_sequence p = Inr tports"
    "oip = py_text io (pget_default doc ''ip'' (pget_default (cs_attrs s) ''ip'' (PStr [])))"
    "bind_document io bind_ip host doc tports s = (Ret (), t)"
proof -
  have lift: "lift_p (connection_ports d) s = (Ret v, u) \<longleftrightarrow> connection_ports d = Inr v \<and> u = s"
    "lift_p (validate_port_sequence d) s = (Ret v, u) \<longleftrightarrow> validate_port_sequence d = Inr v \<and> u = s" for d v u
    by (simp_all add: lift_p_Ret)
  from assms show thesis
    unfolding rewrite_connection_file_def
    by (auto simp: bind_p_Ret_iff then_p_Ret_iff parent_file_run read_for_rewrite_Ret lift Let_def
        split: if_splits option.splits intro!: that)
qed

lemma bind_document_Ret:
  assumes "bind_document io bind_ip host doc ports s = (Ret (), t)"
  shows "ci_fault io = None"
    and "\<exists>d. t = s\<lparr>cs_attrs := put_ports ports (dir_put ''ip'' (PStr bind_ip) (cs_attrs s)),
          cs_dir := dir_put (path_name host)
            (ConnFile (document_bytes (put_ports ports (dir_put ''ip'' (PStr bind_ip) doc)))) d\<rparr> \<and>
       (\<forall>n. dir_get d n = (if n = temporary ''.remote.tmp'' host then None else dir_get (cs_dir s) n))"
proof -
  let ?s = "s\<lparr>cs_attrs := put_ports ports (dir_put ''ip'' (PStr bind_ip) (cs_attrs s))\<rparr>"
  let ?b = "document_bytes (put_ports ports (dir_put ''ip'' (PStr bind_ip) doc))"
  have r: "replace_through io ''.remote.tmp'' host ?b ?s = (Ret (), t)"
    using assms by (simp add: bind_document_def then_p_Ret_iff set_attr_def set_port_attrs_run)
  show "ci_fault io = None" by (rule replace_through_RetD(1) [OF r])
  from replace_through_ok [OF replace_through_RetD [OF r], of ?b] r
  show "\<exists>d. t = s\<lparr>cs_attrs := put_ports ports (dir_put ''ip'' (PStr bind_ip) (cs_attrs s)),
          cs_dir := dir_put (path_name host) (ConnFile ?b) d\<rparr> \<and>
       (\<forall>n. dir_get d n = (if n = temporary ''.remote.tmp'' host then None else dir_get (cs_dir s) n))"
    by auto
qed

text \<open>The bytes of a document read back as the document.\<close>

definition reads_document :: "string \<Rightarrow> record_doc \<Rightarrow> bool" where
  "reads_document b doc \<longleftrightarrow> (\<exists>text. utf8_decode b = Some text \<and> loads text = Some (PDict doc))"

lemma reads_document_bytes: "json_plain (PDict doc) \<Longrightarrow> reads_document (document_bytes doc) doc"
  using json_plain_loads [of "PDict doc"] by (simp add: reads_document_def document_bytes_def del: json_pretty.simps)

lemma load_document_ok:
  assumes "load_document io p s = (Ret (PDict doc), s)"
  shows "\<exists>b. dir_get (cs_dir s) (path_name p) = Some (ConnFile b) \<and> reads_document b doc" "\<not> ci_unreadable io"
  using assms by (auto simp: load_document_Ret reads_document_def)

lemma load_document_run:
  "dir_get (cs_dir s) (path_name p) = Some (ConnFile b) \<Longrightarrow> reads_document b doc \<Longrightarrow> \<not> ci_unreadable io \<Longrightarrow>
     load_document io p s = (Ret (PDict doc), s)"
  by (auto simp: load_document_Ret reads_document_def)

lemma put_ports_plain:
  assumes "json_plain (PDict doc)" "connection_ports (PDict doc) = Inr ops" "dir_get doc ''ip'' = Some v" "length ps = 5"
  shows "json_plain (PDict (put_ports ps (dir_put ''ip'' (PStr b) doc)))"
proof -
  let ?d1 = "dir_put ''ip'' (PStr b) doc" and ?d = "put_ports ps (dir_put ''ip'' (PStr b) doc)"
  have k1: "map fst ?d1 = map fst doc" using assms(3) by (simp add: dir_put_keys)
  have f1: "f \<in> set connection_port_fields \<Longrightarrow> dir_get ?d1 f \<noteq> None" for f
    using ports_in_document(2) [OF assms(2)] by (simp add: dirs.get_put)
  have keys: "map fst ?d = map fst doc" using put_ports_keys [OF f1] k1 by simp
  then have dist: "distinct (map fst ?d)" using assms(1) by simp
  have "json_plain (snd p)" if "p \<in> set ?d" for p
  proof -
    have "dir_get ?d (fst p) = Some (snd p)"
      unfolding dir_get_def using that dist by (intro map_of_is_SomeI) simp_all
    then have "snd p = PStr b \<or> (\<exists>i. snd p = PInt i) \<or> dir_get doc (fst p) = Some (snd p)"
      using put_ports_get [OF assms(4), of ?d1 "fst p"]
      by (cases "map_of (zip connection_port_fields ps) (fst p)") (auto simp: dirs.get_put split: if_splits dest: sym)
    moreover have "json_plain v" if "dir_get doc k = Some v" for k v
      using that assms(1) by (auto simp: dir_get_def list_all_iff dest: map_of_SomeD)
    ultimately show ?thesis by auto
  qed
  with dist show ?thesis by (simp add: list_all_iff)
qed

text \<open>What a restoration does when the file can be read and written.\<close>

lemma restore_run:
  assumes "pget (cs_attrs s) ''connection_file'' = PStr raw" "raw \<noteq> []"
    and "dir_get (cs_dir s) (path_name raw) \<noteq> Some ConnLink" "path = ci_resolve io raw"
    and "dir_get (cs_dir s) (path_name path) = Some (ConnFile b)" "reads_document b doc"
    and "\<not> ci_unreadable io" "ci_fault io = None"
    and "dir_get (cs_dir s) (temporary ''.restore.tmp'' path) \<noteq> Some ConnOther"
    and "validate_port_sequence (PTuple (map PInt ops)) = Inr ops"
  shows "\<exists>d. restore_connection_file io (Some ip) (PTuple (map PInt ops)) s
     = (Ret (), s\<lparr>cs_attrs := put_ports ops (dir_put ''ip'' (PStr ip) (cs_attrs s)),
            cs_dir := dir_put (path_name path) (ConnFile (document_bytes (restored_document (Some ip) ops doc))) d\<rparr>)"
proof -
  let ?s = "s\<lparr>cs_attrs := put_ports ops (dir_put ''ip'' (PStr ip) (cs_attrs s))\<rparr>"
  have ops: "ops \<noteq> []" using validate_port_sequence_ok(1) [OF assms(10)] by auto
  have attr: "pget (cs_attrs ?s) ''connection_file'' = PStr raw"
    using assms(1) put_ports_other [OF port_fields_facts(4), of ops "dir_put ''ip'' (PStr ip) (cs_attrs s)"]
    by (simp add: pget_def dirs.get_put)
  have load: "load_document io path ?s = (Ret (PDict doc), ?s)"
    using load_document_run [of ?s path b doc io] assms(5-7) by simp
  obtain d where "replace_through io ''.restore.tmp'' path (document_bytes (restored_document (Some ip) ops doc)) ?s
      = (Ret (), ?s\<lparr>cs_dir := dir_put (path_name path) (ConnFile (document_bytes (restored_document (Some ip) ops doc))) d\<rparr>)"
    using replace_through_ok [of io ?s "''.restore.tmp''" path "document_bytes (restored_document (Some ip) ops doc)"]
      assms(8,9) by auto
  then have "restore_file io (Some ip) ops path ?s
      = (Ret (), ?s\<lparr>cs_dir := dir_put (path_name path) (ConnFile (document_bytes (restored_document (Some ip) ops doc))) d\<rparr>)"
    using load by (simp add: restore_file_def catch_p_def bind_p_def)
  moreover have "restore_connection_file io (Some ip) (PTuple (map PInt ops)) s = restore_file io (Some ip) ops path ?s"
    using assms(2-5,10) ops attr
    by (simp add: restore_connection_file_def set_attr_def set_port_attrs_run then_p_def bind_p_def parent_file_run
        py_text_def Let_def)
  ultimately show ?thesis by auto
qed

lemma validate_ints:
  assumes ok: "length ps = 5" "distinct ps" "\<And>v. v \<in> set ps \<Longrightarrow> 1 \<le> v \<and> v \<le> 65535"
  shows "validate_port_sequence (PTuple (map PInt ps)) = Inr ps"
proof -
  have "collect_ports (zip fs (map PInt qs) @ rest) fs = Inr qs"
    if "length fs = length qs" "distinct fs" "\<And>v. v \<in> set qs \<Longrightarrow> 1 \<le> v \<and> v \<le> 65535" for fs qs rest
  proof -
    have get: "pget d f = PInt v" if "(f, v) \<in> set (zip fs qs)" "d = zip fs (map PInt qs) @ rest"
      "distinct fs" "length fs = length qs" for f v d fs qs
      using that by (auto simp: pget_def dir_get_def map_add_def set_zip map_of_zip_nth nth_eq_iff_index_eq split: option.splits)
    have "collect_ports d fs' = Inr qs'" if "length fs' = length qs'" "\<forall>p \<in> set (zip fs' qs'). pget d (fst p) = PInt (snd p)"
      "\<forall>v \<in> set qs'. 1 \<le> v \<and> v \<le> 65535" for d fs' qs'
      using that by (induction fs' qs' rule: list_induct2) auto
    with get that show ?thesis by fastforce
  qed
  from this [of connection_port_fields ps "[]"] ok show ?thesis
    by (simp add: validate_port_sequence_def port_elements_def connection_ports_def port_fields_facts)
qed

lemma validate_valid: "connection_ports (PDict doc) = Inr ps \<Longrightarrow> validate_port_sequence (PTuple (map PInt ps)) = Inr ps"
  by (intro validate_ints connection_ports_ok)

text \<open>A rewriting of a valid file, up to the write; with a fault the manager is changed all the same.\<close>

lemma rewrite_run:
  assumes "pget (cs_attrs s) ''connection_file'' = PStr raw" "raw \<noteq> []" "ci_is_ip io bind_ip"
    and "dir_get (cs_dir s) (path_name raw) \<noteq> Some ConnLink"
    and "dir_get (cs_dir s) (path_name (ci_resolve io raw)) = Some (ConnFile b)" "reads_document b doc"
    and "py_eq_str (pget_default doc ''transport'' (PStr ''tcp'')) ''tcp''" "\<not> ci_unreadable io"
    and "connection_ports (PDict doc) = Inr ops" "validate_port_sequence ports = Inr tps"
    and "dir_get doc ''ip'' = Some (PStr ip)"
  shows "rewrite_connection_file io bind_ip (Some ports) s =
     then_p (bind_document io bind_ip (ci_resolve io raw) doc tps) (return_p (ci_resolve io raw, ip, ops, tps)) s"
proof -
  have load: "load_document io (ci_resolve io raw) s = (Ret (PDict doc), s)"
    using load_document_run assms(5,6,8) by blast
  then have read: "read_for_rewrite io (ci_resolve io raw) s = (Ret doc, s)"
    using assms(7) by (simp add: read_for_rewrite_Ret)
  have parent: "parent_file io s = (Ret (Some raw), s)"
    using assms(1,2) by (simp add: parent_file_run py_text_def)
  have ip: "py_text io (pget_default doc ''ip'' v) = ip" for v
    using assms(11) by (simp add: pget_default_def py_text_def)
  show ?thesis
    using assms(3,4,5,9,10) parent read
    by (simp add: rewrite_connection_file_def bind_p_def lift_p_def ip Let_def del: then_p_prim)
qed

lemma replace_through_fault:
  assumes "ci_fault io = Some fault"
  shows "\<exists>m u. replace_through io suffix path bytes s = (Raise (Exn OSError m), u) \<and> cs_attrs u = cs_attrs s \<and>
     (\<forall>n. n \<noteq> temporary suffix path \<longrightarrow> dir_get (cs_dir u) n = dir_get (cs_dir s) n)"
  using assms
  by (cases "dir_get (cs_dir s) (temporary suffix path) = Some ConnOther"; cases fault)
    (simp_all add: replace_through_def Let_def when_p_def put_entry_def del_entry_def dirs.get_put dirs.get_del)

lemma failed_write_changes_parent:
  assumes "ci_fault io = Some fault"
  shows "\<exists>e u. bind_document io bind_ip host doc ports s = (Raise e, u) \<and> is_os_error (exn_kind e) \<and>
     cs_attrs u = put_ports ports (dir_put ''ip'' (PStr bind_ip) (cs_attrs s)) \<and>
     (\<forall>n. n \<noteq> temporary ''.remote.tmp'' host \<longrightarrow> dir_get (cs_dir u) n = dir_get (cs_dir s) n)"
proof -
  let ?s = "s\<lparr>cs_attrs := put_ports ports (dir_put ''ip'' (PStr bind_ip) (cs_attrs s))\<rparr>"
  have "bind_document io bind_ip host doc ports s =
      replace_through io ''.remote.tmp'' host (document_bytes (put_ports ports (dir_put ''ip'' (PStr bind_ip) doc))) ?s"
    by (simp add: bind_document_def then_p_def bind_p_def set_attr_def set_port_attrs_run)
  then show ?thesis
    using replace_through_fault [OF assms, of "''.remote.tmp''" host
        "document_bytes (put_ports ports (dir_put ''ip'' (PStr bind_ip) doc))" ?s] by auto
qed

definition sample_document :: record_doc where
  "sample_document =
     [(''shell_port'', PInt 50001), (''iopub_port'', PInt 50002), (''stdin_port'', PInt 50003),
      (''control_port'', PInt 50004), (''hb_port'', PInt 50005), (''ip'', PStr ''127.0.0.1''),
      (''key'', PStr ''a0b1''), (''transport'', PStr ''tcp''), (''kernel_name'', PStr ''freebsd'')]"

definition sample_io :: conn_io where
  "sample_io = \<lparr>ci_resolve = id, ci_is_ip = (\<lambda>_. True), ci_str = (\<lambda>_. []), ci_unreadable = False, ci_fault = None\<rparr>"

definition sample_conn :: conn_state where
  "sample_conn =
     \<lparr>cs_attrs = [(''connection_file'', PStr ''/run/k.json''), (''ip'', PStr ''127.0.0.1'')],
      cs_dir = [(''k.json'', ConnFile (document_bytes sample_document))]\<rparr>"

lemma sample_facts:
  "connection_ports (PDict sample_document) = Inr [50001, 50002, 50003, 50004, 50005]"
  "validate_port_sequence (PTuple (map PInt [30000, 30001, 30002, 30003, 30004])) = Inr [30000, 30001, 30002, 30003, 30004]"
  "py_eq_str (pget_default sample_document ''transport'' (PStr ''tcp'')) ''tcp''"
  "dir_get sample_document ''ip'' = Some (PStr ''127.0.0.1'')" "json_plain (PDict sample_document)"
  "path_name ''/run/k.json'' = ''k.json''" "temporary ''.restore.tmp'' ''/run/k.json'' = ''.k.json.restore.tmp''"
  by (simp_all add: sample_document_def connection_ports_def connection_port_fields_def pget_def pget_default_def dir_get_def
      validate_port_sequence_def port_elements_def path_name_def temporary_def after_last_def rstrip_char_def)

lemma sample_rewrite:
  "\<exists>t. rewrite_connection_file sample_io ''127.0.0.1'' (Some (PTuple (map PInt [30000, 30001, 30002, 30003, 30004]))) sample_conn
     = (Ret (''/run/k.json'', ''127.0.0.1'', [50001, 50002, 50003, 50004, 50005], [30000, 30001, 30002, 30003, 30004]), t)"
proof -
  have "dir_get (cs_dir s) (temporary ''.remote.tmp'' ''/run/k.json'') \<noteq> Some ConnOther"
    if "cs_dir s = cs_dir sample_conn" for s :: conn_state
    unfolding that sample_conn_def temporary_def by (simp add: dir_get_def)
  then have "\<exists>t. bind_document sample_io ''127.0.0.1'' ''/run/k.json'' sample_document [30000, 30001, 30002, 30003, 30004] sample_conn = (Ret (), t)"
    using replace_through_ok [of sample_io "sample_conn\<lparr>cs_attrs := a\<rparr>" for a]
    unfolding bind_document_def then_p_def bind_p_def set_attr_def set_port_attrs_run
    by (simp add: sample_io_def) blast
  then show ?thesis
    using rewrite_run [of sample_conn "''/run/k.json''" sample_io "''127.0.0.1''" "document_bytes sample_document" sample_document
        "[50001, 50002, 50003, 50004, 50005]" "PTuple (map PInt [30000, 30001, 30002, 30003, 30004])"
        "[30000, 30001, 30002, 30003, 30004]" "''127.0.0.1''"] sample_facts reads_document_bytes [OF sample_facts(5)]
    by (auto simp: sample_conn_def sample_io_def pget_def dir_get_def then_p_def bind_p_def)
qed

section \<open>What a restoration and a rewriting leave alone\<close>

text \<open>A part of a larger state that does not look at the attributes and the directory.\<close>

definition outside_conn :: "(('a conn_state_scheme) \<Rightarrow> 'v) \<Rightarrow> bool" where
  "outside_conn f \<longleftrightarrow> (\<forall>s a. f (s\<lparr>cs_attrs := a\<rparr>) = f s) \<and> (\<forall>s d. f (s\<lparr>cs_dir := d\<rparr>) = f s)"

lemma keeps_conn_steps:
  assumes "outside_conn f"
  shows "keeps f (set_attr n v)" "keeps f (put_entry n e)" "keeps f (del_entry n)" "keeps f (entry_of p)"
    "keeps f (parent_file io)" "keeps f (set_port_attrs ports)" "keeps f (load_document io p)"
proof -
  show attr: "keeps f (set_attr n v)" for n v using assms by (auto simp: set_attr_def outside_conn_def keeps_def)
  show "keeps f (put_entry n e)" using assms by (auto simp: put_entry_def outside_conn_def keeps_def)
  show "keeps f (del_entry n)" using assms by (auto simp: del_entry_def outside_conn_def keeps_def)
  show entry: "keeps f (entry_of p)" for p by (simp add: keeps_def)
  show "keeps f (parent_file io)" by (simp add: parent_file_def)
  show "keeps f (set_port_attrs ports)"
    unfolding set_port_attrs_def by (intro keeps_foreach) (auto intro: attr)
  have "keeps f (case e of Some (ConnFile b) \<Rightarrow>
           (if ci_unreadable io then raise_p OSError ''Input/output error''
            else case utf8_decode b of
                   None \<Rightarrow> raise_p UnicodeDecodeError ''invalid start byte''
                 | Some text \<Rightarrow>
                     (case loads text of
                        None \<Rightarrow> raise_p JSONDecodeError ''Expecting value''
                      | Some v \<Rightarrow> return_p v))
       | _ \<Rightarrow> raise_p OSError ''No such file or directory'')" for e
    by (auto split: option.splits conn_entry.splits)
  then show "keeps f (load_document io p)" unfolding load_document_def by (intro keeps_bind entry)
qed

lemma keeps_replace_through:
  assumes "outside_conn f"
  shows "keeps f (replace_through io suffix path bytes)"
proof -
  note k = keeps_conn_steps [OF assms]
  have "keeps f (case ci_fault io of
              Some (WriteStops part) \<Rightarrow> then_p (put_entry tmp (ConnFile part)) (raise_p OSError m)
            | Some _ \<Rightarrow> then_p (put_entry tmp (ConnFile bytes)) (raise_p OSError m')
            | None \<Rightarrow> then_p (del_entry tmp) (put_entry name (ConnFile bytes)))" for tmp name m m'
    by (auto split: option.splits write_fault.splits intro!: keeps_then k)
  then show ?thesis
    unfolding replace_through_def Let_def by (intro keeps_bind keeps_then keeps_when keeps_if k keeps_prim)
qed

lemma keeps_restore:
  assumes "outside_conn f"
  shows "keeps f (restore_connection_file io ip ports)"
proof -
  note k = keeps_conn_steps [OF assms] keeps_replace_through [OF assms]
  have "keeps f (case v of PDict doc \<Rightarrow> replace_through io x p (document_bytes (g doc)) | _ \<Rightarrow> return_p ())" for v x p g
    by (cases v) (auto intro: k)
  then have wr: "keeps f (restore_file io ip ps p)" for ps p
    unfolding restore_file_def by (intro keeps_catch keeps_bind keeps_if k keeps_prim)
  have opt: "keeps f (case o' of None \<Rightarrow> return_p () | Some raw \<Rightarrow> g raw)" if "\<And>raw. keeps f (g raw)" for o' and g :: "string \<Rightarrow> ('a conn_state_scheme, unit) prog"
    using that by (cases o') auto
  have attr: "keeps f (case ip of None \<Rightarrow> return_p () | Some i \<Rightarrow> set_attr n (PStr i))" for n
    by (cases ip) (auto intro: k)
  show ?thesis
    unfolding restore_connection_file_def Let_def
    by (intro keeps_bind keeps_then keeps_when opt keeps_if wr attr k keeps_prim)
qed

lemma returns_restore_file: "returns (restore_file io ip ps p)"
proof -
  have "\<exists>u. restore_file io ip ps p s = (Ret (), u)" for s :: "'a conn_state_scheme"
  proof -
    let ?m = "bind_p (load_document io p) (\<lambda>v. case v of
            PDict doc \<Rightarrow> replace_through io ''.restore.tmp'' p (document_bytes (restored_document ip ps doc))
          | _ \<Rightarrow> return_p ())"
    have load: "load_document io p s = (r, u) \<Longrightarrow> (\<exists>v. r = Ret v) \<or> (\<exists>k m. r = Raise (Exn k m) \<and> (is_os_error k \<or> is_value_error k))" for r u
      by (auto simp: load_document_def bind_p_def split: option.splits conn_entry.splits if_splits)
    have repl: "replace_through io x q b t = (r, u) \<Longrightarrow> r = Ret () \<or> (\<exists>m. r = Raise (Exn OSError m))" for x q b r u and t :: "'a conn_state_scheme"
      by (cases "ci_fault io"; cases "dir_get (cs_dir t) (temporary x q) = Some ConnOther")
        (use replace_through_fault [of io _ x q b t] replace_through_ok [of io t x q b] in
          \<open>auto simp: replace_through_def Let_def when_p_def\<close>)
    obtain r u where m: "?m s = (r, u)" by (cases "?m s")
    have "r = Ret () \<or> (\<exists>k m. r = Raise (Exn k m) \<and> (is_os_error k \<or> is_value_error k))"
    proof -
      obtain q t where l: "load_document io p s = (q, t)" by (cases "load_document io p s")
      from load [OF l] show ?thesis
      proof
        assume "\<exists>v. q = Ret v"
        then obtain v where v: "q = Ret v" by blast
        show ?thesis
          using m l v repl [of "''.restore.tmp''" p _ t r u] is_os_error.simps(1)
          by (cases v) (force simp: bind_p_def)+
      qed (use m l in \<open>auto simp: bind_p_def\<close>)
    qed
    then show ?thesis
    proof
      assume "\<exists>k m. r = Raise (Exn k m) \<and> (is_os_error k \<or> is_value_error k)"
      then obtain k x where "r = Raise (Exn k x)" "is_os_error k \<or> is_value_error k" by blast
      then show ?thesis by (auto simp: restore_file_def catch_p_def m)
    qed (simp add: restore_file_def catch_p_def m)
  qed
  then show ?thesis by (simp add: returns_def)
qed

lemma returns_restore: "returns (restore_connection_file io ip ports)"
proof -
  have attr: "returns (set_attr n v)" "returns (entry_of p)" "returns (parent_file io)" for n v p
    by (simp_all add: returns_def set_attr_def parent_file_def)
  have "returns (set_port_attrs ps)" for ps by (simp add: returns_def set_port_attrs_run)
  note r = this attr returns_restore_file
  show ?thesis
    unfolding restore_connection_file_def Let_def by (intro returns_intros r)
qed

lemma keeps_rewrite:
  assumes "outside_conn f"
  shows "keeps f (rewrite_connection_file io bind_ip ports)"
proof -
  note k = keeps_conn_steps [OF assms] keeps_replace_through [OF assms]
  have "keeps f (case v of PDict doc \<Rightarrow> (if b doc then return_p doc else raise_p ValueError m) | _ \<Rightarrow> raise_p ValueError m)" for v b m
    by (cases v) auto
  then have rd: "keeps f (read_for_rewrite io host)" for host
    unfolding read_for_rewrite_def by (intro keeps_bind keeps_catch keeps_if k keeps_prim)
  have bd: "keeps f (bind_document io ip host doc ps)" for ip host doc ps
    unfolding bind_document_def by (intro keeps_then k)
  have lift: "keeps f (lift_p x)" for x :: "exn + 'x" by (cases x) (simp_all add: lift_p_def)
  have opt: "keeps f (case o' of None \<Rightarrow> m | Some x \<Rightarrow> g x)" if "keeps f m" "\<And>x. keeps f (g x)"
    for o' :: "'o option" and m and g :: "'o \<Rightarrow> ('a conn_state_scheme, 'r) prog"
    using that by (cases o') auto
  show ?thesis
    unfolding rewrite_connection_file_def Let_def
    by (intro keeps_bind keeps_then keeps_if opt rd bd lift k keeps_prim)
qed

section \<open>Properties\<close>



text \<open>
  C29. The ports a rewriting returns, those found in the document and those it binds the kernel
  to, are five distinct numbers between 1 and 65535, whatever the caller passed.
\<close>

theorem rewritten_ports_valid:
  assumes "rewrite_connection_file io bind_ip ports s = (Ret (host, original_ip, original_ports, tunnel_ports), t)"
  shows "\<forall>ps \<in> {original_ports, tunnel_ports}. length ps = 5 \<and> distinct ps \<and> set ps \<subseteq> {1..65535}"
proof -
  from rewrite_steps [OF assms] obtain doc where o: "connection_ports (PDict doc) = Inr original_ports"
    and t: "case ports of None \<Rightarrow> tunnel_ports = original_ports | Some p \<Rightarrow> validate_port_sequence p = Inr tunnel_ports"
    by blast
  have v: "length ps = 5 \<and> distinct ps \<and> set ps \<subseteq> {1..65535}" if "validate_port_sequence p = Inr ps" for p ps
    using validate_port_sequence_ok [OF that] by auto
  have "length original_ports = 5 \<and> distinct original_ports \<and> set original_ports \<subseteq> {1..65535}"
    using connection_ports_ok [OF o] by auto
  with t v show ?thesis by (auto split: option.splits)
qed

theorem rewritten_ports_valid_witness:
  "distinct [50001, 50002, 50003, 50004, 50005 :: int] \<and>
   fst (rewrite_connection_file sample_io ''127.0.0.1'' (Some (PTuple (map PInt [30000, 30001, 30002, 30003, 30004]))) sample_conn)
     = Ret (''/run/k.json'', ''127.0.0.1'', [50001, 50002, 50003, 50004, 50005], [30000, 30001, 30002, 30003, 30004])"
  using sample_rewrite rewritten_ports_valid by fastforce

end
