(* ===== verification/Sha256.thy ===== *)
theory Sha256
  imports PyStr "HOL-Library.Word"
begin

text \<open>
  \<open>hashlib.sha256\<close>: the compression function over 32-bit words, the padding of a message
  to 64-byte blocks, and the digest as 32 bytes and as 64 lower-case hex digits. Only the
  shape of the digest is used by the proofs; no property of the model assumes that two
  messages have different digests.
\<close>

unbundle bit_operations_syntax

type_synonym u32 = "32 word"

definition rotr :: "nat \<Rightarrow> u32 \<Rightarrow> u32" where
  "rotr n x = word_rotr n x"

text \<open>
  The standard's constants by their rule: the first 32 bits of the fractional parts of the
  cube roots of the first 64 primes, and of the square roots of the first eight. A root is
  found bit by bit, from the highest; \<open>root_bits k n b r\<close> is \<open>r\<close> with the bits below \<open>b\<close>
  of the \<open>k\<close>-th root of \<open>n\<close> added.
\<close>

fun root_bits :: "nat \<Rightarrow> nat \<Rightarrow> nat \<Rightarrow> nat \<Rightarrow> nat" where
  "root_bits k n 0 r = r"
| "root_bits k n (Suc b) r = root_bits k n b (if (r + 2 ^ b) ^ k \<le> n then r + 2 ^ b else r)"

definition small_primes :: "nat list" where
  "small_primes = filter (\<lambda>p. \<forall>d \<in> set [2..<p]. p mod d \<noteq> 0) [2..<312]"

definition root_fraction :: "nat \<Rightarrow> nat \<Rightarrow> u32" where
  "root_fraction k p = of_nat (root_bits k (p * 2 ^ (32 * k)) 40 0)"

definition sha_k :: "u32 list" where
  "sha_k = map (root_fraction 3) small_primes"

type_synonym sha_state = "u32 \<times> u32 \<times> u32 \<times> u32 \<times> u32 \<times> u32 \<times> u32 \<times> u32"

definition sha_init :: sha_state where
  "sha_init =
     (root_fraction 2 2, root_fraction 2 3, root_fraction 2 5, root_fraction 2 7,
      root_fraction 2 11, root_fraction 2 13, root_fraction 2 17, root_fraction 2 19)"

fun sha_round :: "sha_state \<Rightarrow> u32 \<times> u32 \<Rightarrow> sha_state" where
  "sha_round (a, b, c, d, e, f, g, h) (k, w) =
     (let s1 = rotr 6 e XOR rotr 11 e XOR rotr 25 e;
          ch = (e AND f) XOR (NOT e AND g);
          t1 = h + s1 + ch + k + w;
          s0 = rotr 2 a XOR rotr 13 a XOR rotr 22 a;
          mj = (a AND b) XOR (a AND c) XOR (b AND c)
      in (t1 + (s0 + mj), a, b, c, d + t1, e, f, g))"

text \<open>The message schedule, grown from its first 16 words (the latest word first).\<close>

fun sha_extend :: "nat \<Rightarrow> u32 list \<Rightarrow> u32 list" where
  "sha_extend 0 ws = ws"
| "sha_extend (Suc n) ws =
     (let x = ws ! 14; y = ws ! 1;
          s0 = rotr 7 x XOR rotr 18 x XOR drop_bit 3 x;
          s1 = rotr 17 y XOR rotr 19 y XOR drop_bit 10 y
      in sha_extend n ((ws ! 15 + s0 + ws ! 6 + s1) # ws))"

definition sha_schedule :: "u32 list \<Rightarrow> u32 list" where
  "sha_schedule block = rev (sha_extend 48 (rev block))"

fun sha_add :: "sha_state \<Rightarrow> sha_state \<Rightarrow> sha_state" where
  "sha_add (a, b, c, d, e, f, g, h) (a', b', c', d', e', f', g', h') =
     (a + a', b + b', c + c', d + d', e + e', f + f', g + g', h + h')"

definition sha_compress :: "sha_state \<Rightarrow> u32 list \<Rightarrow> sha_state" where
  "sha_compress st block = sha_add st (foldl sha_round st (zip sha_k (sha_schedule block)))"

text \<open>Bytes to big-endian words and back.\<close>

fun be_words :: "nat list \<Rightarrow> u32 list" where
  "be_words (a # b # c # d # r) =
     (((of_nat a * 256 + of_nat b) * 256 + of_nat c) * 256 + of_nat d) # be_words r"
| "be_words _ = []"

definition be_bytes :: "nat \<Rightarrow> nat \<Rightarrow> nat list" where
  "be_bytes k n = map (\<lambda>i. n div 256 ^ (k - 1 - i) mod 256) [0..<k]"

fun blocks16 :: "nat \<Rightarrow> u32 list \<Rightarrow> u32 list list" where
  "blocks16 0 ws = []"
| "blocks16 (Suc n) ws = take 16 ws # blocks16 n (drop 16 ws)"

definition sha_pad :: "nat list \<Rightarrow> nat list" where
  "sha_pad m =
     m @ [128] @ replicate ((119 - length m mod 64) mod 64) 0 @ be_bytes 8 (8 * length m)"

fun state_words :: "sha_state \<Rightarrow> u32 list" where
  "state_words (a, b, c, d, e, f, g, h) = [a, b, c, d, e, f, g, h]"

definition sha256_bytes :: "string \<Rightarrow> nat list" where
  "sha256_bytes m =
     (let ws = be_words (sha_pad (map of_char m))
      in concat (map (\<lambda>w. be_bytes 4 (unat w))
           (state_words (foldl sha_compress sha_init (blocks16 (length ws div 16) ws)))))"

definition hexdigest :: "string \<Rightarrow> string" where
  "hexdigest m = concat (map (\<lambda>b. [hex_digit (b div 16), hex_digit (b mod 16)]) (sha256_bytes m))"

section \<open>The shape of a digest\<close>

lemma be_bytes_length [simp]: "length (be_bytes k n) = k"
  by (simp add: be_bytes_def)

lemma be_bytes_bound: "b \<in> set (be_bytes k n) \<Longrightarrow> b < 256"
  by (auto simp: be_bytes_def)

lemma state_words_length [simp]: "length (state_words st) = 8"
  by (cases st rule: state_words.cases) simp

lemma sha256_bytes_length [simp]: "length (sha256_bytes m) = 32"
proof -
  have "length (concat (map (\<lambda>w. be_bytes 4 (unat w)) ws)) = 4 * length ws" for ws :: "u32 list"
    by (induction ws) auto
  then show ?thesis by (simp add: sha256_bytes_def Let_def)
qed

lemma sha256_bytes_bound: "b \<in> set (sha256_bytes m) \<Longrightarrow> b < 256"
  by (auto simp: sha256_bytes_def Let_def dest: be_bytes_bound)

lemma hexdigest_length [simp]: "length (hexdigest m) = 64"
proof -
  have "length (concat (map (\<lambda>b. [hex_digit (b div 16), hex_digit (b mod 16)]) bs)) = 2 * length bs" for bs
    by (induction bs) auto
  then show ?thesis by (simp add: hexdigest_def)
qed

lemma hex_digit_range:
  "d < 16 \<Longrightarrow> ascii_digit (hex_digit d) \<or> 97 \<le> (of_char (hex_digit d) :: nat) \<and> (of_char (hex_digit d) :: nat) \<le> 102"
  by (auto simp: hex_digit_def ascii_digit_def)

lemma hexdigest_chars:
  "c \<in> set (hexdigest m) \<Longrightarrow> ascii_digit c \<or> 97 \<le> (of_char c :: nat) \<and> (of_char c :: nat) \<le> 102"
  unfolding hexdigest_def
proof -
  assume "c \<in> set (concat (map (\<lambda>b. [hex_digit (b div 16), hex_digit (b mod 16)]) (sha256_bytes m)))"
  then obtain b where "b \<in> set (sha256_bytes m)" "c = hex_digit (b div 16) \<or> c = hex_digit (b mod 16)"
    by auto
  moreover from this(1) have "b div 16 < 16" "b mod 16 < 16"
    using sha256_bytes_bound by (auto simp: less_mult_imp_div_less)
  ultimately show ?thesis using hex_digit_range by blast
qed

lemma hexdigest_hex: "c \<in> set (hexdigest m) \<Longrightarrow> is_hex_digit c"
  using hexdigest_chars [of c m] by (auto simp: is_hex_digit_def)

lemma hexdigest_no_dot: "CHR ''.'' \<notin> set (hexdigest m)"
  using hexdigest_chars [of "CHR ''.''" m] by (auto simp: ascii_digit_def)

lemma hexdigest_nonempty [simp]: "hexdigest m \<noteq> []"
  by (metis hexdigest_length list.size(3) zero_neq_numeral)

end
