(* ===== verification/Process_Identity.thy ===== *)
theory Process_Identity
  imports Sha256
begin

text \<open>
  process_identity.py and peer_credentials.py: the fingerprint of a live process, and the
  credentials the FreeBSD kernel reports for a connected Unix-domain peer.

  The machine the program runs on is a parameter: a record of functions of an arbitrary
  world \<open>'w\<close>. \<open>h_spawn\<close> is \<open>subprocess.run\<close> for the commands the daemon issues (with
  the timeout it is given), \<open>h_ps\<close> the same call for \<open>/bin/ps\<close>, which only reads,
  \<open>h_kill0\<close> the answer of \<open>kill(pid, 0)\<close>; the others are the file system's answers.
\<close>

datatype outcome = Completed (o_rc: int) (o_out: string) (o_err: string) | TimedOut | ExecFailed string

datatype kill_answer = KillOk | KillNoProcess | KillDenied

text \<open>
  The file operations \<open>_install_jail_authorized_key\<close> issues below a jail root, by the path
  they are given. Each may fail with an OSError whose text the machine chooses.
\<close>

datatype syscall =
    Unlink string
  | Mkdir string nat
  | Chmod string nat
  | Chown string int int
  | WriteText string string

record 'w host =
  h_spawn :: "nat \<Rightarrow> string list \<Rightarrow> 'w \<Rightarrow> outcome \<times> 'w"
  h_ps :: "string list \<Rightarrow> 'w \<Rightarrow> outcome"
  h_kill0 :: "int \<Rightarrow> 'w \<Rightarrow> kill_answer"
  h_sleep :: "'w \<Rightarrow> 'w"
  h_executable :: "string \<Rightarrow> 'w \<Rightarrow> bool"
  h_is_file :: "string \<Rightarrow> 'w \<Rightarrow> bool"
  h_is_symlink :: "string \<Rightarrow> 'w \<Rightarrow> bool"
  h_resolve :: "string \<Rightarrow> 'w \<Rightarrow> string"
  h_syscall :: "syscall \<Rightarrow> 'w \<Rightarrow> string option \<times> 'w"
  h_create_fails :: "'w \<Rightarrow> string \<Rightarrow> bool"
  h_write_fails :: "'w \<Rightarrow> string \<Rightarrow> bool"
  h_temp_name :: "string \<Rightarrow> 'w \<Rightarrow> string"

section \<open>Process identity\<close>

record process_identity =
  id_pid :: int
  id_uid :: int
  id_started_at :: string
  id_digest :: string

definition ps_command :: string where
  "ps_command = ''/bin/ps''"

text \<open>
  \<open>_pid_exists\<close>. \<open>os.kill\<close> takes a C int: a larger pid raises OverflowError, which neither
  handler of the source catches.
\<close>

definition pid_exists :: "'w host \<Rightarrow> 'w \<Rightarrow> int \<Rightarrow> exn + bool" where
  "pid_exists h w pid =
     (if pid \<le> 1 then Inr False
      else if pid > 2147483647 then Inl (Exn OverflowError ''signed integer is greater than maximum'')
      else case h_kill0 h pid w of
             KillNoProcess \<Rightarrow> Inr False
           | KillDenied \<Rightarrow> Inr True
           | KillOk \<Rightarrow> Inr True)"

text \<open>\<open>s.partition(" ")\<close>: what precedes the first space, and what follows it if there is one.\<close>

definition partition_space :: "string \<Rightarrow> string \<times> string option" where
  "partition_space s =
     (takeWhile (\<lambda>c. c \<noteq> CHR '' '') s,
      case dropWhile (\<lambda>c. c \<noteq> CHR '' '') s of [] \<Rightarrow> None | _ # r \<Rightarrow> Some r)"

definition fingerprint :: "int \<Rightarrow> string \<Rightarrow> string" where
  "fingerprint uid started_at = hexdigest (utf8_encode (int_str uid @ '':'' @ started_at))"

definition query_process_identity :: "'w host \<Rightarrow> 'w \<Rightarrow> int \<Rightarrow> exn + process_identity option" where
  "query_process_identity h w pid =
     (case pid_exists h w pid of
        Inl e \<Rightarrow> Inl e
      | Inr False \<Rightarrow> Inr None
      | Inr True \<Rightarrow>
          (case h_ps h [ps_command, ''-o'', ''uid='', ''-o'', ''lstart='', ''-p'', int_str pid] w of
             TimedOut \<Rightarrow> Inr None
           | ExecFailed _ \<Rightarrow> Inr None
           | Completed rc stdout _ \<Rightarrow>
               (if rc \<noteq> 0 then Inr None
                else case partition_space (join_with '' '' (split_ws stdout)) of
                       (_, None) \<Rightarrow> Inr None
                     | (uid_text, Some started) \<Rightarrow>
                         (if started = [] then Inr None
                          else case py_int uid_text of
                                 None \<Rightarrow> Inr None
                               | Some uid \<Rightarrow>
                                   Inr (Some \<lparr>id_pid = pid, id_uid = uid, id_started_at = started,
                                               id_digest = fingerprint uid started\<rparr>)))))"

definition process_matches :: "'w host \<Rightarrow> 'w \<Rightarrow> int \<Rightarrow> int \<Rightarrow> string \<Rightarrow> exn + bool" where
  "process_matches h w pid uid digest =
     (if pid \<le> 1 \<or> uid < 0 \<or> digest = [] then Inr False
      else case query_process_identity h w pid of
             Inl e \<Rightarrow> Inl e
           | Inr None \<Rightarrow> Inr False
           | Inr (Some i) \<Rightarrow> Inr (id_uid i = uid \<and> id_digest i = digest))"

lemma query_identity_facts:
  assumes "query_process_identity h w pid = Inr (Some i)"
  shows "id_pid i = pid" and "1 < pid" and "pid \<le> 2147483647"
    and "id_digest i = fingerprint (id_uid i) (id_started_at i)" and "id_started_at i \<noteq> []"
  using assms
  by (auto simp: query_process_identity_def pid_exists_def
      split: sum.splits bool.splits outcome.splits if_splits prod.splits option.splits kill_answer.splits)

lemma query_identity_total:
  "pid \<le> 2147483647 \<Longrightarrow> \<exists>r. query_process_identity h w pid = Inr r"
  by (auto simp: query_process_identity_def pid_exists_def
      split: sum.splits bool.splits outcome.splits prod.splits option.splits kill_answer.splits)

lemma fingerprint_length [simp]: "length (fingerprint u s) = 64"
  by (simp add: fingerprint_def)

lemma fingerprint_nonempty [simp]: "fingerprint u s \<noteq> []"
  by (simp add: fingerprint_def)

lemma fingerprint_no_dot: "CHR ''.'' \<notin> set (fingerprint u s)"
  by (simp add: fingerprint_def hexdigest_no_dot)

lemma process_matches_iff:
  "process_matches h w pid uid digest = Inr True \<longleftrightarrow>
     0 \<le> uid \<and> digest \<noteq> [] \<and>
     (\<exists>i. query_process_identity h w pid = Inr (Some i) \<and> id_uid i = uid \<and> id_digest i = digest)"
  by (auto simp: process_matches_def split: sum.splits option.splits dest: query_identity_facts(2))

section \<open>Peer credentials\<close>

text \<open>
  The kernel's \<open>xucred\<close> answer, at its C widths: unsigned version, uid and groups, a signed
  short count and a signed pid. \<open>getsockopt\<close> fails with an errno or returns the structure
  with the number of bytes written.
\<close>

record xucred =
  cr_version :: "32 word"
  cr_uid :: "32 word"
  cr_ngroups :: "16 word"
  cr_gid :: "32 word"
  cr_pid :: "32 word"

datatype sockopt = SockoptError int string | SockoptOk nat xucred

record peer_credentials =
  peer_pid :: int
  peer_uid :: int
  peer_gid :: int

definition xucred_version :: "32 word" where
  "xucred_version = 0"

definition xu_ngroups :: nat where
  "xu_ngroups = 16"

text \<open>
  \<open>freebsd_peer_credentials\<close>: \<open>platform\<close> is \<open>platform.system()\<close>, \<open>nbytes\<close> is
  \<open>ctypes.sizeof(credentials)\<close>; \<open>cr_gid\<close> is the first element of the group union.
\<close>

definition freebsd_peer_credentials ::
    "string \<Rightarrow> bool \<Rightarrow> int \<Rightarrow> nat \<Rightarrow> sockopt \<Rightarrow> exn + peer_credentials" where
  "freebsd_peer_credentials platform af_unix fileno nbytes answer =
     (if platform \<noteq> ''FreeBSD'' then
        Inl (Exn RuntimeError ''FreeBSD LOCAL_PEERCRED is unavailable on this platform'')
      else if \<not> af_unix then
        Inl (Exn RuntimeError ''Runtime control peer is not a Unix-domain socket'')
      else if fileno = -1 then Inl (Exn RuntimeError ''Socket is closed'')
      else case answer of
        SockoptError n strerror \<Rightarrow> Inl (Exn OSError strerror)
      | SockoptOk len c \<Rightarrow>
          (if len < nbytes then
             Inl (Exn RuntimeError (''FreeBSD LOCAL_PEERCRED returned '' @ nat_str len @ '' bytes; expected ''
                                    @ nat_str nbytes))
           else if cr_version c \<noteq> xucred_version then
             Inl (Exn RuntimeError (''Unsupported FreeBSD xucred version: '' @ nat_str (unat (cr_version c))))
           else if sint (cr_ngroups c) < 1 \<or> sint (cr_ngroups c) > int xu_ngroups then
             Inl (Exn RuntimeError ''FreeBSD peer credentials contain no effective group'')
           else if sint (cr_pid c) \<le> 1 then
             Inl (Exn RuntimeError ''FreeBSD peer credentials contain an invalid process id'')
           else Inr \<lparr>peer_pid = sint (cr_pid c), peer_uid = uint (cr_uid c),
                     peer_gid = uint (cr_gid c)\<rparr>))"

lemma peer_pid_range:
  assumes "freebsd_peer_credentials p u f n a = Inr c"
  shows "1 < peer_pid c" and "peer_pid c \<le> 2147483647" and "0 \<le> peer_uid c" and "peer_uid c < 4294967296"
proof -
  obtain len x where a: "a = SockoptOk len x"
    using assms by (auto simp: freebsd_peer_credentials_def split: if_splits sockopt.splits)
  with assms have c: "peer_pid c = sint (cr_pid x)" "peer_uid c = uint (cr_uid x)" "1 < sint (cr_pid x)"
    by (auto simp: freebsd_peer_credentials_def split: if_splits)
  then show "1 < peer_pid c" "0 \<le> peer_uid c" by simp_all
  show "peer_pid c \<le> 2147483647"
    using sint_lt [of "cr_pid x"] by (simp add: c)
  show "peer_uid c < 4294967296"
    using uint_lt2p [of "cr_uid x"] by (simp add: c)
qed

lemma query_cong:
  assumes "h_ps h = h_ps h'" "h_kill0 h = h_kill0 h'"
  shows "query_process_identity h w pid = query_process_identity h' w pid"
  unfolding query_process_identity_def pid_exists_def assms ..

section \<open>A host for examples\<close>

text \<open>
  A machine on which every command succeeds with empty output and the processes 100 and
  200 run, of the users 1001 and 1002.
\<close>

definition example_host :: "unit host" where
  "example_host =
     \<lparr>h_spawn = \<lambda>_ _ w. (Completed 0 [] [], w),
      h_ps = \<lambda>args _. (if last args = ''100'' then Completed 0 ''1001 Mon'' []
                         else if last args = ''200'' then Completed 0 ''1002 Tue'' [] else Completed 1 [] []),
      h_kill0 = \<lambda>pid _. if pid = 100 \<or> pid = 200 then KillOk else KillNoProcess,
      h_sleep = \<lambda>w. w, h_executable = \<lambda>_ _. True, h_is_file = \<lambda>_ _. True,
      h_is_symlink = \<lambda>_ _. False, h_resolve = \<lambda>p _. p, h_syscall = \<lambda>_ w. (None, w),
      h_create_fails = \<lambda>_ _. False, h_write_fails = \<lambda>_ _. False, h_temp_name = \<lambda>n _. n @ ''.tmp''\<rparr>"

lemma example_host_query:
  "query_process_identity example_host () 100 =
     Inr (Some \<lparr>id_pid = 100, id_uid = 1001, id_started_at = ''Mon'', id_digest = fingerprint 1001 ''Mon''\<rparr>)"
  "query_process_identity example_host () 200 =
     Inr (Some \<lparr>id_pid = 200, id_uid = 1002, id_started_at = ''Tue'', id_digest = fingerprint 1002 ''Tue''\<rparr>)"
proof -
  have "int_str 100 = ''100''" "int_str 200 = ''200''" by (simp_all add: int_str_def nat_str.simps)
  moreover have "py_int ''1001'' = Some 1001" "py_int ''1002'' = Some 1002" by code_simp+
  moreover have "partition_space (join_with '' '' (split_ws ''1001 Mon'')) = (''1001'', Some ''Mon'')"
    "partition_space (join_with '' '' (split_ws ''1002 Tue'')) = (''1002'', Some ''Tue'')" by code_simp+
  ultimately show "query_process_identity example_host () 100 =
     Inr (Some \<lparr>id_pid = 100, id_uid = 1001, id_started_at = ''Mon'', id_digest = fingerprint 1001 ''Mon''\<rparr>)"
    "query_process_identity example_host () 200 =
     Inr (Some \<lparr>id_pid = 200, id_uid = 1002, id_started_at = ''Tue'', id_digest = fingerprint 1002 ''Tue''\<rparr>)"
    by (simp_all add: query_process_identity_def pid_exists_def example_host_def)
qed

end
