(* ===== verification/Base64.thy ===== *)
theory Base64
  imports PyStr
begin

text \<open>
  \<open>base64.b64decode(s, validate=True)\<close> and \<open>base64.b64encode\<close>, which the daemon reads SSH
  keys with and the evidence writes signatures with, and that decoding undoes encoding.
\<close>

section \<open>Decoding\<close>

text \<open>
  \<open>base64.b64decode(s, validate=True)\<close>: the position in the group of four, whether padding
  has started, its length, and the bits carried over.
\<close>

definition base64_value :: "char \<Rightarrow> nat option" where
  "base64_value c =
     (let n = (of_char c :: nat)
      in if ascii_upper c then Some (n - 65)
         else if ascii_lower c then Some (n - 71)
         else if ascii_digit c then Some (n + 4)
         else if c = CHR ''+'' then Some 62
         else if c = CHR ''/'' then Some 63 else None)"

fun base64_scan :: "nat \<Rightarrow> bool \<Rightarrow> nat \<Rightarrow> nat \<Rightarrow> string \<Rightarrow> nat list option" where
  "base64_scan q started pads left [] = (if q = 0 then Some [] else None)"
| "base64_scan q started pads left (c # s) =
     (if c = CHR ''='' then
        (if 2 \<le> q \<and> 4 \<le> q + pads + 1 then (if s = [] then Some [] else None)
         else base64_scan q True (if 2 \<le> q then pads + 1 else pads) left s)
      else case base64_value c of
        None \<Rightarrow> None
      | Some v \<Rightarrow>
          (if started then None
           else if q = 0 then base64_scan 1 False 0 v s
           else if q = 1 then map_option ((#) (left * 4 + v div 16)) (base64_scan 2 False 0 (v mod 16) s)
           else if q = 2 then map_option ((#) (left * 16 + v div 4)) (base64_scan 3 False 0 (v mod 4) s)
           else map_option ((#) (left * 64 + v)) (base64_scan 0 False 0 0 s)))"

definition base64_decode :: "string \<Rightarrow> nat list option" where
  "base64_decode s = (if s \<noteq> [] \<and> hd s = CHR ''='' then None else base64_scan 0 False 0 0 s)"

section \<open>Encoding\<close>

definition base64_char :: "nat \<Rightarrow> char" where
  "base64_char v =
     (if v < 26 then char_of (v + 65)
      else if v < 52 then char_of (v + 71)
      else if v < 62 then char_of (v - 4)
      else if v = 62 then CHR ''+'' else CHR ''/'')"

fun base64_encode :: "nat list \<Rightarrow> string" where
  "base64_encode [] = []"
| "base64_encode [a] = [base64_char (a div 4), base64_char (a mod 4 * 16), CHR ''='', CHR ''='']"
| "base64_encode [a, b] =
     [base64_char (a div 4), base64_char (a mod 4 * 16 + b div 16), base64_char (b mod 16 * 4), CHR ''='']"
| "base64_encode (a # b # c # r) =
     base64_char (a div 4) # base64_char (a mod 4 * 16 + b div 16) # base64_char (b mod 16 * 4 + c div 64) #
     base64_char (c mod 64) # base64_encode r"

lemma base64_char_code:
  "v < 64 \<Longrightarrow> (of_char (base64_char v) :: nat) =
     (if v < 26 then v + 65 else if v < 52 then v + 71 else if v < 62 then v - 4 else if v = 62 then 43 else 47)"
  by (simp add: base64_char_def)

lemma base64_value_code:
  "base64_value c =
     (let n = (of_char c :: nat)
      in if 65 \<le> n \<and> n \<le> 90 then Some (n - 65) else if 97 \<le> n \<and> n \<le> 122 then Some (n - 71)
         else if 48 \<le> n \<and> n \<le> 57 then Some (n + 4) else if n = 43 then Some 62 else if n = 47 then Some 63 else None)"
proof -
  have "c = CHR ''+'' \<longleftrightarrow> (of_char c :: nat) = of_char (CHR ''+'')" "c = CHR ''/'' \<longleftrightarrow> (of_char c :: nat) = of_char (CHR ''/'')"
    by (simp_all only: of_char_eq_iff)
  then show ?thesis by (simp add: base64_value_def ascii_upper_def ascii_lower_def ascii_digit_def Let_def)
qed

lemma base64_char_value:
  assumes "v < 64"
  shows "base64_value (base64_char v) = Some v" "base64_char v \<noteq> CHR ''=''" "(of_char (base64_char v) :: nat) < 128"
proof -
  note code = base64_char_code [OF assms]
  show "base64_value (base64_char v) = Some v"
    using assms by (simp add: base64_value_code code Let_def) arith
  show "base64_char v \<noteq> CHR ''=''"
  proof
    assume "base64_char v = CHR ''=''"
    then have "(of_char (base64_char v) :: nat) = 61" by simp
    with assms show False by (simp add: code split: if_splits)
  qed
  show "(of_char (base64_char v) :: nat) < 128" using assms by (simp add: code) arith
qed

lemma base64_scan_encode:
  "list_all (\<lambda>b. b < 256) bs \<Longrightarrow> base64_scan 0 False 0 0 (base64_encode bs) = Some bs"
proof (induction bs rule: base64_encode.induct)
  case (2 a)
  then have "a div 4 < 64" "a mod 4 * 16 < 64" by auto
  then show ?case by (simp add: base64_char_value)
next
  case (3 a b)
  then have "a div 4 < 64" "a mod 4 * 16 + b div 16 < 64" "b mod 16 * 4 < 64" "b div 16 div 16 = 0" "b div 16 mod 16 = b div 16" by auto
  then show ?case by (simp add: base64_char_value)
next
  case (4 a b c r)
  then have "a div 4 < 64" "a mod 4 * 16 + b div 16 < 64" "b mod 16 * 4 + c div 64 < 64" "c mod 64 < 64"
    "b div 16 div 16 = 0" "b div 16 mod 16 = b div 16" "c div 64 div 4 = 0" "c div 64 mod 4 = c div 64"
    "(b mod 16 * 4 + c div 64) div 4 = b mod 16" "(b mod 16 * 4 + c div 64) mod 4 = c div 64" by auto
  with 4 show ?case by (simp add: base64_char_value)
qed simp

lemma base64_round_trip:
  assumes "list_all (\<lambda>b. b < 256) bs"
  shows "base64_decode (base64_encode bs) = Some bs"
proof -
  have "base64_encode bs \<noteq> [] \<and> hd (base64_encode bs) = CHR ''='' \<Longrightarrow> False"
    using assms by (cases bs rule: base64_encode.cases) (auto simp: base64_char_value)
  then show ?thesis using base64_scan_encode [OF assms] by (auto simp: base64_decode_def)
qed

lemma base64_ascii: "list_all (\<lambda>b. b < 256) bs \<Longrightarrow> c \<in> set (base64_encode bs) \<Longrightarrow> (of_char c :: nat) < 128"
  by (induction bs rule: base64_encode.induct) (auto simp: base64_char_value)

end
