(* ===== verification/Shlex.thy ===== *)
theory Shlex
  imports PyStr
begin

text \<open>
  The two functions of \<open>shlex\<close> the source builds command texts with, \<open>quote\<close> and \<open>join\<close>,
  and \<open>shlex.split\<close> in its POSIX mode as the reader they are meant for: what \<open>join\<close> prints
  is read back as the same list of words, so no argument can end a word or start another.
\<close>

section \<open>Quoting\<close>

definition shell_safe :: "char \<Rightarrow> bool" where
  "shell_safe c \<longleftrightarrow> ascii_digit c \<or> ascii_lower c \<or> ascii_upper c \<or> c \<in> set ''_@%+=:,./-''"

definition single_quote :: char where
  "single_quote = CHR 0x27"

definition double_quote :: char where
  "double_quote = CHR 0x22"

definition shlex_quote :: "string \<Rightarrow> string" where
  "shlex_quote s =
     (if s = [] then [single_quote, single_quote]
      else if list_all shell_safe s then s
      else single_quote #
             concat (map (\<lambda>c. if c = single_quote
                               then [single_quote, double_quote, single_quote, double_quote, single_quote]
                               else [c]) s) @ [single_quote])"

definition shlex_join :: "string list \<Rightarrow> string" where
  "shlex_join ws = join_with '' '' (map shlex_quote ws)"

section \<open>Reading\<close>

text \<open>
  \<open>shlex.split\<close>: a word is being read (\<open>Some\<close> of what is read so far, reversed) or not
  (\<open>None\<close>); quotes and the backslash are removed as they are met.
\<close>

datatype lex_state = Between | Word string | InSingle string | InDouble string | Escape string | EscapeDouble string

definition lex_space :: "char \<Rightarrow> bool" where
  "lex_space c \<longleftrightarrow> c \<in> {CHR '' '', CHR 0x09, CHR 0x0D, CHR 0x0A}"

definition start_char :: "char \<Rightarrow> string \<Rightarrow> lex_state" where
  "start_char c w =
     (if c = single_quote then InSingle w
      else if c = double_quote then InDouble w
      else if c = CHR 0x5C then Escape w else Word (c # w))"

fun shlex_split :: "lex_state \<Rightarrow> string \<Rightarrow> string list option" where
  "shlex_split Between [] = Some []"
| "shlex_split (Word w) [] = Some [rev w]"
| "shlex_split _ [] = None"
| "shlex_split Between (c # s) =
     (if lex_space c then shlex_split Between s else shlex_split (start_char c []) s)"
| "shlex_split (Word w) (c # s) =
     (if lex_space c then map_option ((#) (rev w)) (shlex_split Between s) else shlex_split (start_char c w) s)"
| "shlex_split (InSingle w) (c # s) =
     (if c = single_quote then shlex_split (Word w) s else shlex_split (InSingle (c # w)) s)"
| "shlex_split (InDouble w) (c # s) =
     (if c = double_quote then shlex_split (Word w) s
      else if c = CHR 0x5C then shlex_split (EscapeDouble w) s
      else shlex_split (InDouble (c # w)) s)"
| "shlex_split (Escape w) (c # s) = shlex_split (Word (c # w)) s"
| "shlex_split (EscapeDouble w) (c # s) =
     shlex_split (InDouble (if c = CHR 0x5C \<or> c = double_quote then c # w else c # CHR 0x5C # w)) s"

section \<open>Reading back\<close>

lemma shell_safe_plain:
  "shell_safe c \<Longrightarrow> \<not> lex_space c \<and> c \<noteq> single_quote \<and> c \<noteq> double_quote \<and> c \<noteq> CHR 0x5C"
  by (auto simp: shell_safe_def lex_space_def single_quote_def double_quote_def ascii_digit_def ascii_lower_def
      ascii_upper_def)

lemma split_safe: "list_all shell_safe s \<Longrightarrow> shlex_split (Word w) (s @ t) = shlex_split (Word (rev s @ w)) t"
proof (induction s arbitrary: w)
  case (Cons c s)
  with shell_safe_plain [of c] show ?case by (simp add: start_char_def)
qed simp

lemma split_quoted:
  "shlex_split (InSingle w)
     (concat (map (\<lambda>c. if c = single_quote then [single_quote, double_quote, single_quote, double_quote, single_quote]
                        else [c]) s) @ single_quote # t) =
   shlex_split (Word (rev s @ w)) t"
proof (induction s arbitrary: w)
  case (Cons c s)
  have "\<not> lex_space single_quote" "\<not> lex_space double_quote" "single_quote \<noteq> double_quote" "single_quote \<noteq> CHR 0x5C"
    by (simp_all add: lex_space_def single_quote_def double_quote_def)
  with Cons show ?case by (simp add: start_char_def)
qed simp

lemma split_quote: "shlex_split Between (shlex_quote s @ t) = shlex_split (Word (rev s)) t"
proof -
  have q: "\<not> lex_space single_quote" by (simp add: lex_space_def single_quote_def)
  show ?thesis
  proof (cases "s = [] \<or> \<not> list_all shell_safe s")
    case True
    then show ?thesis
      using q split_quoted [of "[]" s t] by (auto simp: shlex_quote_def start_char_def)
  next
    case False
    then obtain c r where s: "s = c # r" "list_all shell_safe r" "shell_safe c" by (cases s) auto
    with False split_safe [OF s(2), of "[c]" t] shell_safe_plain [OF s(3)] show ?thesis
      by (simp add: shlex_quote_def start_char_def)
  qed
qed

lemma split_join: "shlex_split Between (shlex_join ws) = Some ws"
proof (induction ws)
  case Nil
  show ?case by (simp add: shlex_join_def)
next
  case (Cons w ws)
  have sp: "lex_space (CHR '' '')" by (simp add: lex_space_def)
  show ?case
  proof (cases ws)
    case Nil
    then show ?thesis using split_quote [of w "[]"] by (simp add: shlex_join_def)
  next
    case (Cons v vs)
    then show ?thesis
      using \<open>shlex_split Between (shlex_join ws) = Some ws\<close> split_quote [of w "'' '' @ shlex_join ws"] sp by (simp add: shlex_join_def)
  qed
qed

end
