(* ===== verification/Registry.thy ===== *)
theory Registry
  imports Process_Identity Json_Round_Trip Base64 Shlex
begin

text \<open>
  runtime_daemon.py, what a request is checked against: the names and keys a client may
  give, who the authenticated owner is, who may act on a registry record, and the registry
  itself, a directory of JSON documents that are replaced atomically.
\<close>

section \<open>Names and keys\<close>

definition runtime_prefix :: string where
  "runtime_prefix = ''freebsd-lab-''"

text \<open>\<open>RUNTIME_NAME_RE.fullmatch(name)\<close>\<close>

definition runtime_name_ok :: "string \<Rightarrow> bool" where
  "runtime_name_ok s \<longleftrightarrow>
     starts_with runtime_prefix s \<and>
     (let r = drop (length runtime_prefix) s
      in 1 \<le> length r \<and> length r \<le> 16 \<and> list_all (\<lambda>c. ascii_lower c \<or> ascii_digit c) r)"

definition validate_name :: "pyval \<Rightarrow> exn + string" where
  "validate_name v =
     (case v of
        PStr s \<Rightarrow> if runtime_name_ok s then Inr s
                  else Inl (Exn ValueError ''Invalid FreeBSD Laboratory runtime name'')
      | _ \<Rightarrow> Inl (Exn ValueError ''Invalid FreeBSD Laboratory runtime name''))"

definition validate_owner_pid :: "pyval \<Rightarrow> exn + int" where
  "validate_owner_pid v =
     (case v of
        PInt p \<Rightarrow> if p \<le> 1 then Inl (Exn ValueError ''owner_pid must be a positive host process id'') else Inr p
      | _ \<Rightarrow> Inl (Exn ValueError ''owner_pid must be a positive host process id''))"

text \<open>\<open>s.split(maxsplit=2)\<close> on stripped text, as far as its first two fields.\<close>

definition validate_ssh_public_key :: "pyval \<Rightarrow> exn + string" where
  "validate_ssh_public_key v =
     (case v of
        PStr value \<Rightarrow>
          (if value = [] \<or> length value > 1024 then Inl (Exn ValueError ''Runtime SSH public key is invalid'')
           else if CHR 0x0A \<in> set value \<or> CHR 0x0D \<in> set value then
             Inl (Exn ValueError ''Runtime SSH public key must be one line'')
           else case split_ws value of
             kind # data # _ \<Rightarrow>
               (if kind \<noteq> ''ssh-ed25519'' then Inl (Exn ValueError ''Runtime SSH public key must be Ed25519'')
                else case base64_decode data of
                  None \<Rightarrow> Inl (Exn ValueError ''Runtime SSH public key has invalid base64'')
                | Some blob \<Rightarrow>
                    (if length blob \<noteq> 51 \<or> take 4 blob \<noteq> [0, 0, 0, 11]
                        \<or> take 11 (drop 4 blob) \<noteq> map of_char ''ssh-ed25519''
                        \<or> take 4 (drop 15 blob) \<noteq> [0, 0, 0, 32]
                     then Inl (Exn ValueError ''Runtime SSH public key has invalid Ed25519 encoding'')
                     else Inr (''ssh-ed25519 '' @ data)))
           | _ \<Rightarrow> Inl (Exn ValueError ''Runtime SSH public key must be Ed25519''))
      | _ \<Rightarrow> Inl (Exn ValueError ''Runtime SSH public key is invalid''))"

section \<open>Owners\<close>

record runtime_owner =
  own_pid :: int
  own_uid :: int
  own_gid :: int
  own_started_at :: string
  own_digest :: string

definition registry_fields :: "runtime_owner \<Rightarrow> record_doc" where
  "registry_fields o' =
     [(''owner_pid'', PInt (own_pid o')), (''owner_uid'', PInt (own_uid o')), (''owner_gid'', PInt (own_gid o')),
      (''owner_started_at'', PStr (own_started_at o')), (''owner_process_digest'', PStr (own_digest o'))]"

definition owner_from_peer :: "'w host \<Rightarrow> 'w \<Rightarrow> peer_credentials \<Rightarrow> pyval \<Rightarrow> exn + runtime_owner" where
  "owner_from_peer h w peer requested =
     (case validate_owner_pid requested of
        Inl e \<Rightarrow> Inl e
      | Inr pid \<Rightarrow>
          (if pid \<noteq> peer_pid peer then
             Inl (Exn PermissionError (''owner_pid '' @ int_str pid @ '' does not match authenticated peer pid ''
                                        @ int_str (peer_pid peer)))
           else case query_process_identity h w (peer_pid peer) of
             Inl e \<Rightarrow> Inl e
           | Inr None \<Rightarrow> Inl (Exn PermissionError ''Unable to fingerprint authenticated peer process'')
           | Inr (Some i) \<Rightarrow>
               (if id_uid i \<noteq> peer_uid peer then
                  Inl (Exn PermissionError (''Authenticated peer uid '' @ int_str (peer_uid peer)
                                            @ '' does not own pid '' @ int_str (peer_pid peer)))
                else Inr \<lparr>own_pid = peer_pid peer, own_uid = peer_uid peer, own_gid = peer_gid peer,
                          own_started_at = id_started_at i, own_digest = id_digest i\<rparr>)))"

definition owner_alive :: "'w host \<Rightarrow> 'w \<Rightarrow> record_doc \<Rightarrow> exn + bool" where
  "owner_alive h w r =
     (case (pget r ''owner_pid'', pget r ''owner_uid'', pget r ''owner_process_digest'') of
        (PInt pid, PInt uid, PStr digest) \<Rightarrow>
          (if pid \<le> 1 \<or> digest = [] then Inr False else process_matches h w pid uid digest)
      | _ \<Rightarrow> Inr False)"

definition authorize_record :: "record_doc \<Rightarrow> pyval \<Rightarrow> exn + unit" where
  "authorize_record r requester =
     (case requester of
        PInt uid \<Rightarrow>
          (if uid < 0 then Inl (Exn PermissionError ''Runtime operation has no authenticated requester'')
           else if uid = 0 then Inr ()
           else case pget r ''owner_uid'' of
             PInt owner \<Rightarrow>
               (if owner \<noteq> uid then Inl (Exn PermissionError ''Runtime is owned by another Unix user'') else Inr ())
           | _ \<Rightarrow> Inl (Exn PermissionError ''Runtime is owned by another Unix user''))
      | _ \<Rightarrow> Inl (Exn PermissionError ''Runtime operation has no authenticated requester''))"

definition record_owned_by :: "record_doc \<Rightarrow> runtime_owner \<Rightarrow> bool" where
  "record_owned_by r o' \<longleftrightarrow>
     py_eq_int (pget r ''owner_pid'') (own_pid o') \<and> py_eq_int (pget r ''owner_uid'') (own_uid o') \<and>
     py_eq_int (pget r ''owner_gid'') (own_gid o') \<and> py_eq_str (pget r ''owner_process_digest'') (own_digest o')"

section \<open>The registry\<close>

datatype reg_file = RFile string | RLink | ROther

type_synonym registry = "reg_file dir"

definition registry_path :: "string \<Rightarrow> string" where
  "registry_path name = name @ ''.json''"

definition load_registry :: "registry \<Rightarrow> string \<Rightarrow> exn + record_doc option" where
  "load_registry d name =
     (case dir_get d (registry_path name) of
        Some (RFile b) \<Rightarrow>
          (case utf8_decode b of
             None \<Rightarrow> Inl (Exn UnicodeDecodeError ''invalid start byte'')
           | Some t \<Rightarrow>
               (case loads t of
                  Some (PDict r) \<Rightarrow> Inr (Some r)
                | _ \<Rightarrow> Inl (Exn RuntimeError (''Invalid runtime registry record: '' @ registry_path name))))
      | _ \<Rightarrow> Inr None)"

definition record_text :: "record_doc \<Rightarrow> string" where
  "record_text r = json_text True (PDict r) @ [CHR 0x0A]"

text \<open>
  \<open>_write_registry\<close>: the text goes to a fresh temporary file, which then replaces the
  target; whatever fails, the temporary is unlinked. \<open>cfail\<close> and \<open>wfail\<close> tell the paths
  whose creation or writing fails, \<open>tmp\<close> is the name \<open>mkstemp\<close> chose. A directory at the
  target makes the replacement fail.
\<close>

definition write_registry ::
    "(string \<Rightarrow> bool) \<Rightarrow> (string \<Rightarrow> bool) \<Rightarrow> string \<Rightarrow> string \<Rightarrow> record_doc \<Rightarrow> (registry, unit) prog" where
  "write_registry cfail wfail tmp name r =
     (if cfail tmp then raise_p OSError ''Permission denied''
      else finally_p
        (then_p (modify_p (dir_put tmp (RFile [])))
          (if wfail tmp then raise_p OSError ''No space left on device''
           else then_p (modify_p (dir_put tmp (RFile (utf8_encode (record_text r)))))
             (\<lambda>d. if dir_get d (registry_path name) = Some ROther
                   then (Raise (Exn OSError ''Is a directory''), d)
                   else (Ret (), dir_put (registry_path name) (RFile (utf8_encode (record_text r))) (dir_del tmp d)))))
        (modify_p (dir_del tmp)))"

definition delete_registry :: "string \<Rightarrow> (registry, unit) prog" where
  "delete_registry name = modify_p (dir_del (registry_path name))"

text \<open>
  \<open>_registered\<close>: the records of the regular files whose names are runtime names, in the
  order of the sorted paths. One unreadable record ends the whole scan.
\<close>

definition stem_json :: "string \<Rightarrow> string" where
  "stem_json file = take (length file - 5) file"

definition registered_names :: "registry \<Rightarrow> string list" where
  "registered_names d =
     filter runtime_name_ok
       (map stem_json
         (filter (\<lambda>f. dir_get d f \<noteq> Some RLink)
           (sort (filter (\<lambda>f. starts_with runtime_prefix f \<and> ends_with ''.json'' f
                               \<and> length runtime_prefix + 5 \<le> length f) (dir_names d)))))"

fun load_all :: "registry \<Rightarrow> string list \<Rightarrow> exn + (string \<times> record_doc) list" where
  "load_all d [] = Inr []"
| "load_all d (n # ns) =
     (case load_registry d n of
        Inl e \<Rightarrow> Inl e
      | Inr None \<Rightarrow> load_all d ns
      | Inr (Some r) \<Rightarrow> (case load_all d ns of Inl e \<Rightarrow> Inl e | Inr rs \<Rightarrow> Inr ((n, r) # rs)))"

definition registered :: "registry \<Rightarrow> exn + (string \<times> record_doc) list" where
  "registered d = load_all d (registered_names d)"

section \<open>Lemmas\<close>

lemma runtime_name_chars:
  "runtime_name_ok n \<Longrightarrow> c \<in> set n \<Longrightarrow> ascii_lower c \<or> ascii_digit c \<or> c = CHR ''-''"
proof -
  assume ok: "runtime_name_ok n" and c: "c \<in> set n"
  then obtain r where n: "n = runtime_prefix @ r" by (auto simp: runtime_name_ok_def starts_with_iff)
  with ok have "list_all (\<lambda>c. ascii_lower c \<or> ascii_digit c) r" by (simp add: runtime_name_ok_def Let_def)
  moreover have "list_all (\<lambda>c. ascii_lower c \<or> ascii_digit c \<or> c = CHR ''-'') runtime_prefix"
    by (simp add: runtime_prefix_def ascii_lower_def)
  ultimately show ?thesis using c by (auto simp: n list_all_iff)
qed

lemma runtime_name_length: "runtime_name_ok n \<Longrightarrow> 13 \<le> length n \<and> length n \<le> 28"
  by (auto simp: runtime_name_ok_def runtime_prefix_def Let_def starts_with_iff)

lemma runtime_name_hd: "runtime_name_ok n \<Longrightarrow> \<exists>r. n = CHR ''f'' # r"
  by (auto simp: runtime_name_ok_def runtime_prefix_def starts_with_iff)

lemma runtime_name_no_space: "runtime_name_ok n \<Longrightarrow> c \<in> set n \<Longrightarrow> \<not> is_space c"
  using runtime_name_chars [of n c] by (auto simp: ascii_lower_def ascii_digit_def is_space_def)

lemma runtime_name_nonempty: "runtime_name_ok n \<Longrightarrow> n \<noteq> []"
  by (auto dest: runtime_name_hd)

lemma registry_path_inject [simp]: "registry_path m = registry_path n \<longleftrightarrow> m = n"
  by (simp add: registry_path_def)

lemma load_registry_cong:
  "dir_get d (registry_path n) = dir_get d' (registry_path n) \<Longrightarrow> load_registry d n = load_registry d' n"
  by (simp add: load_registry_def)

lemma write_registry_other:
  assumes "write_registry cf xf tmp n r d = (x, d')" "m \<noteq> registry_path n" "m \<noteq> tmp"
  shows "dir_get d' m = dir_get d m"
  using assms
  by (auto simp: write_registry_def finally_p_def dir_simps split: if_splits prod.splits res.splits)

lemma write_registry_Ret:
  assumes "write_registry cf xf tmp n r d = (Ret u, d')" "tmp \<noteq> registry_path n"
  shows "dir_get d' (registry_path n) = Some (RFile (utf8_encode (record_text r)))"
  using assms
  by (auto simp: write_registry_def finally_p_def dir_simps split: if_splits prod.splits res.splits)

lemma write_registry_Raise:
  assumes "write_registry cf xf tmp n r d = (Raise e, d')" "tmp \<noteq> registry_path n"
  shows "dir_get d' (registry_path n) = dir_get d (registry_path n)"
  using assms
  by (auto simp: write_registry_def finally_p_def dir_simps split: if_splits prod.splits res.splits)

lemma write_registry_tmp:
  assumes "write_registry cf xf tmp n r d = (x, d')" "\<not> cf tmp" "tmp \<noteq> registry_path n"
  shows "dir_get d' tmp = None"
  using assms
  by (auto simp: write_registry_def finally_p_def dir_simps split: if_splits prod.splits res.splits)

lemma write_registry_not_Stuck: "write_registry cf xf tmp n r d \<noteq> (Stuck, d')"
  by (auto simp: write_registry_def finally_p_def split: if_splits prod.splits res.splits)

text \<open>What was written is what is read.\<close>

lemma load_registry_written:
  assumes "dir_get d (registry_path n) = Some (RFile (utf8_encode (record_text r)))" "json_ok (PDict r)"
  shows "\<exists>r'. load_registry d n = Inr (Some r') \<and> json_norm (PDict r) = PDict r'"
proof -
  have "loads (record_text r) = Some (json_norm (PDict r))"
    using loads_json_text_newline [OF assms(2)] by (simp add: record_text_def)
  moreover obtain r' where "json_norm (PDict r) = PDict r'" by (simp add: json_norm.simps)
  ultimately show ?thesis using assms(1) by (simp add: load_registry_def)
qed

lemma registry_path_stem: "ends_with ''.json'' f \<Longrightarrow> registry_path (stem_json f) = f"
proof -
  assume "ends_with ''.json'' f"
  then have "drop (length f - 5) f = ''.json''" by (simp add: ends_with_def numeral_eq_Suc)
  then show ?thesis
    using append_take_drop_id [of "length f - 5" f] by (simp only: stem_json_def registry_path_def)
qed

lemma registered_names_iff:
  "n \<in> set (registered_names d) \<longleftrightarrow>
     runtime_name_ok n \<and> dir_get d (registry_path n) \<noteq> None \<and> dir_get d (registry_path n) \<noteq> Some RLink"
proof
  assume "n \<in> set (registered_names d)"
  then obtain f where f: "n = stem_json f" "runtime_name_ok n" "dir_get d f \<noteq> Some RLink" "ends_with ''.json'' f"
      "dir_get d f \<noteq> None"
    by (auto simp: registered_names_def dirs.names_iff)
  then have "f = registry_path n" using registry_path_stem by metis
  with f show "runtime_name_ok n \<and> dir_get d (registry_path n) \<noteq> None \<and> dir_get d (registry_path n) \<noteq> Some RLink"
    by simp
next
  assume n: "runtime_name_ok n \<and> dir_get d (registry_path n) \<noteq> None \<and> dir_get d (registry_path n) \<noteq> Some RLink"
  then have "starts_with runtime_prefix (registry_path n)"
    by (auto simp: runtime_name_ok_def starts_with_iff registry_path_def)
  moreover have "length runtime_prefix + 5 \<le> length (registry_path n)"
    using runtime_name_length [of n] n by (simp add: registry_path_def runtime_prefix_def)
  moreover have "stem_json (registry_path n) = n" by (simp add: stem_json_def registry_path_def)
  moreover have "ends_with ''.json'' (registry_path n)" by (simp add: registry_path_def)
  ultimately show "n \<in> set (registered_names d)"
    using n by (force simp: registered_names_def dirs.names_iff)
qed

lemma load_all_Inr:
  "load_all d ns = Inr rs \<Longrightarrow> (n, r) \<in> set rs \<longleftrightarrow> n \<in> set ns \<and> load_registry d n = Inr (Some r)"
  by (induction ns arbitrary: rs) (force split: sum.splits option.splits)+

lemma load_all_Inl: "(\<exists>e. load_all d ns = Inl e) \<longleftrightarrow> (\<exists>n \<in> set ns. \<exists>e. load_registry d n = Inl e)"
  by (induction ns) (auto split: sum.splits option.splits)

lemma registered_iff:
  assumes "registered d = Inr rs"
  shows "(n, r) \<in> set rs \<longleftrightarrow> runtime_name_ok n \<and> load_registry d n = Inr (Some r)"
proof -
  have "load_registry d n = Inr (Some r) \<Longrightarrow>
      dir_get d (registry_path n) \<noteq> None \<and> dir_get d (registry_path n) \<noteq> Some RLink"
    by (auto simp: load_registry_def split: option.splits reg_file.splits)
  with load_all_Inr [OF assms [unfolded registered_def]] registered_names_iff show ?thesis by blast
qed

lemma authorize_cases:
  "authorize_record r q = Inr () \<longleftrightarrow> (\<exists>u. q = PInt u \<and> 0 \<le> u \<and> (u = 0 \<or> pget r ''owner_uid'' = PInt u))"
  by (auto simp: authorize_record_def split: pyval.splits if_splits)

lemma authorize_Inl: "authorize_record r q = Inl e \<Longrightarrow> exn_kind e = PermissionError"
  by (auto simp: authorize_record_def split: pyval.splits if_splits)

end
