(* ===== verification/Lease_Interface.thy ===== *)
theory Lease_Interface
  imports Prelude
begin

text \<open>
  What a client relies on when it leases a resource from a pool that several clients
  share: the operations with their laws, and the statements about whole histories of
  operations that follow from the laws alone. The address pool of the daemon and the
  port pool of the provisioners are its two providers.
\<close>

datatype ('a, 'o) lease_event = Acquire 'o | GiveBack 'a 'o | Purge "'o set"

locale lease_pool =
  fixes holds :: "'d \<Rightarrow> 'a \<Rightarrow> 'o \<Rightarrow> bool"
    and acquire :: "'o \<Rightarrow> 'd \<Rightarrow> 'a list \<times> 'd"
    and give_back :: "'a \<Rightarrow> 'o \<Rightarrow> 'd \<Rightarrow> 'd"
    and purge :: "'o set \<Rightarrow> 'd \<Rightarrow> 'd"
    and owner_ok :: "'o \<Rightarrow> bool"
  assumes acquire_new: "owner_ok w \<Longrightarrow> acquire w d = (as, d') \<Longrightarrow> a \<in> set as \<Longrightarrow>
              (\<forall>v. \<not> holds d a v) \<and> holds d' a w"
    and acquire_keeps: "owner_ok w \<Longrightarrow> holds d b v \<Longrightarrow> acquire w d = (as, d') \<Longrightarrow> holds d' b v"
    and give_back_keeps: "holds d b v \<Longrightarrow> b \<noteq> a \<or> v \<noteq> w \<Longrightarrow> holds (give_back a w d) b v"
    and purge_keeps: "holds d b v \<Longrightarrow> v \<in> act \<Longrightarrow> holds (purge act d) b v"
begin

fun lease_step :: "'d \<Rightarrow> ('a, 'o) lease_event \<Rightarrow> 'd" where
  "lease_step d (Acquire w) = snd (acquire w d)"
| "lease_step d (GiveBack a w) = give_back a w d"
| "lease_step d (Purge act) = purge act d"

text \<open>What a history hands out, in order.\<close>

fun granted :: "'d \<Rightarrow> ('a, 'o) lease_event list \<Rightarrow> ('a \<times> 'o) list" where
  "granted d [] = []"
| "granted d (e # es) =
     (case e of Acquire w \<Rightarrow> map (\<lambda>a. (a, w)) (fst (acquire w d)) | _ \<Rightarrow> []) @ granted (lease_step d e) es"

text \<open>An event that does not end the lease of \<open>a\<close> by \<open>v\<close>.\<close>

fun spares :: "'a \<Rightarrow> 'o \<Rightarrow> ('a, 'o) lease_event \<Rightarrow> bool" where
  "spares a v (Acquire w) = owner_ok w"
| "spares a v (GiveBack b w) = (b \<noteq> a \<or> w \<noteq> v)"
| "spares a v (Purge act) = (v \<in> act)"

lemma step_keeps: "holds d a v \<Longrightarrow> spares a v e \<Longrightarrow> holds (lease_step d e) a v"
proof (cases e)
  case (Acquire w)
  assume "holds d a v" "spares a v e"
  with Acquire acquire_keeps [of w d a v] show ?thesis by (cases "acquire w d") auto
qed (auto intro: give_back_keeps purge_keeps)

lemma run_keeps:
  "holds d a v \<Longrightarrow> list_all (spares a v) es \<Longrightarrow> holds (run_steps lease_step d es) a v"
  by (induction es arbitrary: d) (auto intro: step_keeps)

text \<open>While a resource is leased, it is handed out to nobody.\<close>

lemma not_granted_while_held:
  "holds d a v \<Longrightarrow> list_all (spares a v) es \<Longrightarrow> a \<notin> fst ` set (granted d es)"
proof (induction es arbitrary: d)
  case Nil
  then show ?case by simp
next
  case (Cons e es)
  have "holds (lease_step d e) a v" using Cons.prems by (auto intro: step_keeps)
  then have later: "a \<notin> fst ` set (granted (lease_step d e) es)" using Cons.IH Cons.prems(2) by simp
  have now: "a \<notin> set (fst (acquire w d))" if "e = Acquire w" for w
  proof
    assume "a \<in> set (fst (acquire w d))"
    moreover have "owner_ok w" using Cons.prems(2) that by simp
    ultimately have "\<not> holds d a v" using acquire_new [of w d "fst (acquire w d)" "snd (acquire w d)" a] by simp
    with Cons.prems(1) show False by simp
  qed
  show ?case using later now by (auto split: lease_event.splits)
qed

text \<open>Two grants in one history: if nothing between them ends the first, they differ.\<close>

lemma granted_disjoint:
  assumes "owner_ok w" "acquire w d = (as, d')" "a \<in> set as" "list_all (spares a w) es"
  shows "a \<notin> fst ` set (granted d' es)"
  using acquire_new [OF assms(1,2,3)] assms(4) not_granted_while_held by blast

end

end
