(* ===== verification/Ipv4_Pool.thy ===== *)
theory Ipv4_Pool
  imports PyStr Lease_Interface
begin

text \<open>
  network.py: the file-backed allocator of private addresses. The lease directory is a
  directory of the prelude whose entries are regular files with their bytes, symbolic
  links, or other objects; the lock file has another suffix and is not an entry. An
  address is its 32-bit value, and the name of its lease file the dotted text of it.
  The exclusive lock around every operation makes each one a single step.
\<close>

section \<open>Addresses and networks\<close>

definition ipv4_str :: "nat \<Rightarrow> string" where
  "ipv4_str n = join_with ''.''
     [nat_str (n div 16777216 mod 256), nat_str (n div 65536 mod 256), nat_str (n div 256 mod 256), nat_str (n mod 256)]"

definition parse_octet :: "string \<Rightarrow> nat option" where
  "parse_octet s =
     (if s \<noteq> [] \<and> list_all ascii_digit s \<and> length s \<le> 3 \<and> (length s = 1 \<or> hd s \<noteq> CHR ''0'') \<and> read_digits s \<le> 255
      then Some (read_digits s) else None)"

text \<open>
  \<open>ipaddress.ip_address\<close> for IPv4 text. IPv6 text is accepted by the library too; every
  use here then refuses it, because its version differs from the pool's network.
\<close>

definition parse_ipv4 :: "string \<Rightarrow> nat option" where
  "parse_ipv4 s =
     (case split_on (CHR ''.'') s of
        [a, b, c, d] \<Rightarrow>
          (case (parse_octet a, parse_octet b, parse_octet c, parse_octet d) of
             (Some a', Some b', Some c', Some d') \<Rightarrow> Some (((a' * 256 + b') * 256 + c') * 256 + d')
           | _ \<Rightarrow> None)
      | _ \<Rightarrow> None)"

record net4 =
  net_base :: nat
  net_prefixlen :: nat

definition net_mask :: "nat \<Rightarrow> nat" where
  "net_mask p = 2 ^ 32 - 2 ^ (32 - p)"

text \<open>The prefix a netmask, or else a hostmask, stands for.\<close>

definition mask_prefix :: "nat \<Rightarrow> nat option" where
  "mask_prefix m =
     (case List.find (\<lambda>p. net_mask p = m) [0..<33] of
        Some p \<Rightarrow> Some p
      | None \<Rightarrow> List.find (\<lambda>p. net_mask p = 2 ^ 32 - 1 - m) [0..<33])"

definition parse_prefix :: "string \<Rightarrow> nat option" where
  "parse_prefix s =
     (if s \<noteq> [] \<and> list_all ascii_digit s then (if read_digits s \<le> 32 then Some (read_digits s) else None)
      else case parse_ipv4 s of None \<Rightarrow> None | Some m \<Rightarrow> mask_prefix m)"

text \<open>\<open>ipaddress.ip_network(s, strict=False)\<close>: the host bits are cleared.\<close>

definition parse_network :: "string \<Rightarrow> net4 option" where
  "parse_network s =
     (case split_on (CHR ''/'') s of
        [a] \<Rightarrow> map_option (\<lambda>n. \<lparr>net_base = n, net_prefixlen = 32\<rparr>) (parse_ipv4 a)
      | [a, p] \<Rightarrow>
          (case (parse_ipv4 a, parse_prefix p) of
             (Some n, Some k) \<Rightarrow> Some \<lparr>net_base = n div 2 ^ (32 - k) * 2 ^ (32 - k), net_prefixlen = k\<rparr>
           | _ \<Rightarrow> None)
      | _ \<Rightarrow> None)"

definition in_network :: "nat \<Rightarrow> net4 \<Rightarrow> bool" where
  "in_network a net \<longleftrightarrow> a div 2 ^ (32 - net_prefixlen net) * 2 ^ (32 - net_prefixlen net) = net_base net"

text \<open>The module's two functions on texts.\<close>

definition prefix_length :: "string \<Rightarrow> exn + nat" where
  "prefix_length cidr =
     (case parse_network cidr of
        None \<Rightarrow> Inl (Exn ValueError cidr) | Some net \<Rightarrow> Inr (net_prefixlen net))"

definition address_in_network :: "string \<Rightarrow> string \<Rightarrow> exn + bool" where
  "address_in_network address cidr =
     (case (parse_ipv4 address, parse_network cidr) of
        (None, _) \<Rightarrow> Inl (Exn ValueError address)
      | (_, None) \<Rightarrow> Inl (Exn ValueError cidr)
      | (Some a, Some net) \<Rightarrow> Inr (in_network a net))"

section \<open>The pool\<close>

record ipv4_pool =
  pool_network :: net4
  pool_start :: nat
  pool_end :: nat

definition ipv4_pool_init :: "string \<Rightarrow> string \<Rightarrow> string \<Rightarrow> exn + ipv4_pool" where
  "ipv4_pool_init network start stop =
     (case (parse_network network, parse_ipv4 start, parse_ipv4 stop) of
        (Some net, Some a, Some b) \<Rightarrow>
          (if \<not> in_network a net \<or> \<not> in_network b net then
             Inl (Exn ValueError ''Address pool must be contained in network_cidr'')
           else if a > b then
             Inl (Exn ValueError ''address_start must not be greater than address_end'')
           else Inr \<lparr>pool_network = net, pool_start = a, pool_end = b\<rparr>)
      | _ \<Rightarrow> Inl (Exn ValueError ''FreeBSD Laboratory private transport requires IPv4''))"

datatype lease_file = LFile string | LLink | LOther

type_synonym lease_dir = "lease_file dir"

definition lease_path :: "nat \<Rightarrow> string" where
  "lease_path a = ipv4_str a @ ''.lease''"

text \<open>
  \<open>path.read_text(encoding="utf-8").strip()\<close>: an object that is not a regular file raises
  OSError, bytes that are not UTF-8 raise UnicodeDecodeError.
\<close>

definition read_lease :: "lease_file \<Rightarrow> exn + string" where
  "read_lease f =
     (case f of
        LFile b \<Rightarrow>
          (case utf8_decode b of
             None \<Rightarrow> Inl (Exn UnicodeDecodeError ''invalid start byte'')
           | Some t \<Rightarrow> Inr (py_strip t))
      | _ \<Rightarrow> Inl (Exn OSError ''Is a directory''))"

text \<open>
  \<open>allocate\<close>: the first address, in order, whose lease file can be created exclusively.
  \<open>cfail\<close> are the paths whose creation fails with another OSError (then the address is
  skipped), \<open>wfail\<close> those whose write fails (then the empty file stays and the error
  propagates).
\<close>

fun scan_pool :: "(string \<Rightarrow> bool) \<Rightarrow> (string \<Rightarrow> bool) \<Rightarrow> string \<Rightarrow> nat list \<Rightarrow> (lease_dir, string) prog" where
  "scan_pool cfail wfail owner [] =
     raise_p RuntimeError ''No free IPv4 addresses remain in the laboratory pool''"
| "scan_pool cfail wfail owner (v # vs) = (\<lambda>d.
     let path = lease_path v
     in if dir_get d path \<noteq> None then scan_pool cfail wfail owner vs d
        else if cfail path then scan_pool cfail wfail owner vs d
        else if wfail path then (Raise (Exn OSError ''No space left on device''), dir_put path (LFile []) d)
        else (Ret (ipv4_str v), dir_put path (LFile (utf8_encode (owner @ [CHR 0x0A]))) d))"

definition pool_values :: "ipv4_pool \<Rightarrow> nat list" where
  "pool_values p = [pool_start p..<pool_end p + 1]"

definition pool_allocate ::
    "ipv4_pool \<Rightarrow> (string \<Rightarrow> bool) \<Rightarrow> (string \<Rightarrow> bool) \<Rightarrow> string \<Rightarrow> (lease_dir, string) prog" where
  "pool_allocate p cfail wfail owner =
     (if owner = [] then raise_p ValueError ''Lease owner must be a non-empty string''
      else scan_pool cfail wfail owner (pool_values p))"

definition in_pool :: "ipv4_pool \<Rightarrow> nat \<Rightarrow> bool" where
  "in_pool p a \<longleftrightarrow> in_network a (pool_network p) \<and> pool_start p \<le> a \<and> a \<le> pool_end p"

definition pool_release :: "ipv4_pool \<Rightarrow> string \<Rightarrow> string \<Rightarrow> (lease_dir, bool) prog" where
  "pool_release p address owner =
     (if owner = [] then return_p False
      else case parse_ipv4 address of
        None \<Rightarrow> return_p False
      | Some a \<Rightarrow>
          (if \<not> in_pool p a then return_p False
           else bind_p (gets_p (\<lambda>d. dir_get d (lease_path a))) (\<lambda>entry.
             case entry of
               None \<Rightarrow> return_p False
             | Some LLink \<Rightarrow> then_p (modify_p (dir_del (lease_path a))) (return_p False)
             | Some f \<Rightarrow>
                 (case read_lease f of
                    Inl e \<Rightarrow> if is_os_error (exn_kind e) then return_p False else throw_p e
                  | Inr recorded \<Rightarrow>
                      (if recorded \<noteq> owner then return_p False
                       else then_p (modify_p (dir_del (lease_path a))) (return_p True))))))"

text \<open>\<open>path.stem\<close>: the name without its last suffix, where something precedes it.\<close>

definition path_stem :: "string \<Rightarrow> string" where
  "path_stem name =
     (let suffix = after_last (CHR ''.'') name; n = length name - length suffix
      in if CHR ''.'' \<in> set name \<and> 1 < n \<and> suffix \<noteq> [] then take (n - 1) name else name)"

text \<open>
  \<open>clear_orphans\<close>: one visit per entry of the directory that \<open>glob("*.lease")\<close> lists. A
  link is removed silently, an unreadable object is skipped, and a lease whose owner is
  active is kept.
\<close>

definition visit_lease :: "string set \<Rightarrow> string \<Rightarrow> string list \<Rightarrow> (lease_dir, string list) prog" where
  "visit_lease active name removed =
     bind_p (gets_p (\<lambda>d. dir_get d name)) (\<lambda>entry.
       case entry of
         None \<Rightarrow> return_p removed
       | Some LLink \<Rightarrow> then_p (modify_p (dir_del name)) (return_p removed)
       | Some f \<Rightarrow>
           (case read_lease f of
              Inl e \<Rightarrow> if is_os_error (exn_kind e) then return_p removed else throw_p e
            | Inr owner \<Rightarrow>
                (if owner \<in> active then return_p removed
                 else then_p (modify_p (dir_del name)) (return_p (removed @ [path_stem name])))))"

definition clear_orphans :: "string set \<Rightarrow> (lease_dir, string list) prog" where
  "clear_orphans active =
     bind_p (gets_p (\<lambda>d. filter (ends_with ''.lease'') (dir_names d))) (\<lambda>names.
       bind_p (fold_p (visit_lease active) names []) (\<lambda>removed. return_p (sort removed)))"

section \<open>Addresses: text and value\<close>

lemma nat_str_small_length: "n < 256 \<Longrightarrow> length (nat_str n) \<le> 3"
  by (subst nat_str.simps, simp, subst nat_str.simps, simp, subst nat_str.simps, simp)

lemma nat_str_one_digit: "length (nat_str n) = 1 \<or> hd (nat_str n) \<noteq> CHR ''0''"
proof (induction n rule: nat_str.induct)
  case (1 n)
  show ?case
  proof (cases "n < 10")
    case True
    then show ?thesis by (subst nat_str.simps) simp
  next
    case False
    then have "hd (nat_str n) = hd (nat_str (n div 10))"
      by (subst nat_str.simps) simp
    moreover have "hd (nat_str (n div 10)) \<noteq> CHR ''0''"
    proof (cases "n div 10 < 10")
      case True
      with False have "n div 10 \<noteq> 0" by simp
      have "nat_str (n div 10) = [digit_char (n div 10)]" using True by (subst nat_str.simps) simp
      moreover have "digit_char (n div 10) \<noteq> CHR ''0''"
      proof
        assume "digit_char (n div 10) = CHR ''0''"
        then have "digit_val (digit_char (n div 10)) = digit_val (CHR ''0'')" by (rule arg_cong)
        moreover have "digit_val (CHR ''0'') = 0" by (simp add: digit_val_def)
        ultimately show False using True \<open>n div 10 \<noteq> 0\<close> digit_val_digit_char by metis
      qed
      ultimately show ?thesis by simp
    next
      case False
      with "1.IH" \<open>\<not> n < 10\<close> have "length (nat_str (n div 10)) = 1 \<or> hd (nat_str (n div 10)) \<noteq> CHR ''0''"
        by blast
      moreover have "length (nat_str (n div 10)) \<noteq> 1"
        using False by (subst nat_str.simps) simp
      ultimately show ?thesis by blast
    qed
    ultimately show ?thesis by simp
  qed
qed

lemma parse_octet_nat_str: "n < 256 \<Longrightarrow> parse_octet (nat_str n) = Some n"
  using nat_str_one_digit [of n]
  by (auto simp: parse_octet_def nat_str_small_length nat_str_digits list_all_iff)

lemma ipv4_split:
  "split_on (CHR ''.'') (ipv4_str n) =
     [nat_str (n div 16777216 mod 256), nat_str (n div 65536 mod 256), nat_str (n div 256 mod 256), nat_str (n mod 256)]"
  unfolding ipv4_str_def by (rule split_on_join) auto

lemma four_octets:
  assumes "(n :: nat) < 4294967296"
  shows "((n div 16777216 mod 256 * 256 + n div 65536 mod 256) * 256 + n div 256 mod 256) * 256 + n mod 256 = n"
proof -
  have "n div 16777216 = n div 256 div 256 div 256" "n div 65536 = n div 256 div 256"
    by (simp_all flip: div_mult2_eq)
  moreover have "n div 16777216 mod 256 = n div 16777216" using assms by simp
  ultimately show ?thesis
    using div_mult_mod_eq [of n 256] div_mult_mod_eq [of "n div 256" 256]
      div_mult_mod_eq [of "n div 256 div 256" 256] by presburger
qed

lemma parse_ipv4_str [simp]: "n < 4294967296 \<Longrightarrow> parse_ipv4 (ipv4_str n) = Some n"
  unfolding parse_ipv4_def ipv4_split list.case
  by (simp only: parse_octet_nat_str mod_less_divisor zero_less_numeral prod.case option.case four_octets)

lemma ipv4_str_inject: "m < 4294967296 \<Longrightarrow> n < 4294967296 \<Longrightarrow> ipv4_str m = ipv4_str n \<longleftrightarrow> m = n"
  by (metis option.inject parse_ipv4_str)

lemma parse_octet_bound: "parse_octet s = Some n \<Longrightarrow> n < 256"
  by (auto simp: parse_octet_def split: if_splits)

lemma parse_ipv4_bound: "parse_ipv4 s = Some n \<Longrightarrow> n < 4294967296"
  by (auto simp: parse_ipv4_def split: list.splits option.splits dest!: parse_octet_bound)

lemma lease_path_inject:
  "m < 4294967296 \<Longrightarrow> n < 4294967296 \<Longrightarrow> lease_path m = lease_path n \<longleftrightarrow> m = n"
  by (simp add: lease_path_def ipv4_str_inject)

section \<open>The operations\<close>

lemma visit_cases [case_names None Link Other Bad Active Orphan]:
  assumes "entry = None \<Longrightarrow> P" and "entry = Some LLink \<Longrightarrow> P" and "entry = Some LOther \<Longrightarrow> P"
    and "\<And>b. entry = Some (LFile b) \<Longrightarrow> utf8_decode b = None \<Longrightarrow> P"
    and "\<And>b t. entry = Some (LFile b) \<Longrightarrow> utf8_decode b = Some t \<Longrightarrow> py_strip t \<in> act \<Longrightarrow> P"
    and "\<And>b t. entry = Some (LFile b) \<Longrightarrow> utf8_decode b = Some t \<Longrightarrow> py_strip t \<notin> act \<Longrightarrow> P"
  shows P
proof (cases entry)
  case (Some f)
  then show ?thesis
  proof (cases f)
    case (LFile b)
    then show ?thesis using assms(4-6) Some by (cases "utf8_decode b") auto
  qed (use assms Some in auto)
qed (use assms in auto)

lemma read_lease_simps [simp]:
  "read_lease LOther = Inl (Exn OSError ''Is a directory'')"
  "utf8_decode b = None \<Longrightarrow> read_lease (LFile b) = Inl (Exn UnicodeDecodeError ''invalid start byte'')"
  "utf8_decode b = Some t \<Longrightarrow> read_lease (LFile b) = Inr (py_strip t)"
  by (simp_all add: read_lease_def)

text \<open>An owner name a lease file gives back unchanged.\<close>

definition clean_owner :: "string \<Rightarrow> bool" where
  "clean_owner w \<longleftrightarrow> w \<noteq> [] \<and> py_strip (w @ [CHR 0x0A]) = w"

lemma clean_ownerI:
  assumes "w \<noteq> []" and "\<And>c. c \<in> set w \<Longrightarrow> \<not> is_space c"
  shows "clean_owner w"
proof -
  have "hd w \<in> set w" "hd (rev w) \<in> set w"
    using assms(1) by (auto simp: hd_rev)
  then have "dropWhile is_space w = w" "dropWhile is_space (rev w) = rev w"
    using assms(2) by (simp_all add: dropWhile_eq_self_iff)
  moreover have "dropWhile is_space (w @ v) = w @ v" for v
    using assms by (simp add: dropWhile_append3 dropWhile_eq_self_iff)
  moreover have "is_space (CHR 0x0A)" by (simp add: is_space_def)
  ultimately show ?thesis
    using assms(1) by (simp add: clean_owner_def py_strip_def)
qed

lemma clean_owner_space: "clean_owner ''a''"
  by (rule clean_ownerI) (auto simp: is_space_def)

text \<open>The first free address of the list, or an error; nothing else changes.\<close>

lemma scan_pool_Ret:
  "scan_pool cfail wfail w vs d = (Ret a, d') \<Longrightarrow>
     \<exists>us v ws. vs = us @ v # ws \<and> a = ipv4_str v \<and>
       (\<forall>u \<in> set us. dir_get d (lease_path u) \<noteq> None \<or> cfail (lease_path u)) \<and>
       dir_get d (lease_path v) = None \<and> \<not> cfail (lease_path v) \<and> \<not> wfail (lease_path v) \<and>
       d' = dir_put (lease_path v) (LFile (utf8_encode (w @ [CHR 0x0A]))) d"
proof (induction vs)
  case Nil
  then show ?case by simp
next
  case (Cons v vs)
  show ?case
  proof (cases "dir_get d (lease_path v) \<noteq> None \<or> cfail (lease_path v)")
    case True
    with Cons.prems have "scan_pool cfail wfail w vs d = (Ret a, d')"
      by (auto simp: Let_def split: if_splits)
    then obtain us v' ws where "vs = us @ v' # ws \<and> a = ipv4_str v' \<and>
       (\<forall>u \<in> set us. dir_get d (lease_path u) \<noteq> None \<or> cfail (lease_path u)) \<and>
       dir_get d (lease_path v') = None \<and> \<not> cfail (lease_path v') \<and> \<not> wfail (lease_path v') \<and>
       d' = dir_put (lease_path v') (LFile (utf8_encode (w @ [CHR 0x0A]))) d"
      using Cons.IH by blast
    with True show ?thesis by (intro exI [of _ "v # us"] exI [of _ v'] exI [of _ ws]) auto
  next
    case False
    with Cons.prems show ?thesis
      by (intro exI [of _ "[]"] exI [of _ v] exI [of _ vs]) (auto simp: Let_def split: if_splits)
  qed
qed

lemma scan_pool_Raise:
  "scan_pool cfail wfail w vs d = (Raise e, d') \<Longrightarrow>
     (exn_kind e = RuntimeError \<and> d' = d \<and>
        (\<forall>u \<in> set vs. dir_get d (lease_path u) \<noteq> None \<or> cfail (lease_path u))) \<or>
     (exn_kind e = OSError \<and>
        (\<exists>v \<in> set vs. wfail (lease_path v) \<and> dir_get d (lease_path v) = None \<and> d' = dir_put (lease_path v) (LFile []) d))"
  by (induction vs) (auto simp: Let_def split: if_splits)

lemma scan_pool_not_Stuck: "scan_pool cfail wfail w vs d \<noteq> (Stuck, d')"
  by (induction vs) (auto simp: Let_def)

lemma scan_pool_free:
  "\<exists>v \<in> set vs. dir_get d (lease_path v) = None \<and> \<not> cfail (lease_path v) \<Longrightarrow> (\<And>p. \<not> wfail p) \<Longrightarrow>
     \<exists>a d'. scan_pool cfail wfail w vs d = (Ret a, d')"
  by (induction vs) (auto simp: Let_def)

lemma pool_release_True:
  assumes "pool_release p a w d = (Ret True, d')"
  obtains n b t where "w \<noteq> []" "parse_ipv4 a = Some n" "in_pool p n" "dir_get d (lease_path n) = Some (LFile b)"
    "utf8_decode b = Some t" "py_strip t = w" "d' = dir_del (lease_path n) d"
  using assms
  by (auto simp: pool_release_def ret_iffs read_lease_def split: if_splits option.splits lease_file.splits sum.splits)

lemma pool_release_other:
  assumes "pool_release p a w d = (r, d')" and "r \<noteq> Ret True" and "dir_get d name \<noteq> Some LLink"
  shows "dir_get d' name = dir_get d name"
  using assms
  by (auto simp: pool_release_def dir_simps then_p_def read_lease_def
      split: if_splits option.splits lease_file.splits sum.splits)

lemma pool_release_not_Stuck: "pool_release p a w d \<noteq> (Stuck, d')"
  by (auto simp: pool_release_def then_p_def split: option.splits lease_file.splits sum.splits)

text \<open>A lease of the caller's own is released: the converse of \<open>pool_release_True\<close>.\<close>

lemma pool_release_owned:
  assumes "w \<noteq> []" "parse_ipv4 a = Some n" "in_pool p n" "dir_get d (lease_path n) = Some (LFile b)"
    "utf8_decode b = Some t" "py_strip t = w"
  shows "pool_release p a w d = (Ret True, dir_del (lease_path n) d)"
  using assms by (simp add: pool_release_def)

section \<open>The pool as a provider of leases\<close>

text \<open>Who holds the lease of an address: the owner its lease file names.\<close>

definition lease_owner :: "lease_dir \<Rightarrow> nat \<Rightarrow> string option" where
  "lease_owner d a =
     (if a < 4294967296 then
        (case dir_get d (lease_path a) of
           Some (LFile b) \<Rightarrow> map_option py_strip (utf8_decode b)
         | _ \<Rightarrow> None)
      else None)"

lemma lease_owner_put:
  "a < 4294967296 \<Longrightarrow> b < 4294967296 \<Longrightarrow>
     lease_owner (dir_put (lease_path a) (LFile c) d) b =
       (if b = a then map_option py_strip (utf8_decode c) else lease_owner d b)"
  by (simp add: lease_owner_def dir_simps lease_path_inject)

lemma lease_owner_del:
  "a < 4294967296 \<Longrightarrow> lease_owner (dir_del (lease_path a) d) b = (if b = a then None else lease_owner d b)"
  by (simp add: lease_owner_def dir_simps lease_path_inject)

lemma lease_owner_Some:
  "lease_owner d a = Some w \<longleftrightarrow>
     a < 4294967296 \<and> (\<exists>b t. dir_get d (lease_path a) = Some (LFile b) \<and> utf8_decode b = Some t \<and> py_strip t = w)"
  by (auto simp: lease_owner_def split: option.splits lease_file.splits if_splits)

lemma pool_allocate_Ret:
  assumes "pool_allocate p cfail wfail w d = (Ret a, d')"
  obtains v where "v \<in> set (pool_values p)" "a = ipv4_str v" "w \<noteq> []"
    "dir_get d (lease_path v) = None" "d' = dir_put (lease_path v) (LFile (utf8_encode (w @ [CHR 0x0A]))) d"
    "\<And>u. u \<in> set (pool_values p) \<Longrightarrow> u < v \<Longrightarrow> dir_get d (lease_path u) \<noteq> None \<or> cfail (lease_path u)"
proof -
  from assms have w: "w \<noteq> []" and s: "scan_pool cfail wfail w (pool_values p) d = (Ret a, d')"
    by (auto simp: pool_allocate_def split: if_splits)
  obtain us v ws where *: "pool_values p = us @ v # ws" "a = ipv4_str v"
      "\<forall>u \<in> set us. dir_get d (lease_path u) \<noteq> None \<or> cfail (lease_path u)"
      "dir_get d (lease_path v) = None" "d' = dir_put (lease_path v) (LFile (utf8_encode (w @ [CHR 0x0A]))) d"
    using scan_pool_Ret [OF s] by blast
  have "sorted (us @ v # ws)" using *(1) unfolding pool_values_def by (metis sorted_upt)
  then have "u \<in> set us" if "u \<in> set (us @ v # ws)" "u < v" for u
    using that by (auto simp: sorted_append)
  with * w that show ?thesis by (metis in_set_conv_decomp)
qed

text \<open>The pool as the interface's operations: without failing writes, an allocation grants one address or none.\<close>

definition pool_acquire :: "ipv4_pool \<Rightarrow> (string \<Rightarrow> bool) \<Rightarrow> string \<Rightarrow> lease_dir \<Rightarrow> nat list \<times> lease_dir" where
  "pool_acquire p cfail w d =
     (case pool_allocate p cfail (\<lambda>_. False) w d of
        (Ret a, d') \<Rightarrow> (case parse_ipv4 a of Some n \<Rightarrow> [n] | None \<Rightarrow> [], d')
      | (_, d') \<Rightarrow> ([], d'))"

definition pool_give_back :: "ipv4_pool \<Rightarrow> nat \<Rightarrow> string \<Rightarrow> lease_dir \<Rightarrow> lease_dir" where
  "pool_give_back p a w d = (if a < 4294967296 then snd (pool_release p (ipv4_str a) w d) else d)"

definition pool_purge :: "string set \<Rightarrow> lease_dir \<Rightarrow> lease_dir" where
  "pool_purge act d = snd (clear_orphans act d)"

definition is_orphan :: "string set \<Rightarrow> lease_file option \<Rightarrow> bool" where
  "is_orphan act entry \<longleftrightarrow>
     entry = Some LLink \<or> (\<exists>b t. entry = Some (LFile b) \<and> utf8_decode b = Some t \<and> py_strip t \<notin> act)"

lemma visit_lease_get:
  assumes v: "visit_lease act n rs d = (r, d')"
  shows "dir_get d' m = dir_get d m \<or> (m = n \<and> dir_get d' m = None \<and> is_orphan act (dir_get d m))"
proof -
  have "d' = d \<or> (d' = dir_del n d \<and> is_orphan act (dir_get d n))"
    by (rule visit_cases [of "dir_get d n" _ act])
      (use v in \<open>auto simp: visit_lease_def is_orphan_def\<close>)
  then show ?thesis by (cases "m = n") (auto simp: dir_simps)
qed

lemma fold_visit_get:
  assumes "fold_p (visit_lease act) ns rs d = (r, d')"
  shows "dir_get d' m = dir_get d m \<or> (m \<in> set ns \<and> dir_get d' m = None \<and> is_orphan act (dir_get d m))"
  using assms
proof (induction ns arbitrary: rs d)
  case Nil
  then show ?case by simp
next
  case (Cons n ns)
  obtain r1 d1 where v: "visit_lease act n rs d = (r1, d1)" by (cases "visit_lease act n rs d")
  note one = visit_lease_get [OF v, of m]
  show ?case
  proof (cases r1)
    case (Ret rs1)
    with Cons.prems v have "fold_p (visit_lease act) ns rs1 d1 = (r, d')"
      by (simp add: bind_p_def)
    from Cons.IH [OF this] one show ?thesis by (metis list.set_intros)
  qed (use Cons.prems v one in \<open>auto simp: bind_p_def\<close>)
qed

text \<open>What \<open>clear_orphans\<close> removes is a link or a lease whose owner is not active.\<close>

lemma clear_orphans_get:
  assumes "clear_orphans act d = (r, d')"
  shows "dir_get d' m = dir_get d m \<or>
     (ends_with ''.lease'' m \<and> dir_get d' m = None \<and> is_orphan act (dir_get d m))"
proof -
  define ns where "ns = filter (ends_with ''.lease'') (dir_names d)"
  obtain r1 where "fold_p (visit_lease act) ns [] d = (r1, d')"
    using assms unfolding clear_orphans_def ns_def
    by (simp add: bind_p_def split: prod.splits res.splits)
  from fold_visit_get [OF this, of m] show ?thesis by (auto simp: ns_def)
qed

lemma octet_mod: "j + 8 \<le> 32 \<Longrightarrow> n mod 2 ^ 32 div 2 ^ j mod 2 ^ 8 = (n :: nat) div 2 ^ j mod 2 ^ 8"
  unfolding take_bit_eq_mod [symmetric] drop_bit_eq_div [symmetric]
  by (auto simp: drop_bit_take_bit take_bit_take_bit min_def)

lemma ipv4_str_mod: "ipv4_str (n mod 4294967296) = ipv4_str n"
  using octet_mod [of 24 n] octet_mod [of 16 n] octet_mod [of 8 n] octet_mod [of 0 n]
  by (simp add: ipv4_str_def)

lemma parse_ipv4_str_mod: "parse_ipv4 (ipv4_str n) = Some (n mod 4294967296)"
  using parse_ipv4_str [of "n mod 4294967296"] by (simp only: ipv4_str_mod mod_less_divisor)

lemma lease_path_mod: "lease_path (n mod 4294967296) = lease_path n"
  by (simp add: lease_path_def ipv4_str_mod)

lemma pool_acquire_cases:
  assumes "pool_acquire p cfail w d = (as, d')"
  obtains "as = []" "d' = d"
  | v where "v < 4294967296" "as = [v]" "w \<noteq> []" "dir_get d (lease_path v) = None"
      "d' = dir_put (lease_path v) (LFile (utf8_encode (w @ [CHR 0x0A]))) d"
proof -
  obtain r d1 where al: "pool_allocate p cfail (\<lambda>_. False) w d = (r, d1)"
    by (cases "pool_allocate p cfail (\<lambda>_. False) w d")
  show ?thesis
  proof (cases r)
    case (Ret a)
    with al obtain v where v: "a = ipv4_str v" "w \<noteq> []" "dir_get d (lease_path v) = None"
        "d1 = dir_put (lease_path v) (LFile (utf8_encode (w @ [CHR 0x0A]))) d"
      by (auto elim: pool_allocate_Ret)
    have "as = [v mod 4294967296]" "d' = d1"
      using assms al Ret v(1) by (simp_all add: pool_acquire_def parse_ipv4_str_mod)
    with v that(2) [of "v mod 4294967296"] show ?thesis by (simp add: lease_path_mod)
  next
    case (Raise e)
    with al have "d1 = d"
      by (auto simp: pool_allocate_def split: if_splits dest!: scan_pool_Raise)
    with assms al Raise that(1) show ?thesis by (simp add: pool_acquire_def)
  next
    case Stuck
    with al show ?thesis
      by (auto simp: pool_allocate_def scan_pool_not_Stuck split: if_splits)
  qed
qed

lemma pool_give_back_keeps:
  assumes "lease_owner d b = Some v" and "b \<noteq> a \<or> v \<noteq> w"
  shows "lease_owner (pool_give_back p a w d) b = Some v"
proof (cases "a < 4294967296")
  case True
  obtain r d' where rel: "pool_release p (ipv4_str a) w d = (r, d')"
    by (cases "pool_release p (ipv4_str a) w d")
  have "dir_get d (lease_path b) \<noteq> Some LLink" using assms(1) by (auto simp: lease_owner_Some)
  show ?thesis
  proof (cases "r = Ret True")
    case True
    with rel obtain n c t where n: "parse_ipv4 (ipv4_str a) = Some n" "dir_get d (lease_path n) = Some (LFile c)"
        "utf8_decode c = Some t" "py_strip t = w" "d' = dir_del (lease_path n) d"
      by (auto elim: pool_release_True)
    then have "n = a" using \<open>a < 4294967296\<close> by simp
    with n have "lease_owner d a = Some w" using \<open>a < 4294967296\<close> by (auto simp: lease_owner_Some)
    with assms have "b \<noteq> a" by auto
    with n \<open>n = a\<close> rel assms(1) \<open>a < 4294967296\<close> show ?thesis
      by (simp add: pool_give_back_def lease_owner_del)
  next
    case False
    from pool_release_other [OF rel False \<open>dir_get d (lease_path b) \<noteq> Some LLink\<close>]
    show ?thesis using assms(1) True by (simp add: pool_give_back_def rel lease_owner_Some)
  qed
qed (use assms in \<open>simp add: pool_give_back_def\<close>)

interpretation ipv4: lease_pool "\<lambda>d a w. lease_owner d a = Some w" "pool_acquire p cfail" "pool_give_back p" pool_purge clean_owner
  for p cfail
proof unfold_locales
  fix w d as d' a
  assume "clean_owner w" "pool_acquire p cfail w d = (as, d')" "a \<in> set as"
  then show "(\<forall>v. lease_owner d a \<noteq> Some v) \<and> lease_owner d' a = Some w"
    by (auto elim!: pool_acquire_cases simp: lease_owner_put clean_owner_def) (simp add: lease_owner_def)
next
  fix w d b v as d'
  assume "clean_owner w" "lease_owner d b = Some v" "pool_acquire p cfail w d = (as, d')"
  then show "lease_owner d' b = Some v"
    by (auto elim!: pool_acquire_cases simp: lease_owner_Some dir_simps lease_path_inject)
next
  fix d b v a w
  assume "lease_owner d b = Some v" "b \<noteq> a \<or> v \<noteq> w"
  then show "lease_owner (pool_give_back p a w d) b = Some v" by (rule pool_give_back_keeps)
next
  fix d b v act
  assume b: "lease_owner d b = Some v" and act: "v \<in> act"
  obtain r d' where c: "clear_orphans act d = (r, d')" by (cases "clear_orphans act d")
  from clear_orphans_get [OF c, of "lease_path b"] b act
  show "lease_owner (pool_purge act d) b = Some v"
    by (auto simp: pool_purge_def c lease_owner_Some is_orphan_def)
qed

section \<open>Properties\<close>

lemma visit_lease_Ret:
  "visit_lease act n rs d = (Ret rs', d') \<Longrightarrow> d' = (if is_orphan act (dir_get d n) then dir_del n d else d)"
  by (rule visit_cases [of "dir_get d n" _ act]) (auto simp: visit_lease_def is_orphan_def split: if_splits)

lemma fold_visit_Ret:
  "fold_p (visit_lease act) ns rs d = (Ret rs', d') \<Longrightarrow>
     dir_get d' m = (if m \<in> set ns \<and> is_orphan act (dir_get d m) then None else dir_get d m)"
proof (induction ns arbitrary: rs d)
  case Nil
  then show ?case by simp
next
  case (Cons n ns)
  then obtain rs1 d1 where v: "visit_lease act n rs d = (Ret rs1, d1)"
      and rest: "fold_p (visit_lease act) ns rs1 d1 = (Ret rs', d')"
    by (auto simp: bind_p_Ret_iff)
  show ?case using Cons.IH [OF rest] visit_lease_Ret [OF v]
    by (auto simp: dir_simps is_orphan_def)
qed

lemma pool_value_iff: "v \<in> set (pool_values p) \<longleftrightarrow> pool_start p \<le> v \<and> v \<le> pool_end p"
  by (auto simp: pool_values_def)

text \<open>
  Allocation is first fit and touches one entry: a returned address lies in the
  pool, had no lease, now has the lease file with the owner's line, every lower address of
  the pool was taken or could not be created, and no other entry changed.
\<close>

lemma allocate_first_fit:
  assumes "pool_allocate p cfail wfail w d = (Ret a, d')"
  shows "\<exists>v. a = ipv4_str v \<and> pool_start p \<le> v \<and> v \<le> pool_end p \<and> dir_get d (lease_path v) = None \<and>
     dir_get d' (lease_path v) = Some (LFile (utf8_encode (w @ [CHR 0x0A]))) \<and>
     (\<forall>u. pool_start p \<le> u \<and> u < v \<longrightarrow> dir_get d (lease_path u) \<noteq> None \<or> cfail (lease_path u)) \<and>
     (\<forall>name. name \<noteq> lease_path v \<longrightarrow> dir_get d' name = dir_get d name)"
  using assms
proof (rule pool_allocate_Ret)
  fix v
  assume v: "v \<in> set (pool_values p)" "a = ipv4_str v" "w \<noteq> []" "dir_get d (lease_path v) = None"
    "d' = dir_put (lease_path v) (LFile (utf8_encode (w @ [CHR 0x0A]))) d"
    and least: "\<And>u. u \<in> set (pool_values p) \<Longrightarrow> u < v \<Longrightarrow> dir_get d (lease_path u) \<noteq> None \<or> cfail (lease_path u)"
  show ?thesis
    by (intro exI [of _ v]) (use v least in \<open>auto simp: pool_value_iff dir_simps\<close>)
qed

definition example_pool :: ipv4_pool where
  "example_pool = \<lparr>pool_network = \<lparr>net_base = 167772160, net_prefixlen = 24\<rparr>, pool_start = 167772162, pool_end = 167772164\<rparr>"

definition example_leases :: lease_dir where
  "example_leases = [(''10.0.0.2.lease'', LFile (''a'' @ [CHR 0x0A])), (''10.0.0.4.lease'', LFile (''b'' @ [CHR 0x0A]))]"

lemma lease_path_examples:
  "lease_path 167772162 = ''10.0.0.2.lease''" "lease_path 167772163 = ''10.0.0.3.lease''"
  "lease_path 167772164 = ''10.0.0.4.lease''" "ipv4_str 167772163 = ''10.0.0.3''"
  "ipv4_str 167772162 = ''10.0.0.2''" "pool_values example_pool = [167772162, 167772163, 167772164]"
  by (simp_all add: lease_path_def ipv4_str_def nat_str.simps pool_values_def example_pool_def upt_rec)

lemma example_allocate:
  "pool_allocate example_pool (\<lambda>_. False) (\<lambda>_. False) ''c'' example_leases =
     (Ret ''10.0.0.3'', dir_put ''10.0.0.3.lease'' (LFile (utf8_encode (''c'' @ [CHR 0x0A]))) example_leases)"
  unfolding pool_allocate_def lease_path_examples
  by (simp add: lease_path_examples dir_get_def example_leases_def)

lemma allocate_first_fit_witness:
  "\<exists>v. ''10.0.0.3'' = ipv4_str v \<and> dir_get example_leases (lease_path v) = None"
  using allocate_first_fit [OF example_allocate] by blast

text \<open>
  Where every lease file can be created and written, an allocation fails exactly when
  every address of the pool has an entry, with RuntimeError and the directory unchanged.
\<close>

lemma allocate_fails_iff_full:
  assumes "w \<noteq> []"
  shows "(\<exists>e d'. pool_allocate p (\<lambda>_. False) (\<lambda>_. False) w d = (Raise e, d') \<and> exn_kind e = RuntimeError \<and> d' = d)
     \<longleftrightarrow> (\<forall>v. pool_start p \<le> v \<and> v \<le> pool_end p \<longrightarrow> dir_get d (lease_path v) \<noteq> None)"
proof
  assume "\<exists>e d'. pool_allocate p (\<lambda>_. False) (\<lambda>_. False) w d = (Raise e, d') \<and> exn_kind e = RuntimeError \<and> d' = d"
  with assms show "\<forall>v. pool_start p \<le> v \<and> v \<le> pool_end p \<longrightarrow> dir_get d (lease_path v) \<noteq> None"
    by (auto simp: pool_allocate_def pool_value_iff dest!: scan_pool_Raise)
next
  assume full: "\<forall>v. pool_start p \<le> v \<and> v \<le> pool_end p \<longrightarrow> dir_get d (lease_path v) \<noteq> None"
  obtain r d' where s: "scan_pool (\<lambda>_. False) (\<lambda>_. False) w (pool_values p) d = (r, d')"
    by (cases "scan_pool (\<lambda>_. False) (\<lambda>_. False) w (pool_values p) d")
  show "\<exists>e d'. pool_allocate p (\<lambda>_. False) (\<lambda>_. False) w d = (Raise e, d') \<and> exn_kind e = RuntimeError \<and> d' = d"
  proof (cases r)
    case (Ret a)
    from scan_pool_Ret [OF s [unfolded Ret]] have "\<exists>v \<in> set (pool_values p). dir_get d (lease_path v) = None"
      by auto
    with full show ?thesis by (auto simp: pool_value_iff)
  next
    case (Raise e)
    from scan_pool_Raise [OF s [unfolded Raise]] s Raise assms show ?thesis by (auto simp: pool_allocate_def)
  next
    case Stuck
    with s show ?thesis by (simp add: scan_pool_not_Stuck)
  qed
qed

lemma allocate_fails_iff_full_witness:
  "\<not> (\<exists>e d'. pool_allocate example_pool (\<lambda>_. False) (\<lambda>_. False) ''c'' example_leases = (Raise e, d') \<and>
        exn_kind e = RuntimeError \<and> d' = example_leases)"
proof -
  have "dir_get example_leases (lease_path 167772163) = None"
    by (simp add: lease_path_examples example_leases_def dir_get_def)
  then show ?thesis
    unfolding allocate_fails_iff_full [OF list.distinct(2)]
    by (auto simp: example_pool_def intro!: exI [of _ 167772163])
qed

text \<open>
  A release succeeds exactly for the recorded owner of an address of the pool, and
  then removes that lease file; when it does not succeed, no lease file changes (only a
  symbolic link at the lease path is removed).
\<close>

lemma release_only_by_owner:
  "(fst (pool_release p a w d) = Ret True \<longleftrightarrow>
      w \<noteq> [] \<and> (\<exists>n. parse_ipv4 a = Some n \<and> in_pool p n \<and> lease_owner d n = Some w)) \<and>
   (\<forall>n. parse_ipv4 a = Some n \<longrightarrow>
      dir_get (snd (pool_release p a w d)) (lease_path n) =
        (if fst (pool_release p a w d) = Ret True \<or> (w \<noteq> [] \<and> in_pool p n \<and> dir_get d (lease_path n) = Some LLink)
         then None else dir_get d (lease_path n))) \<and>
   (\<forall>name. (\<forall>n. parse_ipv4 a = Some n \<longrightarrow> name \<noteq> lease_path n) \<longrightarrow>
      dir_get (snd (pool_release p a w d)) name = dir_get d name)"
proof (cases "w = [] \<or> parse_ipv4 a = None")
  case True
  then show ?thesis by (auto simp: pool_release_def)
next
  case False
  then obtain n where n: "w \<noteq> []" "parse_ipv4 a = Some n" "n < 4294967296" by (auto dest: parse_ipv4_bound)
  show ?thesis
  proof (cases "in_pool p n")
    case True
    show ?thesis
      by (rule visit_cases [of "dir_get d (lease_path n)" _ "{w}"])
        (use n True in \<open>auto simp: pool_release_def dir_simps lease_owner_Some\<close>)
  qed (use n in \<open>auto simp: pool_release_def\<close>)
qed

lemma release_only_by_owner_witness:
  "fst (pool_release example_pool ''10.0.0.2'' ''a'' example_leases) = Ret True \<and>
   fst (pool_release example_pool ''10.0.0.2'' ''b'' example_leases) \<noteq> Ret True"
proof -
  have a: "parse_ipv4 ''10.0.0.2'' = Some 167772162"
    using parse_ipv4_str [of 167772162] by (simp add: lease_path_examples)
  have l: "lease_owner example_leases 167772162 = Some ''a''"
    by (simp add: lease_owner_def lease_path_examples example_leases_def dir_get_def py_strip_def is_space_def)
  have "in_pool example_pool 167772162"
    by (simp add: in_pool_def example_pool_def in_network_def net_mask_def)
  with a l release_only_by_owner [of example_pool "''10.0.0.2''" "''a''" example_leases]
    release_only_by_owner [of example_pool "''10.0.0.2''" "''b''" example_leases]
  show ?thesis by auto
qed

text \<open>
  C12. Over every history of allocations, releases and orphan collections: an address
  granted to an owner is granted to nobody else until that owner releases it or a
  collection runs in which it is not active.
\<close>

theorem address_lease_exclusive:
  assumes "clean_owner w" "pool_acquire p cfail w d = (as, d')" "a \<in> set as"
    and "list_all (ipv4.spares a w) es"
  shows "a \<notin> fst ` set (ipv4.granted p cfail d' es) \<and>
     lease_owner (run_steps (ipv4.lease_step p cfail) d' es) a = Some w"
  using ipv4.granted_disjoint [OF assms] ipv4.acquire_new [OF assms(1-3)] ipv4.run_keeps [OF _ assms(4)]
  by simp

lemma example_acquire:
  "pool_acquire example_pool (\<lambda>_. False) ''c'' example_leases =
     ([167772163], dir_put ''10.0.0.3.lease'' (LFile (utf8_encode (''c'' @ [CHR 0x0A]))) example_leases)"
proof -
  have "parse_ipv4 ''10.0.0.3'' = Some 167772163"
    using parse_ipv4_str [of 167772163] by (simp add: lease_path_examples)
  then show ?thesis by (simp add: pool_acquire_def example_allocate)
qed

theorem address_lease_exclusive_witness:
  "167772163 \<notin> fst ` set (ipv4.granted example_pool (\<lambda>_. False)
      (dir_put ''10.0.0.3.lease'' (LFile (utf8_encode (''c'' @ [CHR 0x0A]))) example_leases)
      [Acquire ''a'', GiveBack 167772163 ''a'', Purge {''c''}])"
proof -
  have "clean_owner ''a'' \<and> clean_owner ''c''" by code_simp
  then show ?thesis
    using address_lease_exclusive [OF _ example_acquire, of 167772163 "[Acquire ''a'', GiveBack 167772163 ''a'', Purge {''c''}]"]
    by simp
qed

lemma clear_orphans_Ret_get:
  assumes "clear_orphans act d = (Ret rs, d')"
  shows "dir_get d' m = (if ends_with ''.lease'' m \<and> is_orphan act (dir_get d m) then None else dir_get d m)"
proof -
  define ns where "ns = filter (ends_with ''.lease'') (dir_names d)"
  obtain rs' where f: "fold_p (visit_lease act) ns [] d = (Ret rs', d')"
    using assms unfolding clear_orphans_def ns_def by (auto simp: bind_p_Ret_iff)
  show ?thesis using fold_visit_Ret [OF f, of m] by (auto simp: ns_def dirs.names_iff is_orphan_def)
qed

text \<open>
  An orphan collection that returns has removed exactly the links and the readable
  leases of inactive owners; every lease of an active owner, every unreadable entry and
  every entry of another name is as before.
\<close>

lemma clear_orphans_exact:
  assumes "clear_orphans act d = (Ret rs, d')"
  shows "dir_get d' m = (if ends_with ''.lease'' m \<and> is_orphan act (dir_get d m) then None else dir_get d m) \<and>
     (lease_owner d v = Some w \<and> w \<in> act \<longrightarrow> lease_owner d' v = Some w)"
  using clear_orphans_Ret_get [OF assms] by (auto simp: lease_owner_Some is_orphan_def)

lemma example_clear:
  "clear_orphans {''a''} example_leases = (Ret [''10.0.0.4''], [(''10.0.0.2.lease'', LFile (''a'' @ [CHR 0x0A]))])"
  by code_simp

lemma clear_orphans_exact_witness:
  "dir_get (snd (clear_orphans {''a''} example_leases)) ''10.0.0.4.lease'' = None \<and>
   dir_get (snd (clear_orphans {''a''} example_leases)) ''10.0.0.2.lease'' = Some (LFile (''a'' @ [CHR 0x0A]))"
proof -
  have "is_orphan {''a''} (dir_get example_leases ''10.0.0.4.lease'')"
    "\<not> is_orphan {''a''} (dir_get example_leases ''10.0.0.2.lease'')"
    by (simp_all add: is_orphan_def example_leases_def dir_get_def py_strip_def is_space_def)
  moreover have "ends_with ''.lease'' ''10.0.0.4.lease''" by code_simp
  moreover have "dir_get example_leases ''10.0.0.2.lease'' = Some (LFile (''a'' @ [CHR 0x0A]))"
    by (simp add: example_leases_def dir_get_def)
  ultimately show ?thesis
    using clear_orphans_exact [OF example_clear, of "''10.0.0.4.lease''"]
      clear_orphans_exact [OF example_clear, of "''10.0.0.2.lease''"] example_clear by simp
qed

text \<open>
  The write of the owner's line is not undone when it fails: the error propagates,
  the empty lease file stays, and afterwards no owner can release the address and no
  allocation returns it.
\<close>

lemma failed_write_leaks_address:
  assumes "pool_allocate p cfail wfail w d = (Raise e, d')" and "exn_kind e = OSError"
    and "pool_end p < 4294967296"
  shows "\<exists>v. pool_start p \<le> v \<and> v \<le> pool_end p \<and> dir_get d (lease_path v) = None \<and>
     dir_get d' (lease_path v) = Some (LFile []) \<and>
     (\<forall>a w'. parse_ipv4 a = Some v \<longrightarrow> fst (pool_release p a w' d') \<noteq> Ret True) \<and>
     (\<forall>c g w'. fst (pool_allocate p c g w' d') \<noteq> Ret (ipv4_str v))"
proof -
  obtain v where v: "v \<in> set (pool_values p)" "dir_get d (lease_path v) = None" "d' = dir_put (lease_path v) (LFile []) d"
  proof -
    have "w \<noteq> []" using assms(1,2) by (auto simp: pool_allocate_def)
    with assms(1) have "scan_pool cfail wfail w (pool_values p) d = (Raise e, d')" by (simp add: pool_allocate_def)
    from scan_pool_Raise [OF this] assms(2) show thesis by (auto intro: that)
  qed
  then have empty: "dir_get d' (lease_path v) = Some (LFile [])" by (simp add: dir_simps)
  have "fst (pool_release p a w' d') \<noteq> Ret True" if "parse_ipv4 a = Some v" for a w'
  proof
    assume "fst (pool_release p a w' d') = Ret True"
    then have "pool_release p a w' d' = (Ret True, snd (pool_release p a w' d'))" by (metis prod.collapse)
    then show False using that empty by (elim pool_release_True) (auto simp: py_strip_def)
  qed
  moreover have "fst (pool_allocate p c g w' d') \<noteq> Ret (ipv4_str v)" for c g w'
  proof
    assume "fst (pool_allocate p c g w' d') = Ret (ipv4_str v)"
    then obtain d2 where "pool_allocate p c g w' d' = (Ret (ipv4_str v), d2)" by (metis prod.collapse)
    then show False
      using v(1) empty assms(3)
      by (elim pool_allocate_Ret) (auto simp: pool_value_iff ipv4_str_inject)
  qed
  ultimately show ?thesis using v empty by (intro exI [of _ v]) (auto simp: pool_value_iff)
qed

lemma failed_write_leaks_address_witness:
  "\<exists>v. pool_start example_pool \<le> v \<and> v \<le> pool_end example_pool \<and>
     dir_get (snd (pool_allocate example_pool (\<lambda>_. False) (\<lambda>_. True) ''c'' example_leases)) (lease_path v) = Some (LFile [])"
proof -
  have "pool_allocate example_pool (\<lambda>_. False) (\<lambda>_. True) ''c'' example_leases =
      (Raise (Exn OSError ''No space left on device''), dir_put ''10.0.0.3.lease'' (LFile []) example_leases)"
    unfolding pool_allocate_def lease_path_examples
    by (simp add: lease_path_examples dir_get_def example_leases_def)
  from failed_write_leaks_address [OF this] this show ?thesis
    by (auto simp: example_pool_def)
qed

end
