(* ===== verification/Daemon.thy ===== *)
theory Daemon
  imports Registry Ipv4_Pool
begin

text \<open>
  runtime_daemon.py: the manager's configuration and state, how it runs commands, its
  locks, its probes of the machine, and the operations that prepare the network and a
  jail's key. Every command that was run is recorded, with its outcome, in a ghost log the
  code does not have; the properties speak about it.
\<close>

section \<open>Configuration\<close>

record runtime_config =
  c_socket_path :: string
  c_socket_group :: string
  c_registry_dir :: string
  c_lease_dir :: string
  c_network_cidr :: string
  c_host_address :: string
  c_address_start :: string
  c_address_end :: string
  c_bridge_name :: string
  c_jail_template_snapshot :: string
  c_jail_dataset_parent :: string
  c_jail_mount_root :: string
  c_jail_interface_name :: string
  c_jail_ssh_user :: string
  c_jail_sshd_service :: string
  c_vm_command :: string
  c_vm_template :: string
  c_vm_memdisk_template :: string
  c_vm_image :: string
  c_vm_switch :: string
  c_vm_interface :: string
  c_vm_disk_backend :: string
  c_vm_zvol_snapshot :: string
  c_vm_zvol_parent :: string
  c_vm_dataset_parent :: string
  c_vm_disk_size :: string
  c_vm_memdisk_type :: string
  c_ssh_public_key :: string

definition default_config :: runtime_config where
  "default_config =
     \<lparr>c_socket_path = ''/var/run/freebsd-laboratory/runtime.sock'', c_socket_group = ''freebsdlab'',
      c_registry_dir = ''/var/db/freebsd-laboratory/runtimes'',
      c_lease_dir = ''/var/db/freebsd-laboratory/network-leases'',
      c_network_cidr = ''172.31.254.0/24'', c_host_address = ''172.31.254.1'',
      c_address_start = ''172.31.254.10'', c_address_end = ''172.31.254.199'',
      c_bridge_name = ''labbridge0'', c_jail_template_snapshot = ''zroot/jails/templates/freebsd-python@clean'',
      c_jail_dataset_parent = ''zroot/jails/containers'', c_jail_mount_root = ''/usr/local/jails/containers'',
      c_jail_interface_name = ''vnet0'', c_jail_ssh_user = ''freebsd'', c_jail_sshd_service = ''/usr/sbin/service'',
      c_vm_command = ''/usr/local/sbin/vm'', c_vm_template = ''freebsd-lab'',
      c_vm_memdisk_template = ''freebsd-lab-memdisk'', c_vm_image = ''freebsd-python.raw'',
      c_vm_switch = ''freebsdlab'', c_vm_interface = ''vtnet0'', c_vm_disk_backend = ''zvol-clone'',
      c_vm_zvol_snapshot = ''zroot/vm/.zvol/freebsd-python@ready'', c_vm_zvol_parent = ''zroot/vm/.zvol'',
      c_vm_dataset_parent = ''zroot/vm'', c_vm_disk_size = ''3G'', c_vm_memdisk_type = ''swap'',
      c_ssh_public_key = ''/usr/local/etc/freebsd-laboratory/id_ed25519.pub''\<rparr>"

record guest_profile =
  gp_template :: string
  gp_memdisk_template :: string
  gp_image :: string
  gp_zvol_snapshot :: string
  gp_interface :: string
  gp_guest_os :: string

definition bhyve_profiles :: "(string \<times> guest_profile) list" where
  "bhyve_profiles =
     [(''freebsd-python'',
        \<lparr>gp_template = ''freebsd-lab'', gp_memdisk_template = ''freebsd-lab-memdisk'',
         gp_image = ''freebsd-python.raw'', gp_zvol_snapshot = ''zroot/vm/.zvol/freebsd-python@ready'',
         gp_interface = ''vtnet0'', gp_guest_os = ''freebsd''\<rparr>),
      (''linux-python'',
        \<lparr>gp_template = ''linux-lab'', gp_memdisk_template = ''linux-lab-memdisk'',
         gp_image = ''linux-python.raw'', gp_zvol_snapshot = ''zroot/vm/.zvol/linux-python@ready'',
         gp_interface = ''eth0'', gp_guest_os = ''linux''\<rparr>)]"

text \<open>\<open>RuntimeManager.__init__\<close>: the parts of the manager that do not change.\<close>

record manager =
  m_config :: runtime_config
  m_pool :: ipv4_pool
  m_prefix_len :: nat

definition manager_init :: "runtime_config \<Rightarrow> exn + manager" where
  "manager_init c =
     (case ipv4_pool_init (c_network_cidr c) (c_address_start c) (c_address_end c) of
        Inl e \<Rightarrow> Inl e
      | Inr p \<Rightarrow>
          (case prefix_length (c_network_cidr c) of
             Inl e \<Rightarrow> Inl e
           | Inr k \<Rightarrow>
               (case address_in_network (c_host_address c) (c_network_cidr c) of
                  Inl e \<Rightarrow> Inl e
                | Inr inside \<Rightarrow>
                    (if \<not> inside then
                       Inl (Exn ValueError ''host_address must be contained in network_cidr'')
                     else Inr \<lparr>m_config = c, m_pool = p, m_prefix_len = k\<rparr>))))"

section \<open>State\<close>

datatype event = Ran "string list" outcome | Sys syscall "string option"

text \<open>
  \<open>d_held\<close> are the names whose runtime lock is taken. The shared lock is an RLock, which
  the thread that holds it may take again, so in the run of one thread it has no effect.
\<close>

record 'w daemon =
  d_registry :: registry
  d_leases :: lease_dir
  d_bridge :: bool
  d_switch :: bool
  d_held :: "string list"
  d_world :: 'w
  d_log :: "event list"

definition on_registry :: "(registry, 'a) prog \<Rightarrow> ('w daemon, 'a) prog" where
  "on_registry m s = (case m (d_registry s) of (r, d) \<Rightarrow> (r, s\<lparr>d_registry := d\<rparr>))"

definition on_leases :: "(lease_dir, 'a) prog \<Rightarrow> ('w daemon, 'a) prog" where
  "on_leases m s = (case m (d_leases s) of (r, d) \<Rightarrow> (r, s\<lparr>d_leases := d\<rparr>))"

text \<open>
  \<open>with self._runtime_lock(name)\<close>: a \<open>threading.Lock\<close>, which its holder cannot take again.
\<close>

definition acquire_lock :: "string \<Rightarrow> ('w daemon, unit) prog" where
  "acquire_lock name s =
     (if name \<in> set (d_held s) then (Stuck, s) else (Ret (), s\<lparr>d_held := name # d_held s\<rparr>))"

definition release_lock :: "string \<Rightarrow> ('w daemon, unit) prog" where
  "release_lock name = modify_p (\<lambda>s. s\<lparr>d_held := remove1 name (d_held s)\<rparr>)"

definition with_runtime_lock :: "string \<Rightarrow> ('w daemon, 'a) prog \<Rightarrow> ('w daemon, 'a) prog" where
  "with_runtime_lock name m = then_p (acquire_lock name) (finally_p m (release_lock name))"

section \<open>Commands\<close>

record completed =
  cp_rc :: int
  cp_out :: string
  cp_err :: string

definition spawn :: "'w host \<Rightarrow> nat \<Rightarrow> string list \<Rightarrow> ('w daemon, outcome) prog" where
  "spawn h timeout command s =
     (case h_spawn h timeout command (d_world s) of
        (oc, w) \<Rightarrow> (Ret oc, s\<lparr>d_world := w, d_log := d_log s @ [Ran command oc]\<rparr>))"

definition run_timeout :: "'w host \<Rightarrow> bool \<Rightarrow> nat \<Rightarrow> string list \<Rightarrow> ('w daemon, completed) prog" where
  "run_timeout h check timeout command =
     bind_p (spawn h timeout command) (\<lambda>oc.
       case oc of
         TimedOut \<Rightarrow> raise_p RuntimeError (''Command timed out: '' @ shlex_join command)
       | ExecFailed m \<Rightarrow>
           (if check then raise_p RuntimeError (''Unable to execute '' @ shlex_join command @ '': '' @ m)
            else return_p \<lparr>cp_rc = 127, cp_out = [], cp_err = m\<rparr>)
       | Completed rc out err \<Rightarrow>
           (if check \<and> rc \<noteq> 0 then
              raise_p RuntimeError (shlex_join command @ '': '' @
                (if py_strip err \<noteq> [] then py_strip err
                 else if py_strip out \<noteq> [] then py_strip out else ''command failed''))
            else return_p \<lparr>cp_rc = rc, cp_out = out, cp_err = err\<rparr>))"

definition run_cmd :: "'w host \<Rightarrow> bool \<Rightarrow> string list \<Rightarrow> ('w daemon, completed) prog" where
  "run_cmd h check command = run_timeout h check 60 command"

definition run_ok :: "'w host \<Rightarrow> string list \<Rightarrow> ('w daemon, unit) prog" where
  "run_ok h command = then_p (run_cmd h True command) (return_p ())"

definition pause :: "'w host \<Rightarrow> ('w daemon, unit) prog" where
  "pause h = modify_p (\<lambda>s. s\<lparr>d_world := h_sleep h (d_world s)\<rparr>)"

definition do_syscall :: "'w host \<Rightarrow> syscall \<Rightarrow> ('w daemon, unit) prog" where
  "do_syscall h c s =
     (case h_syscall h c (d_world s) of
        (a, w) \<Rightarrow>
          (case a of None \<Rightarrow> Ret () | Some m \<Rightarrow> Raise (Exn OSError m),
           s\<lparr>d_world := w, d_log := d_log s @ [Sys c a]\<rparr>))"

section \<open>Probes\<close>

definition exists_cmd :: "'w host \<Rightarrow> string list \<Rightarrow> ('w daemon, bool) prog" where
  "exists_cmd h command = bind_p (run_cmd h False command) (\<lambda>c. return_p (cp_rc c = 0))"

definition vm_available :: "manager \<Rightarrow> 'w host \<Rightarrow> 'w \<Rightarrow> bool" where
  "vm_available m h w \<longleftrightarrow> h_is_file h (c_vm_command (m_config m)) w \<and> h_executable h (c_vm_command (m_config m)) w"

definition require_vm_backend :: "manager \<Rightarrow> 'w host \<Rightarrow> ('w daemon, unit) prog" where
  "require_vm_backend m h s =
     (if vm_available m h (d_world s) then return_p () s
      else raise_p RuntimeError (''bhyve backend is unavailable: '' @ c_vm_command (m_config m)
                                 @ ''; install vm-bhyve'') s)"

definition jail_probe :: "string \<Rightarrow> string list" where
  "jail_probe name = [''jls'', ''-j'', name, ''name'']"

definition vm_probe :: "manager \<Rightarrow> string \<Rightarrow> string list" where
  "vm_probe m name = [c_vm_command (m_config m), ''info'', name]"

definition dataset_probe :: "string \<Rightarrow> string list" where
  "dataset_probe ds = [''zfs'', ''list'', ''-H'', ''-o'', ''name'', ds]"

definition interface_probe :: "string \<Rightarrow> string list" where
  "interface_probe i = [''ifconfig'', i]"

definition md_unit_ok :: "string \<Rightarrow> bool" where
  "md_unit_ok s \<longleftrightarrow> starts_with ''md'' s \<and> drop 2 s \<noteq> [] \<and> list_all ascii_digit (drop 2 s)"

definition md_probe :: "string \<Rightarrow> string list" where
  "md_probe u = [''mdconfig'', ''-l'', ''-u'', drop 2 u]"

definition jail_exists :: "'w host \<Rightarrow> string \<Rightarrow> ('w daemon, bool) prog" where
  "jail_exists h name = exists_cmd h (jail_probe name)"

definition vm_exists :: "manager \<Rightarrow> 'w host \<Rightarrow> string \<Rightarrow> ('w daemon, bool) prog" where
  "vm_exists m h name =
     bind_p (gets_p (\<lambda>s. vm_available m h (d_world s))) (\<lambda>av.
       if \<not> av then return_p False else exists_cmd h (vm_probe m name))"

definition dataset_exists :: "'w host \<Rightarrow> string \<Rightarrow> ('w daemon, bool) prog" where
  "dataset_exists h ds = exists_cmd h (dataset_probe ds)"

definition interface_exists :: "'w host \<Rightarrow> string \<Rightarrow> ('w daemon, bool) prog" where
  "interface_exists h i = exists_cmd h (interface_probe i)"

definition md_exists :: "'w host \<Rightarrow> string \<Rightarrow> ('w daemon, bool) prog" where
  "md_exists h u = (if \<not> md_unit_ok u then return_p False else exists_cmd h (md_probe u))"

definition snapshot_exists :: "'w host \<Rightarrow> string \<Rightarrow> ('w daemon, bool) prog" where
  "snapshot_exists h snapshot =
     (if snapshot = [] \<or> CHR ''@'' \<notin> set snapshot then return_p False
      else exists_cmd h [''zfs'', ''list'', ''-H'', ''-o'', ''name'', ''-t'', ''snapshot'', snapshot])"

section \<open>The network\<close>

definition ensure_bridge :: "manager \<Rightarrow> 'w host \<Rightarrow> ('w daemon, unit) prog" where
  "ensure_bridge m h =
     (let b = c_bridge_name (m_config m); host = c_host_address (m_config m)
      in bind_p (gets_p d_bridge) (\<lambda>configured.
         if configured then return_p ()
         else
           bind_p (run_cmd h False [''ifconfig'', b]) (\<lambda>r0.
           bind_p (if cp_rc r0 \<noteq> 0
                   then then_p (run_ok h [''ifconfig'', ''bridge'', ''create'', ''name'', b])
                          (run_cmd h True [''ifconfig'', b])
                   else return_p r0) (\<lambda>r.
           then_p
             (if \<not> contains_str (''inet '' @ host @ '' '') (cp_out r)
              then run_ok h [''ifconfig'', b, ''inet'', host @ ''/'' @ nat_str (m_prefix_len m), ''up'']
              else run_ok h [''ifconfig'', b, ''up''])
             (modify_p (\<lambda>s. s\<lparr>d_bridge := True\<rparr>))))))"

definition ensure_vm_switch :: "manager \<Rightarrow> 'w host \<Rightarrow> ('w daemon, unit) prog" where
  "ensure_vm_switch m h =
     (let vm = c_vm_command (m_config m); sw = c_vm_switch (m_config m)
      in bind_p (gets_p d_switch) (\<lambda>configured.
         if configured then return_p ()
         else
           then_p (require_vm_backend m h)
           (bind_p (run_cmd h False [vm, ''switch'', ''info'', sw]) (\<lambda>r.
           then_p
             (when_p (cp_rc r \<noteq> 0)
               (run_ok h [vm, ''switch'', ''create'', ''-t'', ''manual'', ''-b'', c_bridge_name (m_config m), sw]))
           (then_p (run_ok h [vm, ''switch'', ''private'', sw, ''on''])
             (modify_p (\<lambda>s. s\<lparr>d_switch := True\<rparr>)))))))"

text \<open>\<open>_allocate\<close>; a failing create or write of a lease file is the host's.\<close>

definition allocate_address :: "manager \<Rightarrow> 'w host \<Rightarrow> string \<Rightarrow> ('w daemon, string) prog" where
  "allocate_address m h name =
     bind_p (gets_p d_world) (\<lambda>w.
     bind_p (on_leases (pool_allocate (m_pool m) (h_create_fails h w) (h_write_fails h w) name)) (\<lambda>address.
       if address = c_host_address (m_config m) then
         then_p (on_leases (pool_release (m_pool m) address name))
           (raise_p RuntimeError ''Address pool contains the host bridge address'')
       else return_p address))"

definition jail_dataset :: "manager \<Rightarrow> string \<Rightarrow> string" where
  "jail_dataset m name = rstrip_char (CHR ''/'') (c_jail_dataset_parent (m_config m)) @ ''/'' @ name"

section \<open>Registry access\<close>

definition load_record :: "string \<Rightarrow> ('w daemon, record_doc option) prog" where
  "load_record name = bind_p (gets_p (\<lambda>s. load_registry (d_registry s) name)) lift_p"

text \<open>
  \<open>_write_registry(record)\<close>: the name is the record's own, checked again. The temporary
  file's name starts with a dot and the runtime's name.
\<close>

definition write_record :: "'w host \<Rightarrow> record_doc \<Rightarrow> ('w daemon, unit) prog" where
  "write_record h r =
     bind_p (lift_p (validate_name (pget r ''name''))) (\<lambda>name.
     bind_p (gets_p d_world) (\<lambda>w.
       let tmp = ''.'' @ name @ ''.'' @ h_temp_name h name w
       in on_registry (write_registry (h_create_fails h w) (h_write_fails h w) tmp name r)))"

text \<open>\<open>_write_runtime_public_key\<close>: the file stays when it returns; it is unlinked when it raises.\<close>

definition write_runtime_public_key :: "'w host \<Rightarrow> string \<Rightarrow> string \<Rightarrow> ('w daemon, string) prog" where
  "write_runtime_public_key h name public_key =
     bind_p (gets_p d_world) (\<lambda>w.
       let tmp = ''.'' @ name @ ''.ssh-key.'' @ h_temp_name h name w
       in on_registry
         (if h_create_fails h w tmp then raise_p OSError ''Permission denied''
          else then_p (modify_p (dir_put tmp (RFile [])))
            (if h_write_fails h w tmp
             then then_p (modify_p (dir_del tmp)) (raise_p OSError ''No space left on device'')
             else then_p (modify_p (dir_put tmp (RFile (utf8_encode (public_key @ [CHR 0x0A])))))
               (return_p tmp))))"

section \<open>A jail's ssh key\<close>

text \<open>\<open>root in p.parents or p == root\<close>, for resolved absolute paths.\<close>

definition path_within :: "string \<Rightarrow> string \<Rightarrow> bool" where
  "path_within root p \<longleftrightarrow> p = root \<or> starts_with (rstrip_char (CHR ''/'') root @ ''/'') p"

definition install_jail_authorized_key ::
    "manager \<Rightarrow> 'w host \<Rightarrow> string \<Rightarrow> string \<Rightarrow> ('w daemon, unit) prog" where
  "install_jail_authorized_key m h jail_root public_key =
     (let ssh_user = c_jail_ssh_user (m_config m)
      in bind_p (run_cmd h True [''pw'', ''-R'', jail_root, ''usershow'', ''-n'', ssh_user, ''-7'']) (\<lambda>r.
         case split_on (CHR '':'') (py_strip (cp_out r)) of
           [_, _, uid_text, gid_text, _, home, _] \<Rightarrow>
             (case (py_int uid_text, py_int gid_text) of
                (Some uid, Some gid) \<Rightarrow>
                  (if \<not> starts_with ''/'' home \<or> home = ''/'' then
                     raise_p RuntimeError ''Jail SSH user must have a dedicated absolute home directory''
                   else bind_p (gets_p d_world) (\<lambda>w.
                     let home_path = h_resolve h (jail_root @ ''/'' @ lstrip_char (CHR ''/'') home) w;
                         root_path = h_resolve h jail_root w;
                         ssh_dir = home_path @ ''/.ssh'';
                         keys = ssh_dir @ ''/authorized_keys''
                     in if \<not> path_within root_path home_path then
                          raise_p RuntimeError ''Jail SSH home escapes the jail root''
                        else
                          then_p (when_p (h_is_symlink h ssh_dir w) (do_syscall h (Unlink ssh_dir)))
                          (then_p (do_syscall h (Mkdir ssh_dir 448))
                          (then_p (do_syscall h (Chmod ssh_dir 448))
                          (then_p (do_syscall h (Chown ssh_dir uid gid))
                          (bind_p (gets_p (\<lambda>s. h_is_symlink h keys (d_world s))) (\<lambda>link.
                          then_p (when_p link (do_syscall h (Unlink keys)))
                          (then_p (do_syscall h (WriteText keys (public_key @ [CHR 0x0A])))
                          (then_p (do_syscall h (Chmod keys 384))
                          (do_syscall h (Chown keys uid gid)))))))))))
              | _ \<Rightarrow> raise_p ValueError ''invalid literal for int() with base 10'')
         | _ \<Rightarrow> raise_p RuntimeError (''Unable to resolve jail SSH user: '' @ ssh_user)))"

definition configure_jail_loopback :: "'w host \<Rightarrow> string \<Rightarrow> ('w daemon, unit) prog" where
  "configure_jail_loopback h name =
     run_ok h [''jexec'', name, ''ifconfig'', ''lo0'', ''inet'', ''127.0.0.1/8'', ''up'']"

end
