(* ===== verification/Ssh_Transport.thy ===== *)
theory Ssh_Transport
  imports Remote_Connection Daemon Complex_Main
begin

text \<open>
  ssh_transport.py: what is checked before OpenSSH is used, its command line, a command that
  is run with a limit of time, the wait until the guest answers, and the staging of the
  connection file. The machine is a record of the operations the code calls: the clock
  \<open>time.monotonic\<close>, the connection attempt, \<open>subprocess.run\<close> and \<open>time.sleep\<close>; each takes the
  state of the world and returns the next one. Times are rationals (seconds).
\<close>

section \<open>The transport and its checks\<close>

record ssh_transport =
  tr_host :: string
  tr_user :: string
  tr_private_key :: string
  tr_known_hosts :: string
  tr_ssh :: string
  tr_scp :: string
  tr_config :: string
  tr_connect_timeout :: int
  tr_attempts :: int
  tr_alive_interval :: int
  tr_alive_count :: int
  tr_keep_alive :: bool
  tr_bind :: string

text \<open>The fields the constructor gives a default.\<close>

definition default_transport :: ssh_transport where
  "default_transport =
     \<lparr>tr_host = [], tr_user = [], tr_private_key = [], tr_known_hosts = [], tr_ssh = ''/usr/bin/ssh'', tr_scp = ''/usr/bin/scp'',
      tr_config = ''/dev/null'', tr_connect_timeout = 5, tr_attempts = 3, tr_alive_interval = 15, tr_alive_count = 4,
      tr_keep_alive = True, tr_bind = ''127.0.0.1''\<rparr>"

text \<open>What the operating system says of a path, and the \<open>ipaddress\<close> library of a text.\<close>

record path_view =
  pv_link :: "string \<Rightarrow> bool"
  pv_file :: "string \<Rightarrow> bool"
  pv_exec :: "string \<Rightarrow> bool"
  pv_readable :: "string \<Rightarrow> bool"
  pv_which :: "string \<Rightarrow> bool"
  pv_is_ip :: "string \<Rightarrow> bool"

definition executable_exists :: "path_view \<Rightarrow> string \<Rightarrow> bool" where
  "executable_exists v command =
     (if starts_with ''/'' command then pv_file v command \<and> pv_exec v command else pv_which v command)"

text \<open>\<open>[a-z_][a-z0-9_-]*\<close> and \<open>[a-zA-Z0-9][a-zA-Z0-9.-]*\<close>\<close>

definition ssh_user_ok :: "string \<Rightarrow> bool" where
  "ssh_user_ok u =
     (case u of [] \<Rightarrow> False
      | c # r \<Rightarrow> (ascii_lower c \<or> c = CHR ''_'') \<and>
                 list_all (\<lambda>d. ascii_lower d \<or> ascii_digit d \<or> d = CHR ''_'' \<or> d = CHR ''-'') r)"

definition host_name_ok :: "string \<Rightarrow> bool" where
  "host_name_ok h =
     (case h of [] \<Rightarrow> False
      | c # r \<Rightarrow> (ascii_lower c \<or> ascii_upper c \<or> ascii_digit c) \<and>
                 list_all (\<lambda>d. ascii_lower d \<or> ascii_upper d \<or> ascii_digit d \<or> d = CHR ''.'' \<or> d = CHR ''-'') r)"

fun missing_executable :: "path_view \<Rightarrow> string list \<Rightarrow> string option" where
  "missing_executable v [] = None"
| "missing_executable v (c # cs) = (if executable_exists v c then missing_executable v cs else Some c)"

definition assert_available :: "path_view \<Rightarrow> ssh_transport \<Rightarrow> exn + unit" where
  "assert_available v t =
     (if \<not> pv_is_ip v (tr_bind t) then Inl (Exn ValueError (''Invalid bind_address: '' @ tr_bind t))
      else if \<not> ssh_user_ok (tr_user t) then Inl (Exn ValueError (''Invalid SSH user: '' @ tr_user t))
      else if \<not> pv_is_ip v (tr_host t) \<and> \<not> host_name_ok (tr_host t) then
        Inl (Exn ValueError (''Invalid host address: '' @ tr_host t))
      else case missing_executable v [tr_ssh t, tr_scp t] of
        Some c \<Rightarrow> Inl (Exn RuntimeError (''Required executable is unavailable: '' @ c))
      | None \<Rightarrow>
          (if pv_link v (tr_private_key t) \<or> \<not> pv_file v (tr_private_key t) then
             Inl (Exn RuntimeError (''Required SSH private key is unavailable: '' @ tr_private_key t))
           else if tr_config t \<noteq> ''/dev/null'' \<and>
             (pv_link v (tr_config t) \<or> \<not> pv_file v (tr_config t) \<or> \<not> pv_readable v (tr_config t)) then
             Inl (Exn RuntimeError (''SSH client configuration path is unavailable: '' @ tr_config t))
           else if pv_link v (tr_known_hosts t) then
             Inl (Exn RuntimeError (''Known hosts file must not be a symbolic link: '' @ tr_known_hosts t))
           else Inr ()))"

section \<open>The command line\<close>

definition ssh_target :: "ssh_transport \<Rightarrow> string" where
  "ssh_target t = tr_user t @ ''@'' @ tr_host t"

definition ssh_options :: "ssh_transport \<Rightarrow> string list" where
  "ssh_options t =
     [''-F'', tr_config t, ''-i'', tr_private_key t,
      ''-o'', ''BatchMode=yes'', ''-o'', ''IdentitiesOnly=yes'',
      ''-o'', ''ConnectTimeout='' @ int_str (tr_connect_timeout t),
      ''-o'', ''ConnectionAttempts='' @ int_str (tr_attempts t),
      ''-o'', ''ServerAliveInterval='' @ int_str (tr_alive_interval t),
      ''-o'', ''ServerAliveCountMax='' @ int_str (tr_alive_count t),
      ''-o'', ''TCPKeepAlive='' @ (if tr_keep_alive t then ''yes'' else ''no''),
      ''-o'', ''ExitOnForwardFailure=yes'',
      ''-o'', ''StrictHostKeyChecking=accept-new'',
      ''-o'', ''GlobalKnownHostsFile=/dev/null'',
      ''-o'', ''UserKnownHostsFile='' @ tr_known_hosts t]"

definition forward_words :: "ssh_transport \<Rightarrow> int \<Rightarrow> string list" where
  "forward_words t port = [''-L'', tr_bind t @ '':'' @ int_str port @ '':127.0.0.1:'' @ int_str port]"

definition ssh_command :: "ssh_transport \<Rightarrow> string \<Rightarrow> int list \<Rightarrow> exn + string list" where
  "ssh_command t remote_command forward_ports =
     (let ports = sort (remdups forward_ports)
      in if \<exists>p \<in> set ports. \<not> (1 \<le> p \<and> p \<le> 65535) then Inl (Exn ValueError ''Invalid SSH forwarding port'')
         else Inr (tr_ssh t # ssh_options t @ [''-T''] @ concat (map (forward_words t) ports) @ [ssh_target t, remote_command]))"

section \<open>The machine\<close>

record 'w ssh_world =
  sw_now :: "'w \<Rightarrow> rat \<times> 'w"
  sw_connect :: "string \<Rightarrow> rat \<Rightarrow> 'w \<Rightarrow> bool \<times> 'w"
  sw_exec :: "string list \<Rightarrow> string option \<Rightarrow> rat \<Rightarrow> 'w \<Rightarrow> outcome \<times> 'w"
  sw_sleep :: "rat \<Rightarrow> 'w \<Rightarrow> 'w"

definition now_p :: "'w ssh_world \<Rightarrow> ('w, rat) prog" where
  "now_p k w = (case sw_now k w of (n, w') \<Rightarrow> (Ret n, w'))"

definition run_ssh :: "'w ssh_world \<Rightarrow> bool \<Rightarrow> string option \<Rightarrow> rat \<Rightarrow> string list \<Rightarrow> ('w, completed) prog" where
  "run_ssh k check input_text limit command w =
     (case sw_exec k command input_text limit w of
        (TimedOut, w') \<Rightarrow> (Raise (Exn RuntimeError (''Command timed out: '' @ shlex_join command)), w')
      | (ExecFailed m, w') \<Rightarrow> (Raise (Exn RuntimeError (''Unable to execute '' @ shlex_join command @ '': '' @ m)), w')
      | (Completed rc out err, w') \<Rightarrow>
          (if check \<and> rc \<noteq> 0 then
             (Raise (Exn RuntimeError (shlex_join command @ '': '' @
                (if py_strip err \<noteq> [] then py_strip err
                 else if py_strip out \<noteq> [] then py_strip out else ''command failed''))), w')
           else (Ret \<lparr>cp_rc = rc, cp_out = out, cp_err = err\<rparr>, w')))"

text \<open>
  \<open>socket.create_connection\<close> raises ValueError for a negative timeout, which the handler of
  OSError does not catch.
\<close>

definition probe_tcp :: "'w ssh_world \<Rightarrow> ssh_transport \<Rightarrow> rat \<Rightarrow> ('w, bool) prog" where
  "probe_tcp k t limit w =
     (if limit < 0 then (Raise (Exn ValueError ''Timeout value out of range''), w)
      else case sw_connect k (tr_host t) limit w of (b, w') \<Rightarrow> (Ret b, w'))"

section \<open>Waiting for the guest\<close>

definition sleep_until :: "'w ssh_world \<Rightarrow> rat \<Rightarrow> rat \<Rightarrow> 'w \<Rightarrow> 'w" where
  "sleep_until k deadline d w = (case sw_now k w of (n, w') \<Rightarrow> sw_sleep k (min d (max 0 (deadline - n))) w')"

text \<open>One turn of the loop ends it, with a result, or asks for the next one, with the last detail.\<close>

datatype turn = Over "unit res" | Again string

definition probe_limit :: "ssh_transport \<Rightarrow> rat" where
  "probe_limit t = of_int (max 5 (tr_connect_timeout t * tr_attempts t + 2))"

definition probe_ssh :: "'w ssh_world \<Rightarrow> ssh_transport \<Rightarrow> rat \<Rightarrow> rat \<Rightarrow> string \<Rightarrow> 'w \<Rightarrow> turn \<times> 'w" where
  "probe_ssh k t deadline remaining last_detail w =
     (case ssh_command t ''true'' [] of
        Inl e \<Rightarrow> (Over (Raise e), w)
      | Inr words \<Rightarrow>
          (case run_ssh k False None (min (probe_limit t) remaining) words w of
             (Raise e, w') \<Rightarrow>
               (if starts_with ''Command timed out:'' (exn_msg e)
                then (Again (exn_msg e), sleep_until k deadline (1 / 2) w') else (Over (Raise e), w'))
           | (Stuck, w') \<Rightarrow> (Over Stuck, w')
           | (Ret r, w') \<Rightarrow>
               (if cp_rc r = 0 then (Over (Ret ()), w')
                else (Again (if py_strip (cp_err r) \<noteq> [] then py_strip (cp_err r)
                             else if py_strip (cp_out r) \<noteq> [] then py_strip (cp_out r) else last_detail),
                      sleep_until k deadline (1 / 2) w'))))"

definition wait_turn :: "'w ssh_world \<Rightarrow> ssh_transport \<Rightarrow> rat \<Rightarrow> string \<Rightarrow> 'w \<Rightarrow> turn \<times> 'w" where
  "wait_turn k t deadline last_detail w =
     (case sw_now k w of (n, w1) \<Rightarrow>
       if \<not> n < deadline then
         (Over (Raise (Exn RuntimeError (''Timed out waiting for '' @ ssh_target t @ '' SSH: '' @ last_detail))), w1)
       else case sw_now k w1 of (n2, w2) \<Rightarrow>
         (case probe_tcp k t (min (1 / 2) (deadline - n2)) w2 of
            (Raise e, w3) \<Rightarrow> (Over (Raise e), w3)
          | (Stuck, w3) \<Rightarrow> (Over Stuck, w3)
          | (Ret open_port, w3) \<Rightarrow>
              (if open_port then probe_ssh k t deadline (deadline - n2) last_detail w3
               else (Again (''TCP port 22 not yet open on '' @ tr_host t), sleep_until k deadline (1 / 4) w3))))"

partial_function (option) wait_loop ::
    "'w ssh_world \<Rightarrow> ssh_transport \<Rightarrow> rat \<Rightarrow> string \<Rightarrow> 'w \<Rightarrow> (unit res \<times> 'w) option" where
  "wait_loop k t deadline last_detail w =
     (case wait_turn k t deadline last_detail w of
        (Over r, w') \<Rightarrow> Some (r, w')
      | (Again detail, w') \<Rightarrow> wait_loop k t deadline detail w')"

definition wait_until_ready :: "'w ssh_world \<Rightarrow> ssh_transport \<Rightarrow> pyval \<Rightarrow> 'w \<Rightarrow> (unit res \<times> 'w) option" where
  "wait_until_ready k t timeout w =
     (case timeout of
        PInt i \<Rightarrow>
          (if i \<le> 0 then Some (Raise (Exn ValueError ''timeout must be a positive integer''), w)
           else case sw_now k w of (n, w') \<Rightarrow> wait_loop k t (n + of_int i) ''SSH did not become ready'' w')
      | _ \<Rightarrow> Some (Raise (Exn ValueError ''timeout must be a positive integer''), w))"

section \<open>Staging the connection file\<close>

datatype staged_file = StageMissing | StageIrregular | StageFile string

definition staged_path :: "string \<Rightarrow> string \<Rightarrow> string" where
  "staged_path remote_dir host_path = rstrip_char (CHR ''/'') remote_dir @ ''/'' @ path_name host_path"

definition stage_command :: "string \<Rightarrow> string \<Rightarrow> string" where
  "stage_command remote_dir remote_path =
     ''install -d -m 700 '' @ shlex_quote remote_dir @ '' && cat > '' @ shlex_quote remote_path @
     '' && chmod 600 '' @ shlex_quote remote_path"

definition stage :: "'w ssh_world \<Rightarrow> ssh_transport \<Rightarrow> (string \<Rightarrow> staged_file) \<Rightarrow> string \<Rightarrow> string \<Rightarrow> ('w, string) prog" where
  "stage k t entry host_path remote_dir =
     (case entry host_path of
        StageMissing \<Rightarrow> raise_p RuntimeError (''File to stage does not exist: '' @ host_path)
      | StageIrregular \<Rightarrow> raise_p RuntimeError (''File to stage must be a regular file: '' @ host_path)
      | StageFile b \<Rightarrow>
          (if \<not> starts_with ''/'' remote_dir then raise_p ValueError (''remote_dir must be an absolute path: '' @ remote_dir)
           else case utf8_decode b of
             None \<Rightarrow> raise_p UnicodeDecodeError ''invalid start byte''
           | Some content \<Rightarrow>
               let remote_path = staged_path remote_dir host_path
               in bind_p (lift_p (ssh_command t (stage_command remote_dir remote_path) [])) (\<lambda>words.
                    then_p (run_ssh k True (Some content) 15 words) (return_p remote_path))))"

section \<open>The wait always ends\<close>

text \<open>
  What the wait relies on: the clock does not run backwards while the calls run, and
  \<open>time.sleep(d)\<close> sleeps at least \<open>d\<close> seconds. \<open>time w\<close> is the moment of a state.
\<close>

definition clock_ok :: "('w \<Rightarrow> rat) \<Rightarrow> 'w ssh_world \<Rightarrow> bool" where
  "clock_ok time k \<longleftrightarrow>
     (\<forall>w. time w \<le> fst (sw_now k w) \<and> fst (sw_now k w) \<le> time (snd (sw_now k w))) \<and>
     (\<forall>h d w. time w \<le> time (snd (sw_connect k h d w))) \<and>
     (\<forall>c i d w. time w \<le> time (snd (sw_exec k c i d w))) \<and>
     (\<forall>d w. time w + d \<le> time (sw_sleep k d w))"

lemma clock_now: "clock_ok time k \<Longrightarrow> sw_now k w = (n, w') \<Longrightarrow> time w \<le> n \<and> n \<le> time w'"
  unfolding clock_ok_def by (metis fst_conv snd_conv)

lemma clock_sleep_until:
  assumes "clock_ok time k" "0 \<le> d" "d \<le> 1 / 2" "1 / 4 \<le> d" "time w \<ge> a"
  shows "min (a + 1 / 4) deadline \<le> time (sleep_until k deadline d w)"
proof -
  obtain n w' where n: "sw_now k w = (n, w')" by (cases "sw_now k w")
  have "time w' + min d (max 0 (deadline - n)) \<le> time (sleep_until k deadline d w)"
    using assms(1) by (simp add: sleep_until_def n clock_ok_def)
  moreover have "a \<le> n" "n \<le> time w'" using clock_now [OF assms(1) n] assms(5) by auto
  ultimately show ?thesis using assms(3,4) by (auto simp: min_def max_def split: if_splits)
qed

lemma run_ssh_clock: "clock_ok time k \<Longrightarrow> run_ssh k c i l words w = (r, w') \<Longrightarrow> time w \<le> time w'"
  by (auto simp: run_ssh_def clock_ok_def split: prod.splits outcome.splits if_splits) (metis snd_conv)+

lemma probe_ssh_again:
  assumes "clock_ok time k" "probe_ssh k t deadline remaining d w = (Again d', w')" "time w \<ge> a"
  shows "min (a + 1 / 4) deadline \<le> time w'"
proof -
  obtain words where words: "ssh_command t ''true'' [] = Inr words"
    using assms(2) by (auto simp: probe_ssh_def split: sum.splits)
  obtain r w1 where r: "run_ssh k False None (min (probe_limit t) remaining) words w = (r, w1)"
    by (cases "run_ssh k False None (min (probe_limit t) remaining) words w")
  have "w' = sleep_until k deadline (1 / 2) w1"
    using assms(2) words r by (auto simp: probe_ssh_def split: res.splits if_splits)
  moreover have "time w1 \<ge> a" using run_ssh_clock [OF assms(1) r] assms(3) by simp
  ultimately show ?thesis using clock_sleep_until [OF assms(1), where d = "1 / 2" and w = w1 and a = a] by simp
qed

text \<open>A turn that asks for another starts before the deadline and takes a quarter of a second, or reaches it.\<close>

lemma wait_turn_again:
  assumes "clock_ok time k" "wait_turn k t deadline d w = (Again d', w')"
  shows "time w < deadline \<and> min (time w + 1 / 4) deadline \<le> time w'"
proof -
  obtain n w1 n2 w2 where n: "sw_now k w = (n, w1)" "sw_now k w1 = (n2, w2)" by (metis surj_pair)
  have before: "n < deadline" using assms(2) n by (auto simp: wait_turn_def split: if_splits)
  obtain r w3 where r: "probe_tcp k t (min (1 / 2) (deadline - n2)) w2 = (r, w3)"
    by (cases "probe_tcp k t (min (1 / 2) (deadline - n2)) w2")
  then obtain b where b: "r = Ret b"
    using assms(2) n before by (cases r) (auto simp: wait_turn_def)
  then have "sw_connect k (tr_host t) (min (1 / 2) (deadline - n2)) w2 = (b, w3)"
    using r by (auto simp: probe_tcp_def split: if_splits prod.splits)
  then have "time w2 \<le> time w3" using assms(1) unfolding clock_ok_def by (metis snd_conv)
  then have time: "time w \<le> time w3" "time w \<le> n"
    using clock_now [OF assms(1) n(1)] clock_now [OF assms(1) n(2)] by auto
  have "min (time w + 1 / 4) deadline \<le> time w'"
  proof (cases b)
    case True
    then have "probe_ssh k t deadline (deadline - n2) d w3 = (Again d', w')"
      using assms(2) n before r b by (simp add: wait_turn_def)
    then show ?thesis using probe_ssh_again [OF assms(1)] time(1) by blast
  next
    case False
    then have "w' = sleep_until k deadline (1 / 4) w3"
      using assms(2) n before r b by (simp add: wait_turn_def)
    then show ?thesis using clock_sleep_until [OF assms(1), where d = "1 / 4" and w = w3 and a = "time w"] time(1) by simp
  qed
  with before time(2) show ?thesis by simp
qed

lemma wait_loop_ends:
  assumes "clock_ok time k" "deadline - time w \<le> of_nat m / 4"
  shows "\<exists>r w'. wait_loop k t deadline d w = Some (r, w')"
  using assms(2)
proof (induction m arbitrary: w d)
  case 0
  obtain a w' where turn: "wait_turn k t deadline d w = (a, w')" by (cases "wait_turn k t deadline d w")
  then obtain r where "a = Over r" using wait_turn_again [OF assms(1)] 0 by (cases a) fastforce+
  with turn show ?case by (subst wait_loop.simps) auto
next
  case (Suc m)
  obtain a w' where turn: "wait_turn k t deadline d w = (a, w')" by (cases "wait_turn k t deadline d w")
  show ?case
  proof (cases a)
    case (Over r)
    with turn show ?thesis by (subst wait_loop.simps) auto
  next
    case (Again d')
    with turn wait_turn_again [OF assms(1)] have "min (time w + 1 / 4) deadline \<le> time w'" by blast
    with Suc.prems have "deadline - time w' \<le> of_nat m / 4" by (auto simp: min_def field_simps split: if_splits)
    from Suc.IH [OF this] turn Again show ?thesis by (subst wait_loop.simps) simp
  qed
qed

text \<open>What the result of a wait means.\<close>

definition answered :: "'w ssh_world \<Rightarrow> ssh_transport \<Rightarrow> 'w \<Rightarrow> bool" where
  "answered k t w' \<longleftrightarrow>
     (\<exists>words limit w out err. ssh_command t ''true'' [] = Inr words \<and>
        sw_exec k words None limit w = (Completed 0 out err, w'))"

lemma probe_ssh_over:
  assumes "probe_ssh k t deadline remaining d w = (Over r, w')"
  shows "r = Ret () \<and> answered k t w' \<or> (\<exists>m. r = Raise (Exn RuntimeError m))"
proof -
  have words: "ssh_command t ''true'' [] = Inr (tr_ssh t # ssh_options t @ [''-T'', ssh_target t, ''true''])"
    by (simp add: ssh_command_def)
  show ?thesis
    using assms unfolding probe_ssh_def words sum.case
    by (auto simp: run_ssh_def answered_def words split: prod.splits outcome.splits if_splits)
qed

definition wait_result :: "'w ssh_world \<Rightarrow> ssh_transport \<Rightarrow> unit res \<times> 'w \<Rightarrow> bool" where
  "wait_result k t y \<longleftrightarrow>
     (fst y = Ret () \<and> answered k t (snd y)) \<or> (\<exists>m. fst y = Raise (Exn RuntimeError m)) \<or>
     fst y = Raise (Exn ValueError ''Timeout value out of range'')"

lemma wait_turn_over:
  assumes "wait_turn k t deadline d w = (Over r, w')"
  shows "wait_result k t (r, w')"
proof -
  have probe: "wait_result k t (r, w')" if "probe_ssh k t deadline rem d u = (Over r, w')" for rem u
    using probe_ssh_over [OF that] by (auto simp: wait_result_def)
  show ?thesis
    using assms
    by (auto simp: wait_turn_def probe_tcp_def split: prod.splits if_splits intro: probe)
      (auto simp: wait_result_def)
qed

lemma wait_loop_result: "wait_loop k t deadline d w = Some y \<Longrightarrow> wait_result k t y"
proof (induction rule: wait_loop.raw_induct [rotated 1, consumes 1])
  case (1 loop k t deadline d w y)
  then show ?case
    using wait_turn_over [of k t deadline d w]
    by (auto split: prod.splits turn.splits)
qed

lemma deadline_between_reads:
  assumes "sw_now k w = (n, w1)" "n < deadline" "sw_now k w1 = (n2, w2)" "deadline < n2"
  shows "wait_loop k t deadline d w = Some (Raise (Exn ValueError ''Timeout value out of range''), w2)"
  using assms by (subst wait_loop.simps) (simp add: wait_turn_def probe_tcp_def)

section \<open>The words of the remote command\<close>

definition plain_word :: "string \<Rightarrow> bool" where
  "plain_word s \<longleftrightarrow>
     s \<noteq> [] \<and> list_all (\<lambda>c. \<not> lex_space c \<and> c \<noteq> single_quote \<and> c \<noteq> double_quote \<and> c \<noteq> CHR 0x5C) s"

lemma split_in_word:
  "list_all (\<lambda>c. \<not> lex_space c \<and> c \<noteq> single_quote \<and> c \<noteq> double_quote \<and> c \<noteq> CHR 0x5C) s \<Longrightarrow>
     shlex_split (Word w) (s @ t) = shlex_split (Word (rev s @ w)) t"
  by (induction s arbitrary: w) (simp_all add: start_char_def)

lemma split_plain: "plain_word s \<Longrightarrow> shlex_split Between (s @ t) = shlex_split (Word (rev s)) t"
  by (cases s) (simp_all add: plain_word_def start_char_def split_in_word)

lemma split_blank: "shlex_split (Word w) (CHR '' '' # t) = map_option ((#) (rev w)) (shlex_split Between t)"
  by (simp add: lex_space_def)

text \<open>A command whose words are plain or quoted splits into those words.\<close>

lemma split_words:
  assumes "list_all (\<lambda>(q, s). q \<or> plain_word s) ws" "ws \<noteq> []"
  shows "shlex_split Between (join_with '' '' (map (\<lambda>(q, s). if q then shlex_quote s else s) ws)) = Some (map snd ws)"
  using assms
proof (induction ws)
  case (Cons p ws)
  obtain q s where p: "p = (q, s)" by (cases p)
  let ?f = "\<lambda>(q, s). if q then shlex_quote s else s"
  have first: "shlex_split Between (?f p @ t) = shlex_split (Word (rev s)) t" for t
    using Cons.prems(1) p split_quote [of s t] split_plain [of s t] by auto
  show ?case
  proof (cases "ws = []")
    case True
    then show ?thesis using first [of "[]"] p by simp
  next
    case False
    then have "join_with '' '' (map ?f (p # ws)) = ?f p @ CHR '' '' # join_with '' '' (map ?f ws)"
      using join_Cons [of "map ?f ws" "'' ''" "?f p"] by simp
    moreover have "shlex_split Between (join_with '' '' (map ?f ws)) = Some (map snd ws)"
      using Cons.IH Cons.prems(1) False by simp
    moreover have "shlex_split Between (?f p @ CHR '' '' # t) = map_option ((#) s) (shlex_split Between t)" for t
      using first [of "CHR '' '' # t"] split_blank [of "rev s" t] by simp
    ultimately show ?thesis using p by simp
  qed
qed simp

section \<open>Properties\<close>

text \<open>
  The remote shell reads the staging command as its thirteen words whatever the directory and
  the file are called: quotes, blanks and shell operators in them stay part of one word.
\<close>

lemma staged_command_words:
  "shlex_split Between (stage_command remote_dir remote_path) =
     Some [''install'', ''-d'', ''-m'', ''700'', remote_dir, ''&&'', ''cat'', ''>'', remote_path, ''&&'', ''chmod'', ''600'', remote_path]"
proof -
  let ?ws = "[(False, ''install''), (False, ''-d''), (False, ''-m''), (False, ''700''), (True, remote_dir), (False, ''&&''),
    (False, ''cat''), (False, ''>''), (True, remote_path), (False, ''&&''), (False, ''chmod''), (False, ''600''), (True, remote_path)]"
  have "stage_command remote_dir remote_path = join_with '' '' (map (\<lambda>(q, s). if q then shlex_quote s else s) ?ws)"
    by (simp add: stage_command_def)
  moreover have "list_all (\<lambda>(q, s). q \<or> plain_word s) ?ws"
    by (simp add: plain_word_def lex_space_def single_quote_def double_quote_def)
  ultimately show ?thesis using split_words [of ?ws] by simp
qed

text \<open>
  C28. Waiting for a guest ends, for every guest, when the clock runs on and sleeping takes its
  time: it returns only after ssh ran \<open>true\<close> on the guest with exit code 0, and raises
  RuntimeError otherwise, or ValueError from a probe that began after the deadline.
\<close>

theorem wait_ends:
  assumes "clock_ok time k" "0 < timeout"
  shows "\<exists>r w'. wait_until_ready k t (PInt timeout) w = Some (r, w') \<and>
     (r = Ret () \<and> answered k t w' \<or> (\<exists>m. r = Raise (Exn RuntimeError m)) \<or>
      r = Raise (Exn ValueError ''Timeout value out of range''))"
proof -
  obtain n w1 where n: "sw_now k w = (n, w1)" by (cases "sw_now k w")
  then have "n + of_int timeout - time w1 \<le> of_nat (nat (4 * timeout)) / 4"
    using clock_now [OF assms(1) n] assms(2) by simp
  then obtain r w' where "wait_loop k t (n + of_int timeout) ''SSH did not become ready'' w1 = Some (r, w')"
    using wait_loop_ends [OF assms(1)] by blast
  moreover from wait_loop_result [OF this] have "wait_result k t (r, w')" .
  ultimately show ?thesis using assms(2) n by (simp add: wait_until_ready_def wait_result_def)
qed

text \<open>A guest that opens its port after two seconds and answers.\<close>

definition sample_world :: "rat ssh_world" where
  "sample_world = \<lparr>sw_now = (\<lambda>w. (w, w)), sw_connect = (\<lambda>h d w. (2 \<le> w, w)),
     sw_exec = (\<lambda>c i d w. (Completed 0 [] [], w + 1)), sw_sleep = (\<lambda>d w. w + max 0 d)\<rparr>"

theorem wait_ends_witness:
  "\<exists>r w'. wait_until_ready sample_world default_transport (PInt 30) 0 = Some (r, w')"
  using wait_ends [of id sample_world 30 default_transport 0]
  by (force simp: clock_ok_def sample_world_def)

text \<open>
  When the checks pass, the destination on the command line of ssh cannot be taken for an
  option, the remote command is one word after it, and the forwarded ports are the requested
  ones, each once, in ascending order, from the local address to the same port of the guest's loopback.
\<close>

lemma ssh_command_line:
  assumes "assert_available v t = Inr ()" "ssh_command t remote_command ports = Inr words"
  shows "hd (ssh_target t) \<noteq> CHR ''-'' \<and>
     (\<exists>ps. sorted ps \<and> distinct ps \<and> set ps = set ports \<and> set ps \<subseteq> {1..65535} \<and>
        words = tr_ssh t # ssh_options t @ [''-T''] @ concat (map (forward_words t) ps) @ [ssh_target t, remote_command])"
proof -
  have "ssh_user_ok (tr_user t)" using assms(1) by (auto simp: assert_available_def split: if_splits)
  then have "hd (ssh_target t) \<noteq> CHR ''-''"
    by (auto simp: ssh_user_ok_def ssh_target_def ascii_lower_def split: list.splits)
  moreover have "set (sort (remdups ports)) \<subseteq> {1..65535}"
    "words = tr_ssh t # ssh_options t @ [''-T''] @ concat (map (forward_words t) (sort (remdups ports))) @ [ssh_target t, remote_command]"
    using assms(2) by (force simp: ssh_command_def Let_def split: if_splits)+
  moreover have "sorted (sort (remdups ports))" "distinct (sort (remdups ports))" "set (sort (remdups ports)) = set ports"
    by simp_all
  ultimately show ?thesis by blast
qed

definition sample_view :: path_view where
  "sample_view = \<lparr>pv_link = (\<lambda>_. False), pv_file = (\<lambda>_. True), pv_exec = (\<lambda>_. True), pv_readable = (\<lambda>_. True),
     pv_which = (\<lambda>_. True), pv_is_ip = (\<lambda>_. True)\<rparr>"

definition sample_transport :: ssh_transport where
  "sample_transport = default_transport\<lparr>tr_host := ''10.88.0.2'', tr_user := ''freebsd'', tr_private_key := ''/k/id'', tr_known_hosts := ''/k/h''\<rparr>"

lemma ssh_command_line_witness:
  "hd (ssh_target sample_transport) \<noteq> CHR ''-'' \<and> isl (ssh_command sample_transport ''true'' [30001, 30000, 30001]) = False"
proof -
  have "assert_available sample_view sample_transport = Inr ()"
    by (simp add: assert_available_def sample_view_def sample_transport_def default_transport_def ssh_user_ok_def
        executable_exists_def starts_with_def ascii_lower_def)
  moreover have "\<exists>words. ssh_command sample_transport ''true'' [30001, 30000, 30001] = Inr words"
    by (simp add: ssh_command_def)
  ultimately show ?thesis using ssh_command_line by fastforce
qed

end
