(* ===== verification/Port_Pool.thy ===== *)
theory Port_Pool
  imports Process_Identity Json Lease_Interface
begin

text \<open>
  port_leases.py: the leases of host ports for ssh tunnels, shared by the processes of one
  host. A lease is a file whose name carries the port, the pid, uid and process digest of
  its owner and the digest of the owner's name. The lock serialises the operations, so
  each is one program over the lease directory and the sockets this process has bound.
  Whether a process is alive is asked of the parameter \<open>mt\<close> (\<open>process_matches\<close>), ports
  other programs have bound are the parameter \<open>taken\<close>.
\<close>

section \<open>The pool and its lease names\<close>

record port_pool =
  pp_start :: nat
  pp_end :: nat
  pp_bind :: string

datatype port_entry = PortFile | PortLink

record port_state =
  ps_leases :: "port_entry dir"
  ps_bound :: "nat list"

text \<open>\<open>__init__\<close>; \<open>is_ipv6\<close> is the library's parser for IPv6 text.\<close>

definition port_pool_init :: "(string \<Rightarrow> bool) \<Rightarrow> pyval \<Rightarrow> pyval \<Rightarrow> string \<Rightarrow> exn + port_pool" where
  "port_pool_init is_ip start stop bind_address =
     (case (start, stop) of
        (PInt a, PInt b) \<Rightarrow>
          (if \<not> (1024 \<le> a \<and> a \<le> 65535) \<or> \<not> (1024 \<le> b \<and> b \<le> 65535) \<or> a > b then
             Inl (Exn ValueError ''Invalid tunnel port range'')
           else if \<not> is_ip bind_address then
             Inl (Exn ValueError (''Invalid bind_address: '' @ bind_address))
           else Inr \<lparr>pp_start = nat a, pp_end = nat b, pp_bind = bind_address\<rparr>)
      | _ \<Rightarrow> Inl (Exn ValueError ''Tunnel port range must contain integer TCP ports''))"

definition capacity :: "port_pool \<Rightarrow> nat" where
  "capacity p = pp_end p - pp_start p + 1"

definition owner_digest :: "string \<Rightarrow> string" where
  "owner_digest owner = hexdigest (utf8_encode owner)"

text \<open>The four fields of a lease name between the port and the suffix.\<close>

definition holder_parts :: "int \<Rightarrow> int \<Rightarrow> string \<Rightarrow> string \<Rightarrow> string list" where
  "holder_parts pid uid pd od = [int_str pid, int_str uid, pd, od]"

definition lease_name :: "nat \<Rightarrow> string list \<Rightarrow> string" where
  "lease_name port parts = join_with ''.'' (nat_str port # parts @ [''lease''])"

definition port_lease_path :: "nat \<Rightarrow> string \<Rightarrow> int \<Rightarrow> int \<Rightarrow> string \<Rightarrow> string" where
  "port_lease_path port owner pid uid digest = lease_name port (holder_parts pid uid digest (owner_digest owner))"

text \<open>\<open>glob(f"{port}.*.lease")\<close>\<close>

definition lease_glob :: "nat \<Rightarrow> string \<Rightarrow> bool" where
  "lease_glob port name \<longleftrightarrow>
     starts_with (nat_str port @ ''.'') name \<and> ends_with ''.lease'' name \<and>
     length (nat_str port) + 7 \<le> length name"

definition lease_paths :: "nat \<Rightarrow> port_entry dir \<Rightarrow> string list" where
  "lease_paths port d = filter (lease_glob port) (dir_names d)"

text \<open>\<open>int(s, 16)\<close> accepts: space around, a sign, a prefix, digits that underscores may group.\<close>

fun hex_groups :: "string \<Rightarrow> bool" where
  "hex_groups [] = False"
| "hex_groups [c] = is_hex_digit c"
| "hex_groups (c # d # s) =
     (is_hex_digit c \<and> (if d = CHR ''_'' then hex_groups s else hex_groups (d # s)))"

definition parses_base16 :: "string \<Rightarrow> bool" where
  "parses_base16 s =
     (let t = py_strip s;
          u = (case t of [] \<Rightarrow> [] | c # r \<Rightarrow> if c = CHR ''-'' \<or> c = CHR ''+'' then r else t)
      in (case u of
            a # b # r \<Rightarrow>
              (if a = CHR ''0'' \<and> (b = CHR ''x'' \<or> b = CHR ''X'')
               then hex_groups (case r of c # r' \<Rightarrow> if c = CHR ''_'' then r' else r | [] \<Rightarrow> r)
               else hex_groups u)
          | _ \<Rightarrow> hex_groups u))"

fun parts_identity :: "string list \<Rightarrow> (int \<times> int \<times> string) option" where
  "parts_identity [p, u, pd, od] =
     (case (py_int p, py_int u) of
        (Some pid, Some uid) \<Rightarrow>
          (if pid \<le> 1 \<or> uid < 0 then None
           else if length pd \<noteq> 64 \<or> \<not> parses_base16 pd then None
           else if length od \<noteq> 64 \<or> \<not> parses_base16 od then None
           else Some (pid, uid, pd))
      | _ \<Rightarrow> None)"
| "parts_identity _ = None"

definition lease_identity :: "port_entry dir \<Rightarrow> string \<Rightarrow> nat \<Rightarrow> (int \<times> int \<times> string) option" where
  "lease_identity d name port =
     (if dir_get d name = Some PortLink then None
      else case split_on (CHR ''.'') name of
        [a, p, u, pd, od, z] \<Rightarrow>
          (if a \<noteq> nat_str port \<or> z \<noteq> ''lease'' then None else parts_identity [p, u, pd, od])
      | _ \<Rightarrow> None)"

section \<open>Allocation and release\<close>

text \<open>The first eight bytes of the owner's digest choose where the search starts.\<close>

definition candidate_ports :: "port_pool \<Rightarrow> string \<Rightarrow> nat list" where
  "candidate_ports p owner =
     (let offset = foldl (\<lambda>n b. n * 256 + b) 0 (take 8 (sha256_bytes (utf8_encode owner))) mod capacity p
      in map (\<lambda>i. pp_start p + (offset + i) mod capacity p) [0..<capacity p])"

type_synonym match_fun = "int \<Rightarrow> int \<Rightarrow> string \<Rightarrow> exn + bool"

text \<open>\<open>any(...)\<close> over the lease files of a port: left to right, stopping at the first live one.\<close>

fun any_live :: "match_fun \<Rightarrow> port_entry dir \<Rightarrow> nat \<Rightarrow> string list \<Rightarrow> exn + bool" where
  "any_live mt d port [] = Inr False"
| "any_live mt d port (n # ns) =
     (case lease_identity d n port of
        None \<Rightarrow> any_live mt d port ns
      | Some (pid, uid, pd) \<Rightarrow>
          (case mt pid uid pd of
             Inl e \<Rightarrow> Inl e
           | Inr True \<Rightarrow> Inr True
           | Inr False \<Rightarrow> any_live mt d port ns))"

definition reserve_socket :: "(nat \<Rightarrow> bool) \<Rightarrow> nat \<Rightarrow> (port_state, bool) prog" where
  "reserve_socket taken port s =
     (if taken port \<or> port \<in> set (ps_bound s) then (Ret False, s)
      else (Ret True, s\<lparr>ps_bound := ps_bound s @ [port]\<rparr>))"

definition close_socket :: "nat \<Rightarrow> (port_state, unit) prog" where
  "close_socket port = modify_p (\<lambda>s. s\<lparr>ps_bound := remove1 port (ps_bound s)\<rparr>)"

definition unlink_lease :: "string \<Rightarrow> (port_state, unit) prog" where
  "unlink_lease name = modify_p (\<lambda>s. s\<lparr>ps_leases := dir_del name (ps_leases s)\<rparr>)"

definition write_lease :: "(string \<Rightarrow> bool) \<Rightarrow> string \<Rightarrow> (port_state, unit) prog" where
  "write_lease wfail name s =
     (if dir_get (ps_leases s) name \<noteq> None \<or> wfail name then (Raise (Exn OSError ''File exists''), s)
      else (Ret (), s\<lparr>ps_leases := dir_put name PortFile (ps_leases s)\<rparr>))"

text \<open>One turn of the loop over the candidates: the path of a new lease, or None to go on.\<close>

definition try_port ::
    "match_fun \<Rightarrow> (nat \<Rightarrow> bool) \<Rightarrow> (string \<Rightarrow> bool) \<Rightarrow> string list \<Rightarrow> nat \<Rightarrow> (port_state, string option) prog" where
  "try_port mt taken wfail parts port =
     bind_p (gets_p (\<lambda>s. lease_paths port (ps_leases s))) (\<lambda>paths.
     bind_p (gets_p (\<lambda>s. any_live mt (ps_leases s) port paths)) (\<lambda>busy.
       case busy of
         Inl e \<Rightarrow> throw_p e
       | Inr True \<Rightarrow> return_p None
       | Inr False \<Rightarrow>
           bind_p (reserve_socket taken port) (\<lambda>ok.
             if \<not> ok then return_p None
             else catch_p
               (then_p (foreach_p paths unlink_lease)
                 (then_p (write_lease wfail (lease_name port parts)) (return_p (Some (lease_name port parts)))))
               (\<lambda>e. then_p (close_socket port) (throw_p e)))))"

text \<open>
  The loop with its two accumulators; the third component is the exception that ended it,
  if one did.
\<close>

fun port_loop ::
    "match_fun \<Rightarrow> (nat \<Rightarrow> bool) \<Rightarrow> (string \<Rightarrow> bool) \<Rightarrow> string list \<Rightarrow> nat \<Rightarrow> nat list \<Rightarrow> nat list \<Rightarrow> string list \<Rightarrow>
     port_state \<Rightarrow> (nat list \<times> string list \<times> exn option) \<times> port_state" where
  "port_loop mt taken wfail parts count [] ports paths s = ((ports, paths, None), s)"
| "port_loop mt taken wfail parts count (c # cs) ports paths s =
     (case try_port mt taken wfail parts c s of
        (Raise e, t) \<Rightarrow> ((ports, paths, Some e), t)
      | (Stuck, t) \<Rightarrow> ((ports, paths, None), t)
      | (Ret None, t) \<Rightarrow> port_loop mt taken wfail parts count cs ports paths t
      | (Ret (Some path), t) \<Rightarrow>
          (if length (ports @ [c]) = count then ((ports @ [c], paths @ [path], None), t)
           else port_loop mt taken wfail parts count cs (ports @ [c]) (paths @ [path]) t))"

definition undo_leases :: "nat list \<Rightarrow> string list \<Rightarrow> (port_state, unit) prog" where
  "undo_leases ports paths = then_p (foreach_p ports close_socket) (foreach_p paths unlink_lease)"

definition reserve_ports ::
    "port_pool \<Rightarrow> match_fun \<Rightarrow> (nat \<Rightarrow> bool) \<Rightarrow> (string \<Rightarrow> bool) \<Rightarrow> string list \<Rightarrow> nat \<Rightarrow> nat list \<Rightarrow>
     (port_state, nat list) prog" where
  "reserve_ports p mt taken wfail parts count cands s =
     (case port_loop mt taken wfail parts count cands [] [] s of
        ((ports, paths, Some e), t) \<Rightarrow> then_p (undo_leases ports paths) (throw_p e) t
      | ((ports, paths, None), t) \<Rightarrow>
          (if length ports = count then (Ret ports, t)
           else then_p (undo_leases ports paths)
                  (raise_p RuntimeError (''Unable to reserve '' @ nat_str count @ '' SSH tunnel ports in ''
                     @ nat_str (pp_start p) @ ''-'' @ nat_str (pp_end p))) t))"

record port_reservation =
  rsv_owner :: string
  rsv_pid :: int
  rsv_uid :: int
  rsv_digest :: string
  rsv_ports :: "nat list"
  rsv_sockets :: "nat list"

text \<open>What entering \<open>_locked\<close> finds: the lock, or one of its three errors, two of which name the
  pool's directory.\<close>

datatype lock_answer = LockReady | NoDirectory string | NoLockFile string | LockNotRegular

definition enter_lock :: "lock_answer \<Rightarrow> ('s, unit) prog" where
  "enter_lock a =
     (case a of
        LockReady \<Rightarrow> return_p ()
      | NoDirectory directory \<Rightarrow>
          raise_p RuntimeError (''Tunnel lease directory must be provisioned by the host service: '' @ directory)
      | NoLockFile directory \<Rightarrow>
          raise_p RuntimeError (''Tunnel lease lock must be provisioned by the host service: '' @ directory @ ''/.lock'')
      | LockNotRegular \<Rightarrow> raise_p RuntimeError ''Tunnel lease lock is not a regular file'')"

definition port_allocate ::
    "'w host \<Rightarrow> 'w \<Rightarrow> int \<Rightarrow> int \<Rightarrow> lock_answer \<Rightarrow> (nat \<Rightarrow> bool) \<Rightarrow> (string \<Rightarrow> bool) \<Rightarrow> port_pool \<Rightarrow>
     string \<Rightarrow> pyval \<Rightarrow> pyval \<Rightarrow> (port_state, port_reservation) prog" where
  "port_allocate h w getpid getuid lock taken wfail p owner pid count =
     (if owner = [] then raise_p ValueError ''Tunnel port lease owner is required''
      else if pid \<noteq> PInt getpid then
        raise_p ValueError ''Tunnel port lease PID must match the calling process''
      else case count of
        PInt n \<Rightarrow>
          (if n \<le> 0 \<or> n > int (capacity p) then raise_p ValueError ''Invalid tunnel port lease count''
           else case query_process_identity h w getpid of
             Inl e \<Rightarrow> throw_p e
           | Inr None \<Rightarrow> raise_p RuntimeError ''Unable to fingerprint tunnel port lease owner''
           | Inr (Some i) \<Rightarrow>
               (if id_uid i \<noteq> getuid then
                  raise_p RuntimeError ''Unable to fingerprint tunnel port lease owner''
                else then_p (enter_lock lock)
                  (bind_p (reserve_ports p (process_matches h w) taken wfail
                             (holder_parts getpid (id_uid i) (id_digest i) (owner_digest owner))
                             (nat n) (candidate_ports p owner))
                    (\<lambda>ports. return_p \<lparr>rsv_owner = owner, rsv_pid = getpid, rsv_uid = id_uid i,
                                        rsv_digest = id_digest i, rsv_ports = ports, rsv_sockets = ports\<rparr>))))
      | _ \<Rightarrow> raise_p ValueError ''Invalid tunnel port lease count'')"

definition port_release ::
    "lock_answer \<Rightarrow> nat list \<Rightarrow> string \<Rightarrow> int \<Rightarrow> int \<Rightarrow> string \<Rightarrow> (port_state, unit) prog" where
  "port_release lock ports owner pid uid digest =
     (if ports = [] \<or> owner = [] \<or> pid \<le> 1 \<or> uid < 0 \<or> digest = [] then return_p ()
      else if \<not> list_all (\<lambda>p. 1024 \<le> p \<and> p \<le> 65535) ports then return_p ()
      else then_p (enter_lock lock)
        (foreach_p ports (\<lambda>p. unlink_lease (port_lease_path p owner pid uid digest))))"

text \<open>\<open>LocalPortReservation\<close>: closing the bound sockets, and giving the leases back.\<close>

definition release_reservations :: "port_reservation \<Rightarrow> (port_state, port_reservation) prog" where
  "release_reservations r =
     then_p (foreach_p (rsv_sockets r) close_socket) (return_p (r\<lparr>rsv_sockets := []\<rparr>))"

definition reservation_release :: "lock_answer \<Rightarrow> port_reservation \<Rightarrow> (port_state, port_reservation) prog" where
  "reservation_release lock r =
     bind_p (release_reservations r) (\<lambda>r'.
       then_p (port_release lock (rsv_ports r') (rsv_owner r') (rsv_pid r') (rsv_uid r') (rsv_digest r'))
         (return_p r'))"

section \<open>Names\<close>

lemma lease_name_eq: "parts \<noteq> [] \<Longrightarrow> lease_name port parts = nat_str port @ ''.'' @ join_with ''.'' parts @ ''.lease''"
  by (simp add: lease_name_def join_Cons join_append)

lemma lease_glob_name: "parts \<noteq> [] \<Longrightarrow> lease_glob port (lease_name port parts)"
  unfolding lease_glob_def lease_name_eq
  using starts_with_append [of "nat_str port @ ''.''" "join_with ''.'' parts @ ''.lease''"]
    ends_with_append [of "''.lease''" "nat_str port @ ''.'' @ join_with ''.'' parts"]
  by simp

lemma glob_prefix: "lease_glob p n \<Longrightarrow> takeWhile (\<lambda>c. c \<noteq> CHR ''.'') n = nat_str p"
  using nat_str_no_dot [of p]
  by (auto simp: lease_glob_def starts_with_iff takeWhile_append2 intro!: takeWhile_append2 [THEN trans])

lemma glob_unique: "lease_glob p n \<Longrightarrow> lease_glob q n \<Longrightarrow> p = q"
  using glob_prefix [of p n] glob_prefix [of q n] by simp

lemma lease_name_inject:
  "parts \<noteq> [] \<Longrightarrow> lease_name p parts = lease_name q parts \<longleftrightarrow> p = q"
  using glob_unique lease_glob_name by metis

lemma lease_identity_name:
  assumes "lease_identity d n p = Some i"
  obtains parts where "n = lease_name p parts" "parts \<noteq> []" "parts_identity parts = Some i" "dir_get d n \<noteq> Some PortLink"
proof -
  obtain a u v w x z where s: "split_on (CHR ''.'') n = [a, u, v, w, x, z]" "a = nat_str p" "z = ''lease''"
      "parts_identity [u, v, w, x] = Some i" "dir_get d n \<noteq> Some PortLink"
    using assms unfolding lease_identity_def
    by (auto simp del: parts_identity.simps split: if_splits list.splits)
  moreover have "n = join_with ''.'' [a, u, v, w, x, z]" by (metis s(1) join_split)
  ultimately show ?thesis using that [of "[u, v, w, x]"] by (simp add: lease_name_def)
qed

lemma lease_identity_glob: "lease_identity d n p = Some i \<Longrightarrow> lease_glob p n"
  by (metis lease_identity_name lease_glob_name)

section \<open>Live leases\<close>

definition live :: "match_fun \<Rightarrow> port_entry dir \<Rightarrow> nat \<Rightarrow> string \<Rightarrow> bool" where
  "live mt d port n \<longleftrightarrow>
     dir_get d n = Some PortFile \<and>
     (\<exists>pid uid pd. lease_identity d n port = Some (pid, uid, pd) \<and> mt pid uid pd = Inr True)"

definition quiet :: "match_fun \<Rightarrow> port_entry dir \<Rightarrow> nat \<Rightarrow> bool" where
  "quiet mt d port \<longleftrightarrow> (\<forall>n \<in> set (dir_names d). \<not> live mt d port n)"

definition avail :: "match_fun \<Rightarrow> (nat \<Rightarrow> bool) \<Rightarrow> port_state \<Rightarrow> nat \<Rightarrow> bool" where
  "avail mt taken s port \<longleftrightarrow> quiet mt (ps_leases s) port \<and> \<not> taken port \<and> port \<notin> set (ps_bound s)"

lemma live_glob: "live mt d p n \<Longrightarrow> lease_glob p n"
  by (auto simp: live_def lease_identity_glob)

lemma live_cong: "dir_get d n = dir_get d' n \<Longrightarrow> live mt d p n = live mt d' p n"
  by (simp add: live_def lease_identity_def)

lemma quiet_iff: "quiet mt d p \<longleftrightarrow> (\<forall>n. \<not> live mt d p n)"
  unfolding quiet_def by (auto simp: live_def dirs.names_iff)

lemma any_live_False: "any_live mt d p ns = Inr False \<Longrightarrow> n \<in> set ns \<Longrightarrow> \<not> live mt d p n"
  by (induction ns) (auto simp: live_def split: option.splits sum.splits bool.splits)

lemma identity_not_link: "lease_identity d n p = Some i \<Longrightarrow> dir_get d n \<noteq> None \<Longrightarrow> dir_get d n = Some PortFile"
  by (cases "dir_get d n"; cases "the (dir_get d n)") (simp_all add: lease_identity_def)

lemma liveI: "lease_identity d n p = Some (a, u, g) \<Longrightarrow> dir_get d n \<noteq> None \<Longrightarrow> mt a u g = Inr True \<Longrightarrow> live mt d p n"
  unfolding live_def using identity_not_link by blast

lemma any_live_True:
  "any_live mt d p ns = Inr True \<Longrightarrow> (\<And>n. n \<in> set ns \<Longrightarrow> dir_get d n \<noteq> None) \<Longrightarrow> \<exists>n \<in> set ns. live mt d p n"
proof (induction ns)
  case (Cons n ns)
  show ?case
  proof (cases "lease_identity d n p")
    case None
    with Cons show ?thesis by auto
  next
    case (Some i)
    obtain a u g where i: "i = (a, u, g)" by (cases i)
    show ?thesis
    proof (cases "mt a u g = Inr True")
      case True
      have "dir_get d n \<noteq> None" by (rule Cons.prems(2)) simp
      from liveI [where mt = mt, OF Some [unfolded i] this True] show ?thesis by simp
    next
      case False
      with Cons.prems(1) Some i have "any_live mt d p ns = Inr True"
        by (auto split: sum.splits bool.splits)
      with Cons show ?thesis by auto
    qed
  qed
qed simp

lemma lease_paths_quiet:
  assumes "any_live mt d p (lease_paths p d) = Inr False"
  shows "quiet mt d p"
  unfolding quiet_def
proof
  fix n
  assume "n \<in> set (dir_names d)"
  show "\<not> live mt d p n"
  proof
    assume "live mt d p n"
    with \<open>n \<in> set (dir_names d)\<close> have "n \<in> set (lease_paths p d)"
      by (simp add: lease_paths_def live_glob)
    with any_live_False [OF assms] \<open>live mt d p n\<close> show False by blast
  qed
qed

lemma lease_paths_busy: "any_live mt d p (lease_paths p d) = Inr True \<Longrightarrow> \<not> quiet mt d p"
  by (auto simp: quiet_iff lease_paths_def dirs.names_iff dest!: any_live_True)

section \<open>One candidate\<close>

lemma foreach_unlink: "foreach_p ns unlink_lease s = (Ret (), s\<lparr>ps_leases := fold dir_del ns (ps_leases s)\<rparr>)"
  by (induction ns arbitrary: s) (simp_all add: unlink_lease_def)

lemma foreach_close: "foreach_p ps close_socket s = (Ret (), s\<lparr>ps_bound := fold remove1 ps (ps_bound s)\<rparr>)"
  by (induction ps arbitrary: s) (simp_all add: close_socket_def)

lemma undo_leases_run:
  "undo_leases ps ns s =
     (Ret (), s\<lparr>ps_bound := fold remove1 ps (ps_bound s), ps_leases := fold dir_del ns (ps_leases s)\<rparr>)"
  by (simp add: undo_leases_def then_p_def bind_p_def foreach_close foreach_unlink)

lemma try_port_cases:
  assumes "try_port mt taken wfail parts p s = (r, t)" and "parts \<noteq> []"
  obtains (Skip) "r = Ret None" "t = s" "\<not> avail mt taken s p"
  | (Error) e where "r = Raise e" "t = s" "any_live mt (ps_leases s) p (lease_paths p (ps_leases s)) = Inl e"
  | (WriteError) e where "r = Raise e" "avail mt taken s p" "wfail (lease_name p parts)"
      "t = s\<lparr>ps_leases := fold dir_del (lease_paths p (ps_leases s)) (ps_leases s)\<rparr>"
  | (Leased) "r = Ret (Some (lease_name p parts))" "avail mt taken s p"
      "t = s\<lparr>ps_bound := ps_bound s @ [p],
              ps_leases := dir_put (lease_name p parts) PortFile (fold dir_del (lease_paths p (ps_leases s)) (ps_leases s))\<rparr>"
proof (cases "any_live mt (ps_leases s) p (lease_paths p (ps_leases s))")
  case (Inl e)
  with assms(1) have "r = Raise e" "t = s" by (simp_all add: try_port_def)
  with Inl that(2) show ?thesis by blast
next
  case (Inr b)
  show ?thesis
  proof (cases b)
    case True
    with Inr assms that(1) lease_paths_busy [of mt "ps_leases s" p] show ?thesis
      by (simp add: try_port_def avail_def)
  next
    case False
    with Inr have q: "quiet mt (ps_leases s) p" by (simp add: lease_paths_quiet)
    have fresh: "dir_get (fold dir_del (lease_paths p (ps_leases s)) (ps_leases s)) (lease_name p parts) = None"
      by (auto simp: dir_simps lease_paths_def dirs.names_iff lease_glob_name assms(2))
    show ?thesis
    proof (cases "taken p \<or> p \<in> set (ps_bound s)")
      case True
      with Inr False assms that(1) show ?thesis
        by (simp add: try_port_def avail_def bind_p_def reserve_socket_def)
    next
      case free: False
      with q have "avail mt taken s p" by (simp add: avail_def)
      note run = try_port_def bind_p_def reserve_socket_def catch_p_def then_p_def foreach_unlink
        write_lease_def close_socket_def remove1_append
      show ?thesis
      proof (cases "wfail (lease_name p parts)")
        case True
        have "r = Raise (Exn OSError ''File exists'')"
          "t = s\<lparr>ps_leases := fold dir_del (lease_paths p (ps_leases s)) (ps_leases s)\<rparr>"
          using assms(1) Inr False free fresh True by (auto simp: run)
        with that(3) True \<open>avail mt taken s p\<close> show ?thesis by blast
      next
        case nofail: False
        show ?thesis
          by (rule that(4)) (use assms(1) Inr False free fresh nofail \<open>avail mt taken s p\<close> in \<open>auto simp: run\<close>)
      qed
    qed
  qed
qed

lemma try_port_frame:
  assumes "try_port mt taken wfail parts p s = (r, t)" and "parts \<noteq> []" and "\<not> lease_glob p n"
  shows "dir_get (ps_leases t) n = dir_get (ps_leases s) n"
  using assms lease_glob_name [OF assms(2), of p]
  by (elim try_port_cases) (auto simp: dir_simps lease_paths_def)

lemma quiet_frame:
  assumes "\<And>n. lease_glob p n \<Longrightarrow> dir_get d n = dir_get d' n"
  shows "quiet mt d p = quiet mt d' p"
  unfolding quiet_iff using assms live_cong live_glob by metis

lemma try_port_avail:
  assumes "try_port mt taken wfail parts c s = (r, t)" "parts \<noteq> []" "p \<noteq> c"
  shows "avail mt taken t p = avail mt taken s p"
proof -
  have "quiet mt (ps_leases t) p = quiet mt (ps_leases s) p"
    by (rule quiet_frame) (metis assms glob_unique try_port_frame)
  moreover have "p \<in> set (ps_bound t) \<longleftrightarrow> p \<in> set (ps_bound s)"
    using assms by (elim try_port_cases) auto
  ultimately show ?thesis by (simp add: avail_def)
qed

lemma try_port_not_Stuck: "parts \<noteq> [] \<Longrightarrow> try_port mt taken wfail parts p s \<noteq> (Stuck, t)"
  by (auto elim: try_port_cases)

section \<open>The loop\<close>

text \<open>
  What the loop did between two states: the ports it leased, in order, and what became of
  every entry.
\<close>

definition leased_step ::
    "match_fun \<Rightarrow> (nat \<Rightarrow> bool) \<Rightarrow> string list \<Rightarrow> nat list \<Rightarrow> nat list \<Rightarrow> port_state \<Rightarrow> port_state \<Rightarrow> bool" where
  "leased_step mt taken parts cs new s t \<longleftrightarrow>
     set new \<subseteq> set cs \<and> distinct new \<and> ps_bound t = ps_bound s @ new \<and>
     (\<forall>p \<in> set new. avail mt taken s p) \<and>
     (\<forall>n. dir_get (ps_leases t) n = dir_get (ps_leases s) n \<or> (\<exists>p \<in> set cs. lease_glob p n \<and> avail mt taken s p)) \<and>
     (\<forall>p \<in> set new. dir_get (ps_leases t) (lease_name p parts) = Some PortFile) \<and>
     (\<forall>n. (\<forall>p \<in> set new. n \<noteq> lease_name p parts) \<longrightarrow>
        dir_get (ps_leases t) n = None \<or> dir_get (ps_leases t) n = dir_get (ps_leases s) n)"

lemma leased_step_nil: "leased_step mt taken parts cs [] s s"
  by (simp add: leased_step_def)

lemma leased_step_mono: "leased_step mt taken parts cs new s t \<Longrightarrow> leased_step mt taken parts (c # cs) new s t"
  unfolding leased_step_def by (elim conjE, intro conjI) auto

lemma leased_step_write_error:
  assumes "avail mt taken s p"
  shows "leased_step mt taken parts (p # cs) []
     s (s\<lparr>ps_leases := fold dir_del (lease_paths p (ps_leases s)) (ps_leases s)\<rparr>)"
  using assms by (auto simp: leased_step_def dir_simps lease_paths_def)

lemma leased_step_cons:
  assumes tp: "try_port mt taken wfail parts c s = (Ret (Some n0), t1)" and parts: "parts \<noteq> []"
    and rest: "leased_step mt taken parts cs new t1 t" and c: "c \<notin> set cs"
  shows "leased_step mt taken parts (c # cs) (c # new) s t"
proof -
  have t1: "avail mt taken s c" "ps_bound t1 = ps_bound s @ [c]"
      "dir_get (ps_leases t1) (lease_name c parts) = Some PortFile"
      "\<And>n. n \<noteq> lease_name c parts \<Longrightarrow>
         dir_get (ps_leases t1) n = None \<or> dir_get (ps_leases t1) n = dir_get (ps_leases s) n"
    using tp parts by (auto elim!: try_port_cases simp: dir_simps)
  have av: "avail mt taken t1 p = avail mt taken s p" if "p \<in> set cs" for p
    by (rule try_port_avail [OF tp parts]) (use that c in auto)
  have frame: "dir_get (ps_leases t1) n = dir_get (ps_leases s) n" if "\<not> lease_glob c n" for n
    using try_port_frame [OF tp parts that] .
  have keep: "dir_get (ps_leases t) (lease_name c parts) = Some PortFile"
  proof -
    have "\<not> lease_glob p (lease_name c parts)" if "p \<in> set cs" for p
      using glob_unique [OF _ lease_glob_name [OF parts, of c]] that c by blast
    then show ?thesis using rest t1(3) unfolding leased_step_def by metis
  qed
  have new: "set new \<subseteq> set cs" "distinct new" "c \<notin> set new" "ps_bound t = ps_bound s @ c # new"
    using rest c t1(2) unfolding leased_step_def by auto
  have "dir_get (ps_leases t) n = dir_get (ps_leases s) n \<or> (\<exists>p \<in> set (c # cs). lease_glob p n \<and> avail mt taken s p)" for n
  proof (cases "lease_glob c n")
    case True
    with t1(1) show ?thesis by auto
  next
    case False
    have "dir_get (ps_leases t) n = dir_get (ps_leases t1) n \<or> (\<exists>p \<in> set cs. lease_glob p n \<and> avail mt taken t1 p)"
      using rest unfolding leased_step_def by blast
    with frame [OF False] av show ?thesis by auto
  qed
  moreover have "dir_get (ps_leases t) n = None \<or> dir_get (ps_leases t) n = dir_get (ps_leases s) n"
    if "\<forall>p \<in> set (c # new). n \<noteq> lease_name p parts" for n
    using rest that t1(4) [of n] unfolding leased_step_def by auto
  moreover have "\<forall>p \<in> set new. avail mt taken s p" "\<forall>p \<in> set new. dir_get (ps_leases t) (lease_name p parts) = Some PortFile"
    using rest av unfolding leased_step_def by auto
  ultimately show ?thesis using new keep t1(1) unfolding leased_step_def by auto
qed

lemma port_loop_spec:
  assumes "port_loop mt taken wfail parts count cs ports paths s = ((ports', paths', err), t)"
    and "distinct cs" and "parts \<noteq> []"
  shows "\<exists>new. ports' = ports @ new \<and> paths' = paths @ map (\<lambda>p. lease_name p parts) new \<and>
     leased_step mt taken parts cs new s t"
  using assms
proof (induction cs arbitrary: ports paths s)
  case Nil
  then show ?case by (auto simp: leased_step_nil)
next
  case (Cons c cs)
  obtain r t1 where tp: "try_port mt taken wfail parts c s = (r, t1)" by (cases "try_port mt taken wfail parts c s")
  from tp Cons.prems(3) show ?case
  proof (cases rule: try_port_cases)
    case Skip
    with Cons.prems(1) tp have "port_loop mt taken wfail parts count cs ports paths s = ((ports', paths', err), t)" by simp
    from Cons.IH [OF this] Cons.prems(2,3) show ?thesis by (auto intro: leased_step_mono)
  next
    case (Error e)
    with Cons.prems(1) tp show ?thesis by (auto intro: leased_step_nil)
  next
    case (WriteError e)
    with Cons.prems(1) tp show ?thesis by (auto intro: leased_step_write_error)
  next
    case Leased
    note tried = tp [unfolded Leased(1)]
    show ?thesis
    proof (cases "length (ports @ [c]) = count")
      case True
      have "leased_step mt taken parts (c # cs) [c] s t1"
        by (rule leased_step_cons [OF tried Cons.prems(3) leased_step_nil]) (use Cons.prems(2) in simp)
      with True Cons.prems(1) tried show ?thesis by (intro exI [of _ "[c]"]) auto
    next
      case False
      with Cons.prems(1) tried have "port_loop mt taken wfail parts count cs (ports @ [c]) (paths @ [lease_name c parts]) t1
          = ((ports', paths', err), t)" by simp
      with Cons.IH Cons.prems(2,3) obtain new where "ports' = (ports @ [c]) @ new"
          "paths' = (paths @ [lease_name c parts]) @ map (\<lambda>p. lease_name p parts) new"
          "leased_step mt taken parts cs new t1 t" by fastforce
      with leased_step_cons [OF tried Cons.prems(3)] Cons.prems(2) show ?thesis
        by (intro exI [of _ "c # new"]) auto
    qed
  qed
qed

lemma leased_step_live:
  assumes "leased_step mt taken parts cs new s t" and "live mt (ps_leases s) q n"
  shows "dir_get (ps_leases t) n = dir_get (ps_leases s) n"
proof -
  have "\<not> (\<exists>p \<in> set cs. lease_glob p n \<and> avail mt taken s p)"
    using assms(2) glob_unique live_glob unfolding avail_def quiet_iff by metis
  then show ?thesis using assms(1) unfolding leased_step_def by blast
qed

lemma fold_remove1: "distinct ys \<Longrightarrow> set ys \<inter> set xs = {} \<Longrightarrow> fold remove1 ys (xs @ ys) = xs"
proof (induction ys arbitrary: xs)
  case (Cons y ys)
  then have "remove1 y (xs @ y # ys) = xs @ ys" by (simp add: remove1_append)
  with Cons show ?case by simp
qed simp

lemma reserve_ports_cases:
  assumes "reserve_ports p mt taken wfail parts count cands s = (r, t)" "distinct cands" "parts \<noteq> []"
  obtains (Got) ports where "r = Ret ports" "length ports = count" "leased_step mt taken parts cands ports s t"
  | (Failed) e where "r = Raise e" "ps_bound t = ps_bound s"
      "\<And>n f. dir_get (ps_leases t) n = Some f \<Longrightarrow> dir_get (ps_leases s) n = Some f"
      "\<And>q n. live mt (ps_leases s) q n \<Longrightarrow> dir_get (ps_leases t) n = dir_get (ps_leases s) n"
proof -
  obtain ports paths err u where l: "port_loop mt taken wfail parts count cands [] [] s = ((ports, paths, err), u)"
    by (cases "port_loop mt taken wfail parts count cands [] [] s") (metis prod.collapse)
  from port_loop_spec [OF l assms(2,3)]
  have paths: "paths = map (\<lambda>p. lease_name p parts) ports" and st: "leased_step mt taken parts cands ports s u"
    by auto
  show ?thesis
  proof (cases "err = None \<and> length ports = count")
    case True
    with assms(1) l have "r = Ret ports" "u = t" by (auto simp: reserve_ports_def)
    with True st that(1) show ?thesis by blast
  next
    case False
    with assms(1) l obtain e where r: "r = Raise e"
        and t: "t = u\<lparr>ps_bound := fold remove1 ports (ps_bound u), ps_leases := fold dir_del paths (ps_leases u)\<rparr>"
      by (cases err) (auto simp: reserve_ports_def then_p_def bind_p_def undo_leases_run)
    have "ps_bound t = ps_bound s"
      using st unfolding t leased_step_def avail_def by (auto intro!: fold_remove1)
    moreover have "dir_get (ps_leases s) n = Some f" if "dir_get (ps_leases t) n = Some f" for n f
    proof -
      from that have "n \<notin> set paths" "dir_get (ps_leases u) n = Some f"
        by (auto simp: t dir_simps split: if_splits)
      with st show ?thesis unfolding leased_step_def paths by (metis image_eqI list.set_map option.distinct(1))
    qed
    moreover have "dir_get (ps_leases t) n = dir_get (ps_leases s) n" if "live mt (ps_leases s) q n" for q n
    proof -
      have "n \<notin> set paths"
      proof
        assume "n \<in> set paths"
        then obtain p where "p \<in> set ports" "n = lease_name p parts" by (auto simp: paths)
        with st that live_glob [OF that] lease_glob_name [OF assms(3), of p] glob_unique
        show False unfolding leased_step_def avail_def quiet_iff by metis
      qed
      with leased_step_live [OF st that] show ?thesis by (simp add: t dir_simps)
    qed
    ultimately show ?thesis using that(2) r by blast
  qed
qed

section \<open>Which ports\<close>

lemma any_live_total:
  assumes "\<And>a u g. \<exists>b. mt a u g = Inr b"
  shows "\<exists>b. any_live mt d p ns = Inr b"
proof (induction ns)
  case (Cons n ns)
  show ?case
  proof (cases "lease_identity d n p")
    case (Some i)
    obtain a u g where i: "i = (a, u, g)" by (cases i)
    with assms obtain b where "mt a u g = Inr b" by blast
    with Some i Cons show ?thesis by (cases b) auto
  qed (use Cons in simp)
qed auto

lemma port_loop_functional:
  assumes total: "\<And>a u g. \<exists>b. mt a u g = Inr b" and nofail: "\<And>n. \<not> wfail n" and parts: "parts \<noteq> []"
    and "distinct cs" "length ports < count"
  shows "\<exists>paths' t. port_loop mt taken wfail parts count cs ports paths s =
     ((ports @ take (count - length ports) (filter (avail mt taken s) cs), paths', None), t)"
  using assms(4,5)
proof (induction cs arbitrary: ports paths s)
  case Nil
  then show ?case by simp
next
  case (Cons c cs)
  obtain r t1 where tp: "try_port mt taken wfail parts c s = (r, t1)" by (cases "try_port mt taken wfail parts c s")
  have same: "filter (avail mt taken t1) cs = filter (avail mt taken s) cs"
    by (rule filter_cong [OF refl], rule try_port_avail [OF tp parts]) (use Cons.prems(1) in auto)
  from tp parts show ?case
  proof (cases rule: try_port_cases)
    case Skip
    with Cons tp show ?thesis by simp
  next
    case (Error e)
    with any_live_total [where mt = mt, OF total] show ?thesis by (metis Inl_Inr_False)
  next
    case (WriteError e)
    with nofail show ?thesis by simp
  next
    case Leased
    show ?thesis
    proof (cases "length (ports @ [c]) = count")
      case True
      with Leased tp show ?thesis by auto
    next
      case False
      with Cons.prems have "length (ports @ [c]) < count" "distinct cs" by simp_all
      from Cons.IH [OF this(2,1), of "paths @ [lease_name c parts]" t1] same Leased tp False Cons.prems(2)
      show ?thesis by (simp add: take_Cons' Suc_diff_Suc flip: Suc_diff_Suc)
    qed
  qed
qed

lemma foldl_mod_bound: "0 < n \<Longrightarrow> (x :: nat) mod n < n"
  by simp

lemma capacity_pos [simp]: "0 < capacity p"
  by (simp add: capacity_def)

lemma rotate_set: "0 < n \<Longrightarrow> (\<lambda>i. (k + i) mod n) ` {..<n} = {..<(n :: nat)}"
proof
  assume n: "0 < n"
  show "(\<lambda>i. (k + i) mod n) ` {..<n} \<subseteq> {..<n}" using n by auto
  show "{..<n} \<subseteq> (\<lambda>i. (k + i) mod n) ` {..<n}"
  proof
    fix j
    assume "j \<in> {..<n}"
    then have "(k + (j + (n - k mod n)) mod n) mod n = j"
    proof -
      have "(k + (j + (n - k mod n)) mod n) mod n = (k mod n + (j + (n - k mod n))) mod n"
        by (simp add: mod_add_right_eq mod_add_left_eq)
      also have "k mod n + (j + (n - k mod n)) = j + n" using mod_less_divisor [OF n, of k] by linarith
      finally show ?thesis using \<open>j \<in> {..<n}\<close> by simp
    qed
    then show "j \<in> (\<lambda>i. (k + i) mod n) ` {..<n}"
      using n by (intro image_eqI [of _ _ "(j + (n - k mod n)) mod n"]) simp_all
  qed
qed

lemma candidate_ports_eq:
  "\<exists>k. candidate_ports p owner = map (\<lambda>i. pp_start p + (k + i) mod capacity p) [0..<capacity p]"
  by (auto simp: candidate_ports_def Let_def)

lemma candidate_ports_set: "set (candidate_ports p owner) = {pp_start p..<pp_start p + capacity p}"
proof -
  obtain k where k: "candidate_ports p owner = map (\<lambda>i. pp_start p + (k + i) mod capacity p) [0..<capacity p]"
    using candidate_ports_eq by blast
  have "set (candidate_ports p owner) = (+) (pp_start p) ` ((\<lambda>i. (k + i) mod capacity p) ` {..<capacity p})"
    by (auto simp: k image_image atLeast0LessThan)
  also have "\<dots> = {pp_start p..<pp_start p + capacity p}"
    unfolding rotate_set [OF capacity_pos] by (simp add: lessThan_atLeast0 add.commute)
  finally show ?thesis .
qed

lemma candidate_ports_distinct: "distinct (candidate_ports p owner)"
proof (rule card_distinct)
  obtain k where "candidate_ports p owner = map (\<lambda>i. pp_start p + (k + i) mod capacity p) [0..<capacity p]"
    using candidate_ports_eq by blast
  then have "length (candidate_ports p owner) = capacity p" by simp
  then show "card (set (candidate_ports p owner)) = length (candidate_ports p owner)"
    by (simp add: candidate_ports_set)
qed

section \<open>The pool as a provider of leases\<close>

lemma int_str_no_dot: "CHR ''.'' \<notin> set (int_str i)"
  by (simp add: int_str_def)

definition holder_ok :: "string list \<Rightarrow> bool" where
  "holder_ok w \<longleftrightarrow> parts_identity w \<noteq> None \<and> (\<forall>x \<in> set w. CHR ''.'' \<notin> set x)"

lemma parts_identity_length: "parts_identity w \<noteq> None \<Longrightarrow> length w = 4"
  by (cases w rule: parts_identity.cases) simp_all

lemma holder_ok_nonempty: "holder_ok w \<Longrightarrow> w \<noteq> []"
  using parts_identity_length by (auto simp: holder_ok_def)

lemma lease_name_split:
  assumes "holder_ok w"
  shows "split_on (CHR ''.'') (lease_name p w) = nat_str p # w @ [''lease'']"
  unfolding lease_name_def
  by (rule split_on_join) (use assms in \<open>auto simp: holder_ok_def\<close>)

lemma lease_name_inject2:
  "holder_ok v \<Longrightarrow> holder_ok w \<Longrightarrow> lease_name p v = lease_name q w \<longleftrightarrow> p = q \<and> v = w"
  using lease_name_split [of v p] lease_name_split [of w q] by (metis append1_eq_conv list.inject nat_str_inject)

lemma lease_name_identity:
  assumes "holder_ok w" "dir_get d (lease_name p w) \<noteq> Some PortLink"
  shows "lease_identity d (lease_name p w) p = parts_identity w"
proof -
  obtain a b c e where "w = [a, b, c, e]"
    using assms(1) by (cases w rule: parts_identity.cases) (auto simp: holder_ok_def)
  with lease_name_split [OF assms(1), of p] assms(2) show ?thesis
    by (simp add: lease_identity_def del: parts_identity.simps)
qed

type_synonym alive_set = "int \<times> int \<times> string \<Rightarrow> bool"

definition alive_match :: "alive_set \<Rightarrow> match_fun" where
  "alive_match alive pid uid pd = Inr (alive (pid, uid, pd))"

text \<open>A holder has a port while its lease file exists and its process has not ended.\<close>

definition port_held :: "port_state \<times> alive_set \<Rightarrow> nat \<Rightarrow> string list \<Rightarrow> bool" where
  "port_held = (\<lambda>(s, alive) port w.
     holder_ok w \<and> dir_get (ps_leases s) (lease_name port w) = Some PortFile \<and>
     (\<exists>i. parts_identity w = Some i \<and> alive i))"

text \<open>
  The operations as the interface's: an allocation by a process that has ended is refused
  (its fingerprint is not found), processes outside \<open>act\<close> end at a \<open>Purge\<close>. \<open>owner_of\<close>
  gives the name an owner's digest stands for.
\<close>

definition port_acquire ::
    "port_pool \<Rightarrow> (string list \<Rightarrow> string) \<Rightarrow> (nat \<Rightarrow> bool) \<Rightarrow> nat \<Rightarrow> string list \<Rightarrow> port_state \<times> alive_set \<Rightarrow>
     nat list \<times> (port_state \<times> alive_set)" where
  "port_acquire p owner_of taken count w = (\<lambda>(s, alive).
     case parts_identity w of
       None \<Rightarrow> ([], (s, alive))
     | Some i \<Rightarrow>
         (if \<not> alive i then ([], (s, alive))
          else case reserve_ports p (alive_match alive) taken (\<lambda>_. False) w count (candidate_ports p (owner_of w)) s of
                 (Ret ports, t) \<Rightarrow> (ports, (t, alive))
               | (_, t) \<Rightarrow> ([], (t, alive))))"

definition port_give_back :: "nat \<Rightarrow> string list \<Rightarrow> port_state \<times> alive_set \<Rightarrow> port_state \<times> alive_set" where
  "port_give_back port w = (\<lambda>(s, alive).
     if holder_ok w then (snd (unlink_lease (lease_name port w) s), alive) else (s, alive))"

definition processes_end :: "string list set \<Rightarrow> port_state \<times> alive_set \<Rightarrow> port_state \<times> alive_set" where
  "processes_end act = (\<lambda>(s, alive). (s, \<lambda>i. alive i \<and> (\<exists>w \<in> act. parts_identity w = Some i)))"

lemma port_held_iff:
  "port_held (s, alive) port w \<longleftrightarrow>
     holder_ok w \<and> dir_get (ps_leases s) (lease_name port w) = Some PortFile \<and>
     (\<exists>i. parts_identity w = Some i \<and> alive i)"
  by (simp add: port_held_def)

lemma port_held_live:
  "port_held (s, alive) p w \<Longrightarrow> live (alive_match alive) (ps_leases s) p (lease_name p w)"
  by (auto simp: port_held_def live_def lease_name_identity alive_match_def)

interpretation ports: lease_pool port_held "port_acquire p owner_of taken count" port_give_back processes_end holder_ok
  for p owner_of taken count
proof unfold_locales
  fix w d as d' a
  assume w: "holder_ok w" and acq: "port_acquire p owner_of taken count w d = (as, d')" and a: "a \<in> set as"
  obtain s alive where d: "d = (s, alive)" by (cases d)
  obtain i where i: "parts_identity w = Some i" "alive i"
    using acq a by (auto simp: port_acquire_def d split: option.splits if_splits)
  obtain r t where r: "reserve_ports p (alive_match alive) taken (\<lambda>_. False) w count (candidate_ports p (owner_of w)) s = (r, t)"
    by (cases "reserve_ports p (alive_match alive) taken (\<lambda>_. False) w count (candidate_ports p (owner_of w)) s")
  from r candidate_ports_distinct holder_ok_nonempty [OF w]
  show "(\<forall>v. \<not> port_held d a v) \<and> port_held d' a w"
  proof (cases rule: reserve_ports_cases)
    case (Got ports)
    with acq i r d have "as = ports" "d' = (t, alive)" by (simp_all add: port_acquire_def)
    with Got(3) a have av: "avail (alive_match alive) taken s a"
        and leased: "dir_get (ps_leases t) (lease_name a w) = Some PortFile"
      unfolding leased_step_def by blast+
    have "port_held d' a w"
      using i w leased unfolding \<open>d' = (t, alive)\<close> port_held_iff by blast
    moreover have "\<forall>v. \<not> port_held d a v"
    proof (intro allI notI)
      fix v
      assume "port_held d a v"
      from port_held_live [OF this [unfolded d]] av show False by (simp add: avail_def quiet_iff)
    qed
    ultimately show ?thesis by simp
  next
    case (Failed e)
    with acq i r d a show ?thesis by (simp add: port_acquire_def)
  qed
next
  fix w d b v as d'
  assume w: "holder_ok w" and b: "port_held d b v" and acq: "port_acquire p owner_of taken count w d = (as, d')"
  obtain s alive where d: "d = (s, alive)" by (cases d)
  show "port_held d' b v"
  proof (cases "d' = d")
    case False
    then obtain i where i: "parts_identity w = Some i" "alive i"
      using acq by (auto simp: port_acquire_def d split: option.splits if_splits)
    obtain r t where r: "reserve_ports p (alive_match alive) taken (\<lambda>_. False) w count (candidate_ports p (owner_of w)) s = (r, t)"
      by (cases "reserve_ports p (alive_match alive) taken (\<lambda>_. False) w count (candidate_ports p (owner_of w)) s")
    note live = port_held_live [OF b [unfolded d]]
    from r candidate_ports_distinct holder_ok_nonempty [OF w]
    have "dir_get (ps_leases t) (lease_name b v) = dir_get (ps_leases s) (lease_name b v)"
    proof (cases rule: reserve_ports_cases)
      case (Got ports)
      then show ?thesis using live leased_step_live by blast
    next
      case (Failed e)
      show ?thesis by (rule Failed(4) [OF live])
    qed
    moreover have "d' = (t, alive)"
      using acq i r by (cases r) (simp_all add: port_acquire_def d)
    ultimately show ?thesis using b by (simp add: port_held_iff d)
  qed (use b in simp)
next
  fix d b v a w
  assume "port_held d b v" "b \<noteq> a \<or> v \<noteq> w"
  then show "port_held (port_give_back a w d) b v"
    by (cases d) (auto simp: port_held_def port_give_back_def unlink_lease_def dir_simps lease_name_inject2)
next
  fix d b v act
  assume "port_held d b v" "v \<in> act"
  then show "port_held (processes_end act d) b v"
    by (cases d) (auto simp: port_held_def processes_end_def)
qed

section \<open>Properties\<close>

lemma port_pool_init_range:
  "port_pool_init is_ip a b bind = Inr p \<Longrightarrow> 1024 \<le> pp_start p \<and> pp_start p \<le> pp_end p \<and> pp_end p \<le> 65535"
  by (auto simp: port_pool_init_def split: pyval.splits if_splits)

text \<open>
  The search visits every port of the pool's range exactly once, whatever the
  owner's digest.
\<close>

lemma candidate_ports_permutation:
  assumes "port_pool_init is_ip start stop bind = Inr p"
  shows "distinct (candidate_ports p owner) \<and> set (candidate_ports p owner) = {pp_start p..pp_end p} \<and>
     length (candidate_ports p owner) = capacity p"
proof -
  have "{pp_start p..<pp_start p + capacity p} = {pp_start p..pp_end p}"
    using port_pool_init_range [OF assms] by (auto simp: capacity_def)
  moreover have "length (candidate_ports p owner) = capacity p"
    by (simp add: candidate_ports_def Let_def)
  ultimately show ?thesis by (simp add: candidate_ports_distinct candidate_ports_set)
qed

lemma candidate_ports_permutation_witness:
  "set (candidate_ports \<lparr>pp_start = 20000, pp_end = 20003, pp_bind = ''127.0.0.1''\<rparr> ''lab'') = {20000..20003}"
proof -
  have "port_pool_init (\<lambda>_. True) (PInt 20000) (PInt 20003) ''127.0.0.1'' =
      Inr \<lparr>pp_start = 20000, pp_end = 20003, pp_bind = ''127.0.0.1''\<rparr>"
    by (simp add: port_pool_init_def)
  from candidate_ports_permutation [OF this] show ?thesis by simp
qed

lemma port_allocate_reserve:
  assumes "port_allocate h w getpid getuid lock taken wfail p owner pid count s = (r, t)"
  obtains (Refused) e where "r = Raise e" "t = s"
  | (Reserve) n i r' where "owner \<noteq> []" "pid = PInt getpid" "count = PInt n" "0 < n" "n \<le> int (capacity p)"
      "query_process_identity h w getpid = Inr (Some i)" "id_uid i = getuid"
      "reserve_ports p (process_matches h w) taken wfail
         (holder_parts getpid getuid (id_digest i) (owner_digest owner)) (nat n) (candidate_ports p owner) s = (r', t)"
      "\<And>ports. r' = Ret ports \<Longrightarrow>
         r = Ret \<lparr>rsv_owner = owner, rsv_pid = getpid, rsv_uid = getuid, rsv_digest = id_digest i,
                  rsv_ports = ports, rsv_sockets = ports\<rparr>"
      "\<And>e. r' = Raise e \<Longrightarrow> r = Raise e"
proof (cases "owner \<noteq> [] \<and> pid = PInt getpid \<and> lock = LockReady \<and>
    (\<exists>n. count = PInt n \<and> 0 < n \<and> n \<le> int (capacity p)) \<and>
    (\<exists>i. query_process_identity h w getpid = Inr (Some i) \<and> id_uid i = getuid)")
  case True
  then obtain n i where *: "owner \<noteq> []" "pid = PInt getpid" "lock = LockReady" "count = PInt n" "0 < n"
      "n \<le> int (capacity p)" "query_process_identity h w getpid = Inr (Some i)" "id_uid i = getuid" by auto
  obtain r' t' where r': "reserve_ports p (process_matches h w) taken wfail
         (holder_parts getpid getuid (id_digest i) (owner_digest owner)) (nat n) (candidate_ports p owner) s = (r', t')"
    by (cases "reserve_ports p (process_matches h w) taken wfail
         (holder_parts getpid getuid (id_digest i) (owner_digest owner)) (nat n) (candidate_ports p owner) s")
  with assms * have "t' = t" "\<And>ports. r' = Ret ports \<Longrightarrow>
         r = Ret \<lparr>rsv_owner = owner, rsv_pid = getpid, rsv_uid = getuid, rsv_digest = id_digest i,
                  rsv_ports = ports, rsv_sockets = ports\<rparr>" "\<And>e. r' = Raise e \<Longrightarrow> r = Raise e"
    by (auto simp: port_allocate_def enter_lock_def bind_p_def split: res.splits)
  with r' * Reserve show ?thesis by blast
next
  case False
  have "\<exists>e. r = Raise e \<and> t = s"
    using assms False
    by (auto simp: port_allocate_def enter_lock_def then_p_def split: if_splits pyval.splits sum.splits option.splits lock_answer.splits)
  with Refused show ?thesis by blast
qed

text \<open>
  An allocation that returns has leased exactly the requested number of distinct
  ports of the range; each had no live lease and was free to bind, each now has its lease
  file and its bound socket; and every lease of a live process is still there.
\<close>

lemma port_allocate_sound:
  assumes "port_allocate h w getpid getuid lock taken wfail p owner pid (PInt n) s = (Ret r, t)"
  shows "distinct (rsv_ports r) \<and> int (length (rsv_ports r)) = n \<and>
     set (rsv_ports r) \<subseteq> {pp_start p..<pp_start p + capacity p} \<and> ps_bound t = ps_bound s @ rsv_ports r \<and>
     (\<forall>port \<in> set (rsv_ports r).
        quiet (process_matches h w) (ps_leases s) port \<and> \<not> taken port \<and> port \<notin> set (ps_bound s) \<and>
        dir_get (ps_leases t) (port_lease_path port owner getpid getuid (rsv_digest r)) = Some PortFile) \<and>
     (\<forall>port name. live (process_matches h w) (ps_leases s) port name \<longrightarrow>
        live (process_matches h w) (ps_leases t) port name)"
  using assms
proof (cases rule: port_allocate_reserve)
  case (Reserve m i r')
  have "holder_parts getpid getuid (id_digest i) (owner_digest owner) \<noteq> []" by (simp add: holder_parts_def)
  from Reserve(8) candidate_ports_distinct this show ?thesis
  proof (cases rule: reserve_ports_cases)
    case (Got ports)
    have r: "r = \<lparr>rsv_owner = owner, rsv_pid = getpid, rsv_uid = getuid, rsv_digest = id_digest i,
                  rsv_ports = ports, rsv_sockets = ports\<rparr>"
      using Reserve(9) [OF Got(1)] by simp
    have "live (process_matches h w) (ps_leases t) port name" if "live (process_matches h w) (ps_leases s) port name" for port name
      using live_cong leased_step_live [OF Got(3) that] that by metis
    then show ?thesis
      using Got(2,3) Reserve(3,4)
      by (auto simp: r leased_step_def avail_def candidate_ports_set port_lease_path_def)
  next
    case (Failed e)
    with Reserve(10) show ?thesis by simp
  qed
qed simp

definition one_port :: port_pool where
  "one_port = \<lparr>pp_start = 20000, pp_end = 20000, pp_bind = ''127.0.0.1''\<rparr>"

definition no_leases :: port_state where
  "no_leases = \<lparr>ps_leases = [], ps_bound = []\<rparr>"

lemma one_port_candidates: "candidate_ports one_port owner = [20000]"
  by (simp add: candidate_ports_def capacity_def one_port_def)

lemma one_port_allocate:
  "port_allocate example_host () 100 1001 LockReady (\<lambda>_. False) (\<lambda>_. False) one_port ''lab'' (PInt 100) (PInt 1) no_leases =
     (Ret \<lparr>rsv_owner = ''lab'', rsv_pid = 100, rsv_uid = 1001, rsv_digest = fingerprint 1001 ''Mon'',
           rsv_ports = [20000], rsv_sockets = [20000]\<rparr>,
      \<lparr>ps_leases = [(port_lease_path 20000 ''lab'' 100 1001 (fingerprint 1001 ''Mon''), PortFile)], ps_bound = [20000]\<rparr>)"
  by (simp add: port_allocate_def example_host_query one_port_candidates reserve_ports_def try_port_def no_leases_def
      enter_lock_def lease_paths_def dir_names_def bind_p_def reserve_socket_def then_p_def catch_p_def write_lease_def
      dir_get_def dir_put_def port_lease_path_def capacity_def one_port_def candidate_ports_def)

lemma one_port_refused:
  "port_allocate example_host () 100 1001 LockReady (\<lambda>_. True) (\<lambda>_. False) one_port ''lab'' (PInt 100) (PInt 1) no_leases =
     (Raise (Exn RuntimeError ''Unable to reserve 1 SSH tunnel ports in 20000-20000''), no_leases)"
proof -
  have "nat_str 1 = ''1''" "nat_str 20000 = ''20000''" by (simp_all add: nat_str.simps)
  then show ?thesis
    by (simp add: port_allocate_def example_host_query one_port_candidates reserve_ports_def try_port_def no_leases_def
      enter_lock_def lease_paths_def dir_names_def bind_p_def reserve_socket_def then_p_def undo_leases_run
      capacity_def one_port_def candidate_ports_def)
qed

lemma port_allocate_sound_witness:
  "dir_get [(port_lease_path 20000 ''lab'' 100 1001 (fingerprint 1001 ''Mon''), PortFile)]
     (port_lease_path 20000 ''lab'' 100 1001 (fingerprint 1001 ''Mon'')) = Some PortFile"
  using port_allocate_sound [OF one_port_allocate] by simp



text \<open>
  When no process query and no write fails, the loop leases precisely the first
  \<open>count\<close> available candidates in search order, and it raises exactly when fewer are
  available: no free port is passed over.
\<close>

lemma reserve_ports_exact:
  assumes total: "\<And>a u g. \<exists>b. mt a u g = Inr b" and parts: "parts \<noteq> []" and "distinct cands" "0 < count"
  shows "fst (reserve_ports p mt taken (\<lambda>_. False) parts count cands s) =
     (let free = filter (avail mt taken s) cands
      in if count \<le> length free then Ret (take count free)
         else Raise (Exn RuntimeError (''Unable to reserve '' @ nat_str count @ '' SSH tunnel ports in ''
                                      @ nat_str (pp_start p) @ ''-'' @ nat_str (pp_end p))))"
proof -
  obtain paths t where "port_loop mt taken (\<lambda>_. False) parts count cands [] [] s =
      ((take count (filter (avail mt taken s) cands), paths, None), t)"
    using port_loop_functional [where mt = mt and wfail = "\<lambda>_. False" and ports = "[]" and paths = "[]" and s = s and taken = taken and count = count,
        OF total _ parts assms(3)]
      assms(4) by auto
  then show ?thesis
    by (auto simp: reserve_ports_def Let_def then_p_def bind_p_def undo_leases_run)
qed

lemma reserve_ports_exact_witness:
  "fst (reserve_ports one_port (\<lambda>_ _ _. Inr False) (\<lambda>p. p = 20000) (\<lambda>_. False) [''2'', ''3'', ''a'', ''b''] 1 [20000, 20001] no_leases)
     = Ret [20001]"
proof -
  have "avail (\<lambda>_ _ _. Inr False) (\<lambda>p. p = 20000) no_leases 20001"
    by (simp add: avail_def quiet_def no_leases_def dir_names_def)
  moreover have "\<not> avail (\<lambda>_ _ _. Inr False) (\<lambda>p. p = 20000) no_leases 20000"
    by (simp add: avail_def)
  moreover have "\<exists>b. (Inr False :: exn + bool) = Inr b" by blast
  ultimately show ?thesis
    using reserve_ports_exact [where mt = "\<lambda>_ _ _. Inr False" and cands = "[20000, 20001]" and count = 1
        and parts = "[''2'', ''3'', ''a'', ''b'']" and taken = "\<lambda>p. p = 20000" and s = no_leases]
    by auto
qed


definition example_holder :: "string list" where
  "example_holder = [''100'', ''1001'', replicate 64 (CHR ''a''), replicate 64 (CHR ''b'')]"

lemma example_holder_identity: "parts_identity example_holder = Some (100, 1001, replicate 64 (CHR ''a''))"
  by code_simp

lemma example_holder_ok: "holder_ok example_holder"
  unfolding holder_ok_def example_holder_identity by (simp add: example_holder_def)

lemma example_port_acquire:
  "port_acquire one_port (\<lambda>_. ''lab'') (\<lambda>_. False) 1 example_holder (no_leases, \<lambda>_. True) =
     ([20000], (\<lparr>ps_leases = [(lease_name 20000 example_holder, PortFile)], ps_bound = [20000]\<rparr>, \<lambda>_. True))"
  by (simp add: port_acquire_def example_holder_identity one_port_candidates reserve_ports_def try_port_def no_leases_def
      lease_paths_def dir_names_def bind_p_def reserve_socket_def then_p_def catch_p_def write_lease_def
      dir_get_def dir_put_def)


text \<open>
  A release by the owner removes exactly the lease files of its ports, and every
  lease of another holder or another port stays.
\<close>

lemma port_release_exact:
  assumes "ports \<noteq> []" "owner \<noteq> []" "1 < pid" "0 \<le> uid" "digest \<noteq> []"
    and "list_all (\<lambda>p. 1024 \<le> p \<and> p \<le> 65535) ports"
  shows "port_release LockReady ports owner pid uid digest s =
      (Ret (), s\<lparr>ps_leases := fold (\<lambda>p. dir_del (port_lease_path p owner pid uid digest)) ports (ps_leases s)\<rparr>) \<and>
    (\<forall>n. dir_get (ps_leases (snd (port_release LockReady ports owner pid uid digest s))) n =
       (if \<exists>p \<in> set ports. n = port_lease_path p owner pid uid digest then None else dir_get (ps_leases s) n))"
proof -
  have run: "foreach_p ports (\<lambda>p. unlink_lease (port_lease_path p owner pid uid digest)) s =
      (Ret (), s\<lparr>ps_leases := fold (\<lambda>p. dir_del (port_lease_path p owner pid uid digest)) ports (ps_leases s)\<rparr>)" for s
    by (induction ports arbitrary: s) (simp_all add: unlink_lease_def)
  have get: "dir_get (fold (\<lambda>p. dir_del (port_lease_path p owner pid uid digest)) ports d) n =
      (if \<exists>p \<in> set ports. n = port_lease_path p owner pid uid digest then None else dir_get d n)" for d :: "port_entry dir" and n
    by (induction ports arbitrary: d) (auto simp: dir_simps)
  show ?thesis using assms by (simp add: port_release_def enter_lock_def run get)
qed

lemma port_release_exact_witness:
  "fst (port_release LockReady [20000] ''lab'' 100 1001 ''d'' no_leases) = Ret ()"
  using port_release_exact [of "[20000]" "''lab''" 100 1001 "''d''" no_leases] by simp

text \<open>
  A lease file that names a pid beyond the C int range is never judged stale: the
  liveness query raises OverflowError, which ends the allocation of every owner whose search
  reaches that port, and the file stays.
\<close>

lemma huge_pid_blocks_port:
  assumes "lease_paths port (ps_leases s) = [n]" "lease_identity (ps_leases s) n port = Some (pid, uid, pd)"
    and "2147483647 < pid"
  shows "try_port (process_matches h w) taken wfail parts port s =
     (Raise (Exn OverflowError ''signed integer is greater than maximum''), s)"
proof -
  obtain ps where ps: "parts_identity ps = Some (pid, uid, pd)"
    using lease_identity_name [OF assms(2)] by blast
  have "0 \<le> uid" "pd \<noteq> []"
    using ps by (cases ps rule: parts_identity.cases; auto split: option.splits if_splits)+
  then show ?thesis
    using assms
    by (simp add: try_port_def process_matches_def query_process_identity_def pid_exists_def)
qed

definition huge_pid_holder :: "string list" where
  "huge_pid_holder = [''4294967296'', ''0'', replicate 64 (CHR ''a''), replicate 64 (CHR ''b'')]"

definition huge_pid_leases :: port_state where
  "huge_pid_leases = \<lparr>ps_leases = [(lease_name 20000 huge_pid_holder, PortFile)], ps_bound = []\<rparr>"

lemma huge_pid_blocks_port_witness:
  "\<exists>e. try_port (process_matches example_host ()) (\<lambda>_. False) (\<lambda>_. False) example_holder 20000 huge_pid_leases =
     (Raise e, huge_pid_leases) \<and> exn_kind e = OverflowError"
proof -
  have "nat_str 4294967296 = ''4294967296''" by (simp add: nat_str.simps)
  with py_int_nat_str [of 4294967296] have "py_int ''4294967296'' = Some 4294967296" by simp
  moreover have "py_int ''0'' = Some 0" "parses_base16 (replicate 64 (CHR ''a''))" "parses_base16 (replicate 64 (CHR ''b''))"
    by code_simp+
  ultimately have i: "parts_identity huge_pid_holder = Some (4294967296, 0, replicate 64 (CHR ''a''))"
    by (simp add: huge_pid_holder_def)
  then have ok: "holder_ok huge_pid_holder" by (simp add: holder_ok_def) (simp add: huge_pid_holder_def)
  have "lease_paths 20000 (ps_leases huge_pid_leases) = [lease_name 20000 huge_pid_holder]"
    by (simp add: huge_pid_leases_def lease_paths_def dir_names_def lease_glob_name holder_ok_nonempty [OF ok])
  moreover have "lease_identity (ps_leases huge_pid_leases) (lease_name 20000 huge_pid_holder) 20000 =
      Some (4294967296, 0, replicate 64 (CHR ''a''))"
    using lease_name_identity [OF ok] i by (simp add: huge_pid_leases_def dir_get_def)
  ultimately show ?thesis using huge_pid_blocks_port by fastforce
qed

section \<open>Giving a whole reservation back\<close>

text \<open>\<open>no_more s t\<close>: the second state has no bound socket and no lease the first one had not.\<close>

definition no_more :: "port_state \<Rightarrow> port_state \<Rightarrow> bool" where
  "no_more s t \<longleftrightarrow>
     ps_bound t = ps_bound s \<and>
     (\<forall>n f. dir_get (ps_leases t) n = Some f \<longrightarrow> dir_get (ps_leases s) n = Some f)"

lemma no_more_refl [simp]: "no_more s s"
  by (simp add: no_more_def)

lemma query_identity_digest: "query_process_identity h w pid = Inr (Some i) \<Longrightarrow> id_digest i \<noteq> []"
  by (auto simp: query_process_identity_def fingerprint_def split: sum.splits bool.splits outcome.splits option.splits
      prod.splits if_splits)

lemma port_release_ready: "\<exists>u. port_release LockReady ps ow pid uid dg t = (Ret (), u)"
proof -
  have "foreach_p ps (\<lambda>p. unlink_lease (port_lease_path p ow pid uid dg)) t =
      (Ret (), t\<lparr>ps_leases := fold (\<lambda>p. dir_del (port_lease_path p ow pid uid dg)) ps (ps_leases t)\<rparr>)" for t
    by (induction ps arbitrary: t) (simp_all add: unlink_lease_def)
  then show ?thesis by (simp add: port_release_def enter_lock_def)
qed

lemma reservation_release_run: "\<exists>r' u. reservation_release LockReady r s = (Ret r', u)"
proof -
  obtain u where "port_release LockReady (rsv_ports r) (rsv_owner r) (rsv_pid r) (rsv_uid r) (rsv_digest r)
      (s\<lparr>ps_bound := fold remove1 (rsv_sockets r) (ps_bound s)\<rparr>) = (Ret (), u)"
    using port_release_ready by blast
  then show ?thesis
    by (simp add: reservation_release_def release_reservations_def then_p_def bind_p_def foreach_close)
qed

lemma allocate_release:
  assumes "port_allocate h w pid uid LockReady taken wfail p owner (PInt pid) (PInt n) s = (Ret r, t)"
    and "1 < pid" "0 \<le> uid" "1024 \<le> pp_start p" "pp_end p \<le> 65535" "pp_start p \<le> pp_end p"
  shows "\<exists>r' u. reservation_release LockReady r t = (Ret r', u) \<and> no_more s u"
proof -
  from assms(1) obtain i ports where owner: "owner \<noteq> []" and n: "0 < n"
    and i: "query_process_identity h w pid = Inr (Some i)" "id_uid i = uid"
    and res: "reserve_ports p (process_matches h w) taken wfail
        (holder_parts pid uid (id_digest i) (owner_digest owner)) (nat n) (candidate_ports p owner) s = (Ret ports, t)"
    and r: "r = \<lparr>rsv_owner = owner, rsv_pid = pid, rsv_uid = uid, rsv_digest = id_digest i, rsv_ports = ports, rsv_sockets = ports\<rparr>"
    by (auto simp: port_allocate_def enter_lock_def bind_p_Ret_iff split: if_splits sum.splits option.splits)
  let ?parts = "holder_parts pid uid (id_digest i) (owner_digest owner)"
  have got: "length ports = nat n" and st: "leased_step (process_matches h w) taken ?parts (candidate_ports p owner) ports s t"
    using reserve_ports_cases [OF res candidate_ports_distinct] by (auto simp: holder_parts_def)
  have range: "list_all (\<lambda>p. 1024 \<le> p \<and> p \<le> 65535) ports"
    using st assms(4-6) unfolding leased_step_def candidate_ports_set by (auto simp: list_all_iff capacity_def)
  have bound: "fold remove1 ports (ps_bound t) = ps_bound s"
    using st unfolding leased_step_def avail_def by (auto intro!: fold_remove1)
  have "ports \<noteq> []" using got n by auto
  note rel = port_release_exact [OF this owner assms(2,3) query_identity_digest [OF i(1)] range]
  define u where "u = snd (port_release LockReady ports owner pid uid (id_digest i) (t\<lparr>ps_bound := ps_bound s\<rparr>))"
  have get: "dir_get (ps_leases u) m = (if \<exists>q \<in> set ports. m = port_lease_path q owner pid uid (id_digest i) then None else dir_get (ps_leases t) m)" for m
    using spec [OF conjunct2 [OF rel [of "t\<lparr>ps_bound := ps_bound s\<rparr>"]], of m] by (simp only: u_def) simp
  have run: "port_release LockReady ports owner pid uid (id_digest i) (t\<lparr>ps_bound := ps_bound s\<rparr>) = (Ret (), u)"
    and ub: "ps_bound u = ps_bound s"
    using rel [of "t\<lparr>ps_bound := ps_bound s\<rparr>"] by (auto simp: u_def)
  have "no_more s u"
  proof -
    have "dir_get (ps_leases s) m = Some f" if "dir_get (ps_leases u) m = Some f" for m f
    proof -
      from that get have "\<forall>q \<in> set ports. m \<noteq> lease_name q ?parts" "dir_get (ps_leases t) m = Some f"
        by (auto simp: port_lease_path_def split: if_splits)
      with st show ?thesis unfolding leased_step_def by (metis option.distinct(1))
    qed
    with ub show ?thesis by (simp add: no_more_def)
  qed
  moreover have "reservation_release LockReady r t = (Ret (r\<lparr>rsv_sockets := []\<rparr>), u)"
    using run by (simp add: reservation_release_def release_reservations_def then_p_def bind_p_def foreach_close r bound)
  ultimately show ?thesis by blast
qed

lemma allocate_no_more:
  assumes "port_allocate h w pid uid lock taken wfail p owner v n s = (Raise e, t)"
  shows "no_more s t"
proof -
  have "lift_p x s = (Raise e', u) \<Longrightarrow> u = s" for x :: "exn + unit" and e' u by (simp add: lift_p_Raise)
  have lock: "enter_lock lock s = (q, u) \<Longrightarrow> u = s" for q :: "unit res" and u
    by (auto simp: enter_lock_def split: lock_answer.splits)
  have res: "reserve_ports p mt taken wfail (holder_parts a b c d) k (candidate_ports p owner) s = (Raise e, t) \<Longrightarrow> no_more s t"
    for mt a b c d k
    by (erule reserve_ports_cases [OF _ candidate_ports_distinct]) (auto simp: holder_parts_def no_more_def)
  from assms show ?thesis
    by (auto simp: port_allocate_def bind_p_Raise_iff then_p_Raise_iff throw_p_def split: if_splits sum.splits option.splits pyval.splits
        dest: lock res)
qed

end
