(* ===== verification/Daemon_Destroy.thy ===== *)
theory Daemon_Destroy
  imports Daemon
begin

text \<open>
  runtime_daemon.py, \<open>RuntimeManager.destroy\<close>: the authorisation, the removal of each kind
  of resource with its retries, the probes for what remains, and only then the release of
  the address and the deletion of the registry record.
\<close>

section \<open>The operation\<close>

definition py_is_str :: "pyval \<Rightarrow> string option" where
  "py_is_str v = (case v of PStr s \<Rightarrow> Some s | _ \<Rightarrow> None)"

text \<open>\<open>re.fullmatch(r"epair\d+a", s)\<close>\<close>

definition epair_ok :: "string \<Rightarrow> bool" where
  "epair_ok s \<longleftrightarrow>
     starts_with ''epair'' s \<and> 6 < length s \<and> last s = CHR ''a'' \<and> list_all ascii_digit (butlast (drop 5 s))"

text \<open>
  \<open>for _ in range(n): result = run(...); if result.returncode == 0: removed.append(label);
  break; time.sleep(0.2)\<close>
\<close>

definition remove_with_retries ::
    "'w host \<Rightarrow> nat \<Rightarrow> nat \<Rightarrow> string list \<Rightarrow> string \<Rightarrow> ('w daemon, string list) prog" where
  "remove_with_retries h n timeout command label =
     bind_p (retry_p n (bind_p (run_timeout h False timeout command) (\<lambda>c. return_p (cp_rc c = 0))) (pause h))
       (\<lambda>ok. return_p (if ok then [label] else []))"

definition destroy_vm :: "manager \<Rightarrow> 'w host \<Rightarrow> string \<Rightarrow> bool \<Rightarrow> ('w daemon, string list) prog" where
  "destroy_vm m h name is_bhyve =
     then_p (when_p is_bhyve (require_vm_backend m h))
     (bind_p (if is_bhyve then return_p True else vm_exists m h name) (\<lambda>present.
        if present then
          then_p (run_timeout h False 20 [c_vm_command (m_config m), ''poweroff'', ''-f'', name])
            (remove_with_retries h 5 60 [c_vm_command (m_config m), ''destroy'', ''-f'', name] ''bhyve'')
        else return_p []))"

definition destroy_md :: "'w host \<Rightarrow> pyval \<Rightarrow> ('w daemon, string list) prog" where
  "destroy_md h md_unit =
     (case py_is_str md_unit of
        Some u \<Rightarrow>
          (if md_unit_ok u then remove_with_retries h 5 60 [''mdconfig'', ''-d'', ''-u'', drop 2 u] u
           else return_p [])
      | None \<Rightarrow> return_p [])"

definition destroy_dataset :: "'w host \<Rightarrow> string \<Rightarrow> ('w daemon, string list) prog" where
  "destroy_dataset h ds =
     bind_p (dataset_exists h ds) (\<lambda>present.
       if present then remove_with_retries h 10 60 [''zfs'', ''destroy'', ''-r'', ''-f'', ds] ds
       else return_p [])"

definition destroy_record_dataset :: "'w host \<Rightarrow> pyval \<Rightarrow> ('w daemon, string list) prog" where
  "destroy_record_dataset h v =
     (case py_is_str v of Some ds \<Rightarrow> destroy_dataset h ds | None \<Rightarrow> return_p [])"

definition destroy_jail :: "'w host \<Rightarrow> string \<Rightarrow> bool \<Rightarrow> ('w daemon, string list) prog" where
  "destroy_jail h name is_jail =
     bind_p (if is_jail then return_p True else jail_exists h name) (\<lambda>present.
       if present then remove_with_retries h 5 30 [''jail'', ''-r'', name] ''jail'' else return_p [])"

definition destroy_epair :: "'w host \<Rightarrow> pyval \<Rightarrow> ('w daemon, string list) prog" where
  "destroy_epair h v =
     (case py_is_str v of
        Some e \<Rightarrow> if epair_ok e then remove_with_retries h 5 60 [''ifconfig'', e, ''destroy''] e else return_p []
      | None \<Rightarrow> return_p [])"

text \<open>What is still there: one probe per resource.\<close>

definition label_if :: "('w daemon, bool) prog \<Rightarrow> string \<Rightarrow> ('w daemon, string list) prog" where
  "label_if probe label = bind_p probe (\<lambda>b. return_p (if b then [label] else []))"

definition append_p :: "('s, 'a list) prog \<Rightarrow> ('s, 'a list) prog \<Rightarrow> ('s, 'a list) prog" where
  "append_p a b = bind_p a (\<lambda>xs. bind_p b (\<lambda>ys. return_p (xs @ ys)))"

definition probe_rest :: "manager \<Rightarrow> 'w host \<Rightarrow> string \<Rightarrow> record_doc \<Rightarrow> ('w daemon, string list) prog" where
  "probe_rest m h name r =
     append_p (label_if (jail_exists h name) ''jail'')
     (append_p
       (case py_is_str (pget r ''epair_host'') of
          Some e \<Rightarrow> if epair_ok e then label_if (interface_exists h e) e else return_p []
        | None \<Rightarrow> return_p [])
     (append_p
       (case py_is_str (pget r ''md_unit'') of
          Some u \<Rightarrow> if md_unit_ok u then label_if (md_exists h u) u else return_p []
        | None \<Rightarrow> return_p [])
     (append_p
       (case py_is_str (pget r ''dataset'') of
          Some ds \<Rightarrow> label_if (dataset_exists h ds) ds
        | None \<Rightarrow> return_p [])
       (label_if (dataset_exists h (jail_dataset m name)) (jail_dataset m name)))))"

definition probe_remaining :: "manager \<Rightarrow> 'w host \<Rightarrow> string \<Rightarrow> record_doc \<Rightarrow> ('w daemon, string list) prog" where
  "probe_remaining m h name r =
     append_p (label_if (vm_exists m h name) ''bhyve'') (probe_rest m h name r)"

definition remove_resources :: "manager \<Rightarrow> 'w host \<Rightarrow> string \<Rightarrow> record_doc \<Rightarrow> ('w daemon, string list) prog" where
  "remove_resources m h name r =
     append_p (destroy_vm m h name (py_eq_str (pget r ''type'') ''bhyve''))
     (append_p (destroy_md h (pget r ''md_unit''))
     (append_p (destroy_record_dataset h (pget r ''dataset''))
     (append_p (destroy_jail h name (py_eq_str (pget r ''type'') ''jail''))
     (append_p (destroy_epair h (pget r ''epair_host''))
       (destroy_dataset h (jail_dataset m name))))))"

definition release_address :: "manager \<Rightarrow> 'w host \<Rightarrow> string \<Rightarrow> record_doc \<Rightarrow> ('w daemon, unit) prog" where
  "release_address m h name r =
     (case py_is_str (pget r ''guest_ip'') of
        Some ip \<Rightarrow>
          (if ip \<noteq> [] then
             then_p (on_leases (pool_release (m_pool m) ip name))
               (then_p (run_cmd h False [''arp'', ''-d'', ip]) (return_p ()))
           else return_p ())
      | None \<Rightarrow> return_p ())"

definition delete_record :: "string \<Rightarrow> ('w daemon, unit) prog" where
  "delete_record name = on_registry (delete_registry name)"

definition destroy_body ::
    "manager \<Rightarrow> 'w host \<Rightarrow> string \<Rightarrow> pyval \<Rightarrow> bool \<Rightarrow> ('w daemon, string list) prog" where
  "destroy_body m h name requester force =
     bind_p (lift_p (validate_name (PStr name))) (\<lambda>_.
     bind_p (load_record name) (\<lambda>loaded.
       let r = (case loaded of None \<Rightarrow> [] | Some r \<Rightarrow> r)
       in then_p (if force then return_p () else lift_p (authorize_record r requester))
          (bind_p (remove_resources m h name r) (\<lambda>removed.
           bind_p (probe_remaining m h name r) (\<lambda>remaining.
             if remaining \<noteq> [] then
               raise_p RuntimeError (''Runtime cleanup incomplete for '' @ name @ '': ''
                                     @ join_with '', '' remaining)
             else then_p (release_address m h name r)
                    (then_p (delete_record name) (return_p removed)))))))"

text \<open>The decorated method; the result is \<open>{"name": name, "removed": removed}\<close>.\<close>

definition destroy :: "manager \<Rightarrow> 'w host \<Rightarrow> string \<Rightarrow> pyval \<Rightarrow> bool \<Rightarrow> ('w daemon, pyval) prog" where
  "destroy m h name requester force =
     with_runtime_lock name
       (bind_p (destroy_body m h name requester force) (\<lambda>removed.
          return_p (PDict [(''name'', PStr name), (''removed'', PList (map PStr removed))])))"

section \<open>Lemmas on locks and frames\<close>

lemma with_lock_held: "name \<in> set (d_held s) \<Longrightarrow> with_runtime_lock name m s = (Stuck, s)"
  by (simp add: with_runtime_lock_def acquire_lock_def then_p_def bind_p_def)

text \<open>Programs that put every lock they take back.\<close>

definition balanced :: "('w daemon, 'a) prog \<Rightarrow> bool" where
  "balanced m \<longleftrightarrow> (\<forall>s r t. m s = (r, t) \<longrightarrow> r \<noteq> Stuck \<longrightarrow> d_held t = d_held s)"

lemma keeps_held_balanced: "keeps d_held m \<Longrightarrow> balanced m"
  by (auto simp: balanced_def dest: keepsD)

lemma with_lock_run:
  assumes "name \<notin> set (d_held s)" and "m (s\<lparr>d_held := name # d_held s\<rparr>) = (r, t)"
  shows "with_runtime_lock name m s = (if r = Stuck then (Stuck, t) else (r, t\<lparr>d_held := remove1 name (d_held t)\<rparr>))"
  using assms
  by (cases r) (simp_all add: with_runtime_lock_def acquire_lock_def release_lock_def then_p_def bind_p_def finally_p_def)

lemma balanced_with_lock: "balanced m \<Longrightarrow> balanced (with_runtime_lock name m)"
  unfolding balanced_def
proof (intro allI impI)
  fix s r t
  assume m: "\<forall>s r t. m s = (r, t) \<longrightarrow> r \<noteq> Stuck \<longrightarrow> d_held t = d_held s"
    and run: "with_runtime_lock name m s = (r, t)" "r \<noteq> Stuck"
  have "name \<notin> set (d_held s)"
    by (rule notI) (use run with_lock_held [of name s m] in simp)
  obtain r' t' where r': "m (s\<lparr>d_held := name # d_held s\<rparr>) = (r', t')"
    by (cases "m (s\<lparr>d_held := name # d_held s\<rparr>)")
  from with_lock_run [where m = m and s = s, OF \<open>name \<notin> set (d_held s)\<close> r'] run m r' show "d_held t = d_held s"
    by (cases "r' = Stuck") auto
qed

text \<open>Parts of the state the command-running programs do not touch.\<close>

definition daemon_part :: "('w daemon \<Rightarrow> 'v) \<Rightarrow> bool" where
  "daemon_part f \<longleftrightarrow> (\<forall>s w l. f (s\<lparr>d_world := w, d_log := l\<rparr>) = f s)"

lemma daemon_part_intros [intro]:
  "daemon_part d_registry" "daemon_part d_leases" "daemon_part d_bridge" "daemon_part d_switch" "daemon_part d_held"
  by (simp_all add: daemon_part_def)

lemma daemon_part_world: "daemon_part f \<Longrightarrow> f (s\<lparr>d_world := w\<rparr>) = f s"
  unfolding daemon_part_def by (metis daemon.surjective daemon.update_convs(6,7))

lemma keeps_spawn: "daemon_part f \<Longrightarrow> keeps f (spawn h t c)"
  by (auto simp: keeps_def spawn_def daemon_part_def split: prod.splits)

lemma keeps_run_timeout: "daemon_part f \<Longrightarrow> keeps f (run_timeout h b t c)"
  unfolding run_timeout_def
  by (rule keeps_bind [OF keeps_spawn]) (auto split: outcome.splits)

lemma keeps_run_cmd [keeps_intros]: "daemon_part f \<Longrightarrow> keeps f (run_cmd h b c)"
  by (simp add: run_cmd_def keeps_run_timeout)

lemma keeps_run_ok [keeps_intros]: "daemon_part f \<Longrightarrow> keeps f (run_ok h c)"
  by (simp add: run_ok_def keeps_then keeps_run_cmd)

lemma keeps_pause [keeps_intros]: "daemon_part f \<Longrightarrow> keeps f (pause h)"
  by (simp add: pause_def keeps_def daemon_part_world)

lemma keeps_syscall [keeps_intros]: "daemon_part f \<Longrightarrow> keeps f (do_syscall h c)"
  by (auto simp: keeps_def do_syscall_def daemon_part_def split: prod.splits)

lemma keeps_exists_cmd [keeps_intros]: "daemon_part f \<Longrightarrow> keeps f (exists_cmd h c)"
  by (simp add: exists_cmd_def keeps_bind keeps_run_cmd)

lemma keeps_require_vm [keeps_intros]: "keeps f (require_vm_backend m h)"
  by (simp add: keeps_def require_vm_backend_def)

lemma keeps_load_record [keeps_intros]: "keeps f (load_record n)"
  by (simp add: load_record_def keeps_bind keeps_lift)

lemma keeps_probes [keeps_intros]:
  assumes "daemon_part f"
  shows "keeps f (jail_exists h n)" "keeps f (vm_exists m h n)" "keeps f (dataset_exists h n)"
    "keeps f (interface_exists h n)" "keeps f (md_exists h n)" "keeps f (snapshot_exists h n)"
  using assms
  by (auto simp: jail_exists_def vm_exists_def dataset_exists_def interface_exists_def md_exists_def snapshot_exists_def
      intro!: keeps_bind keeps_exists_cmd)

lemma keeps_append [keeps_intros]: "keeps f a \<Longrightarrow> keeps f b \<Longrightarrow> keeps f (append_p a b)"
  by (simp add: append_p_def keeps_bind)

lemma keeps_label_if [keeps_intros]: "keeps f p \<Longrightarrow> keeps f (label_if p l)"
  by (simp add: label_if_def keeps_bind)

lemma keeps_remove_with_retries [keeps_intros]:
  "daemon_part f \<Longrightarrow> keeps f (remove_with_retries h n t c l)"
  by (simp add: remove_with_retries_def keeps_bind keeps_retry keeps_run_timeout keeps_pause)

lemma keeps_remove_resources:
  assumes "daemon_part f"
  shows "keeps f (remove_resources m h name r)"
  unfolding remove_resources_def destroy_vm_def destroy_md_def destroy_record_dataset_def destroy_dataset_def
    destroy_jail_def destroy_epair_def
  by (intro keeps_intros keeps_run_timeout assms)

lemma keeps_probe_remaining:
  assumes "daemon_part f"
  shows "keeps f (probe_remaining m h name r)"
  unfolding probe_remaining_def probe_rest_def by (intro keeps_intros assms)

lemma unstuck_run_timeout [unstuck_intros]: "unstuck (run_timeout h b t c)"
  unfolding run_timeout_def
  by (rule unstuck_bind) (auto simp: unstuck_def spawn_def split: outcome.splits prod.splits)

lemma unstuck_commands [unstuck_intros]:
  "unstuck (run_cmd h b c)" "unstuck (run_ok h c)" "unstuck (exists_cmd h c)" "unstuck (pause h)"
  "unstuck (do_syscall h sc)" "unstuck (require_vm_backend m h)" "unstuck (lift_p x)" "unstuck (load_record n)"
  by (auto simp: run_cmd_def run_ok_def exists_cmd_def pause_def load_record_def lift_p_def
      intro!: unstuck_intros split: sum.splits)
    (auto simp: unstuck_def do_syscall_def require_vm_backend_def split: prod.splits option.splits)

lemma unstuck_probes [unstuck_intros]:
  "unstuck (jail_exists h n)" "unstuck (vm_exists m h n)" "unstuck (dataset_exists h n)"
  "unstuck (interface_exists h n)" "unstuck (md_exists h n)" "unstuck (snapshot_exists h n)"
  by (auto simp: jail_exists_def vm_exists_def dataset_exists_def interface_exists_def md_exists_def snapshot_exists_def
      intro!: unstuck_intros)

lemma unstuck_append [unstuck_intros]: "unstuck a \<Longrightarrow> unstuck b \<Longrightarrow> unstuck (append_p a b)"
  unfolding append_p_def by (intro unstuck_intros)

lemma unstuck_label_if [unstuck_intros]: "unstuck p \<Longrightarrow> unstuck (label_if p l)"
  unfolding label_if_def by (intro unstuck_intros)

lemma unstuck_remove_with_retries [unstuck_intros]: "unstuck (remove_with_retries h n t c l)"
  unfolding remove_with_retries_def by (intro unstuck_intros)

lemma unstuck_remove_resources: "unstuck (remove_resources m h name r)"
  unfolding remove_resources_def destroy_vm_def destroy_md_def destroy_record_dataset_def destroy_dataset_def
    destroy_jail_def destroy_epair_def
  by (intro unstuck_intros)

lemma unstuck_probe_remaining: "unstuck (probe_remaining m h name r)"
  unfolding probe_remaining_def probe_rest_def by (intro unstuck_intros)

lemma unstuck_on_registry [unstuck_intros]: "unstuck m \<Longrightarrow> unstuck (on_registry m)"
  by (auto simp: unstuck_def on_registry_def split: prod.splits) (metis fst_conv)

lemma unstuck_on_leases [unstuck_intros]: "unstuck m \<Longrightarrow> unstuck (on_leases m)"
  by (auto simp: unstuck_def on_leases_def split: prod.splits) (metis fst_conv)

lemma unstuck_pool_release [unstuck_intros]: "unstuck (pool_release p a w)"
  by (rule unstuckI) (rule pool_release_not_Stuck)

lemma unstuck_release_address [unstuck_intros]: "unstuck (release_address m h name r)"
  unfolding release_address_def by (intro unstuck_intros)

lemma unstuck_delete_record [unstuck_intros]: "unstuck (delete_record name)"
  unfolding delete_record_def delete_registry_def by (intro unstuck_intros)

lemma unstuck_destroy_body: "unstuck (destroy_body m h name q force)"
  unfolding destroy_body_def Let_def
  by (intro unstuck_intros unstuck_remove_resources unstuck_probe_remaining)

section \<open>What destroy leaves alone\<close>

text \<open>A part of the state that the commands, the lease of \<open>name\<close> and its registry entry do not reach.\<close>

lemma keeps_on_leases: "(\<And>d. g (snd (m d)) = g d) \<Longrightarrow> keeps (\<lambda>s. g (d_leases s)) (on_leases m)"
  by (auto simp: keeps_def on_leases_def split: prod.splits) (metis snd_conv)+

lemma keeps_on_leases_other: "(\<And>s d. f (s\<lparr>d_leases := d\<rparr>) = f s) \<Longrightarrow> keeps f (on_leases m)"
  by (auto simp: keeps_def on_leases_def split: prod.splits)

lemma keeps_on_registry: "(\<And>d. g (snd (m d)) = g d) \<Longrightarrow> keeps (\<lambda>s. g (d_registry s)) (on_registry m)"
  by (auto simp: keeps_def on_registry_def split: prod.splits) (metis snd_conv)+

lemma keeps_on_registry_other: "(\<And>s d. f (s\<lparr>d_registry := d\<rparr>) = f s) \<Longrightarrow> keeps f (on_registry m)"
  by (auto simp: keeps_def on_registry_def split: prod.splits)

lemma pool_release_other_owner:
  assumes "v \<noteq> name"
  shows "lease_owner (snd (pool_release p ip name d)) a = Some v \<longleftrightarrow> lease_owner d a = Some v"
proof (cases "fst (pool_release p ip name d) = Ret True")
  case True
  then have "pool_release p ip name d = (Ret True, snd (pool_release p ip name d))" by (metis prod.collapse)
  then obtain n b t where n: "parse_ipv4 ip = Some n" "dir_get d (lease_path n) = Some (LFile b)"
      "utf8_decode b = Some t" "py_strip t = name" "snd (pool_release p ip name d) = dir_del (lease_path n) d"
    by (elim pool_release_True)
  have "n < 4294967296" using n(1) by (rule parse_ipv4_bound)
  with n(2-4) have "lease_owner d n = Some name" by (auto simp: lease_owner_Some)
  with assms n(5) \<open>n < 4294967296\<close> show ?thesis by (auto simp: lease_owner_del)
next
  case False
  have "lease_owner (snd (pool_release p ip name d)) a = lease_owner d a"
  proof (cases "dir_get d (lease_path a) = Some LLink")
    case True
    have "dir_get (snd (pool_release p ip name d)) (lease_path a) \<in> {None, Some LLink}"
      using True by (auto simp: pool_release_def dir_simps then_p_def split: option.splits lease_file.splits sum.splits)
    with True show ?thesis by (auto simp: lease_owner_def)
  next
    case False': False
    from pool_release_other [OF prod.collapse [symmetric] False False'] show ?thesis by (simp add: lease_owner_def)
  qed
  then show ?thesis by simp
qed

definition other_lease :: "string set \<Rightarrow> nat \<Rightarrow> string \<Rightarrow> 'w daemon \<Rightarrow> bool" where
  "other_lease ns a v s \<longleftrightarrow> v \<notin> ns \<and> lease_owner (d_leases s) a = Some v"

lemma daemon_part_more [intro]:
  "daemon_part (\<lambda>s. g (d_registry s))" "daemon_part (\<lambda>s. k (d_leases s))" "daemon_part (other_lease n a v)"
  by (simp_all add: daemon_part_def other_lease_def)

lemma keeps_release_address_lease:
  assumes "name \<in> ns"
  shows "keeps (other_lease ns a v) (release_address m h name r)"
proof -
  have "keeps (other_lease ns a v) (on_leases (pool_release p ip name))" for p ip
    unfolding other_lease_def
    by (rule keeps_on_leases [where g = "\<lambda>d. v \<notin> ns \<and> lease_owner d a = Some v"])
      (metis assms pool_release_other_owner)
  then show ?thesis unfolding release_address_def by (intro keeps_intros) auto
qed

lemma keeps_release_address:
  assumes "daemon_part f" "\<And>s d. f (s\<lparr>d_leases := d\<rparr>) = f s"
  shows "keeps f (release_address m h name r)"
  unfolding release_address_def
  by (intro keeps_intros keeps_on_leases_other assms)

lemma keeps_delete_record:
  "p \<noteq> registry_path name \<Longrightarrow> keeps (\<lambda>s. dir_get (d_registry s) p) (delete_record name)"
  unfolding delete_record_def
  by (rule keeps_on_registry [where g = "\<lambda>d. dir_get d p"]) (simp add: delete_registry_def dir_simps)

lemma keeps_delete_record_other: "(\<And>s d. f (s\<lparr>d_registry := d\<rparr>) = f s) \<Longrightarrow> keeps f (delete_record name)"
  unfolding delete_record_def by (rule keeps_on_registry_other)

lemma keeps_destroy_body:
  assumes part: "daemon_part f" and rel: "\<And>r. keeps f (release_address m h name r)" and del: "keeps f (delete_record name)"
  shows "keeps f (destroy_body m h name q force)"
  unfolding destroy_body_def Let_def
  by (intro keeps_intros keeps_remove_resources keeps_probe_remaining part rel del)

lemma destroy_body_other_record:
  "p \<noteq> registry_path name \<Longrightarrow> keeps (\<lambda>s. dir_get (d_registry s) p) (destroy_body m h name q force)"
  by (intro keeps_destroy_body keeps_release_address keeps_delete_record daemon_part_more) simp_all

lemma destroy_body_other_lease: "name \<in> ns \<Longrightarrow> keeps (other_lease ns a v) (destroy_body m h name q force)"
  by (intro keeps_destroy_body keeps_release_address_lease keeps_delete_record_other daemon_part_more)
    (simp_all add: other_lease_def)

lemma destroy_body_held: "keeps d_held (destroy_body m h name q force)"
  by (intro keeps_destroy_body keeps_release_address keeps_delete_record_other) auto

section \<open>From the body to the decorated method\<close>

definition lock_part :: "('w daemon \<Rightarrow> 'v) \<Rightarrow> bool" where
  "lock_part f \<longleftrightarrow> (\<forall>s l. f (s\<lparr>d_held := l\<rparr>) = f s)"

lemma lock_part_intros [intro]:
  "lock_part (\<lambda>s. g (d_registry s))" "lock_part (\<lambda>s. k (d_leases s))" "lock_part (other_lease n a v)"
  "lock_part d_log" "lock_part d_world" "lock_part d_bridge" "lock_part d_switch"
  by (simp_all add: lock_part_def other_lease_def)

lemma keeps_with_lock:
  assumes "lock_part f" "keeps f m"
  shows "keeps f (with_runtime_lock name m)"
  unfolding with_runtime_lock_def
  by (intro keeps_intros assms(2))
    (use assms(1) in \<open>auto simp: keeps_def acquire_lock_def release_lock_def lock_part_def\<close>)

text \<open>With the lock free, the method is its body between taking the lock and giving it back.\<close>

lemma destroy_cases:
  assumes "destroy m h name q force s = (r, t)"
  obtains (Held) "name \<in> set (d_held s)" "r = Stuck" "t = s"
  | (Done) removed u where "destroy_body m h name q force (s\<lparr>d_held := name # d_held s\<rparr>) = (Ret removed, u)"
      "r = Ret (PDict [(''name'', PStr name), (''removed'', PList (map PStr removed))])"
      "t = u\<lparr>d_held := d_held s\<rparr>"
  | (Failed) e u where "destroy_body m h name q force (s\<lparr>d_held := name # d_held s\<rparr>) = (Raise e, u)"
      "r = Raise e" "t = u\<lparr>d_held := d_held s\<rparr>"
proof (cases "name \<in> set (d_held s)")
  case True
  have "r = Stuck" "t = s" using assms by (simp_all add: destroy_def with_lock_held [OF True])
  with True Held show ?thesis by blast
next
  case False
  define s1 where "s1 = s\<lparr>d_held := name # d_held s\<rparr>"
  obtain x u where b: "destroy_body m h name q force s1 = (x, u)" by (cases "destroy_body m h name q force s1")
  have held: "d_held u = name # d_held s"
    using keepsD [OF destroy_body_held b] by (simp add: s1_def)
  define reply where "reply removed = PDict [(''name'', PStr name), (''removed'', PList (map PStr removed))]" for removed
  define M where "M = bind_p (destroy_body m h name q force) (\<lambda>removed. return_p (reply removed))"
  have d: "destroy m h name q force s = with_runtime_lock name M s" by (simp add: destroy_def M_def reply_def)
  show ?thesis
  proof (cases x)
    case (Ret removed)
    then have "M s1 = (Ret (reply removed), u)" using b by (simp add: M_def bind_p_def)
    from with_lock_run [where m = M and s = s, OF False this [unfolded s1_def]] d assms held
    have "r = Ret (reply removed)" "t = u\<lparr>d_held := d_held s\<rparr>" by simp_all
    with Done b Ret show ?thesis by (simp add: reply_def s1_def)
  next
    case (Raise e)
    then have "M s1 = (Raise e, u)" using b by (simp add: M_def bind_p_def)
    from with_lock_run [where m = M and s = s, OF False this [unfolded s1_def]] d assms held
    have "r = Raise e" "t = u\<lparr>d_held := d_held s\<rparr>" by simp_all
    with Failed b Raise show ?thesis by (simp add: s1_def)
  next
    case Stuck
    with b unstuckD [OF unstuck_destroy_body] show ?thesis by blast
  qed
qed

lemma destroy_free_Raise:
  assumes "name \<notin> set (d_held s)"
    and "destroy_body m h name q force (s\<lparr>d_held := name # d_held s\<rparr>) = (Raise e, u)"
  shows "destroy m h name q force s = (Raise e, u\<lparr>d_held := d_held s\<rparr>)"
proof -
  obtain r t where d: "destroy m h name q force s = (r, t)" by (cases "destroy m h name q force s")
  from d assms show ?thesis by (cases rule: destroy_cases) (use d in auto)
qed

lemma destroy_free_Ret:
  assumes "name \<notin> set (d_held s)"
    and "destroy_body m h name q force (s\<lparr>d_held := name # d_held s\<rparr>) = (Ret removed, u)"
  shows "destroy m h name q force s =
     (Ret (PDict [(''name'', PStr name), (''removed'', PList (map PStr removed))]), u\<lparr>d_held := d_held s\<rparr>)"
proof -
  obtain r t where d: "destroy m h name q force s = (r, t)" by (cases "destroy m h name q force s")
  from d assms show ?thesis by (cases rule: destroy_cases) (use d in auto)
qed

section \<open>The phases of a run\<close>

lemma load_record_Ret: "load_record n s = (Ret v, t) \<longleftrightarrow> load_registry (d_registry s) n = Inr v \<and> t = s"
  by (simp add: load_record_def lift_p_Ret)

lemma load_record_Raise: "load_record n s = (Raise e, t) \<longleftrightarrow> load_registry (d_registry s) n = Inl e \<and> t = s"
  by (simp add: load_record_def lift_p_Raise)

definition loaded_record :: "registry \<Rightarrow> string \<Rightarrow> record_doc" where
  "loaded_record d name = (case load_registry d name of Inr (Some r) \<Rightarrow> r | _ \<Rightarrow> [])"

lemma validate_name_iff: "validate_name (PStr n) = Inr k \<longleftrightarrow> k = n \<and> runtime_name_ok n"
  by (auto simp: validate_name_def)

lemma destroy_body_Ret:
  assumes "destroy_body m h name q force s = (Ret removed, t)"
  obtains s1 s2 where "runtime_name_ok name" "force \<or> authorize_record (loaded_record (d_registry s) name) q = Inr ()"
    "remove_resources m h name (loaded_record (d_registry s) name) s = (Ret removed, s1)"
    "probe_remaining m h name (loaded_record (d_registry s) name) s1 = (Ret [], s2)"
    "then_p (release_address m h name (loaded_record (d_registry s) name)) (delete_record name) s2 = (Ret (), t)"
proof -
  obtain loaded where l: "runtime_name_ok name" "load_registry (d_registry s) name = Inr loaded"
    using assms by (auto simp: destroy_body_def bind_p_Ret_iff lift_p_Ret load_record_Ret validate_name_iff Let_def)
  then have r: "loaded_record (d_registry s) name = (case loaded of None \<Rightarrow> [] | Some r \<Rightarrow> r)"
    by (simp add: loaded_record_def split: option.splits)
  show ?thesis
    using assms l that unfolding r
    by (auto simp: destroy_body_def bind_p_Ret_iff lift_p_Ret load_record_Ret validate_name_iff Let_def then_p_Ret_iff
        split: if_splits)
qed

text \<open>A run that raises has not reached the deletion of the record.\<close>

lemma destroy_body_Raise:
  assumes "destroy_body m h name q force s = (Raise e, t)"
  shows "d_registry t = d_registry s"
proof -
  have parts: "daemon_part d_registry" by (simp add: daemon_part_def)
  have *: "keeps d_registry (remove_resources m h name r)" "keeps d_registry (probe_remaining m h name r)"
    "keeps d_registry (release_address m h name r)" for r
    by (auto intro!: keeps_remove_resources keeps_probe_remaining keeps_release_address parts)
  have del: "\<not> (\<exists>u. delete_record name u = (Raise e, t))"
    by (auto simp: delete_record_def on_registry_def delete_registry_def)
  show ?thesis
    using assms del
    by (auto simp: destroy_body_def bind_p_Raise_iff lift_p_Ret lift_p_Raise load_record_Ret load_record_Raise Let_def
        then_p_Raise_iff bind_p_Ret_iff then_p_Ret_iff split: if_splits dest!: keepsD [OF *(1)] keepsD [OF *(2)] keepsD [OF *(3)])
qed

section \<open>What the probes saw\<close>

fun command_failed :: "outcome \<Rightarrow> bool" where
  "command_failed (Completed rc _ _) = (rc \<noteq> 0)"
| "command_failed (ExecFailed _) = True"
| "command_failed TimedOut = False"

fun absent :: "string list \<Rightarrow> event \<Rightarrow> bool" where
  "absent c (Ran c' oc) = (c' = c \<and> command_failed oc)"
| "absent c (Sys _ _) = False"

definition epair_of :: "record_doc \<Rightarrow> string list" where
  "epair_of r = (case py_is_str (pget r ''epair_host'') of Some e \<Rightarrow> if epair_ok e then [e] else [] | None \<Rightarrow> [])"

definition md_of :: "record_doc \<Rightarrow> string list" where
  "md_of r = (case py_is_str (pget r ''md_unit'') of Some u \<Rightarrow> if md_unit_ok u then [u] else [] | None \<Rightarrow> [])"

definition datasets_of :: "manager \<Rightarrow> string \<Rightarrow> record_doc \<Rightarrow> string list" where
  "datasets_of m name r =
     (case py_is_str (pget r ''dataset'') of Some ds \<Rightarrow> [ds] | None \<Rightarrow> []) @ [jail_dataset m name]"

definition final_probes :: "manager \<Rightarrow> bool \<Rightarrow> string \<Rightarrow> record_doc \<Rightarrow> string list list" where
  "final_probes m vm name r =
     (if vm then [vm_probe m name] else []) @ [jail_probe name] @ map interface_probe (epair_of r) @
     map md_probe (md_of r) @ map dataset_probe (datasets_of m name r)"

definition saw_absent :: "('w daemon, string list) prog \<Rightarrow> string list list \<Rightarrow> bool" where
  "saw_absent P cs \<longleftrightarrow>
     (\<forall>s t. P s = (Ret [], t) \<longrightarrow> (\<exists>es. d_log t = d_log s @ es \<and> list_all2 absent cs es))"

lemma exists_cmd_False:
  "exists_cmd h c s = (Ret False, t) \<Longrightarrow> \<exists>oc. d_log t = d_log s @ [Ran c oc] \<and> command_failed oc"
  by (auto simp: exists_cmd_def run_cmd_def run_timeout_def bind_p_Ret_iff spawn_def
      split: prod.splits outcome.splits if_splits)

lemma saw_absent_probe: "label_if (exists_cmd h c) l s = (Ret [], t) \<Longrightarrow> \<exists>e. d_log t = d_log s @ [e] \<and> absent c e"
  by (auto simp: label_if_def bind_p_Ret_iff split: if_splits dest!: exists_cmd_False)

lemma saw_absent_label: "saw_absent (label_if (exists_cmd h c) l) [c]"
  by (auto simp: saw_absent_def dest!: saw_absent_probe)

lemma saw_absent_return: "saw_absent (return_p xs) []"
  by (simp add: saw_absent_def)

lemma saw_absent_append: "saw_absent a cs \<Longrightarrow> saw_absent b ds \<Longrightarrow> saw_absent (append_p a b) (cs @ ds)"
  unfolding saw_absent_def
proof (intro allI impI)
  fix s t
  assume a: "\<forall>s t. a s = (Ret [], t) \<longrightarrow> (\<exists>es. d_log t = d_log s @ es \<and> list_all2 absent cs es)"
    and b: "\<forall>s t. b s = (Ret [], t) \<longrightarrow> (\<exists>es. d_log t = d_log s @ es \<and> list_all2 absent ds es)"
    and run: "append_p a b s = (Ret [], t)"
  from run obtain u where "a s = (Ret [], u)" "b u = (Ret [], t)"
    by (auto simp: append_p_def bind_p_Ret_iff)
  with a b obtain es fs where "d_log u = d_log s @ es" "list_all2 absent cs es" "d_log t = d_log u @ fs" "list_all2 absent ds fs"
    by meson
  then show "\<exists>es. d_log t = d_log s @ es \<and> list_all2 absent (cs @ ds) es"
    by (intro exI [of _ "es @ fs"]) (simp add: list_all2_appendI)
qed

lemma saw_absent_vm:
  assumes "label_if (vm_exists m h name) l s = (Ret [], t)"
  shows "\<exists>es. d_log t = d_log s @ es \<and>
     list_all2 absent (if vm_available m h (d_world s) then [vm_probe m name] else []) es"
proof (cases "vm_available m h (d_world s)")
  case True
  with assms have "label_if (exists_cmd h (vm_probe m name)) l s = (Ret [], t)"
    by (simp add: label_if_def vm_exists_def bind_p_def)
  from saw_absent_probe [OF this] True show ?thesis by auto
next
  case False
  with assms show ?thesis by (simp add: label_if_def vm_exists_def bind_p_def)
qed

lemma saw_absent_cases:
  "saw_absent (case v of Some e \<Rightarrow> if ok e then label_if (exists_cmd h (pr e)) e else return_p [] | None \<Rightarrow> return_p [])
     (map pr (case v of Some e \<Rightarrow> if ok e then [e] else [] | None \<Rightarrow> []))"
  by (auto simp: saw_absent_return intro: saw_absent_label split: option.splits)

lemma probe_rest_absent:
  "saw_absent (probe_rest m h name r)
     ([jail_probe name] @ map interface_probe (epair_of r) @ map md_probe (md_of r) @ map dataset_probe (datasets_of m name r))"
proof -
  have md: "(case v of Some u \<Rightarrow> if md_unit_ok u then label_if (md_exists h u) u else return_p [] | None \<Rightarrow> return_p [])
      = (case v of Some u \<Rightarrow> if md_unit_ok u then label_if (exists_cmd h (md_probe u)) u else return_p [] | None \<Rightarrow> return_p [])" for v
    by (auto simp: md_exists_def split: option.splits)
  have ds: "saw_absent (case v of Some ds \<Rightarrow> label_if (exists_cmd h (dataset_probe ds)) ds | None \<Rightarrow> return_p [])
      (map dataset_probe (case v of Some ds \<Rightarrow> [ds] | None \<Rightarrow> []))" for v
    by (auto simp: saw_absent_return intro: saw_absent_label split: option.splits)
  have last: "saw_absent (label_if (exists_cmd h (dataset_probe d)) d) (map dataset_probe [d])" for d
    by (simp add: saw_absent_label)
  show ?thesis
    unfolding probe_rest_def datasets_of_def map_append md interface_exists_def jail_exists_def dataset_exists_def
      epair_of_def md_of_def
    by (rule saw_absent_append [OF saw_absent_label saw_absent_append [OF saw_absent_cases
        saw_absent_append [OF saw_absent_cases saw_absent_append [OF ds last]]]])
qed

lemma probe_remaining_absent:
  assumes "probe_remaining m h name r s = (Ret [], t)"
  shows "\<exists>es. d_log t = d_log s @ es \<and>
     list_all2 absent (final_probes m (vm_available m h (d_world s)) name r) es"
proof -
  from assms obtain u where u: "label_if (vm_exists m h name) ''bhyve'' s = (Ret [], u)"
      "probe_rest m h name r u = (Ret [], t)"
    by (auto simp: probe_remaining_def append_p_def bind_p_Ret_iff)
  from saw_absent_vm [OF u(1)] obtain es where es: "d_log u = d_log s @ es"
      "list_all2 absent (if vm_available m h (d_world s) then [vm_probe m name] else []) es" by blast
  from probe_rest_absent [of m h name r] u(2) obtain fs where fs: "d_log t = d_log u @ fs"
      "list_all2 absent ([jail_probe name] @ map interface_probe (epair_of r) @
         map md_probe (md_of r) @ map dataset_probe (datasets_of m name r)) fs"
    unfolding saw_absent_def by blast
  from list_all2_appendI [OF es(2) fs(2)] es(1) fs(1) show ?thesis
    by (intro exI [of _ "es @ fs"]) (simp add: final_probes_def del: append_Cons)
qed

text \<open>Every program of the operation only appends to the log.\<close>

definition log_grows :: "('w daemon, 'a) prog \<Rightarrow> bool" where
  "log_grows m \<longleftrightarrow> (\<forall>s. \<exists>es. d_log (snd (m s)) = d_log s @ es)"

lemma log_growsD: "log_grows m \<Longrightarrow> m s = (r, t) \<Longrightarrow> \<exists>es. d_log t = d_log s @ es"
  unfolding log_grows_def by (metis snd_conv)

lemma log_grows_keeps: "keeps d_log m \<Longrightarrow> log_grows m"
  unfolding log_grows_def keeps_def by simp

named_theorems log_intros \<open>programs that only append to the log\<close>

lemma log_grows_prim [log_intros]:
  "log_grows (return_p x)" "log_grows (raise_p k e)" "log_grows (gets_p g)" "log_grows (throw_p ex)" "log_grows stuck_p"
  by (rule log_grows_keeps, simp)+

lemma log_grows_bind [log_intros]:
  assumes "log_grows m" "\<And>x. log_grows (k x)"
  shows "log_grows (bind_p m k)"
  unfolding log_grows_def
proof
  fix s
  obtain r u where m: "m s = (r, u)" by (cases "m s")
  obtain es where es: "d_log u = d_log s @ es" using log_growsD [OF assms(1) m] by blast
  show "\<exists>es. d_log (snd (bind_p m k s)) = d_log s @ es"
  proof (cases r)
    case (Ret x)
    obtain r' t where k: "k x u = (r', t)" by (cases "k x u")
    from log_growsD [OF assms(2) k] es m Ret k show ?thesis by (auto simp: bind_p_def)
  qed (use m es in \<open>simp_all add: bind_p_def\<close>)
qed

lemma log_grows_then [log_intros]: "log_grows m \<Longrightarrow> log_grows k \<Longrightarrow> log_grows (then_p m k)"
  by (simp add: then_p_def log_grows_bind)

lemma log_grows_when [log_intros]: "log_grows m \<Longrightarrow> log_grows (when_p b m)"
  by (cases b) (simp_all add: log_grows_prim)

lemma log_grows_if [log_intros]: "log_grows m \<Longrightarrow> log_grows k \<Longrightarrow> log_grows (if b then m else k)"
  by simp

lemma log_grows_retry [log_intros]: "log_grows a \<Longrightarrow> log_grows p \<Longrightarrow> log_grows (retry_p n a p)"
  by (induction n) (auto intro!: log_intros)

lemma log_grows_option [log_intros]:
  "log_grows m \<Longrightarrow> (\<And>x. log_grows (k x)) \<Longrightarrow> log_grows (case v of None \<Rightarrow> m | Some x \<Rightarrow> k x)"
  by (cases v) simp_all

lemma log_grows_list [log_intros]:
  "log_grows m \<Longrightarrow> (\<And>x xs. log_grows (k x xs)) \<Longrightarrow> log_grows (case v of [] \<Rightarrow> m | x # xs \<Rightarrow> k x xs)"
  by (cases v) simp_all

lemma log_grows_prod [log_intros]: "(\<And>x y. log_grows (k x y)) \<Longrightarrow> log_grows (case v of (x, y) \<Rightarrow> k x y)"
  by (cases v) simp_all

lemma log_grows_syscall [log_intros]: "log_grows (do_syscall h c)"
  by (auto simp: log_grows_def do_syscall_def split: prod.splits)

lemma log_grows_run_timeout [log_intros]: "log_grows (run_timeout h b t c)"
proof -
  have "log_grows (spawn h t c)" by (auto simp: log_grows_def spawn_def split: prod.splits)
  then show ?thesis unfolding run_timeout_def
    by (rule log_grows_bind) (auto intro!: log_intros split: outcome.splits)
qed

lemma log_grows_lift [log_intros]: "log_grows (lift_p x)"
  by (cases x) (simp_all add: lift_p_def log_intros)

lemma log_grows_commands [log_intros]:
  "log_grows (run_cmd h b c)" "log_grows (run_ok h c)" "log_grows (exists_cmd h c)" "log_grows (load_record n)"
  unfolding run_cmd_def run_ok_def exists_cmd_def load_record_def by (intro log_intros)+

lemma log_grows_keeping [log_intros]:
  "log_grows (pause h)" "log_grows (require_vm_backend m h)" "log_grows (on_leases lp)" "log_grows (on_registry rp)"
  by (rule log_grows_keeps, simp add: pause_def keeps_def require_vm_backend_def on_leases_def on_registry_def
      split: prod.splits)+

lemma log_grows_remove_resources: "log_grows (remove_resources m h name r)"
  unfolding remove_resources_def destroy_vm_def destroy_md_def destroy_record_dataset_def destroy_dataset_def
    destroy_jail_def destroy_epair_def append_p_def remove_with_retries_def vm_exists_def jail_exists_def dataset_exists_def
  by (intro log_intros)

section \<open>Properties\<close>

text \<open>
  C6. A destroy request of a user other than root who does not own the record (or for
  which there is no record) is refused with PermissionError before anything happens: no
  command is run, and the registry, the leases, the flags and the locks are as before.
\<close>

theorem destroy_unauthorised:
  assumes "runtime_name_ok name" "name \<notin> set (d_held s)" "load_registry (d_registry s) name = Inr loaded"
    and "uid \<noteq> 0" "pget (case loaded of None \<Rightarrow> [] | Some r \<Rightarrow> r) ''owner_uid'' \<noteq> PInt uid"
  shows "\<exists>e. destroy m h name (PInt uid) False s = (Raise e, s) \<and> exn_kind e = PermissionError"
proof -
  define r where "r = (case loaded of None \<Rightarrow> [] | Some r \<Rightarrow> r)"
  obtain e where e: "authorize_record r (PInt uid) = Inl e" "exn_kind e = PermissionError"
    using authorize_cases [of r "PInt uid"] authorize_Inl [of r "PInt uid"] assms(4,5)
    by (cases "authorize_record r (PInt uid)") (auto simp: r_def)
  have "destroy_body m h name (PInt uid) False (s\<lparr>d_held := name # d_held s\<rparr>) =
      (Raise e, s\<lparr>d_held := name # d_held s\<rparr>)"
    using assms(1,3) e(1)
    by (simp add: destroy_body_def lift_p_def validate_name_def load_record_def Let_def then_p_def bind_p_def r_def [symmetric])
  from destroy_free_Raise [OF assms(2) this] e(2) show ?thesis by simp
qed

definition example_record :: record_doc where
  "example_record = [(''guest_ip'', PStr ''10.0.0.2''), (''owner_uid'', PInt 1001), (''type'', PStr ''jail'')]"

definition example_manager :: manager where
  "example_manager = \<lparr>m_config = default_config, m_pool = example_pool, m_prefix_len = 24\<rparr>"

definition example_name :: string where
  "example_name = ''freebsd-lab-a''"

definition example_daemon :: "unit daemon" where
  "example_daemon =
     \<lparr>d_registry = [(registry_path example_name, RFile (utf8_encode (record_text example_record)))],
      d_leases = [(''10.0.0.2.lease'', LFile (utf8_encode (example_name @ [CHR 0x0A])))],
      d_bridge = True, d_switch = False, d_held = [], d_world = (), d_log = []\<rparr>"

text \<open>A machine on which every command but the ones in \<open>ok\<close> fails.\<close>

definition failing_host :: "(string list \<Rightarrow> bool) \<Rightarrow> unit host" where
  "failing_host ok = example_host\<lparr>h_spawn := \<lambda>_ c w. (Completed (if ok c then 0 else 1) [] [], w)\<rparr>"

lemma example_name_ok: "runtime_name_ok example_name"
  by (simp add: example_name_def runtime_name_ok_def runtime_prefix_def starts_with_def ascii_lower_def)

lemma example_loaded: "load_registry (d_registry example_daemon) example_name = Inr (Some example_record)"
proof -
  have "json_ok (PDict example_record)" "json_norm (PDict example_record) = PDict example_record"
    by (simp_all add: example_record_def)
  then show ?thesis
    using load_registry_written [of "d_registry example_daemon" example_name example_record]
    by (simp add: example_daemon_def dir_get_def del: json_norm.simps json_ok.simps)
qed

theorem destroy_unauthorised_witness:
  "\<exists>e. destroy example_manager example_host example_name (PInt 1002) False example_daemon = (Raise e, example_daemon)
     \<and> exn_kind e = PermissionError"
  by (rule destroy_unauthorised [OF example_name_ok _ example_loaded])
    (simp_all add: example_daemon_def example_record_def pget_def dir_get_def)

text \<open>
  C8. A destroy that returns has deleted the registry record of the name, and the lease
  of the recorded address if the name held it; no other registry entry has changed, no
  lease of another owner has, and the runtime lock is free again.
\<close>

theorem destroy_removes:
  assumes "destroy m h name q force s = (Ret out, t)"
  shows "load_registry (d_registry t) name = Inr None \<and>
     (\<forall>p. p \<noteq> registry_path name \<longrightarrow> dir_get (d_registry t) p = dir_get (d_registry s) p) \<and>
     (\<forall>a v. v \<noteq> name \<and> lease_owner (d_leases s) a = Some v \<longrightarrow> lease_owner (d_leases t) a = Some v) \<and>
     (\<forall>ip a. pget (loaded_record (d_registry s) name) ''guest_ip'' = PStr ip \<and> parse_ipv4 ip = Some a \<and>
        in_pool (m_pool m) a \<and> lease_owner (d_leases s) a = Some name \<longrightarrow> lease_owner (d_leases t) a = None) \<and>
     d_held t = d_held s"
  using assms
proof (cases rule: destroy_cases)
  case Held
  then show ?thesis by simp
next
  case (Failed e u)
  then show ?thesis by simp
next
  case (Done removed u)
  define r where "r = loaded_record (d_registry s) name"
  from Done(1) obtain s1 s2 where ph: "remove_resources m h name r (s\<lparr>d_held := name # d_held s\<rparr>) = (Ret removed, s1)"
      "probe_remaining m h name r s1 = (Ret [], s2)"
      "then_p (release_address m h name r) (delete_record name) s2 = (Ret (), u)"
    by (elim destroy_body_Ret) (auto simp: r_def)
  from ph(3) obtain s3 where s3: "release_address m h name r s2 = (Ret (), s3)" "delete_record name s3 = (Ret (), u)"
    by (auto simp: then_p_Ret_iff)
  have leases2: "d_leases s2 = d_leases s"
    using keepsD [OF keeps_remove_resources ph(1), of d_leases] keepsD [OF keeps_probe_remaining ph(2), of d_leases] by auto
  have gone: "dir_get (d_registry t) (registry_path name) = None"
    using s3(2) Done(3) by (auto simp: delete_record_def on_registry_def delete_registry_def dir_simps)
  have lease: "lease_owner (d_leases t) a = None"
    if ip: "pget r ''guest_ip'' = PStr ip" "parse_ipv4 ip = Some a" "in_pool (m_pool m) a"
      and own: "lease_owner (d_leases s) a = Some name" for ip a
  proof -
    have "ip \<noteq> []" using ip(2) by (auto simp: parse_ipv4_def)
    have "name \<noteq> []" using Done(1) runtime_name_nonempty by (elim destroy_body_Ret) auto
    obtain b where "dir_get (d_leases s) (lease_path a) = Some (LFile b)" "a < 4294967296"
        "\<exists>x. utf8_decode b = Some x \<and> py_strip x = name" using own by (auto simp: lease_owner_Some)
    then have "pool_release (m_pool m) ip name (d_leases s2) = (Ret True, dir_del (lease_path a) (d_leases s))"
      using pool_release_owned [OF \<open>name \<noteq> []\<close> ip(2,3)] leases2 by auto
    with s3(1) ip(1) \<open>ip \<noteq> []\<close> have "d_leases s3 = dir_del (lease_path a) (d_leases s)"
      by (auto simp: release_address_def py_is_str_def then_p_Ret_iff on_leases_def
          dest!: keepsD [OF keeps_run_cmd [OF daemon_part_intros(2)]])
    then have "d_leases t = dir_del (lease_path a) (d_leases s)"
      using s3(2) Done(3) by (auto simp: delete_record_def on_registry_def delete_registry_def)
    with \<open>a < 4294967296\<close> show ?thesis by (simp add: lease_owner_del)
  qed
  have others: "dir_get (d_registry t) p = dir_get (d_registry s) p" if "p \<noteq> registry_path name" for p
    using keepsD [OF destroy_body_other_record [OF that] Done(1)] Done(3) by simp
  have keep: "lease_owner (d_leases t) a = Some v" if "v \<noteq> name" "lease_owner (d_leases s) a = Some v" for a v
    using keepsD [OF destroy_body_other_lease Done(1), of "{name}" a v] Done(3) that by (simp add: other_lease_def)
  show ?thesis
    using gone lease others keep Done(3) by (auto simp: load_registry_def r_def)
qed

text \<open>A program that returns, with a result of a kind, from every state of a kind.\<close>

definition yields :: "('s \<Rightarrow> bool) \<Rightarrow> ('s, 'a) prog \<Rightarrow> ('a \<Rightarrow> bool) \<Rightarrow> bool" where
  "yields I m Q \<longleftrightarrow> (\<forall>s. I s \<longrightarrow> (\<exists>x t. m s = (Ret x, t) \<and> Q x \<and> I t))"

lemma yields_return: "Q x \<Longrightarrow> yields I (return_p x) Q"
  by (simp add: yields_def)

lemma yields_bind:
  assumes "yields I m Q" "\<And>x. Q x \<Longrightarrow> yields I (k x) R"
  shows "yields I (bind_p m k) R"
  unfolding yields_def
proof (intro allI impI)
  fix s
  assume "I s"
  then obtain x t where "m s = (Ret x, t)" "Q x" "I t" using assms(1) unfolding yields_def by blast
  with assms(2) [of x] obtain y u where "k x t = (Ret y, u)" "R y" "I u" unfolding yields_def by blast
  with \<open>m s = (Ret x, t)\<close> show "\<exists>y u. bind_p m k s = (Ret y, u) \<and> R y \<and> I u" by (simp add: bind_p_def)
qed

lemma yields_weaken: "yields I m Q \<Longrightarrow> (\<And>x. Q x \<Longrightarrow> R x) \<Longrightarrow> yields I m R"
  unfolding yields_def by blast

lemma yields_then: "yields I m Q \<Longrightarrow> yields I k R \<Longrightarrow> yields I (then_p m k) R"
  unfolding then_p_def by (rule yields_bind)

lemma yields_retry: "yields I a (\<lambda>b. \<not> b) \<Longrightarrow> yields I p (\<lambda>_. True) \<Longrightarrow> yields I (retry_p n a p) (\<lambda>b. \<not> b)"
  by (induction n) (auto intro!: yields_return yields_bind [where Q = "\<lambda>b. \<not> b"] yields_then)

lemma yields_append:
  "yields I a (\<lambda>xs. xs = []) \<Longrightarrow> yields I b (\<lambda>xs. xs = []) \<Longrightarrow> yields I (append_p a b) (\<lambda>xs. xs = [])"
  unfolding append_p_def by (rule yields_bind, assumption, rule yields_bind, assumption, rule yields_return) simp

text \<open>A machine on which every command completes with an error status.\<close>

definition all_fail :: "'w host \<Rightarrow> bool" where
  "all_fail h \<longleftrightarrow> (\<forall>t c w. \<exists>rc out err w'. h_spawn h t c w = (Completed rc out err, w') \<and> rc \<noteq> 0)"

definition command_stable :: "('w daemon \<Rightarrow> bool) \<Rightarrow> bool" where
  "command_stable I \<longleftrightarrow> (\<forall>s w l. I s \<longrightarrow> I (s\<lparr>d_world := w, d_log := l\<rparr>)) \<and> (\<forall>s w. I s \<longrightarrow> I (s\<lparr>d_world := w\<rparr>))"

lemma all_fail_run: "all_fail h \<Longrightarrow> command_stable I \<Longrightarrow> yields I (run_timeout h False t c) (\<lambda>r. cp_rc r \<noteq> 0)"
  unfolding yields_def run_timeout_def spawn_def all_fail_def command_stable_def
proof (intro allI impI)
  fix s
  assume f: "\<forall>t c w. \<exists>rc out err w'. h_spawn h t c w = (Completed rc out err, w') \<and> rc \<noteq> 0"
    and I: "(\<forall>s w l. I s \<longrightarrow> I (s\<lparr>d_world := w, d_log := l\<rparr>)) \<and> (\<forall>s w. I s \<longrightarrow> I (s\<lparr>d_world := w\<rparr>))" "I s"
  obtain rc out err w' where "h_spawn h t c (d_world s) = (Completed rc out err, w')" "rc \<noteq> 0" using f by blast
  with I show "\<exists>x ta. bind_p (\<lambda>s. case h_spawn h t c (d_world s) of
        (oc, w) \<Rightarrow> (Ret oc, s\<lparr>d_world := w, d_log := d_log s @ [Ran c oc]\<rparr>))
      (\<lambda>oc. case oc of
         TimedOut \<Rightarrow> raise_p RuntimeError (''Command timed out: '' @ shlex_join c)
       | ExecFailed m \<Rightarrow>
           (if False then raise_p RuntimeError (''Unable to execute '' @ shlex_join c @ '': '' @ m)
            else return_p \<lparr>cp_rc = 127, cp_out = [], cp_err = m\<rparr>)
       | Completed rc out err \<Rightarrow>
           (if False \<and> rc \<noteq> 0 then
              raise_p RuntimeError (shlex_join c @ '': '' @
                (if py_strip err \<noteq> [] then py_strip err
                 else if py_strip out \<noteq> [] then py_strip out else ''command failed''))
            else return_p \<lparr>cp_rc = rc, cp_out = out, cp_err = err\<rparr>)) s = (Ret x, ta) \<and> cp_rc x \<noteq> 0 \<and> I ta"
    by (simp add: bind_p_def)
qed

lemma all_fail_exists: "all_fail h \<Longrightarrow> command_stable I \<Longrightarrow> yields I (exists_cmd h c) (\<lambda>b. \<not> b)"
  unfolding exists_cmd_def run_cmd_def
  by (rule yields_bind [OF all_fail_run]) (auto intro: yields_return)

lemma all_fail_vm_exists: "all_fail h \<Longrightarrow> command_stable I \<Longrightarrow> yields I (vm_exists m h name) (\<lambda>b. \<not> b)"
  using all_fail_exists [of h I "vm_probe m name"]
  by (auto simp: yields_def vm_exists_def bind_p_def)

lemma all_fail_retries: "all_fail h \<Longrightarrow> command_stable I \<Longrightarrow> yields I (remove_with_retries h n t c l) (\<lambda>xs. xs = [])"
proof -
  assume "all_fail h" "command_stable I"
  then have "yields I (bind_p (run_timeout h False t c) (\<lambda>c. return_p (cp_rc c = 0))) (\<lambda>b. \<not> b)"
    by (intro yields_bind [OF all_fail_run]) (auto intro: yields_return)
  moreover have "yields I (pause h) (\<lambda>_. True)"
    using \<open>command_stable I\<close> by (simp add: yields_def pause_def command_stable_def)
  ultimately show ?thesis unfolding remove_with_retries_def
    by (intro yields_bind [OF yields_retry]) (auto intro: yields_return)
qed

lemma all_fail_label: "yields I p (\<lambda>b. \<not> b) \<Longrightarrow> yields I (label_if p l) (\<lambda>xs. xs = [])"
  unfolding label_if_def by (rule yields_bind [where Q = "\<lambda>b. \<not> b"]) (auto intro: yields_return)

lemma all_fail_remaining:
  "all_fail h \<Longrightarrow> command_stable I \<Longrightarrow> yields I (probe_remaining m h name r) (\<lambda>xs. xs = [])"
  unfolding probe_remaining_def probe_rest_def jail_exists_def interface_exists_def md_exists_def dataset_exists_def
  by (intro yields_append)
    (auto intro!: all_fail_label all_fail_exists all_fail_vm_exists yields_return split: option.splits)

lemma all_fail_dataset: "all_fail h \<Longrightarrow> command_stable I \<Longrightarrow> yields I (destroy_dataset h ds) (\<lambda>xs. xs = [])"
  unfolding destroy_dataset_def dataset_exists_def
  by (rule yields_bind [OF all_fail_exists]) (auto intro: yields_return)

lemma all_fail_vm:
  assumes "all_fail h" "command_stable I" "b \<Longrightarrow> (\<And>w. vm_available m h w)"
  shows "yields I (destroy_vm m h name b) (\<lambda>xs. xs = [])"
proof -
  have req: "yields I (when_p b (require_vm_backend m h)) (\<lambda>_. True)"
    using assms(3) by (cases b) (simp_all add: yields_def require_vm_backend_def)
  have present: "yields I (if b then return_p True else vm_exists m h name) (\<lambda>x. x = b)"
    using all_fail_vm_exists [OF assms(1,2), of m name] by (cases b) (auto intro: yields_return)
  have run: "yields I (then_p (run_timeout h False 20 c) (remove_with_retries h 5 60 c' l)) (\<lambda>xs. xs = [])" for c c' l
    by (rule yields_then [OF all_fail_run [OF assms(1,2)] all_fail_retries [OF assms(1,2)]])
  show ?thesis unfolding destroy_vm_def
    by (rule yields_then [OF req], rule yields_bind [OF present]) (auto intro: run yields_return)
qed

lemma all_fail_remove:
  assumes "all_fail h" "command_stable I"
    and vm: "py_eq_str (pget r ''type'') ''bhyve'' \<Longrightarrow> (\<And>w. vm_available m h w)"
  shows "yields I (remove_resources m h name r) (\<lambda>xs. xs = [])"
proof -
  note retries = all_fail_retries [OF assms(1,2)]
  have jail: "yields I (destroy_jail h name b) (\<lambda>xs. xs = [])" for b
    unfolding destroy_jail_def jail_exists_def
    by (rule yields_bind [where Q = "\<lambda>_. True"])
      (auto intro: yields_return retries yields_weaken [OF all_fail_exists [OF assms(1,2)]])
  have "yields I (destroy_md h v) (\<lambda>xs. xs = [])" "yields I (destroy_epair h v) (\<lambda>xs. xs = [])"
    "yields I (destroy_record_dataset h v) (\<lambda>xs. xs = [])" for v
    unfolding destroy_md_def destroy_epair_def destroy_record_dataset_def
    by (auto intro: retries yields_return all_fail_dataset [OF assms(1,2)] split: option.splits)
  then show ?thesis
    unfolding remove_resources_def
    by (intro yields_append jail all_fail_dataset [OF assms(1,2)] all_fail_vm [OF assms(1,2) vm])
qed

lemma destroy_absent_core:
  assumes "all_fail h" "runtime_name_ok name" "name \<notin> set (d_held s)"
    and "load_registry (d_registry s) name = Inr (Some r)" "force \<or> authorize_record r q = Inr ()"
    and "py_eq_str (pget r ''type'') ''bhyve'' \<Longrightarrow> (\<And>w. vm_available m h w)"
    and "\<And>p b. dir_get (d_leases s) p = Some (LFile b) \<Longrightarrow> utf8_decode b \<noteq> None"
  shows "\<exists>t. destroy m h name q force s = (Ret (PDict [(''name'', PStr name), (''removed'', PList [])]), t)"
proof -
  define I where "I u \<longleftrightarrow> d_leases u = d_leases s" for u :: "'a daemon"
  define s1 where "s1 = s\<lparr>d_held := name # d_held s\<rparr>"
  have st: "command_stable I" by (simp add: command_stable_def I_def)
  have r: "loaded_record (d_registry s1) name = r" using assms(4) by (simp add: loaded_record_def s1_def)
  have "yields I (remove_resources m h name r) (\<lambda>xs. xs = [])" by (rule all_fail_remove [OF assms(1) st assms(6)])
  moreover have "I s1" by (simp add: I_def s1_def)
  ultimately obtain s2 where s2: "remove_resources m h name r s1 = (Ret [], s2)" "I s2"
    unfolding yields_def by blast
  with all_fail_remaining [OF assms(1) st, of m name r] obtain s3 where s3: "probe_remaining m h name r s2 = (Ret [], s3)" "I s3"
    unfolding yields_def by blast
  have "\<exists>x d. pool_release (m_pool m) ip name (d_leases s3) = (Ret x, d)" for ip
  proof (cases "pool_release (m_pool m) ip name (d_leases s3)")
    case (Pair x d)
    have dec: "utf8_decode b \<noteq> None" if "dir_get (d_leases s3) p = Some (LFile b)" for p b
      using assms(7) s3(2) that by (simp add: I_def)
    from Pair show ?thesis
      by (cases x) (auto simp: pool_release_def then_p_def read_lease_def
          split: if_splits option.splits lease_file.splits sum.splits dest!: dec)
  qed
  then have rel: "\<exists>x u. on_leases (pool_release (m_pool m) ip name) s3 = (Ret x, u)" for ip
    by (metis (no_types, lifting) case_prod_conv on_leases_def)
  have run: "\<exists>c u. run_cmd h False cmd v = (Ret c, u)" for cmd and v :: "'a daemon"
  proof -
    have "yields (\<lambda>_. True) (run_cmd h False cmd) (\<lambda>r. cp_rc r \<noteq> 0)"
      unfolding run_cmd_def by (rule all_fail_run [OF assms(1)]) (simp add: command_stable_def)
    then show ?thesis unfolding yields_def by blast
  qed
  have "\<exists>s4. then_p (on_leases (pool_release (m_pool m) ip name)) (then_p (run_cmd h False cmd) (return_p ())) s3 = (Ret (), s4)"
    for ip cmd
  proof -
    obtain x u where x: "on_leases (pool_release (m_pool m) ip name) s3 = (Ret x, u)" using rel by blast
    obtain c v where "run_cmd h False cmd u = (Ret c, v)" using run by blast
    with x show ?thesis by (simp add: then_p_def bind_p_def)
  qed
  then have "\<exists>s4. release_address m h name r s3 = (Ret (), s4)"
    by (simp add: release_address_def split: option.split)
  then obtain s4 where s4: "release_address m h name r s3 = (Ret (), s4)" by blast
  obtain s5 where s5: "delete_record name s4 = (Ret (), s5)"
    by (auto simp: delete_record_def on_registry_def delete_registry_def)
  have "destroy_body m h name q force s1 = (Ret [], s5)"
    using assms(2,4,5) s2 s3 s4 s5
    by (auto simp: destroy_body_def lift_p_def validate_name_def load_record_def Let_def then_p_def bind_p_def s1_def)
  with destroy_free_Ret [OF assms(3)] show ?thesis by (simp add: s1_def)
qed

text \<open>
  C17. Destroying again what is already gone succeeds: when every probe and removal
  command reports that its resource does not exist, an authorised destroy returns, with
  nothing removed, so a record left behind by a crash can always be cleared.
\<close>

theorem destroy_absent_returns:
  assumes "all_fail h" "runtime_name_ok name" "name \<notin> set (d_held s)"
    and "load_registry (d_registry s) name = Inr (Some r)" "force \<or> authorize_record r q = Inr ()"
    and "py_eq_str (pget r ''type'') ''bhyve'' \<Longrightarrow> (\<And>w. vm_available m h w)"
    and "\<And>p b. dir_get (d_leases s) p = Some (LFile b) \<Longrightarrow> utf8_decode b \<noteq> None"
  shows "\<exists>t. destroy m h name q force s = (Ret (PDict [(''name'', PStr name), (''removed'', PList [])]), t)"
  by (rule destroy_absent_core [OF assms])

lemma failing_host_all_fail: "all_fail (failing_host (\<lambda>_. False))"
  by (simp add: all_fail_def failing_host_def)

lemma example_daemon_facts:
  "example_name \<notin> set (d_held example_daemon)"
  "authorize_record example_record (PInt 1001) = Inr ()"
  "vm_available example_manager (failing_host ok) w"
  "dir_get (d_leases example_daemon) p = Some (LFile b) \<Longrightarrow> utf8_decode b \<noteq> None"
  by (auto simp: example_daemon_def authorize_record_def example_record_def pget_def dir_get_def vm_available_def
      failing_host_def example_host_def split: if_splits)

theorem destroy_absent_returns_witness:
  "\<exists>t. destroy example_manager (failing_host (\<lambda>_. False)) example_name (PInt 1001) False example_daemon =
     (Ret (PDict [(''name'', PStr example_name), (''removed'', PList [])]), t)"
  by (rule destroy_absent_returns [OF failing_host_all_fail example_name_ok _ example_loaded])
    (use example_daemon_facts in auto)

text \<open>The instance the next witnesses share.\<close>

lemma example_destroy:
  obtains t where "destroy example_manager (failing_host (\<lambda>_. False)) example_name (PInt 1001) False example_daemon =
     (Ret (PDict [(''name'', PStr example_name), (''removed'', PList [])]), t)"
proof -
  have "\<exists>t. destroy example_manager (failing_host (\<lambda>_. False)) example_name (PInt 1001) False example_daemon =
     (Ret (PDict [(''name'', PStr example_name), (''removed'', PList [])]), t)"
    by (rule destroy_absent_core [OF failing_host_all_fail example_name_ok _ example_loaded])
      (use example_daemon_facts in auto)
  with that show ?thesis by blast
qed

theorem destroy_removes_witness:
  "\<exists>t. load_registry (d_registry t) example_name = Inr None \<and> d_held t = [] \<and>
     destroy example_manager (failing_host (\<lambda>_. False)) example_name (PInt 1001) False example_daemon =
       (Ret (PDict [(''name'', PStr example_name), (''removed'', PList [])]), t)"
proof -
  obtain t where t: "destroy example_manager (failing_host (\<lambda>_. False)) example_name (PInt 1001) False example_daemon =
     (Ret (PDict [(''name'', PStr example_name), (''removed'', PList [])]), t)" by (rule example_destroy)
  from destroy_removes [OF t] t show ?thesis by (auto simp: example_daemon_def)
qed


text \<open>
  C16. A destroy that raises leaves the whole registry as it was, the record of the
  runtime included, so the cleanup can be tried again; leases of other owners stay, and the
  runtime lock is free again.
\<close>

theorem destroy_failure_keeps_record:
  assumes "destroy m h name q force s = (Raise e, t)"
  shows "d_registry t = d_registry s \<and> d_held t = d_held s \<and>
     (\<forall>a v. v \<noteq> name \<and> lease_owner (d_leases s) a = Some v \<longrightarrow> lease_owner (d_leases t) a = Some v)"
  using assms
proof (cases rule: destroy_cases)
  case (Failed e' u)
  have "other_lease {name} a v u = other_lease {name} a v (s\<lparr>d_held := name # d_held s\<rparr>)" for a v
    by (rule keepsD [OF destroy_body_other_lease Failed(1)]) simp
  then have "v \<noteq> name \<Longrightarrow> lease_owner (d_leases s) a = Some v \<Longrightarrow> lease_owner (d_leases u) a = Some v" for a v
    unfolding other_lease_def by simp blast
  with destroy_body_Raise [OF Failed(1)] Failed(3) show ?thesis by simp
qed auto


lemma example_refused:
  "destroy example_manager example_host example_name (PInt 1002) False example_daemon =
     (Raise (Exn PermissionError ''Runtime is owned by another Unix user''), example_daemon)"
proof -
  have "destroy_body example_manager example_host example_name (PInt 1002) False (example_daemon\<lparr>d_held := [example_name]\<rparr>) =
      (Raise (Exn PermissionError ''Runtime is owned by another Unix user''), example_daemon\<lparr>d_held := [example_name]\<rparr>)"
    by (simp add: destroy_body_def lift_p_def validate_name_def load_record_def Let_def then_p_def bind_p_def
        example_name_ok example_loaded authorize_record_def example_record_def pget_def dir_get_def)
  then show ?thesis
    using destroy_free_Raise [of example_name example_daemon] by (simp add: example_daemon_def)
qed

theorem destroy_failure_keeps_record_witness:
  "\<exists>e t. destroy example_manager example_host example_name (PInt 1002) False example_daemon = (Raise e, t) \<and>
     d_registry t = d_registry example_daemon \<and> d_held t = d_held example_daemon"
  using destroy_failure_keeps_record [OF example_refused] example_refused by blast

end
