(* ===== verification/Daemon_Create.thy ===== *)
theory Daemon_Create
  imports Daemon_Destroy
begin

text \<open>
  runtime_daemon.py, \<open>create_jail\<close> and \<open>create_bhyve\<close> with what they call: the owner is
  authenticated first, then a runtime the same process registered earlier is destroyed, the
  network is prepared, an address leased and the record written; every later failure
  destroys the runtime again. Both hold the runtime lock throughout, and \<open>destroy\<close> takes
  the same lock.
\<close>

section \<open>Reconciliation\<close>

definition reconcile_registered ::
    "manager \<Rightarrow> 'w host \<Rightarrow> string \<Rightarrow> runtime_owner \<Rightarrow> ('w daemon, unit) prog" where
  "reconcile_registered m h name o' =
     bind_p (load_record name) (\<lambda>loaded.
       case loaded of
         None \<Rightarrow> return_p ()
       | Some r \<Rightarrow>
           (if \<not> record_owned_by r o' then raise_p RuntimeError (''Runtime already registered: '' @ name)
            else then_p (destroy m h name (PInt (own_uid o')) False)
              (bind_p (load_record name) (\<lambda>again.
                 if again \<noteq> None then
                   raise_p RuntimeError (''Runtime cleanup incomplete before recreate: '' @ name)
                 else return_p ()))))"

definition reconcile_orphaned ::
    "manager \<Rightarrow> 'w host \<Rightarrow> string \<Rightarrow> string \<Rightarrow> ('w daemon, unit) prog" where
  "reconcile_orphaned m h name ds =
     bind_p (load_record name) (\<lambda>loaded.
       if loaded \<noteq> None then return_p ()
       else bind_p (jail_exists h name) (\<lambda>j.
            bind_p (if j then return_p True else dataset_exists h ds) (\<lambda>present.
              if \<not> present then return_p ()
              else then_p (destroy m h name PNone True)
                (bind_p (append_p (label_if (jail_exists h name) (''jail:'' @ name))
                                  (label_if (dataset_exists h ds) (''dataset:'' @ ds))) (\<lambda>remaining.
                   if remaining \<noteq> [] then
                     raise_p RuntimeError (''Unable to reconcile orphaned runtime '' @ name @ '': ''
                                           @ join_with '', '' remaining)
                   else return_p ())))))"

section \<open>Jails\<close>

definition jail_start_command :: "string \<Rightarrow> string \<Rightarrow> string \<Rightarrow> string list" where
  "jail_start_command name jail_root epair_guest =
     [''jail'', ''-c'', ''name='' @ name, ''path='' @ jail_root, ''host.hostname='' @ name, ''persist'',
      ''exec.clean'', ''mount.devfs'', ''vnet'', ''vnet.interface='' @ epair_guest]"

definition jail_setup_script :: "manager \<Rightarrow> string \<Rightarrow> string \<Rightarrow> string" where
  "jail_setup_script m epair_guest address =
     (let i = shlex_quote (c_jail_interface_name (m_config m))
      in ''ifconfig '' @ shlex_quote epair_guest @ '' name '' @ i @ '' && '' @
         ''ifconfig '' @ i @ '' inet '' @ shlex_quote address @ ''/'' @ nat_str (m_prefix_len m) @ '' up && '' @
         ''ifconfig lo0 inet 127.0.0.1/8 up && '' @
         shlex_quote (c_jail_sshd_service (m_config m)) @ '' sshd onestart'')"

definition initial_jail_record ::
    "manager \<Rightarrow> string \<Rightarrow> runtime_owner \<Rightarrow> string \<Rightarrow> string \<Rightarrow> string \<Rightarrow> record_doc" where
  "initial_jail_record m name o' address ds jail_root =
     [(''schema'', PStr ''softcloud.runtime/v1''), (''name'', PStr name), (''type'', PStr ''jail'')]
     @ registry_fields o' @
     [(''guest_ip'', PStr address), (''dataset'', PStr ds), (''jail_root'', PStr jail_root),
      (''bridge'', PStr (c_bridge_name (m_config m))), (''epair_host'', PNone), (''epair_guest'', PNone),
      (''jail_created'', PBool False), (''dataset_created'', PBool False)]"

text \<open>The \<open>try\<close> block: from the clone of the template to the second write of the record.\<close>

definition start_jail ::
    "manager \<Rightarrow> 'w host \<Rightarrow> string \<Rightarrow> string \<Rightarrow> string \<Rightarrow> record_doc \<Rightarrow> string \<Rightarrow> ('w daemon, pyval) prog" where
  "start_jail m h name address jail_root record1 epair_host =
     (let b = c_bridge_name (m_config m)
      in if \<not> ends_with ''a'' epair_host then
           raise_p RuntimeError (''Unexpected epair interface name: '' @ epair_host)
         else
           let epair_guest = butlast epair_host @ ''b'';
               record2 = dir_put ''epair_guest'' (PStr epair_guest)
                           (dir_put ''epair_host'' (PStr epair_host) record1)
           in then_p (run_ok h [''ifconfig'', b, ''addm'', epair_host])
             (then_p (run_ok h [''ifconfig'', b, ''private'', epair_host])
             (then_p (run_ok h [''ifconfig'', epair_host, ''up''])
             (then_p (run_ok h (jail_start_command name jail_root epair_guest))
             (let record3 = dir_put ''jail_created'' (PBool True) record2
              in then_p (run_ok h [''jexec'', name, ''sh'', ''-c'', jail_setup_script m epair_guest address])
                (then_p (write_record h record3)
                  (return_p (PDict
                     [(''name'', PStr name), (''type'', PStr ''jail''), (''guest_ip'', PStr address),
                      (''network_cidr'', PStr (c_network_cidr (m_config m))), (''bridge'', PStr b),
                      (''interface'', PStr (c_jail_interface_name (m_config m)))]))))))))"

definition build_jail ::
    "manager \<Rightarrow> 'w host \<Rightarrow> string \<Rightarrow> string \<Rightarrow> string \<Rightarrow> string \<Rightarrow> string \<Rightarrow> record_doc \<Rightarrow> ('w daemon, pyval) prog" where
  "build_jail m h name public_key address ds jail_root record0 =
     then_p (run_ok h [''zfs'', ''clone'', ''-o'', ''mountpoint='' @ jail_root,
                       c_jail_template_snapshot (m_config m), ds])
       (let record1 = dir_put ''dataset_created'' (PBool True) record0
        in then_p (install_jail_authorized_key m h jail_root public_key)
          (bind_p (run_cmd h True [''ifconfig'', ''epair'', ''create'']) (\<lambda>r.
             case rev (split_lines (py_strip (cp_out r))) of
               [] \<Rightarrow> raise_p IndexError ''list index out of range''
             | line # _ \<Rightarrow> start_jail m h name address jail_root record1 (py_strip line))))"

text \<open>\<open>except Exception: self.destroy(name, force=True); raise\<close>\<close>

definition or_destroy :: "manager \<Rightarrow> 'w host \<Rightarrow> string \<Rightarrow> ('w daemon, 'a) prog \<Rightarrow> ('w daemon, 'a) prog" where
  "or_destroy m h name body = catch_p body (\<lambda>e. then_p (destroy m h name PNone True) (throw_p e))"

definition create_jail_body ::
    "manager \<Rightarrow> 'w host \<Rightarrow> string \<Rightarrow> pyval \<Rightarrow> peer_credentials \<Rightarrow> pyval \<Rightarrow> ('w daemon, pyval) prog" where
  "create_jail_body m h name owner_pid peer ssh_public_key =
     bind_p (lift_p (validate_name (PStr name))) (\<lambda>_.
     bind_p (lift_p (validate_ssh_public_key ssh_public_key)) (\<lambda>public_key.
     bind_p (gets_p d_world) (\<lambda>w.
     bind_p (lift_p (owner_from_peer h w peer owner_pid)) (\<lambda>o'.
     then_p (reconcile_registered m h name o')
     (let ds = jail_dataset m name
      in then_p (reconcile_orphaned m h name ds)
      (then_p (ensure_bridge m h)
      (bind_p (gets_p (\<lambda>s. h_resolve h (c_jail_mount_root (m_config m) @ ''/'' @ name) (d_world s))) (\<lambda>jail_root.
       bind_p (allocate_address m h name) (\<lambda>address.
       then_p (run_cmd h False [''arp'', ''-d'', address])
       (let record0 = initial_jail_record m name o' address ds jail_root
        in then_p (write_record h record0)
          (or_destroy m h name (build_jail m h name public_key address ds jail_root record0))))))))))))"

definition create_jail ::
    "manager \<Rightarrow> 'w host \<Rightarrow> string \<Rightarrow> pyval \<Rightarrow> peer_credentials \<Rightarrow> pyval \<Rightarrow> ('w daemon, pyval) prog" where
  "create_jail m h name owner_pid peer ssh_public_key =
     with_runtime_lock name (create_jail_body m h name owner_pid peer ssh_public_key)"

section \<open>bhyve guests\<close>

text \<open>\<open>re.search(r"(?:^|/dev/)?(md\d+)$", output)\<close>: the unit is the suffix of that form.\<close>

fun md_suffix :: "string \<Rightarrow> string option" where
  "md_suffix [] = None"
| "md_suffix (c # s) = (if md_unit_ok (c # s) then Some (c # s) else md_suffix s)"

definition create_memdisk ::
    "manager \<Rightarrow> 'w host \<Rightarrow> string \<Rightarrow> string \<Rightarrow> string \<Rightarrow> ('w daemon, string) prog" where
  "create_memdisk m h name snapshot0 image0 =
     (let c = m_config m;
          snapshot = (if snapshot0 \<noteq> [] then snapshot0 else c_vm_zvol_snapshot c);
          image = (if image0 \<noteq> [] then image0 else c_vm_image c)
      in bind_p (run_cmd h True [''mdconfig'', ''-a'', ''-t'', c_vm_memdisk_type c, ''-s'', c_vm_disk_size c]) (\<lambda>r.
         case md_suffix (py_strip (cp_out r)) of
           None \<Rightarrow> raise_p RuntimeError (''Unexpected mdconfig output: '' @ py_strip (cp_out r))
         | Some md_unit \<Rightarrow>
             bind_p (snapshot_exists h snapshot) (\<lambda>snap.
               then_p
                 (if snap then
                    (let tmp_src = c_vm_zvol_parent c @ ''/'' @ name @ ''-src''
                     in bind_p (dataset_exists h tmp_src) (\<lambda>stale.
                        then_p (when_p stale
                          (then_p (run_cmd h False [''zfs'', ''destroy'', ''-r'', ''-f'', tmp_src]) (return_p ())))
                        (then_p (run_ok h [''zfs'', ''clone'', snapshot, tmp_src])
                          (finally_p
                            (run_ok h [''dd'', ''if=/dev/zvol/'' @ tmp_src, ''of=/dev/'' @ md_unit, ''bs=1M'', ''status=none''])
                            (then_p (run_cmd h False [''zfs'', ''destroy'', ''-r'', ''-f'', tmp_src]) (return_p ()))))))
                  else bind_p (gets_p (\<lambda>s. h_is_file h image (d_world s))) (\<lambda>is_file.
                    when_p is_file
                      (run_ok h [''dd'', ''if='' @ image, ''of=/dev/'' @ md_unit, ''bs=1M'', ''status=none''])))
                 (return_p md_unit))))"

definition configure_vm_memdisk :: "manager \<Rightarrow> 'w host \<Rightarrow> string \<Rightarrow> string \<Rightarrow> ('w daemon, unit) prog" where
  "configure_vm_memdisk m h name md_unit =
     (let vm = c_vm_command (m_config m)
      in then_p (run_cmd h False [vm, ''set'', name, ''disk0_name=/dev/'' @ md_unit])
         (then_p (run_cmd h False [vm, ''set'', name, ''disk0_dev=custom'']) (return_p ())))"

definition initial_bhyve_record ::
    "manager \<Rightarrow> string \<Rightarrow> string \<Rightarrow> guest_profile \<Rightarrow> runtime_owner \<Rightarrow> string \<Rightarrow> record_doc" where
  "initial_bhyve_record m name profile gp o' address =
     [(''schema'', PStr ''softcloud.runtime/v1''), (''name'', PStr name), (''type'', PStr ''bhyve''),
      (''profile'', PStr profile), (''guest_os'', PStr (gp_guest_os gp))]
     @ registry_fields o' @
     [(''guest_ip'', PStr address), (''bridge'', PStr (c_bridge_name (m_config m))),
      (''disk_backend'', PStr (c_vm_disk_backend (m_config m))), (''md_unit'', PNone), (''dataset'', PNone),
      (''vm_created'', PBool False)]"

definition vm_create_command :: "manager \<Rightarrow> string \<Rightarrow> string list \<Rightarrow> string \<Rightarrow> string \<Rightarrow> string \<Rightarrow> string list" where
  "vm_create_command m template image_args key_path netconfig name =
     [c_vm_command (m_config m), ''create'', ''-t'', template] @ image_args @
     [''-C'', ''-k'', key_path, ''-n'', netconfig, name]"

text \<open>The three disk backends; the result is the record with what the backend added.\<close>

definition create_guest_disk ::
    "manager \<Rightarrow> 'w host \<Rightarrow> string \<Rightarrow> guest_profile \<Rightarrow> string \<Rightarrow> string \<Rightarrow> record_doc \<Rightarrow> ('w daemon, record_doc) prog" where
  "create_guest_disk m h name gp key_path netconfig record0 =
     (let c = m_config m; backend = c_vm_disk_backend c
      in bind_p (if backend = ''zvol-clone'' then snapshot_exists h (gp_zvol_snapshot gp) else return_p False) (\<lambda>clone.
         if clone then
           (let vm_dataset = c_vm_dataset_parent c @ ''/'' @ name
            in then_p (run_ok h (vm_create_command m (gp_template gp) [] key_path netconfig name))
               (bind_p (dataset_exists h (vm_dataset @ ''/disk0'')) (\<lambda>stale.
                  then_p (when_p stale (run_ok h [''zfs'', ''destroy'', ''-f'', vm_dataset @ ''/disk0'']))
                  (then_p (run_ok h [''zfs'', ''clone'', gp_zvol_snapshot gp, vm_dataset @ ''/disk0''])
                    (return_p (dir_put ''dataset'' (PStr vm_dataset) record0))))))
         else if backend = ''memdisk'' then
           bind_p (create_memdisk m h name (gp_zvol_snapshot gp) (gp_image gp)) (\<lambda>md_unit.
             then_p (run_ok h (vm_create_command m (gp_memdisk_template gp) [] key_path netconfig name))
               (then_p (configure_vm_memdisk m h name md_unit)
                 (return_p (dir_put ''md_unit'' (PStr md_unit) record0))))
         else
           then_p (run_ok h (vm_create_command m (gp_template gp) [''-i'', gp_image gp] key_path netconfig name))
             (return_p record0)))"

definition build_bhyve ::
    "manager \<Rightarrow> 'w host \<Rightarrow> string \<Rightarrow> string \<Rightarrow> guest_profile \<Rightarrow> string \<Rightarrow> string \<Rightarrow> record_doc \<Rightarrow> ('w daemon, pyval) prog" where
  "build_bhyve m h name profile gp address key_path record0 =
     (let netconfig = join_with '';''
            [''interface='' @ gp_interface gp, ''ip='' @ address @ ''/'' @ nat_str (m_prefix_len m), ''hostname='' @ name]
      in bind_p (create_guest_disk m h name gp key_path netconfig record0) (\<lambda>record1.
         then_p (write_record h (dir_put ''vm_created'' (PBool True) record1))
         (then_p (run_ok h [c_vm_command (m_config m), ''start'', name])
           (return_p (PDict
              [(''name'', PStr name), (''type'', PStr ''bhyve''), (''profile'', PStr profile),
               (''guest_os'', PStr (gp_guest_os gp)), (''guest_ip'', PStr address),
               (''network_cidr'', PStr (c_network_cidr (m_config m))),
               (''bridge'', PStr (c_bridge_name (m_config m))), (''interface'', PStr (gp_interface gp))])))))"

definition lookup_profile :: "pyval \<Rightarrow> exn + string \<times> guest_profile" where
  "lookup_profile v =
     (let listing = ''Supported profiles: ['' @ join_with '', '' (map py_repr (sort (map fst bhyve_profiles))) @ '']''
      in case v of
           PStr p \<Rightarrow>
             (case map_of bhyve_profiles p of
                Some gp \<Rightarrow> Inr (p, gp)
              | None \<Rightarrow> Inl (Exn ValueError (''Unknown bhyve guest profile: '' @ py_repr p @ ''. '' @ listing)))
         | _ \<Rightarrow> Inl (Exn ValueError (''Unknown bhyve guest profile. '' @ listing)))"

text \<open>
  The key is written inside the \<open>try\<close>, and unlinked in the \<open>finally\<close> where it was
  written: a write that fails has removed its own file.
\<close>

definition with_key_file ::
    "manager \<Rightarrow> 'w host \<Rightarrow> string \<Rightarrow> string \<Rightarrow> (string \<Rightarrow> ('w daemon, 'a) prog) \<Rightarrow> ('w daemon, 'a) prog" where
  "with_key_file m h name public_key body =
     bind_p (catch_p (bind_p (write_runtime_public_key h name public_key) (\<lambda>tmp. return_p (Inr tmp)))
               (\<lambda>e. return_p (Inl e))) (\<lambda>key.
       case key of
         Inl e \<Rightarrow> or_destroy m h name (throw_p e)
       | Inr tmp \<Rightarrow>
           finally_p (or_destroy m h name (body (c_registry_dir (m_config m) @ ''/'' @ tmp)))
             (on_registry (modify_p (dir_del tmp))))"

definition create_bhyve_body ::
    "manager \<Rightarrow> 'w host \<Rightarrow> string \<Rightarrow> pyval \<Rightarrow> peer_credentials \<Rightarrow> pyval \<Rightarrow> pyval \<Rightarrow> ('w daemon, pyval) prog" where
  "create_bhyve_body m h name owner_pid peer ssh_public_key profile_arg =
     bind_p (lift_p (validate_name (PStr name))) (\<lambda>_.
     bind_p (lift_p (validate_ssh_public_key ssh_public_key)) (\<lambda>public_key.
     bind_p (lift_p (lookup_profile profile_arg)) (\<lambda>(profile, gp).
     bind_p (gets_p d_world) (\<lambda>w.
     bind_p (lift_p (owner_from_peer h w peer owner_pid)) (\<lambda>o'.
     then_p (require_vm_backend m h)
     (then_p (reconcile_registered m h name o')
     (then_p (ensure_bridge m h)
     (then_p (ensure_vm_switch m h)
     (bind_p (exists_cmd h (vm_probe m name)) (\<lambda>present.
        if present then raise_p RuntimeError (''Refusing to replace existing vm-bhyve guest: '' @ name)
        else
          bind_p (allocate_address m h name) (\<lambda>address.
          then_p (run_cmd h False [''arp'', ''-d'', address])
          (let record0 = initial_bhyve_record m name profile gp o' address
           in then_p (write_record h record0)
             (with_key_file m h name public_key
               (\<lambda>key_path. build_bhyve m h name profile gp address key_path record0))))))))))))))"

definition create_bhyve ::
    "manager \<Rightarrow> 'w host \<Rightarrow> string \<Rightarrow> pyval \<Rightarrow> peer_credentials \<Rightarrow> pyval \<Rightarrow> pyval \<Rightarrow> ('w daemon, pyval) prog" where
  "create_bhyve m h name owner_pid peer ssh_public_key profile =
     with_runtime_lock name (create_bhyve_body m h name owner_pid peer ssh_public_key profile)"

section \<open>Frames\<close>

text \<open>Parts of the state that only registry and lease operations reach.\<close>

definition store_part :: "('w daemon \<Rightarrow> 'v) \<Rightarrow> bool" where
  "store_part f \<longleftrightarrow>
     (\<forall>s w l. f (s\<lparr>d_world := w, d_log := l\<rparr>) = f s) \<and> (\<forall>s l. f (s\<lparr>d_held := l\<rparr>) = f s) \<and>
     (\<forall>s b. f (s\<lparr>d_bridge := b\<rparr>) = f s) \<and> (\<forall>s b. f (s\<lparr>d_switch := b\<rparr>) = f s)"

lemma store_part_intros [intro]:
  "store_part (\<lambda>s. g (d_registry s))" "store_part (\<lambda>s. k (d_leases s))" "store_part (other_lease ns a v)"
  by (simp_all add: store_part_def other_lease_def)

lemma store_part_daemon: "store_part f \<Longrightarrow> daemon_part f" and store_part_lock: "store_part f \<Longrightarrow> lock_part f"
  by (simp_all add: store_part_def daemon_part_def lock_part_def)

text \<open>The same, for a part that may depend on the held locks.\<close>

definition net_part :: "('w daemon \<Rightarrow> 'v) \<Rightarrow> bool" where
  "net_part f \<longleftrightarrow>
     (\<forall>s w l. f (s\<lparr>d_world := w, d_log := l\<rparr>) = f s) \<and>
     (\<forall>s b. f (s\<lparr>d_bridge := b\<rparr>) = f s) \<and> (\<forall>s b. f (s\<lparr>d_switch := b\<rparr>) = f s)"

lemma net_part_daemon: "net_part f \<Longrightarrow> daemon_part f" and store_part_net: "store_part f \<Longrightarrow> net_part f"
  by (simp_all add: net_part_def store_part_def daemon_part_def)

lemma keeps_install_key [keeps_intros]: "daemon_part f \<Longrightarrow> keeps f (install_jail_authorized_key m h root key)"
  unfolding install_jail_authorized_key_def Let_def by (intro keeps_intros)

lemma keeps_ensure_bridge [keeps_intros]: "net_part f \<Longrightarrow> keeps f (ensure_bridge m h)"
  unfolding ensure_bridge_def Let_def
  by (intro keeps_intros net_part_daemon) (simp_all add: net_part_def)

lemma keeps_ensure_vm_switch [keeps_intros]: "net_part f \<Longrightarrow> keeps f (ensure_vm_switch m h)"
  unfolding ensure_vm_switch_def Let_def
  by (intro keeps_intros net_part_daemon) (simp_all add: net_part_def)

lemma scan_pool_lease:
  "scan_pool cf xf w vs d = (r, d') \<Longrightarrow> py_strip (w @ [CHR 0x0A]) = w \<Longrightarrow> v \<notin> {w, []} \<Longrightarrow>
     lease_owner d' a = Some v \<longleftrightarrow> lease_owner d a = Some v"
proof (induction vs)
  case (Cons u us)
  show ?case
  proof (cases "dir_get d (lease_path u) \<noteq> None \<or> cf (lease_path u)")
    case True
    with Cons show ?thesis by (auto simp: Let_def split: if_splits)
  next
    case False
    define k where "k = u mod 4294967296"
    have k: "lease_path u = lease_path k" "k < 4294967296" by (simp_all add: k_def lease_path_mod)
    obtain b where b: "d' = dir_put (lease_path k) (LFile b) d" "map_option py_strip (utf8_decode b) \<in> {Some w, Some []}"
      using Cons.prems(1,2) False k(1) by (auto simp: Let_def py_strip_def split: if_splits)
    have "lease_owner d k = None" using False k by (simp add: lease_owner_def)
    moreover have "lease_owner d' a = (if a = k then map_option py_strip (utf8_decode b) else lease_owner d a)"
    proof (cases "a < 4294967296")
      case True
      with b(1) k(2) show ?thesis by (simp add: lease_owner_put)
    next
      case False
      with k(2) show ?thesis by (auto simp: lease_owner_def)
    qed
    ultimately show ?thesis using b(2) Cons.prems(3) by auto
  qed
qed simp

lemma pool_allocate_other_lease:
  assumes "py_strip (w @ [CHR 0x0A]) = w" "v \<notin> {w, []}"
  shows "lease_owner (snd (pool_allocate p cf xf w d)) a = Some v \<longleftrightarrow> lease_owner d a = Some v"
  unfolding pool_allocate_def
  using scan_pool_lease [OF prod.collapse [symmetric] assms, of cf xf "pool_values p" d a] by (cases "w = []") simp_all

lemma runtime_name_clean: "runtime_name_ok n \<Longrightarrow> clean_owner n"
  by (intro clean_ownerI runtime_name_nonempty runtime_name_no_space)

lemma keeps_allocate_lease:
  assumes "runtime_name_ok name"
  shows "keeps (other_lease {name, []} a v) (allocate_address m h name)"
proof -
  have clean: "py_strip (name @ [CHR 0x0A]) = name" using runtime_name_clean [OF assms] by (simp add: clean_owner_def)
  have alloc: "keeps (other_lease {name, []} a v) (on_leases (pool_allocate p cf xf name))" for p cf xf
    unfolding other_lease_def
    by (rule keeps_on_leases [where g = "\<lambda>d. v \<notin> {name, []} \<and> lease_owner d a = Some v"])
      (use pool_allocate_other_lease [OF clean] in blast)
  have rel: "keeps (other_lease {name, []} a v) (on_leases (pool_release p ip name))" for p ip
    unfolding other_lease_def
    by (rule keeps_on_leases [where g = "\<lambda>d. v \<notin> {name, []} \<and> lease_owner d a = Some v"])
      (use pool_release_other_owner in blast)
  show ?thesis unfolding allocate_address_def by (intro keeps_intros alloc rel)
qed

lemma keeps_allocate_registry [keeps_intros]: "keeps (\<lambda>s. g (d_registry s)) (allocate_address m h name)"
  unfolding allocate_address_def by (intro keeps_intros keeps_on_leases_other) simp_all

text \<open>A registry file that creating or destroying \<open>name\<close> does not write: not its record, not a temporary.\<close>

definition foreign_file :: "string \<Rightarrow> string \<Rightarrow> bool" where
  "foreign_file name p \<longleftrightarrow> p \<noteq> registry_path name \<and> \<not> starts_with ''.'' p"

lemma keeps_write_record:
  assumes "pget r ''name'' = PStr name" "foreign_file name p"
  shows "keeps (\<lambda>s. dir_get (d_registry s) p) (write_record h r)"
proof -
  have p: "p \<noteq> ''.'' @ x" "p \<noteq> registry_path name" for x
    using assms(2) by (auto simp: foreign_file_def starts_with_def)
  have "dir_get (snd (write_registry cf xf (''.'' @ name @ rest) name r d)) p = dir_get d p" for cf xf rest d
    using write_registry_other [OF prod.collapse [symmetric] p(2) p(1)] by blast
  then have "keeps (\<lambda>s. dir_get (d_registry s) p) (on_registry (write_registry cf xf (''.'' @ name @ rest) name r))" for cf xf rest
    by (intro keeps_on_registry [where g = "\<lambda>d. dir_get d p"])
  then show ?thesis
    unfolding write_record_def assms(1) validate_name_def lift_p_def Let_def append_assoc [symmetric]
    by (auto intro!: keeps_intros simp: bind_p_def keeps_def)
qed

lemma keeps_write_record_lease [keeps_intros]: "keeps (other_lease ns a v) (write_record h r)"
  unfolding write_record_def Let_def
  by (intro keeps_intros keeps_on_registry_other) (simp add: other_lease_def)

lemma destroy_held: "name \<in> set (d_held s) \<Longrightarrow> destroy m h name q force s = (Stuck, s)"
  by (simp add: destroy_def with_lock_held)

section \<open>Inside a create, the lock is taken\<close>

lemma reconcile_registered_held:
  assumes "name \<in> set (d_held s)" "reconcile_registered m h name o' s = (r, t)"
  shows "t = s" and "r = Ret () \<longleftrightarrow> load_registry (d_registry s) name = Inr None"
    and "r = Stuck \<longleftrightarrow> (\<exists>d. load_registry (d_registry s) name = Inr (Some d) \<and> record_owned_by d o')"
  using assms
  by (auto simp: reconcile_registered_def load_record_def lift_p_def then_p_def bind_p_def destroy_held
      split: sum.splits option.splits if_splits)

text \<open>A frame for any program of the create operations, from the frames of its pieces.\<close>

lemma keeps_destroy_store:
  assumes "store_part f" "\<And>r. keeps f (release_address m h name r)" "keeps f (delete_record name)"
  shows "keeps f (destroy m h name q force)"
  unfolding destroy_def
  by (intro keeps_with_lock keeps_bind keeps_destroy_body store_part_daemon store_part_lock assms) simp

lemma keeps_create_jail_body:
  assumes part: "net_part f"
    and d: "\<And>q force. keeps f (destroy m h name q force)" and alloc: "keeps f (allocate_address m h name)"
    and wr: "\<And>r. pget r ''name'' = PStr name \<Longrightarrow> keeps f (write_record h r)"
  shows "keeps f (create_jail_body m h name pid peer key)"
proof -
  have name0: "pget (initial_jail_record m name o' ad ds root) ''name'' = PStr name" for o' ad ds root
    by (simp add: initial_jail_record_def pget_def dir_get_def)
  have put: "pget (dir_put k v r) ''name'' = PStr name" if "k \<noteq> ''name''" "pget r ''name'' = PStr name" for k v r
    using that by (simp add: pget_def dir_simps)
  have build: "keeps f (build_jail m h name k ad ds root (initial_jail_record m name o' ad ds root))" for k ad ds root o'
    unfolding build_jail_def start_jail_def Let_def
    by (intro keeps_intros wr put name0 net_part_daemon part) simp_all
  show ?thesis
    unfolding create_jail_body_def reconcile_registered_def reconcile_orphaned_def or_destroy_def Let_def
    by (intro keeps_intros d build wr name0 alloc net_part_daemon part)
qed

lemma write_key_tmp: "write_runtime_public_key h name k s = (Ret tmp, t) \<Longrightarrow> starts_with ''.'' tmp"
  by (auto simp: write_runtime_public_key_def on_registry_def Let_def starts_with_def bind_p_def then_p_def
      split: if_splits prod.splits res.splits)

lemma keeps_write_key:
  assumes "\<not> starts_with ''.'' p"
  shows "keeps (\<lambda>s. dir_get (d_registry s) p) (write_runtime_public_key h name k)"
proof -
  have "p \<noteq> CHR ''.'' # x" for x using assms by (auto simp: starts_with_def)
  then show ?thesis
    unfolding write_runtime_public_key_def Let_def
    by (intro keeps_intros keeps_on_registry [where g = "\<lambda>d. dir_get d p"])
      (auto simp: dir_simps then_p_def)
qed

lemma guest_disk_name:
  "create_guest_disk m h name gp kp net r0 s = (Ret r1, t) \<Longrightarrow> pget r1 ''name'' = pget r0 ''name''"
  by (auto simp: create_guest_disk_def Let_def bind_p_Ret_iff then_p_Ret_iff pget_def dir_simps split: if_splits)

lemma keeps_create_guest_disk:
  assumes "daemon_part f"
  shows "keeps f (create_guest_disk m h name gp kp net r0)"
  unfolding create_guest_disk_def create_memdisk_def configure_vm_memdisk_def Let_def
  by (intro keeps_intros assms)

lemma keeps_create_bhyve_body:
  assumes part: "net_part f"
    and d: "\<And>q force. keeps f (destroy m h name q force)" and alloc: "keeps f (allocate_address m h name)"
    and wr: "\<And>r. pget r ''name'' = PStr name \<Longrightarrow> keeps f (write_record h r)"
    and key: "\<And>k. keeps f (write_runtime_public_key h name k)"
    and del: "\<And>tmp. starts_with ''.'' tmp \<Longrightarrow> keeps f (on_registry (modify_p (dir_del tmp)))"
  shows "keeps f (create_bhyve_body m h name pid peer pk profile)"
proof -
  have name0: "pget (initial_bhyve_record m name p gp o' ad) ''name'' = PStr name" for p gp o' ad
    by (simp add: initial_bhyve_record_def pget_def dir_get_def)
  have vm_created: "pget (dir_put ''vm_created'' (PBool True) r) ''name'' = pget r ''name''" for r
    by (simp add: pget_def dir_simps)
  have build: "keeps f (build_bhyve m h name p gp ad kp r)" if "pget r ''name'' = PStr name" for p gp ad kp r
    unfolding build_bhyve_def Let_def
    by (rule keeps_bind_post, rule keeps_create_guest_disk [OF net_part_daemon [OF part]])
      (intro keeps_intros net_part_daemon part wr, simp add: vm_created guest_disk_name that)
  have with_key: "keeps f (with_key_file m h name pk' (\<lambda>kp. build_bhyve m h name p gp ad kp (initial_bhyve_record m name p gp o' ad)))"
    for pk' p gp ad o'
    unfolding with_key_file_def
  proof (rule keeps_bind_post)
    show "keeps f (catch_p (bind_p (write_runtime_public_key h name pk') (\<lambda>tmp. return_p (Inr tmp))) (\<lambda>e. return_p (Inl e)))"
      by (intro keeps_intros key)
    fix s x t
    assume x: "catch_p (bind_p (write_runtime_public_key h name pk') (\<lambda>tmp. return_p (Inr tmp)))
      (\<lambda>e. return_p (Inl e)) s = (Ret x, t)"
    show "keeps f (case x of Inl e \<Rightarrow> or_destroy m h name (throw_p e)
       | Inr tmp \<Rightarrow> finally_p (or_destroy m h name
            (build_bhyve m h name p gp ad (c_registry_dir (m_config m) @ ''/'' @ tmp) (initial_bhyve_record m name p gp o' ad)))
          (on_registry (modify_p (dir_del tmp))))"
    proof (cases x)
      case (Inl e)
      then show ?thesis unfolding or_destroy_def by (auto intro!: keeps_intros d)
    next
      case (Inr tmp)
      with x have "starts_with ''.'' tmp"
        by (auto simp: catch_p_Ret_iff bind_p_Ret_iff intro: write_key_tmp)
      with Inr show ?thesis unfolding or_destroy_def
        by (auto intro!: keeps_intros d build name0 del)
    qed
  qed
  show ?thesis
    unfolding create_bhyve_body_def reconcile_registered_def Let_def
    by (intro keeps_intros d with_key wr name0 alloc net_part_daemon part)
qed

section \<open>The frames of the two operations\<close>

lemma destroy_keeps_held: "keeps d_held (destroy m h name q force)"
proof (rule keepsI)
  fix s
  obtain r t where d: "destroy m h name q force s = (r, t)" by (cases "destroy m h name q force s")
  then have "d_held t = d_held s" by (cases rule: destroy_cases) auto
  with d show "d_held (snd (destroy m h name q force s)) = d_held s" by simp
qed

lemma net_part_held: "net_part d_held"
  by (simp add: net_part_def)

lemma keeps_held_stores [keeps_intros]: "keeps d_held (on_registry x)" "keeps d_held (on_leases y)"
  by (rule keeps_on_registry_other keeps_on_leases_other; simp)+

lemma create_bodies_keep_held:
  "keeps d_held (create_jail_body m h name pid peer key)"
  "keeps d_held (create_bhyve_body m h name pid peer key profile)"
proof -
  have alloc: "keeps d_held (allocate_address m h name)"
    unfolding allocate_address_def by (intro keeps_intros)
  have wr: "keeps d_held (write_record h r)" for r
    unfolding write_record_def Let_def by (intro keeps_intros)
  have key: "keeps d_held (write_runtime_public_key h name k)" for k
    unfolding write_runtime_public_key_def Let_def by (intro keeps_intros)
  show "keeps d_held (create_jail_body m h name pid peer key)"
    by (rule keeps_create_jail_body [OF net_part_held destroy_keeps_held alloc wr])
  show "keeps d_held (create_bhyve_body m h name pid peer key profile)"
    by (rule keeps_create_bhyve_body [OF net_part_held destroy_keeps_held alloc wr key]) (rule keeps_held_stores)
qed

lemma keeps_lease_registry: "keeps (other_lease ns a v) (on_registry x)"
  by (rule keeps_on_registry_other) (simp add: other_lease_def)

lemma destroy_frames:
  "foreign_file name p \<Longrightarrow> keeps (\<lambda>s. dir_get (d_registry s) p) (destroy m h name q force)"
  "name \<in> ns \<Longrightarrow> keeps (other_lease ns a v) (destroy m h name q force)"
  by (intro keeps_destroy_store store_part_intros keeps_release_address keeps_delete_record daemon_part_more;
      simp add: foreign_file_def)
    (intro keeps_destroy_store store_part_intros keeps_release_address_lease keeps_delete_record_other;
      simp add: other_lease_def)

lemma create_frames:
  assumes "foreign_file name p"
  shows "keeps (\<lambda>s. dir_get (d_registry s) p) (create_jail m h name pid peer key)"
    and "keeps (\<lambda>s. dir_get (d_registry s) p) (create_bhyve m h name pid peer key profile)"
proof -
  have part: "net_part (\<lambda>s. dir_get (d_registry s) p)" "lock_part (\<lambda>s. dir_get (d_registry s) p)"
    by (simp_all add: net_part_def lock_part_def)
  have dot: "\<not> starts_with ''.'' p" using assms by (simp add: foreign_file_def)
  note pieces = destroy_frames(1) [OF assms] keeps_allocate_registry [where g = "\<lambda>d. dir_get d p"]
    keeps_write_record [OF _ assms]
  show "keeps (\<lambda>s. dir_get (d_registry s) p) (create_jail m h name pid peer key)"
    unfolding create_jail_def by (intro keeps_with_lock part keeps_create_jail_body pieces)
  have del: "keeps (\<lambda>s. dir_get (d_registry s) p) (on_registry (modify_p (dir_del tmp)))" if "starts_with ''.'' tmp" for tmp
    by (rule keeps_on_registry [where g = "\<lambda>d. dir_get d p"]) (use that dot in \<open>auto simp: dir_simps\<close>)
  show "keeps (\<lambda>s. dir_get (d_registry s) p) (create_bhyve m h name pid peer key profile)"
    unfolding create_bhyve_def by (intro keeps_with_lock part keeps_create_bhyve_body pieces keeps_write_key dot del)
qed

lemma create_lease_frames:
  assumes "runtime_name_ok name"
  shows "keeps (other_lease {name, []} a v) (create_jail m h name pid peer key)"
    and "keeps (other_lease {name, []} a v) (create_bhyve m h name pid peer key profile)"
proof -
  have part: "net_part (other_lease {name, []} a v)" "lock_part (other_lease {name, []} a v)"
    by (simp_all add: net_part_def lock_part_def other_lease_def)
  have key: "keeps (other_lease {name, []} a v) (write_runtime_public_key h name k)" for h and k
    unfolding write_runtime_public_key_def Let_def by (intro keeps_intros keeps_lease_registry)
  note pieces = destroy_frames(2) [of name "{name, []}"] keeps_allocate_lease [OF assms] keeps_write_record_lease
  show "keeps (other_lease {name, []} a v) (create_jail m h name pid peer key)"
    unfolding create_jail_def by (intro keeps_with_lock part keeps_create_jail_body pieces) simp
  show "keeps (other_lease {name, []} a v) (create_bhyve m h name pid peer key profile)"
    unfolding create_bhyve_def
    by (intro keeps_with_lock part keeps_create_bhyve_body pieces key keeps_lease_registry) simp
qed

section \<open>The phases of a creation\<close>

text \<open>What a create does before it writes the record, with the lock taken.\<close>

text \<open>
  A part of the state, as far as the lock of \<open>name\<close> is taken: then \<open>destroy\<close> blocks at
  once, so nothing changes.
\<close>

definition guarded :: "string \<Rightarrow> ('w daemon \<Rightarrow> 'v) \<Rightarrow> 'w daemon \<Rightarrow> 'v option" where
  "guarded name f s = (if name \<in> set (d_held s) then Some (f s) else None)"

lemma keeps_guarded_destroy: "keeps (guarded name f) (destroy m h name q force)"
proof (rule keepsI)
  fix s
  show "guarded name f (snd (destroy m h name q force s)) = guarded name f s"
  proof (cases "name \<in> set (d_held s)")
    case True
    then show ?thesis by (simp add: destroy_held)
  next
    case False
    obtain r t where d: "destroy m h name q force s = (r, t)" by (cases "destroy m h name q force s")
    from keepsD [OF destroy_keeps_held d] False d show ?thesis by (simp add: guarded_def)
  qed
qed

lemma guarded_part: "daemon_part f \<Longrightarrow> daemon_part (guarded name f)"
  by (simp add: daemon_part_def guarded_def)

lemma guarded_eq: "guarded name f t = guarded name f s \<Longrightarrow> name \<in> set (d_held s) \<Longrightarrow> f t = f s"
  by (auto simp: guarded_def split: if_splits)

lemma reconcile_orphaned_keeps:
  assumes "daemon_part f" "name \<in> set (d_held s)" "reconcile_orphaned m h name ds s = (r, t)"
  shows "f t = f s"
proof (rule guarded_eq)
  have "keeps (guarded name f) (reconcile_orphaned m h name ds)"
    unfolding reconcile_orphaned_def by (intro keeps_intros keeps_guarded_destroy guarded_part assms(1))
  from keepsD [OF this assms(3)] show "guarded name f t = guarded name f s" .
qed (rule assms(2))

lemma or_destroy_Ret:
  "or_destroy m h name body s = (Ret x, t) \<longleftrightarrow> body s = (Ret x, t)"
  by (auto simp: or_destroy_def catch_p_Ret_iff then_p_Ret_iff)

definition stores :: "'w daemon \<Rightarrow> registry \<times> lease_dir \<times> string list" where
  "stores s = (d_registry s, d_leases s, d_held s)"

lemma stores_part: "net_part stores" "daemon_part stores"
  by (simp_all add: net_part_def daemon_part_def stores_def)

lemma stores_unchanged:
  assumes "keeps stores m0" "m0 s = (r, t)"
  shows "d_registry t = d_registry s" and "d_leases t = d_leases s" and "d_held t = d_held s"
  using keepsD [OF assms] by (simp_all add: stores_def)

lemma create_jail_body_Ret:
  assumes "create_jail_body m h name pid peer key s = (Ret out, t)" and "name \<in> set (d_held s)"
  obtains k o' root address s4 s5 s6 s7 where
    "runtime_name_ok name" "validate_ssh_public_key key = Inr k" "owner_from_peer h (d_world s) peer pid = Inr o'"
    "load_registry (d_registry s) name = Inr None" "d_registry s4 = d_registry s" "d_leases s4 = d_leases s"
    "allocate_address m h name s4 = (Ret address, s5)" "d_registry s6 = d_registry s5" "d_leases s6 = d_leases s5"
    "write_record h (initial_jail_record m name o' address (jail_dataset m name) root) s6 = (Ret (), s7)"
    "build_jail m h name k address (jail_dataset m name) root
       (initial_jail_record m name o' address (jail_dataset m name) root) s7 = (Ret out, t)"
proof -
  obtain k o' s1 s2 s3 root address s5 c s6 s7 where *:
    "runtime_name_ok name" "validate_ssh_public_key key = Inr k" "owner_from_peer h (d_world s) peer pid = Inr o'"
    "reconcile_registered m h name o' s = (Ret (), s1)"
    "reconcile_orphaned m h name (jail_dataset m name) s1 = (Ret (), s2)" "ensure_bridge m h s2 = (Ret (), s3)"
    "allocate_address m h name s3 = (Ret address, s5)" "run_cmd h False [''arp'', ''-d'', address] s5 = (Ret c, s6)"
    "write_record h (initial_jail_record m name o' address (jail_dataset m name) root) s6 = (Ret (), s7)"
    "build_jail m h name k address (jail_dataset m name) root
       (initial_jail_record m name o' address (jail_dataset m name) root) s7 = (Ret out, t)"
    using assms(1)
    by (auto simp: create_jail_body_def bind_p_Ret_iff then_p_Ret_iff lift_p_Ret Let_def validate_name_iff or_destroy_Ret)
  from reconcile_registered_held(1,2) [OF assms(2) *(4)] have s1: "s1 = s" "load_registry (d_registry s) name = Inr None"
    by simp_all
  have s2: "d_registry s2 = d_registry s" "d_leases s2 = d_leases s"
    using reconcile_orphaned_keeps [OF _ assms(2) *(5) [unfolded s1(1)]] by (auto simp: s1(1))
  have s3: "d_registry s3 = d_registry s2" "d_leases s3 = d_leases s2"
    using stores_unchanged [OF keeps_ensure_bridge [OF stores_part(1)] *(6)] by blast+
  have s6: "d_registry s6 = d_registry s5" "d_leases s6 = d_leases s5"
    using stores_unchanged [OF keeps_run_cmd [OF stores_part(2)] *(8)] by blast+
  from that [OF *(1,2,3) s1(2) _ _ *(7) s6 *(9,10)] s2 s3 show ?thesis by simp
qed

lemma allocate_address_Ret:
  assumes "allocate_address m h name s = (Ret address, t)"
  obtains v where "address = ipv4_str v" "pool_start (m_pool m) \<le> v" "v \<le> pool_end (m_pool m)"
    "dir_get (d_leases s) (lease_path v) = None" "d_registry t = d_registry s" "address \<noteq> c_host_address (m_config m)"
    "d_leases t = dir_put (lease_path v) (LFile (utf8_encode (name @ [CHR 0x0A]))) (d_leases s)"
proof -
  obtain cf xf where a: "on_leases (pool_allocate (m_pool m) cf xf name) s = (Ret address, t)"
      "address \<noteq> c_host_address (m_config m)"
    using assms by (auto simp: allocate_address_def bind_p_Ret_iff then_p_Ret_iff split: if_splits)
  then obtain d where d: "pool_allocate (m_pool m) cf xf name (d_leases s) = (Ret address, d)" "t = s\<lparr>d_leases := d\<rparr>"
    by (auto simp: on_leases_def split: prod.splits)
  from d(1) show ?thesis
    by (rule pool_allocate_Ret) (use that d(2) a(2) in \<open>auto simp: pool_value_iff\<close>)
qed

lemma write_record_Ret:
  assumes "write_record h r s = (Ret (), t)" "pget r ''name'' = PStr name"
  shows "dir_get (d_registry t) (registry_path name) = Some (RFile (utf8_encode (record_text r)))"
    and "d_leases t = d_leases s" and "d_log t = d_log s"
proof -
  obtain w rest d where d: "write_registry (h_create_fails h w) (h_write_fails h w) (''.'' @ name @ rest) name r (d_registry s)
        = (Ret (), d)" "t = s\<lparr>d_registry := d\<rparr>" "runtime_name_ok name"
    using assms
    by (auto simp: write_record_def bind_p_Ret_iff lift_p_Ret validate_name_iff on_registry_def Let_def split: prod.splits)
  have "''.'' @ name @ rest \<noteq> registry_path name"
    using runtime_name_hd [OF d(3)] by (auto simp: registry_path_def)
  from write_registry_Ret [OF d(1) this] d(2)
  show "dir_get (d_registry t) (registry_path name) = Some (RFile (utf8_encode (record_text r)))"
    "d_leases t = d_leases s" "d_log t = d_log s" by simp_all
qed

lemma run_ok_Ret:
  "run_ok h c s = (Ret u, t) \<Longrightarrow>
     d_registry t = d_registry s \<and> d_leases t = d_leases s \<and> (\<exists>ou er. d_log t = d_log s @ [Ran c (Completed 0 ou er)])"
  by (auto simp: run_ok_def run_cmd_def run_timeout_def then_p_Ret_iff bind_p_Ret_iff spawn_def
      split: prod.splits outcome.splits if_splits)

definition jail_record ::
    "manager \<Rightarrow> string \<Rightarrow> runtime_owner \<Rightarrow> string \<Rightarrow> string \<Rightarrow> string \<Rightarrow> record_doc" where
  "jail_record m name o' address root epair_host =
     dir_put ''jail_created'' (PBool True)
       (dir_put ''epair_guest'' (PStr (butlast epair_host @ ''b''))
         (dir_put ''epair_host'' (PStr epair_host)
           (dir_put ''dataset_created'' (PBool True)
             (initial_jail_record m name o' address (jail_dataset m name) root))))"

definition jail_reply :: "manager \<Rightarrow> string \<Rightarrow> string \<Rightarrow> pyval" where
  "jail_reply m name address =
     PDict [(''name'', PStr name), (''type'', PStr ''jail''), (''guest_ip'', PStr address),
            (''network_cidr'', PStr (c_network_cidr (m_config m))), (''bridge'', PStr (c_bridge_name (m_config m))),
            (''interface'', PStr (c_jail_interface_name (m_config m)))]"

lemma build_jail_Ret:
  assumes "build_jail m h name k address (jail_dataset m name) root
       (initial_jail_record m name o' address (jail_dataset m name) root) s = (Ret out, t)"
  obtains epair_host s8 es1 es2 es3 ou1 er1 ou2 er2 where
    "ends_with ''a'' epair_host" "out = jail_reply m name address"
    "write_record h (jail_record m name o' address root epair_host) s8 = (Ret (), t)" "d_leases s8 = d_leases s"
    "d_log s8 = d_log s @ es1 @ [Ran [''ifconfig'', c_bridge_name (m_config m), ''private'', epair_host] (Completed 0 ou1 er1)]
       @ es2 @ [Ran (jail_start_command name root (butlast epair_host @ ''b'')) (Completed 0 ou2 er2)] @ es3"
proof -
  let ?b = "c_bridge_name (m_config m)"
  obtain u1 u2 r u3 where 1: "run_ok h [''zfs'', ''clone'', ''-o'', ''mountpoint='' @ root,
        c_jail_template_snapshot (m_config m), jail_dataset m name] s = (Ret (), u1)"
      "install_jail_authorized_key m h root k u1 = (Ret (), u2)"
      "run_cmd h True [''ifconfig'', ''epair'', ''create''] u2 = (Ret r, u3)"
      "(case rev (split_lines (py_strip (cp_out r))) of
          [] \<Rightarrow> raise_p IndexError ''list index out of range''
        | line # _ \<Rightarrow> start_jail m h name address root (dir_put ''dataset_created'' (PBool True)
            (initial_jail_record m name o' address (jail_dataset m name) root)) (py_strip line)) u3 = (Ret out, t)"
    using assms unfolding build_jail_def Let_def then_p_Ret_iff bind_p_Ret_iff by auto
  then obtain e where e: "start_jail m h name address root (dir_put ''dataset_created'' (PBool True)
            (initial_jail_record m name o' address (jail_dataset m name) root)) e u3 = (Ret out, t)"
    by (cases "rev (split_lines (py_strip (cp_out r)))") auto
  then obtain u4 u5 u6 u7 s8 where 2: "ends_with ''a'' e" "run_ok h [''ifconfig'', ?b, ''addm'', e] u3 = (Ret (), u4)"
      "run_ok h [''ifconfig'', ?b, ''private'', e] u4 = (Ret (), u5)" "run_ok h [''ifconfig'', e, ''up''] u5 = (Ret (), u6)"
      "run_ok h (jail_start_command name root (butlast e @ ''b'')) u6 = (Ret (), u7)"
      "run_ok h [''jexec'', name, ''sh'', ''-c'', jail_setup_script m (butlast e @ ''b'') address] u7 = (Ret (), s8)"
      "write_record h (jail_record m name o' address root e) s8 = (Ret (), t)" "out = jail_reply m name address"
    by (auto simp: start_jail_def Let_def then_p_Ret_iff jail_record_def jail_reply_def split: if_splits)
  have k: "d_leases u2 = d_leases u1" "d_leases u3 = d_leases u2"
    using stores_unchanged(2) [OF keeps_install_key [OF stores_part(2)] 1(2)]
      stores_unchanged(2) [OF keeps_run_cmd [OF stores_part(2)] 1(3)] by simp_all
  have "log_grows (install_jail_authorized_key m h root k)"
    unfolding install_jail_authorized_key_def Let_def by (intro log_intros)
  from log_growsD [OF this 1(2)] obtain es where es: "d_log u2 = d_log u1 @ es" by blast
  obtain fs where fs: "d_log u3 = d_log u2 @ fs" using log_growsD [OF log_grows_commands(1) 1(3)] by blast
  note r = run_ok_Ret [OF 1(1)] run_ok_Ret [OF 2(2)] run_ok_Ret [OF 2(3)] run_ok_Ret [OF 2(4)] run_ok_Ret [OF 2(5)] run_ok_Ret [OF 2(6)]
  from r obtain o1 e1 o2 e2 o3 e3 o4 e4 o5 e5 o6 e6 where logs:
      "d_log u1 = d_log s @ [Ran [''zfs'', ''clone'', ''-o'', ''mountpoint='' @ root,
        c_jail_template_snapshot (m_config m), jail_dataset m name] (Completed 0 o1 e1)]"
      "d_log u4 = d_log u3 @ [Ran [''ifconfig'', ?b, ''addm'', e] (Completed 0 o2 e2)]"
      "d_log u5 = d_log u4 @ [Ran [''ifconfig'', ?b, ''private'', e] (Completed 0 o3 e3)]"
      "d_log u6 = d_log u5 @ [Ran [''ifconfig'', e, ''up''] (Completed 0 o4 e4)]"
      "d_log u7 = d_log u6 @ [Ran (jail_start_command name root (butlast e @ ''b'')) (Completed 0 o5 e5)]"
      "d_log s8 = d_log u7 @ [Ran [''jexec'', name, ''sh'', ''-c'', jail_setup_script m (butlast e @ ''b'') address] (Completed 0 o6 e6)]"
    by blast
  from k r have leases: "d_leases s8 = d_leases s" by simp
  have log: "d_log s8 = d_log s @ ([Ran [''zfs'', ''clone'', ''-o'', ''mountpoint='' @ root,
        c_jail_template_snapshot (m_config m), jail_dataset m name] (Completed 0 o1 e1)] @ es @ fs @
        [Ran [''ifconfig'', ?b, ''addm'', e] (Completed 0 o2 e2)])
      @ [Ran [''ifconfig'', ?b, ''private'', e] (Completed 0 o3 e3)]
      @ [Ran [''ifconfig'', e, ''up''] (Completed 0 o4 e4)]
      @ [Ran (jail_start_command name root (butlast e @ ''b'')) (Completed 0 o5 e5)]
      @ [Ran [''jexec'', name, ''sh'', ''-c'', jail_setup_script m (butlast e @ ''b'') address] (Completed 0 o6 e6)]"
    by (simp add: logs es fs)
  show ?thesis by (rule that [OF 2(1,8,7) leases log])
qed

text \<open>The record as it is read back.\<close>

lemma jail_record_fields:
  "jail_record m name o' address root e =
     [(''schema'', PStr ''softcloud.runtime/v1''), (''name'', PStr name), (''type'', PStr ''jail''),
      (''owner_pid'', PInt (own_pid o')), (''owner_uid'', PInt (own_uid o')), (''owner_gid'', PInt (own_gid o')),
      (''owner_started_at'', PStr (own_started_at o')), (''owner_process_digest'', PStr (own_digest o')),
      (''guest_ip'', PStr address), (''dataset'', PStr (jail_dataset m name)), (''jail_root'', PStr root),
      (''bridge'', PStr (c_bridge_name (m_config m))), (''epair_host'', PStr e), (''epair_guest'', PStr (butlast e @ ''b'')),
      (''jail_created'', PBool True), (''dataset_created'', PBool True)]"
  by (simp add: jail_record_def initial_jail_record_def registry_fields_def dir_put_def)

lemma jail_record_loaded:
  assumes "dir_get d (registry_path name) = Some (RFile (utf8_encode (record_text (jail_record m name o' address root e))))"
  shows "\<exists>r. load_registry d name = Inr (Some r) \<and> (\<forall>k. pget r k = pget (jail_record m name o' address root e) k)"
proof -
  have ok: "json_ok (PDict (jail_record m name o' address root e))" by (simp add: jail_record_fields)
  obtain r where r: "load_registry d name = Inr (Some r)" "json_norm (PDict (jail_record m name o' address root e)) = PDict r"
    using load_registry_written [OF assms ok] by blast
  have "dir_get r k = map_option json_norm (dir_get (jail_record m name o' address root e) k)" for k
    by (rule dir_get_norm [OF _ r(2)]) (use ok in \<open>simp add: jail_record_fields\<close>)
  moreover have "json_norm v = v" if "dir_get (jail_record m name o' address root e) k = Some v" for k v
    using that by (auto simp: jail_record_fields dir_get_def split: if_splits)
  ultimately have "pget r k = pget (jail_record m name o' address root e) k" for k
    by (cases "dir_get (jail_record m name o' address root e) k") (simp_all add: pget_def)
  with r(1) show ?thesis by blast
qed

lemma with_lock_Ret:
  assumes "with_runtime_lock name mm s = (Ret x, t)"
  obtains u where "name \<notin> set (d_held s)" "mm (s\<lparr>d_held := name # d_held s\<rparr>) = (Ret x, u)"
    "t = u\<lparr>d_held := remove1 name (d_held u)\<rparr>"
proof -
  have free: "name \<notin> set (d_held s)" using assms with_lock_held [of name s mm] by auto
  obtain r u where m: "mm (s\<lparr>d_held := name # d_held s\<rparr>) = (r, u)" by (cases "mm (s\<lparr>d_held := name # d_held s\<rparr>)")
  from with_lock_run [where m = mm and s = s, OF free m] assms have "r = Ret x" "t = u\<lparr>d_held := remove1 name (d_held u)\<rparr>"
    by (auto split: if_splits)
  with that free m show ?thesis by simp
qed

section \<open>What raises\<close>

text \<open>A program that, with the lock of \<open>name\<close> taken, leaves \<open>f\<close> alone whenever it raises.\<close>

definition raise_keeps :: "string \<Rightarrow> ('w daemon \<Rightarrow> 'v) \<Rightarrow> ('w daemon, 'a) prog \<Rightarrow> bool" where
  "raise_keeps name f m \<longleftrightarrow> (\<forall>s e t. name \<in> set (d_held s) \<longrightarrow> m s = (Raise e, t) \<longrightarrow> f t = f s)"

lemma raise_keeps_keeps: "keeps (guarded name f) m \<Longrightarrow> raise_keeps name f m"
  unfolding raise_keeps_def using guarded_eq keepsD by metis

lemma raise_keeps_bind:
  assumes "keeps (guarded name f) m" "\<And>x. raise_keeps name f (k x)"
  shows "raise_keeps name f (bind_p m k)"
  unfolding raise_keeps_def
proof (intro allI impI)
  fix s e t
  assume held: "name \<in> set (d_held s)" and run: "bind_p m k s = (Raise e, t)"
  from run consider "m s = (Raise e, t)" | x u where "m s = (Ret x, u)" "k x u = (Raise e, t)"
    by (auto simp: bind_p_Raise_iff)
  then show "f t = f s"
  proof cases
    case 1
    with keepsD [OF assms(1)] held show ?thesis by (metis guarded_eq)
  next
    case 2
    from keepsD [OF assms(1) 2(1)] held have "name \<in> set (d_held u)" "f u = f s"
      by (auto simp: guarded_def split: if_splits)
    with assms(2) 2(2) show ?thesis unfolding raise_keeps_def by metis
  qed
qed

lemma raise_keeps_then: "keeps (guarded name f) m \<Longrightarrow> raise_keeps name f k \<Longrightarrow> raise_keeps name f (then_p m k)"
  unfolding then_p_def by (rule raise_keeps_bind)

lemma or_destroy_not_Raise:
  assumes "keeps d_held body" "name \<in> set (d_held s)"
  shows "or_destroy m h name body s \<noteq> (Raise e, t)"
proof -
  obtain r u where b: "body s = (r, u)" by (cases "body s")
  from keepsD [OF assms(1) b] assms(2) have "name \<in> set (d_held u)" by simp
  with b show ?thesis
    by (cases r) (simp_all add: or_destroy_def catch_p_def then_p_def bind_p_def destroy_held)
qed

lemma raise_keeps_prod: "(\<And>x y. raise_keeps name f (k x y)) \<Longrightarrow> raise_keeps name f (case v of (x, y) \<Rightarrow> k x y)"
  by (cases v) simp

lemma raise_keeps_if_raise: "raise_keeps name f k \<Longrightarrow> raise_keeps name f (if b then raise_p kd msg else k)"
  by (cases b) (simp_all add: raise_keeps_def)

abbreviation record_entry :: "string \<Rightarrow> 'w daemon \<Rightarrow> reg_file option" where
  "record_entry name s \<equiv> dir_get (d_registry s) (registry_path name)"

lemma write_record_Raise:
  assumes "write_record h r s = (Raise e, t)" "pget r ''name'' = PStr name"
  shows "record_entry name t = record_entry name s"
proof (cases "runtime_name_ok name")
  case False
  with assms show ?thesis
    by (auto simp: write_record_def bind_p_Raise_iff lift_p_Raise lift_p_Ret validate_name_def)
next
  case True
  with assms obtain w rest d where d: "write_registry (h_create_fails h w) (h_write_fails h w) (''.'' @ name @ rest) name r (d_registry s)
        = (Raise e, d)" "t = s\<lparr>d_registry := d\<rparr>"
    by (auto simp: write_record_def bind_p_Raise_iff lift_p_Raise lift_p_Ret validate_name_def on_registry_def Let_def
        split: prod.splits)
  have "''.'' @ name @ rest \<noteq> registry_path name"
    using runtime_name_hd [OF True] by (auto simp: registry_path_def)
  from write_registry_Raise [OF d(1) this] d(2) show ?thesis by simp
qed

lemma raise_keeps_write_then:
  assumes "pget r ''name'' = PStr name"
    and "\<And>s e t. name \<in> set (d_held s) \<Longrightarrow> k s \<noteq> (Raise e, t)"
  shows "raise_keeps name (record_entry name) (then_p (write_record h r) k)"
  unfolding raise_keeps_def
proof (intro allI impI)
  fix s e t
  assume held: "name \<in> set (d_held s)" and run: "then_p (write_record h r) k s = (Raise e, t)"
  have wr: "keeps d_held (write_record h r)"
    unfolding write_record_def Let_def by (intro keeps_intros)
  have "write_record h r s = (Raise e, t)"
  proof (rule ccontr)
    assume "write_record h r s \<noteq> (Raise e, t)"
    with run obtain x u where u: "write_record h r s = (Ret x, u)" "k u = (Raise e, t)" by (auto simp: then_p_Raise_iff)
    with keepsD [OF wr u(1)] held assms(2) [of u e t] show False by simp
  qed
  then show "record_entry name t = record_entry name s" by (rule write_record_Raise [OF _ assms(1)])
qed

lemma guarded_net_part: "net_part f \<Longrightarrow> net_part (guarded name f)"
  by (simp add: net_part_def guarded_def)

lemma keeps_guarded_leases: "(\<And>s d. f (s\<lparr>d_leases := d\<rparr>) = f s) \<Longrightarrow> keeps (guarded name f) (on_leases x)"
  by (rule keeps_on_leases_other) (simp add: guarded_def)

lemma create_raise_keeps:
  "raise_keeps name (record_entry name) (create_jail_body m h name pid peer key)"
  "raise_keeps name (record_entry name) (create_bhyve_body m h name pid peer key profile)"
proof -
  have net: "net_part (record_entry name)" by (simp add: net_part_def)
  note part = guarded_net_part [OF net, of name] guarded_net_part [OF net, of name, THEN net_part_daemon]
  have alloc: "keeps (guarded name (record_entry name)) (allocate_address m h name)"
    unfolding allocate_address_def by (intro keeps_intros keeps_guarded_leases) simp_all
  have rec: "keeps (guarded name (record_entry name)) (reconcile_registered m h name o')"
    "keeps (guarded name (record_entry name)) (reconcile_orphaned m h name ds)" for o' ds
    unfolding reconcile_registered_def reconcile_orphaned_def
    by (intro keeps_intros keeps_guarded_destroy part)+
  note pre = keeps_intros part alloc rec
  have held: "keeps d_held (build_jail m h name k ad ds root r0)" for k ad ds root r0
    unfolding build_jail_def start_jail_def write_record_def Let_def by (intro keeps_intros) auto
  have held': "keeps d_held (build_bhyve m h name p gp ad kp r0)" for p gp ad kp r0
    unfolding build_bhyve_def write_record_def Let_def
    by (intro keeps_intros keeps_create_guest_disk) auto
  have key_held: "keeps d_held (catch_p (bind_p (write_runtime_public_key h name pk) (\<lambda>tmp. return_p (Inr tmp)))
      (\<lambda>e. return_p (Inl e)))" for pk
    unfolding write_runtime_public_key_def Let_def by (intro keeps_intros)
  have key: "with_key_file m h name pk (\<lambda>kp. build_bhyve m h name p gp ad kp r0) s \<noteq> (Raise e, t)"
    if h: "name \<in> set (d_held s)" for pk p gp ad r0 s e t
  proof
    assume "with_key_file m h name pk (\<lambda>kp. build_bhyve m h name p gp ad kp r0) s = (Raise e, t)"
    then obtain x u where x: "catch_p (bind_p (write_runtime_public_key h name pk) (\<lambda>tmp. return_p (Inr tmp)))
      (\<lambda>e. return_p (Inl e)) s = (Ret x, u)"
      and y: "(case x of Inl e \<Rightarrow> or_destroy m h name (throw_p e)
       | Inr tmp \<Rightarrow> finally_p (or_destroy m h name (build_bhyve m h name p gp ad (c_registry_dir (m_config m) @ ''/'' @ tmp) r0))
          (on_registry (modify_p (dir_del tmp)))) u = (Raise e, t)"
      by (auto simp: with_key_file_def bind_p_Raise_iff catch_p_Raise_iff)
    have hu: "name \<in> set (d_held u)" using keepsD [OF key_held x] h by simp
    show False
    proof (cases x)
      case (Inl e')
      with y show False by (simp add: or_destroy_not_Raise [OF _ hu])
    next
      case (Inr tmp)
      with y or_destroy_not_Raise [OF held' hu] show False
        by (auto simp: finally_p_Raise_iff on_registry_def)
    qed
  qed
  have n1: "pget (initial_jail_record m name o' ad ds root) ''name'' = PStr name" for o' ad ds root
    by (simp add: initial_jail_record_def pget_def dir_get_def)
  have n2: "pget (initial_bhyve_record m name p gp o' ad) ''name'' = PStr name" for p gp o' ad
    by (simp add: initial_bhyve_record_def pget_def dir_get_def)
  show "raise_keeps name (record_entry name) (create_jail_body m h name pid peer key)"
    unfolding create_jail_body_def Let_def
    by (intro raise_keeps_bind raise_keeps_then raise_keeps_write_then n1 or_destroy_not_Raise held pre)
  show "raise_keeps name (record_entry name) (create_bhyve_body m h name pid peer key profile)"
    unfolding create_bhyve_body_def Let_def
    by (intro raise_keeps_prod raise_keeps_if_raise raise_keeps_bind raise_keeps_then raise_keeps_write_then n2 key pre)
qed

section \<open>An example run\<close>

definition example_peer :: peer_credentials where
  "example_peer = \<lparr>peer_pid = 100, peer_uid = 1001, peer_gid = 1001\<rparr>"

definition example_key :: string where
  "example_key = ''ssh-ed25519 AAAAC3NzaC1lZDI1NTE5AAAAIAECAwQFBgcICQoLDA0ODxAREhMUFRYXGBkaGxwdHh8g''"

definition empty_daemon :: "unit daemon" where
  "empty_daemon =
     \<lparr>d_registry = [], d_leases = [], d_bridge = True, d_switch = False, d_held = [], d_world = (), d_log = []\<rparr>"

text \<open>A machine without jails and datasets, on which everything else works; \<open>bad\<close> are commands that fail.\<close>

definition jail_host :: "(string list \<Rightarrow> bool) \<Rightarrow> unit host" where
  "jail_host bad = example_host\<lparr>h_spawn := \<lambda>_ c w.
     (if bad c \<or> hd c = ''jls'' \<or> (hd c = ''zfs'' \<and> hd (tl c) = ''list'') then Completed 1 [] []
      else if hd c = ''pw'' then Completed 0 ''freebsd:*:1001:1001::/home/freebsd:/bin/sh'' []
      else if hd (tl c) = ''epair'' then Completed 0 ''epair0a'' []
      else Completed 0 [] [], w)\<rparr>"

lemma example_key_valid: "validate_ssh_public_key (PStr example_key) = Inr example_key"
  unfolding example_key_def by code_simp

lemma example_owner:
  "owner_from_peer (jail_host bad) () example_peer (PInt 100) =
     Inr \<lparr>own_pid = 100, own_uid = 1001, own_gid = 1001, own_started_at = ''Mon'', own_digest = fingerprint 1001 ''Mon''\<rparr>"
proof -
  have "query_process_identity (jail_host bad) () 100 = query_process_identity example_host () 100"
    by (rule query_cong) (simp_all add: jail_host_def)
  then show ?thesis
    by (simp add: owner_from_peer_def validate_owner_pid_def example_peer_def example_host_query)
qed

definition jail_host_outcome :: "(string list \<Rightarrow> bool) \<Rightarrow> string list \<Rightarrow> outcome" where
  "jail_host_outcome bad c =
     (if bad c \<or> hd c = ''jls'' \<or> (hd c = ''zfs'' \<and> hd (tl c) = ''list'') then Completed 1 [] []
      else if hd c = ''pw'' then Completed 0 ''freebsd:*:1001:1001::/home/freebsd:/bin/sh'' []
      else if hd (tl c) = ''epair'' then Completed 0 ''epair0a'' []
      else Completed 0 [] [])"

definition ran :: "(string list \<Rightarrow> bool) \<Rightarrow> string list \<Rightarrow> unit daemon \<Rightarrow> unit daemon" where
  "ran bad c s = s\<lparr>d_log := d_log s @ [Ran c (jail_host_outcome bad c)]\<rparr>"

lemma ran_fields [simp]:
  "d_registry (ran bad c s) = d_registry s" "d_leases (ran bad c s) = d_leases s" "d_held (ran bad c s) = d_held s"
  "d_bridge (ran bad c s) = d_bridge s"
  by (simp_all add: ran_def)

lemma jail_host_run:
  "run_timeout (jail_host bad) check tmo c s =
     (case jail_host_outcome bad c of
        Completed rc ou er \<Rightarrow>
          (if check \<and> rc \<noteq> 0 then Raise (Exn RuntimeError (shlex_join c @ '': command failed''))
           else Ret \<lparr>cp_rc = rc, cp_out = ou, cp_err = er\<rparr>)
      | _ \<Rightarrow> Stuck, ran bad c s)"
  by (simp add: run_timeout_def spawn_def bind_p_def jail_host_def jail_host_outcome_def ran_def py_strip_def)

lemma jail_host_commands:
  "jail_host_outcome bad c = Completed 0 ou [] \<Longrightarrow> run_ok (jail_host bad) c s = (Ret (), ran bad c s)"
  "jail_host_outcome bad c = Completed 0 ou [] \<Longrightarrow>
     run_cmd (jail_host bad) b c s = (Ret \<lparr>cp_rc = 0, cp_out = ou, cp_err = []\<rparr>, ran bad c s)"
  "jail_host_outcome bad c = Completed 1 [] [] \<Longrightarrow> exists_cmd (jail_host bad) c s = (Ret False, ran bad c s)"
  "jail_host_outcome bad c = Completed 1 [] [] \<Longrightarrow>
     run_ok (jail_host bad) c s = (Raise (Exn RuntimeError (shlex_join c @ '': command failed'')), ran bad c s)"
  by (simp_all add: run_ok_def run_cmd_def exists_cmd_def then_p_def bind_p_def jail_host_run)

definition example_lease_dir :: lease_dir where
  "example_lease_dir = [(''10.0.0.2.lease'', LFile (utf8_encode (example_name @ [CHR 0x0A])))]"

lemma example_allocate_address:
  "d_leases s = [] \<Longrightarrow>
     allocate_address example_manager (jail_host bad) example_name s = (Ret ''10.0.0.2'', s\<lparr>d_leases := example_lease_dir\<rparr>)"
  by (simp add: allocate_address_def on_leases_def pool_allocate_def example_manager_def lease_path_examples bind_p_def
      dir_get_def dir_put_def example_name_def default_config_def jail_host_def example_host_def example_lease_dir_def)

lemma example_write_record:
  assumes "d_registry s = [] \<or> (\<exists>f. d_registry s = [(registry_path example_name, RFile f)])" "pget r ''name'' = PStr example_name"
  shows "write_record (jail_host bad) r s =
     (Ret (), s\<lparr>d_registry := [(registry_path example_name, RFile (utf8_encode (record_text r)))]\<rparr>)"
  using assms
  by (auto simp: write_record_def lift_p_def validate_name_def example_name_ok [unfolded example_name_def] on_registry_def write_registry_def bind_p_def
      finally_p_def then_p_def Let_def dir_put_def dir_del_def dir_get_def registry_path_def example_name_def jail_host_def
      example_host_def)

definition example_root :: string where
  "example_root = ''/usr/local/jails/containers/freebsd-lab-a''"

lemma example_syscall:
  "do_syscall (jail_host bad) c s = (Ret (), s\<lparr>d_log := d_log s @ [Sys c None]\<rparr>)"
  by (simp add: do_syscall_def jail_host_def example_host_def)

lemma example_install_key:
  assumes "\<not> bad [''pw'', ''-R'', example_root, ''usershow'', ''-n'', ''freebsd'', ''-7'']"
  shows "\<exists>l. install_jail_authorized_key example_manager (jail_host bad) example_root key s = (Ret (), s\<lparr>d_log := l\<rparr>)"
proof -
  have fields: "split_on (CHR '':'') (py_strip ''freebsd:*:1001:1001::/home/freebsd:/bin/sh'') =
      [''freebsd'', ''*'', ''1001'', ''1001'', [], ''/home/freebsd'', ''/bin/sh'']" by code_simp
  have int: "py_int ''1001'' = Some 1001" by code_simp
  have within: "path_within example_root (example_root @ ''/home/freebsd'')"
    unfolding example_root_def by code_simp
  have home: "starts_with ''/'' ''/home/freebsd''" "lstrip_char (CHR ''/'') ''/home/freebsd'' = ''home/freebsd''"
    by (simp_all add: starts_with_def lstrip_char_def)
  have oc: "jail_host_outcome bad [''pw'', ''-R'', example_root, ''usershow'', ''-n'', ''freebsd'', ''-7''] =
      Completed 0 ''freebsd:*:1001:1001::/home/freebsd:/bin/sh'' []"
    using assms by (simp add: jail_host_outcome_def)
  have user: "c_jail_ssh_user (m_config example_manager) = ''freebsd''"
    by (simp add: example_manager_def default_config_def)
  have host: "h_resolve (jail_host bad) p w = p" "\<not> h_is_symlink (jail_host bad) p w" for p w
    by (simp_all add: jail_host_def example_host_def)
  show ?thesis
    using within
    by (simp add: install_jail_authorized_key_def Let_def user bind_p_def jail_host_commands(2) [OF oc] fields int home
        host then_p_def example_syscall ran_def) (rule exI, rule refl)
qed

lemma example_start_jail:
  assumes "\<And>c. \<not> bad c" and "d_registry s = [(registry_path example_name, RFile f)]"
    and "pget r ''name'' = PStr example_name"
  shows "\<exists>t. start_jail example_manager (jail_host bad) example_name ''10.0.0.2'' example_root r ''epair0a'' s =
     (Ret (jail_reply example_manager example_name ''10.0.0.2''), t)"
proof -
  have oc: "jail_host_outcome bad (''ifconfig'' # c # cs) = (if c = ''epair'' then Completed 0 ''epair0a'' [] else Completed 0 [] [])"
    "jail_host_outcome bad (''jexec'' # c # cs) = (if c = ''epair'' then Completed 0 ''epair0a'' [] else Completed 0 [] [])"
    "jail_host_outcome bad (''jail'' # ''-c'' # cs) = Completed 0 [] []" for c cs
    using assms(1) by (simp_all add: jail_host_outcome_def)
  have b: "c_bridge_name (m_config example_manager) = ''labbridge0''" by (simp add: example_manager_def default_config_def)
  have e: "ends_with ''a'' ''epair0a''" by code_simp
  have put: "pget (dir_put k v d) ''name'' = pget d ''name''" if "k \<noteq> ''name''" for k v d
    using that by (simp add: pget_def dir_simps)
  have oks: "run_ok (jail_host bad) [''ifconfig'', ''labbridge0'', x, y] u = (Ret (), ran bad [''ifconfig'', ''labbridge0'', x, y] u)"
    "run_ok (jail_host bad) [''ifconfig'', ''epair0a'', ''up''] u = (Ret (), ran bad [''ifconfig'', ''epair0a'', ''up''] u)"
    "run_ok (jail_host bad) (jail_start_command n ro g) u = (Ret (), ran bad (jail_start_command n ro g) u)"
    "run_ok (jail_host bad) [''jexec'', example_name, c, d, x] u = (Ret (), ran bad [''jexec'', example_name, c, d, x] u)"
    for x y u n ro g c d
    by (rule jail_host_commands(1), simp add: oc jail_start_command_def example_name_def)+
  show ?thesis
    unfolding start_jail_def Let_def b jail_reply_def
    using e assms(2,3) by (simp add: then_p_def bind_p_def oks example_write_record put)
qed

lemma example_clone_outcome:
  "jail_host_outcome bad [''zfs'', ''clone'', ''-o'', x, y, z] =
     (if bad [''zfs'', ''clone'', ''-o'', x, y, z] then Completed 1 [] [] else Completed 0 [] [])"
  by (simp add: jail_host_outcome_def)

lemma example_root_eq: "h_resolve (jail_host bad) (c_jail_mount_root (m_config example_manager) @ ''/'' @ example_name) w = example_root"
  by (simp add: jail_host_def example_host_def example_manager_def default_config_def example_name_def example_root_def)

definition example_owner_value :: runtime_owner where
  "example_owner_value =
     \<lparr>own_pid = 100, own_uid = 1001, own_gid = 1001, own_started_at = ''Mon'', own_digest = fingerprint 1001 ''Mon''\<rparr>"

definition example_initial :: record_doc where
  "example_initial = initial_jail_record example_manager example_name example_owner_value ''10.0.0.2''
     (jail_dataset example_manager example_name) example_root"

lemma example_initial_name: "pget example_initial ''name'' = PStr example_name"
  by (simp add: example_initial_def initial_jail_record_def pget_def dir_get_def)

text \<open>The run up to the \<open>try\<close> block: record written, address leased.\<close>

lemma example_create_prefix:
  "\<exists>l. create_jail_body example_manager (jail_host (\<lambda>c. hd c = ''zfs'' \<and> b)) example_name (PInt 100) example_peer (PStr example_key)
      (empty_daemon\<lparr>d_held := [example_name]\<rparr>) =
   or_destroy example_manager (jail_host (\<lambda>c. hd c = ''zfs'' \<and> b)) example_name
     (build_jail example_manager (jail_host (\<lambda>c. hd c = ''zfs'' \<and> b)) example_name example_key ''10.0.0.2''
        (jail_dataset example_manager example_name) example_root example_initial)
     (empty_daemon\<lparr>d_held := [example_name], d_leases := example_lease_dir,
        d_registry := [(registry_path example_name, RFile (utf8_encode (record_text example_initial)))], d_log := l\<rparr>)"
proof -
  let ?h = "jail_host (\<lambda>c. hd c = ''zfs'' \<and> b)"
  have oc: "jail_host_outcome (\<lambda>c. hd c = ''zfs'' \<and> b) (jail_probe example_name) = Completed 1 [] []"
    "jail_host_outcome (\<lambda>c. hd c = ''zfs'' \<and> b) (dataset_probe ds) = Completed 1 [] []"
    "jail_host_outcome (\<lambda>c. hd c = ''zfs'' \<and> b) [''arp'', ''-d'', ip] = Completed 0 [] []" for ds ip
    by (simp_all add: jail_host_outcome_def jail_probe_def dataset_probe_def)
  have n: "validate_name (PStr example_name) = Inr example_name" by (simp add: validate_name_def example_name_ok)
  note init = example_initial_def [symmetric, unfolded example_owner_value_def]
  show ?thesis
    by (simp add: create_jail_body_def lift_p_def n example_key_valid example_owner Let_def empty_daemon_def
        reconcile_registered_def reconcile_orphaned_def load_record_def load_registry_def dir_get_def
        jail_exists_def dataset_exists_def bind_p_def then_p_def jail_host_commands(3) [OF oc(1)] jail_host_commands(3) [OF oc(2)]
        jail_host_commands(2) [OF oc(3)] ensure_bridge_def example_root_eq [simplified] example_allocate_address init
        example_write_record example_initial_name ran_def)
      (rule exI, rule refl)
qed

lemma example_host_no_fail: "jail_host (\<lambda>c. hd c = ''zfs'' \<and> False) = jail_host (\<lambda>_. False)"
  by simp

lemma example_created:
  obtains t where "create_jail example_manager (jail_host (\<lambda>_. False)) example_name (PInt 100) example_peer (PStr example_key)
     empty_daemon = (Ret (jail_reply example_manager example_name ''10.0.0.2''), t)"
proof -
  let ?h = "jail_host (\<lambda>_. False)"
  let ?rec = "(dir_put ''dataset_created'' (PBool True) example_initial)"
  have rec: "pget ?rec ''name'' = PStr example_name"
    using example_initial_name by (simp add: pget_def dir_simps)
  have epair: "py_strip ''epair0a'' = ''epair0a''" "split_lines ''epair0a'' = [''epair0a'']" by code_simp+
  have out: "jail_host_outcome (\<lambda>_. False) [''ifconfig'', ''epair'', ''create''] = Completed 0 ''epair0a'' []"
    by (simp add: jail_host_outcome_def)
  obtain l where l: "create_jail_body example_manager ?h example_name (PInt 100) example_peer (PStr example_key)
      (empty_daemon\<lparr>d_held := [example_name]\<rparr>) =
     or_destroy example_manager ?h example_name
       (build_jail example_manager ?h example_name example_key ''10.0.0.2''
          (jail_dataset example_manager example_name) example_root example_initial)
       (empty_daemon\<lparr>d_held := [example_name], d_leases := example_lease_dir,
          d_registry := [(registry_path example_name, RFile (utf8_encode (record_text example_initial)))], d_log := l\<rparr>)"
    using example_create_prefix [of False] by auto
  have "\<exists>t. build_jail example_manager ?h example_name example_key ''10.0.0.2'' ds example_root example_initial s =
      (Ret (jail_reply example_manager example_name ''10.0.0.2''), t)"
    if reg: "d_registry s = [(registry_path example_name, RFile f)]" for s ds f
  proof -
    define c where "c = [''zfs'', ''clone'', ''-o'', ''mountpoint='' @ example_root, c_jail_template_snapshot (m_config example_manager), ds]"
    obtain l' where k: "install_jail_authorized_key example_manager ?h example_root example_key (ran (\<lambda>_. False) c s) =
        (Ret (), ran (\<lambda>_. False) c s\<lparr>d_log := l'\<rparr>)" using example_install_key [of "\<lambda>_. False"] by auto
    obtain t where t: "start_jail example_manager ?h example_name ''10.0.0.2'' example_root ?rec ''epair0a''
        (ran (\<lambda>_. False) [''ifconfig'', ''epair'', ''create''] (ran (\<lambda>_. False) c s\<lparr>d_log := l'\<rparr>)) =
        (Ret (jail_reply example_manager example_name ''10.0.0.2''), t)"
      using example_start_jail [of "\<lambda>_. False" "ran (\<lambda>_. False) [''ifconfig'', ''epair'', ''create''] (ran (\<lambda>_. False) c s\<lparr>d_log := l'\<rparr>)" f ?rec]
        rec reg by (auto simp: ran_def)
    have "jail_host_outcome (\<lambda>_. False) c = Completed 0 [] []" unfolding c_def by (simp add: example_clone_outcome)
    then have clone: "run_ok ?h c s = (Ret (), ran (\<lambda>_. False) c s)" by (rule jail_host_commands(1))
    show ?thesis
      using clone [unfolded c_def] k [unfolded c_def] t [unfolded c_def]
      by (simp add: build_jail_def then_p_def bind_p_def jail_host_commands(2) [OF out] epair)
  qed
  then obtain u where "create_jail_body example_manager ?h example_name (PInt 100) example_peer (PStr example_key)
      (empty_daemon\<lparr>d_held := [example_name]\<rparr>) = (Ret (jail_reply example_manager example_name ''10.0.0.2''), u)"
    unfolding l or_destroy_Ret by fastforce
  then have "with_runtime_lock example_name (create_jail_body example_manager ?h example_name (PInt 100) example_peer (PStr example_key))
      empty_daemon = (Ret (jail_reply example_manager example_name ''10.0.0.2''), u\<lparr>d_held := remove1 example_name (d_held u)\<rparr>)"
    using with_lock_run [where m = "create_jail_body example_manager ?h example_name (PInt 100) example_peer (PStr example_key)"
        and s = empty_daemon and name = example_name] by (simp add: empty_daemon_def)
  then show ?thesis using that unfolding create_jail_def by blast
qed

lemma example_blocked:
  obtains l where "create_jail example_manager (jail_host (\<lambda>c. hd c = ''zfs'')) example_name (PInt 100) example_peer (PStr example_key)
     empty_daemon = (Stuck, empty_daemon\<lparr>d_held := [example_name], d_leases := example_lease_dir,
          d_registry := [(registry_path example_name, RFile (utf8_encode (record_text example_initial)))], d_log := l\<rparr>)"
proof -
  let ?h = "jail_host (\<lambda>c. hd c = ''zfs'')"
  obtain l where l: "create_jail_body example_manager ?h example_name (PInt 100) example_peer (PStr example_key)
      (empty_daemon\<lparr>d_held := [example_name]\<rparr>) =
     or_destroy example_manager ?h example_name
       (build_jail example_manager ?h example_name example_key ''10.0.0.2''
          (jail_dataset example_manager example_name) example_root example_initial)
       (empty_daemon\<lparr>d_held := [example_name], d_leases := example_lease_dir,
          d_registry := [(registry_path example_name, RFile (utf8_encode (record_text example_initial)))], d_log := l\<rparr>)"
    using example_create_prefix [of True] by auto
  define c where "c = [''zfs'', ''clone'', ''-o'', ''mountpoint='' @ example_root, c_jail_template_snapshot (m_config example_manager),
      jail_dataset example_manager example_name]"
  have "jail_host_outcome (\<lambda>c. hd c = ''zfs'') c = Completed 1 [] []" unfolding c_def by (simp add: example_clone_outcome)
  then have clone: "run_ok ?h c s = (Raise (Exn RuntimeError (shlex_join c @ '': command failed'')), ran (\<lambda>c. hd c = ''zfs'') c s)" for s
    by (rule jail_host_commands(4))
  have "create_jail_body example_manager ?h example_name (PInt 100) example_peer (PStr example_key)
      (empty_daemon\<lparr>d_held := [example_name]\<rparr>) =
     (Stuck, ran (\<lambda>c. hd c = ''zfs'') c (empty_daemon\<lparr>d_held := [example_name], d_leases := example_lease_dir,
          d_registry := [(registry_path example_name, RFile (utf8_encode (record_text example_initial)))], d_log := l\<rparr>))"
    unfolding l
    using clone [of "empty_daemon\<lparr>d_held := [example_name], d_leases := example_lease_dir,
          d_registry := [(registry_path example_name, RFile (utf8_encode (record_text example_initial)))], d_log := l\<rparr>", unfolded c_def]
    by (simp add: or_destroy_def catch_p_def build_jail_def then_p_def bind_p_def destroy_held c_def)
  then have "with_runtime_lock example_name (create_jail_body example_manager ?h example_name (PInt 100) example_peer (PStr example_key))
      empty_daemon =
     (Stuck, ran (\<lambda>c. hd c = ''zfs'') c (empty_daemon\<lparr>d_held := [example_name], d_leases := example_lease_dir,
          d_registry := [(registry_path example_name, RFile (utf8_encode (record_text example_initial)))], d_log := l\<rparr>))"
    using with_lock_run [where m = "create_jail_body example_manager ?h example_name (PInt 100) example_peer (PStr example_key)"
        and s = empty_daemon and name = example_name] by (simp add: empty_daemon_def ran_def)
  then show ?thesis using that unfolding create_jail_def ran_def by simp
qed

section \<open>Properties\<close>

text \<open>
  C7. A jail that is created belongs to the authenticated peer: the requested pid is the
  peer's, its uid and process digest are those of the live process, and the registry record
  that is read back names them. The address handed out is one of the pool's that had no
  lease, leased now to the runtime; and there was no record of the name before.
\<close>

theorem create_jail_spec:
  assumes "create_jail m h name pid peer key s = (Ret out, t)"
  shows "\<exists>o' v root e r.
     runtime_name_ok name \<and> pid = PInt (peer_pid peer) \<and> owner_from_peer h (d_world s) peer pid = Inr o' \<and>
     own_uid o' = peer_uid peer \<and> own_pid o' = peer_pid peer \<and>
     load_registry (d_registry s) name = Inr None \<and>
     load_registry (d_registry t) name = Inr (Some r) \<and>
     (\<forall>k. pget r k = pget (jail_record m name o' (ipv4_str v) root e) k) \<and>
     pool_start (m_pool m) \<le> v \<and> v \<le> pool_end (m_pool m) \<and> ipv4_str v \<noteq> c_host_address (m_config m) \<and>
     dir_get (d_leases s) (lease_path v) = None \<and>
     d_leases t = dir_put (lease_path v) (LFile (utf8_encode (name @ [CHR 0x0A]))) (d_leases s) \<and>
     out = jail_reply m name (ipv4_str v) \<and> d_held t = d_held s"
proof -
  obtain u where u: "name \<notin> set (d_held s)"
      "create_jail_body m h name pid peer key (s\<lparr>d_held := name # d_held s\<rparr>) = (Ret out, u)"
      "t = u\<lparr>d_held := remove1 name (d_held u)\<rparr>"
    using assms unfolding create_jail_def by (rule with_lock_Ret)
  have held: "d_held u = name # d_held s"
    using keepsD [OF create_bodies_keep_held(1) u(2)] by simp
  obtain k o' root address s4 s5 s6 s7 where ph:
    "runtime_name_ok name" "owner_from_peer h (d_world s) peer pid = Inr o'"
    "load_registry (d_registry s) name = Inr None" "d_leases s4 = d_leases s"
    "allocate_address m h name s4 = (Ret address, s5)" "d_leases s6 = d_leases s5"
    "write_record h (initial_jail_record m name o' address (jail_dataset m name) root) s6 = (Ret (), s7)"
    "build_jail m h name k address (jail_dataset m name) root
       (initial_jail_record m name o' address (jail_dataset m name) root) s7 = (Ret out, u)"
    by (rule create_jail_body_Ret [OF u(2)]) auto
  obtain v where v: "address = ipv4_str v" "pool_start (m_pool m) \<le> v" "v \<le> pool_end (m_pool m)"
      "dir_get (d_leases s) (lease_path v) = None" "address \<noteq> c_host_address (m_config m)"
      "d_leases s5 = dir_put (lease_path v) (LFile (utf8_encode (name @ [CHR 0x0A]))) (d_leases s)"
    by (rule allocate_address_Ret [OF ph(5)]) (simp add: ph(4))
  obtain e s8 where e: "out = jail_reply m name address"
      "write_record h (jail_record m name o' address root e) s8 = (Ret (), u)" "d_leases s8 = d_leases s7"
    by (rule build_jail_Ret [OF ph(8)])
  have names: "pget (initial_jail_record m name o' address (jail_dataset m name) root) ''name'' = PStr name"
    "pget (jail_record m name o' address root e) ''name'' = PStr name"
    by (simp_all add: initial_jail_record_def jail_record_fields pget_def dir_get_def)
  obtain r where r: "load_registry (d_registry u) name = Inr (Some r)"
      "\<And>k. pget r k = pget (jail_record m name o' address root e) k"
    using jail_record_loaded [OF write_record_Ret(1) [OF e(2) names(2)]] by blast
  have "d_leases u = d_leases s5"
    using write_record_Ret(2) [OF e(2) names(2)] write_record_Ret(2) [OF ph(7) names(1)] e(3) ph(6) by simp
  moreover have "pid = PInt (peer_pid peer)" "own_uid o' = peer_uid peer" "own_pid o' = peer_pid peer"
    using ph(2) by (auto simp: owner_from_peer_def validate_owner_pid_def split: pyval.splits if_splits sum.splits option.splits)
  ultimately show ?thesis
    using ph(1,2,3) v e(1) r held u(3)
    by (intro exI [of _ o'] exI [of _ v] exI [of _ root] exI [of _ e] exI [of _ r]) simp
qed

theorem create_jail_spec_witness:
  "\<exists>t r. create_jail example_manager (jail_host (\<lambda>_. False)) example_name (PInt 100) example_peer (PStr example_key)
       empty_daemon = (Ret (jail_reply example_manager example_name ''10.0.0.2''), t) \<and>
     load_registry (d_registry t) example_name = Inr (Some r)"
proof -
  obtain t where t: "create_jail example_manager (jail_host (\<lambda>_. False)) example_name (PInt 100) example_peer (PStr example_key)
     empty_daemon = (Ret (jail_reply example_manager example_name ''10.0.0.2''), t)" by (rule example_created)
  from create_jail_spec [OF t] t show ?thesis by blast
qed

text \<open>
  C18. A jail is never attached to an open bridge port: in the run that creates it, the
  command that makes its epair a private member of the bridge succeeded before the jail was
  started with the other end.
\<close>

theorem jail_behind_private_port:
  assumes "create_jail m h name pid peer key s = (Ret out, t)"
  shows "\<exists>before between after epair_host root o1 e1 o2 e2.
     ends_with ''a'' epair_host \<and>
     d_log t = before @
       [Ran [''ifconfig'', c_bridge_name (m_config m), ''private'', epair_host] (Completed 0 o1 e1)] @ between @
       [Ran (jail_start_command name root (butlast epair_host @ ''b'')) (Completed 0 o2 e2)] @ after"
proof -
  obtain u where u: "create_jail_body m h name pid peer key (s\<lparr>d_held := name # d_held s\<rparr>) = (Ret out, u)"
      "t = u\<lparr>d_held := remove1 name (d_held u)\<rparr>"
    using assms unfolding create_jail_def by (rule with_lock_Ret)
  obtain k o' root address s7 where b: "build_jail m h name k address (jail_dataset m name) root
       (initial_jail_record m name o' address (jail_dataset m name) root) s7 = (Ret out, u)"
    by (rule create_jail_body_Ret [OF u(1)]) auto
  obtain e s8 es1 es2 es3 o1 e1 o2 e2 where e: "ends_with ''a'' e"
      "write_record h (jail_record m name o' address root e) s8 = (Ret (), u)"
      "d_log s8 = d_log s7 @ es1 @ [Ran [''ifconfig'', c_bridge_name (m_config m), ''private'', e] (Completed 0 o1 e1)]
         @ es2 @ [Ran (jail_start_command name root (butlast e @ ''b'')) (Completed 0 o2 e2)] @ es3"
    by (rule build_jail_Ret [OF b])
  have "pget (jail_record m name o' address root e) ''name'' = PStr name"
    by (simp add: jail_record_fields pget_def dir_get_def)
  from write_record_Ret(3) [OF e(2) this] u(2) e(3)
  have "d_log t = (d_log s7 @ es1) @ [Ran [''ifconfig'', c_bridge_name (m_config m), ''private'', e] (Completed 0 o1 e1)]
         @ es2 @ [Ran (jail_start_command name root (butlast e @ ''b'')) (Completed 0 o2 e2)] @ es3" by simp
  with e(1) show ?thesis by blast
qed

theorem jail_behind_private_port_witness:
  "\<exists>t before between after epair_host root o1 e1 o2 e2.
     create_jail example_manager (jail_host (\<lambda>_. False)) example_name (PInt 100) example_peer (PStr example_key)
       empty_daemon = (Ret (jail_reply example_manager example_name ''10.0.0.2''), t) \<and>
     d_log t = before @
       [Ran [''ifconfig'', c_bridge_name (m_config example_manager), ''private'', epair_host] (Completed 0 o1 e1)] @ between @
       [Ran (jail_start_command example_name root (butlast epair_host @ ''b'')) (Completed 0 o2 e2)] @ after"
proof -
  obtain t where t: "create_jail example_manager (jail_host (\<lambda>_. False)) example_name (PInt 100) example_peer (PStr example_key)
     empty_daemon = (Ret (jail_reply example_manager example_name ''10.0.0.2''), t)" by (rule example_created)
  from jail_behind_private_port [OF t] t show ?thesis by blast
qed

text \<open>
  C19. A creation that has changed the registry entry of its name either returns or never
  ends: it does not raise, because the cleanup it starts waits for the runtime lock it
  holds itself. When it has not returned, the lock stays taken, and every later destroy of
  the name waits as well.
\<close>

theorem failed_creation_blocks:
  assumes "create_jail m h name pid peer key s = (r, t) \<or> create_bhyve m h name pid peer key profile s = (r, t)"
    and "name \<notin> set (d_held s)" and "record_entry name t \<noteq> record_entry name s"
  shows "(\<exists>out. r = Ret out) \<or> (r = Stuck \<and> name \<in> set (d_held t) \<and> destroy m h name q force t = (Stuck, t))"
proof -
  obtain body where body: "with_runtime_lock name body s = (r, t)" "keeps d_held body"
      "raise_keeps name (record_entry name) body"
    using assms(1) create_bodies_keep_held create_raise_keeps unfolding create_jail_def create_bhyve_def by metis
  obtain r' u where u: "body (s\<lparr>d_held := name # d_held s\<rparr>) = (r', u)" by (cases "body (s\<lparr>d_held := name # d_held s\<rparr>)")
  have held: "d_held u = name # d_held s" using keepsD [OF body(2) u] by simp
  have run: "(r, t) = (if r' = Stuck then (Stuck, u) else (r', u\<lparr>d_held := remove1 name (d_held u)\<rparr>))"
    using with_lock_run [where m = body and s = s, OF assms(2) u] body(1) by simp
  show ?thesis
  proof (cases r')
    case (Ret out)
    with run show ?thesis by simp
  next
    case (Raise e)
    have "record_entry name u = record_entry name (s\<lparr>d_held := name # d_held s\<rparr>)"
      using body(3) [unfolded raise_keeps_def, rule_format, of "s\<lparr>d_held := name # d_held s\<rparr>" e u] u Raise by simp
    with assms(3) run Raise show ?thesis by simp
  next
    case Stuck
    with run held destroy_held [of name u] show ?thesis by simp
  qed
qed

theorem failed_creation_blocks_witness:
  "\<exists>t. create_jail example_manager (jail_host (\<lambda>c. hd c = ''zfs'')) example_name (PInt 100) example_peer (PStr example_key)
       empty_daemon = (Stuck, t) \<and>
     destroy example_manager (jail_host (\<lambda>c. hd c = ''zfs'')) example_name PNone True t = (Stuck, t)"
proof -
  obtain l where l: "create_jail example_manager (jail_host (\<lambda>c. hd c = ''zfs'')) example_name (PInt 100) example_peer (PStr example_key)
     empty_daemon = (Stuck, empty_daemon\<lparr>d_held := [example_name], d_leases := example_lease_dir,
          d_registry := [(registry_path example_name, RFile (utf8_encode (record_text example_initial)))], d_log := l\<rparr>)"
    by (rule example_blocked)
  from failed_creation_blocks [OF disjI1 [OF l], of PNone True] l show ?thesis
    by (auto simp: empty_daemon_def dir_get_def)
qed

text \<open>
  A runtime that is still registered cannot be recreated by the process that owns it:
  where the source means to destroy the old one first, the creation waits for ever on its own
  lock, with nothing changed but the lock.
\<close>

lemma recreate_by_owner_blocks:
  assumes "runtime_name_ok name" "name \<notin> set (d_held s)" "validate_ssh_public_key key = Inr k"
    and "owner_from_peer h (d_world s) peer pid = Inr o'"
    and "load_registry (d_registry s) name = Inr (Some r)" "record_owned_by r o'"
  shows "create_jail m h name pid peer key s = (Stuck, s\<lparr>d_held := name # d_held s\<rparr>)"
proof -
  have "create_jail_body m h name pid peer key (s\<lparr>d_held := name # d_held s\<rparr>) = (Stuck, s\<lparr>d_held := name # d_held s\<rparr>)"
    using assms
    by (simp add: create_jail_body_def lift_p_def validate_name_def reconcile_registered_def load_record_def then_p_def
        bind_p_def destroy_held)
  from with_lock_run [where m = "create_jail_body m h name pid peer key" and s = s, OF assms(2) this]
  show ?thesis by (simp add: create_jail_def)
qed

definition owned_record :: record_doc where
  "owned_record = [(''owner_gid'', PInt 1001), (''owner_pid'', PInt 100), (''owner_process_digest'', PStr (fingerprint 1001 ''Mon'')),
     (''owner_uid'', PInt 1001)]"

definition owned_daemon :: "unit daemon" where
  "owned_daemon = empty_daemon\<lparr>d_registry := [(registry_path example_name, RFile (utf8_encode (record_text owned_record)))]\<rparr>"

lemma recreate_by_owner_blocks_witness:
  "create_jail example_manager (jail_host (\<lambda>_. False)) example_name (PInt 100) example_peer (PStr example_key) owned_daemon =
     (Stuck, owned_daemon\<lparr>d_held := [example_name]\<rparr>)"
proof -
  have "json_ok (PDict owned_record)" "json_norm (PDict owned_record) = PDict owned_record"
    by (simp_all add: owned_record_def)
  then have load: "load_registry (d_registry owned_daemon) example_name = Inr (Some owned_record)"
    using load_registry_written [of "d_registry owned_daemon" example_name owned_record]
    by (simp add: owned_daemon_def dir_get_def del: json_norm.simps json_ok.simps)
  have "d_world owned_daemon = ()" by simp
  from recreate_by_owner_blocks [OF example_name_ok _ example_key_valid example_owner [folded this] load] show ?thesis
    by (simp add: owned_daemon_def empty_daemon_def record_owned_by_def owned_record_def pget_def dir_get_def)
qed

end
