(* ===== verification/Daemon_Gc.thy ===== *)
theory Daemon_Gc
  imports Daemon_Create
begin

text \<open>
  runtime_daemon.py, the discovery of what runs on the machine and \<open>RuntimeManager.gc\<close>:
  registered runtimes whose owner is gone are destroyed, one failure at a time; root's
  collection goes on to what is on the machine without a record, to the host ends of
  unreferenced epairs, and to the leases of nobody.

  A set of names is a list, in the order the code sorts it where the order shows.
\<close>

section \<open>Discovery\<close>

text \<open>
  \<open>(?:^|\s)name=(?:"([^"]+)"|(\S+))\<close> at the head of the text: the value and what follows
  the match. \<open>start\<close> says that the head is the start of the whole output.
\<close>

definition word_value :: "string \<Rightarrow> (string \<times> string) option" where
  "word_value s =
     (let v = takeWhile (\<lambda>c. \<not> is_space c) s in if v = [] then None else Some (v, drop (length v) s))"

definition name_value :: "string \<Rightarrow> (string \<times> string) option" where
  "name_value s =
     (case s of
        [] \<Rightarrow> None
      | c # t \<Rightarrow>
          (let v = takeWhile (\<lambda>x. x \<noteq> double_quote) t; rest = dropWhile (\<lambda>x. x \<noteq> double_quote) t
           in if c = double_quote \<and> v \<noteq> [] \<and> rest \<noteq> [] then Some (v, tl rest) else word_value s))"

definition name_match :: "bool \<Rightarrow> string \<Rightarrow> (string \<times> string) option" where
  "name_match start s =
     (if start \<and> starts_with ''name='' s then name_value (drop 5 s)
      else case s of
             [] \<Rightarrow> None
           | c # t \<Rightarrow> if is_space c \<and> starts_with ''name='' t then name_value (drop 5 t) else None)"

lemma name_value_shorter: "name_value s = Some (v, rest) \<Longrightarrow> length rest < length s"
proof -
  have "length (tl (dropWhile P t)) \<le> length t" for P and t :: string
    using length_dropWhile_le [of P t] by simp
  then show "name_value s = Some (v, rest) \<Longrightarrow> length rest < length s"
    by (auto simp: name_value_def word_value_def Let_def split: list.splits if_splits intro: le_imp_less_Suc)
qed

lemma name_match_shorter: "name_match b s = Some (v, rest) \<Longrightarrow> length rest < length s"
  by (auto simp: name_match_def split: if_splits list.splits dest!: name_value_shorter)

function jail_names :: "bool \<Rightarrow> string \<Rightarrow> string list" where
  "jail_names start [] = []"
| "jail_names start (c # s) =
     (case name_match start (c # s) of
        Some (v, rest) \<Rightarrow> v # jail_names False rest
      | None \<Rightarrow> jail_names False s)"
  by pat_completeness auto
termination
  by (relation "measure (length o snd)") (auto dest: name_match_shorter)

definition discover_jails :: "'w host \<Rightarrow> ('w daemon, string list) prog" where
  "discover_jails h =
     bind_p (run_cmd h False [''jls'', ''-n'', ''name'']) (\<lambda>r.
       return_p (if cp_rc r \<noteq> 0 then [] else filter runtime_name_ok (jail_names True (cp_out r))))"

definition discover_vms :: "manager \<Rightarrow> 'w host \<Rightarrow> ('w daemon, string list) prog" where
  "discover_vms m h =
     bind_p (gets_p (\<lambda>s. vm_available m h (d_world s))) (\<lambda>av.
       if \<not> av then return_p []
       else bind_p (run_cmd h False [c_vm_command (m_config m), ''list'']) (\<lambda>r.
         return_p (if cp_rc r \<noteq> 0 then []
           else filter runtime_name_ok (map hd (filter (\<lambda>fs. fs \<noteq> []) (map split_ws (split_lines (cp_out r))))))))"

definition discover_datasets :: "manager \<Rightarrow> 'w host \<Rightarrow> ('w daemon, string list) prog" where
  "discover_datasets m h =
     (let parent = c_jail_dataset_parent (m_config m);
          prefix = rstrip_char (CHR ''/'') parent @ ''/'' @ runtime_prefix
      in bind_p (run_cmd h False [''zfs'', ''list'', ''-H'', ''-o'', ''name'', ''-r'', parent]) (\<lambda>r.
         return_p (if cp_rc r \<noteq> 0 then []
           else filter (starts_with prefix) (map py_strip (split_lines (cp_out r))))))"

text \<open>
  \<open>member:\s+(epair\d+a)\b\<close>, at every position: no match contains the start of another.
  \<open>word_char\<close> is \<open>\w\<close>, the alphanumeric characters of Latin-1 and the underscore.
\<close>

definition word_char :: "char \<Rightarrow> bool" where
  "word_char c \<longleftrightarrow> ascii_lower c \<or> ascii_upper c \<or> ascii_digit c \<or> c = CHR ''_'' \<or>
     of_char c \<in> {170, 178, 179, 181, 185, 186, 188, 189, 190 :: nat} \<or>
     (192 \<le> (of_char c :: nat) \<and> of_char c \<notin> {215, 247 :: nat})"

definition member_epair :: "string \<Rightarrow> string option" where
  "member_epair s =
     (let t = drop 7 s; u = dropWhile is_space t; digits = takeWhile ascii_digit (drop 5 u);
          rest = drop (length digits) (drop 5 u)
      in if starts_with ''member:'' s \<and> u \<noteq> t \<and> starts_with ''epair'' u \<and> digits \<noteq> [] \<and> starts_with ''a'' rest
            \<and> (tl rest = [] \<or> \<not> word_char (hd (tl rest)))
         then Some (''epair'' @ digits @ ''a'') else None)"

fun epair_members :: "string \<Rightarrow> string list" where
  "epair_members [] = []"
| "epair_members (c # s) =
     (case member_epair (c # s) of Some e \<Rightarrow> e # epair_members s | None \<Rightarrow> epair_members s)"

definition bridge_epairs :: "manager \<Rightarrow> 'w host \<Rightarrow> ('w daemon, string list) prog" where
  "bridge_epairs m h =
     bind_p (run_cmd h False [''ifconfig'', c_bridge_name (m_config m)]) (\<lambda>r.
       return_p (if cp_rc r \<noteq> 0 then [] else epair_members (cp_out r)))"

section \<open>The collection\<close>

definition registered_p :: "('w daemon, (string \<times> record_doc) list) prog" where
  "registered_p = bind_p (gets_p (\<lambda>s. registered (d_registry s))) lift_p"

record gc_state =
  g_retained :: "string list"
  g_cleaned :: "string list"
  g_errors :: "(string \<times> string) list"

text \<open>\<open>try: self.destroy(...); cleaned.append(name); except Exception as error: ...\<close>\<close>

definition gc_try ::
    "manager \<Rightarrow> 'w host \<Rightarrow> bool \<Rightarrow> string \<Rightarrow> pyval \<Rightarrow> bool \<Rightarrow> gc_state \<Rightarrow> ('w daemon, gc_state) prog" where
  "gc_try m h keep name requester force g =
     catch_p
       (then_p (destroy m h name requester force) (return_p (g\<lparr>g_cleaned := g_cleaned g @ [name]\<rparr>)))
       (\<lambda>e. return_p (g\<lparr>g_retained := (if keep then name # g_retained g else g_retained g),
                        g_errors := dir_put name (exn_msg e) (g_errors g)\<rparr>))"

definition gc_visit ::
    "manager \<Rightarrow> 'w host \<Rightarrow> bool \<Rightarrow> int \<Rightarrow> string \<times> record_doc \<Rightarrow> gc_state \<Rightarrow> ('w daemon, gc_state) prog" where
  "gc_visit m h stale_only uid entry g =
     (let name = fst entry; r = snd entry
      in if uid \<noteq> 0 \<and> \<not> py_eq_int (pget r ''owner_uid'') uid then
           return_p (g\<lparr>g_retained := name # g_retained g\<rparr>)
         else
           bind_p (gets_p d_world) (\<lambda>w.
           bind_p (lift_p (owner_alive h w r)) (\<lambda>alive.
             if stale_only \<and> alive then return_p (g\<lparr>g_retained := name # g_retained g\<rparr>)
             else gc_try m h True name (PInt uid) (uid = 0) g)))"

definition discover_all :: "manager \<Rightarrow> 'w host \<Rightarrow> ('w daemon, string list) prog" where
  "discover_all m h =
     bind_p (discover_jails h) (\<lambda>js.
     bind_p (discover_vms m h) (\<lambda>vs.
     bind_p (discover_datasets m h) (\<lambda>ds.
       return_p (js @ vs @ map (after_last (CHR ''/'')) ds))))"

text \<open>
  The names some record refers to: \<open>str(record["epair_host"])\<close> of a value that is not a
  string is never the name of an interface.
\<close>

definition referenced_epairs :: "(string \<times> record_doc) list \<Rightarrow> string list" where
  "referenced_epairs rs =
     filter (\<lambda>e. e \<noteq> []) (List.map_filter (\<lambda>e. py_is_str (pget (snd e) ''epair_host'')) rs)"

definition remove_epair :: "'w host \<Rightarrow> string \<Rightarrow> string list \<Rightarrow> ('w daemon, string list) prog" where
  "remove_epair h i removed =
     bind_p (run_cmd h False [''ifconfig'', i, ''destroy'']) (\<lambda>r.
       return_p (if cp_rc r = 0 then removed @ [i] else removed))"

definition gc_unregistered :: "manager \<Rightarrow> 'w host \<Rightarrow> gc_state \<Rightarrow> ('w daemon, gc_state) prog" where
  "gc_unregistered m h g =
     bind_p (discover_all m h) (\<lambda>found.
       fold_p (\<lambda>name. gc_try m h False name PNone True)
         (sort (remdups (filter (\<lambda>n. n \<notin> set (g_retained g)) found))) g)"

definition gc_epairs :: "manager \<Rightarrow> 'w host \<Rightarrow> ('w daemon, string list) prog" where
  "gc_epairs m h =
     bind_p registered_p (\<lambda>rs.
     bind_p (bridge_epairs m h) (\<lambda>members.
       fold_p (remove_epair h)
         (sort (remdups (filter (\<lambda>i. i \<notin> set (referenced_epairs rs)) members))) []))"

definition gc_addresses :: "manager \<Rightarrow> 'w host \<Rightarrow> int \<Rightarrow> string list \<Rightarrow> ('w daemon, string list) prog" where
  "gc_addresses m h uid active =
     bind_p (if uid = 0 then on_leases (clear_orphans (set active)) else return_p []) (\<lambda>released.
     then_p (foreach_p released (\<lambda>a. then_p (run_cmd h False [''arp'', ''-d'', a]) (return_p ())))
       (return_p released))"

definition gc_reply :: "string list \<Rightarrow> string list \<Rightarrow> string list \<Rightarrow> string list \<Rightarrow> (string \<times> string) list \<Rightarrow> bool \<Rightarrow> pyval" where
  "gc_reply cleaned retained epairs addresses errors stale_only =
     PDict [(''cleaned'', PList (map PStr (sort (remdups cleaned)))),
            (''retained'', PList (map PStr (sort (remdups retained)))),
            (''removed_epairs'', PList (map PStr epairs)),
            (''released_addresses'', PList (map PStr addresses)),
            (''errors'', PDict (map (\<lambda>(n, e). (n, PStr e)) errors)),
            (''stale_only'', PBool stale_only)]"

text \<open>
  The body after the visits: what is registered now is retained, root goes on to what is
  not registered and to the epairs, and the reply is made of the registry read once more.
\<close>

definition gc_report ::
    "manager \<Rightarrow> 'w host \<Rightarrow> bool \<Rightarrow> int \<Rightarrow> gc_state \<Rightarrow> string list \<Rightarrow> ('w daemon, pyval) prog" where
  "gc_report m h stale_only uid g removed_epairs =
     bind_p registered_p (\<lambda>active.
     bind_p (gc_addresses m h uid (map fst active)) (\<lambda>released.
       return_p (gc_reply (g_cleaned g) (map fst active) removed_epairs released (g_errors g) stale_only)))"

definition gc_rest :: "manager \<Rightarrow> 'w host \<Rightarrow> bool \<Rightarrow> int \<Rightarrow> gc_state \<Rightarrow> ('w daemon, pyval) prog" where
  "gc_rest m h stale_only uid g0 =
     bind_p registered_p (\<lambda>after.
       let g1 = g0\<lparr>g_retained := map fst after @ g_retained g0\<rparr>
       in bind_p (if uid = 0 then gc_unregistered m h g1 else return_p g1) (\<lambda>g2.
          bind_p (if uid = 0 then gc_epairs m h else return_p []) (gc_report m h stale_only uid g2)))"

definition gc_collect ::
    "manager \<Rightarrow> 'w host \<Rightarrow> bool \<Rightarrow> int \<Rightarrow> (string \<times> record_doc) list \<Rightarrow> ('w daemon, pyval) prog" where
  "gc_collect m h stale_only uid rs =
     bind_p (fold_p (gc_visit m h stale_only uid) rs \<lparr>g_retained = [], g_cleaned = [], g_errors = []\<rparr>)
       (gc_rest m h stale_only uid)"

definition gc_run :: "manager \<Rightarrow> 'w host \<Rightarrow> bool \<Rightarrow> int \<Rightarrow> ('w daemon, pyval) prog" where
  "gc_run m h stale_only uid = bind_p registered_p (gc_collect m h stale_only uid)"

text \<open>The shared lock the decorator takes is reentrant and adds nothing to one thread's run.\<close>

definition gc :: "manager \<Rightarrow> 'w host \<Rightarrow> pyval \<Rightarrow> pyval \<Rightarrow> ('w daemon, pyval) prog" where
  "gc m h stale_only requester =
     (case requester of
        PInt uid \<Rightarrow>
          (if uid < 0 then raise_p PermissionError ''Invalid requester UID''
           else case stale_only of
                  PBool b \<Rightarrow> gc_run m h b uid
                | _ \<Rightarrow> raise_p ValueError ''stale_only must be boolean'')
      | _ \<Rightarrow> raise_p PermissionError ''Invalid requester UID'')"

section \<open>What a collection leaves alone\<close>

lemma registered_p_run:
  "registered_p s = (case registered (d_registry s) of Inl e \<Rightarrow> (Raise e, s) | Inr rs \<Rightarrow> (Ret rs, s))"
  by (simp add: registered_p_def lift_p_def split: sum.split)

lemma registered_p_Ret: "registered_p s = (Ret rs, t) \<longleftrightarrow> registered (d_registry s) = Inr rs \<and> t = s"
  by (auto simp: registered_p_run split: sum.splits)

lemma keeps_registered [keeps_intros]: "keeps f registered_p"
  by (simp add: keeps_def registered_p_run split: sum.split)

lemma keeps_discover [keeps_intros]:
  "daemon_part f \<Longrightarrow> keeps f (discover_all m h)"
  "daemon_part f \<Longrightarrow> keeps f (bridge_epairs m h)"
  "daemon_part f \<Longrightarrow> keeps f (remove_epair h i xs)"
  unfolding discover_all_def discover_jails_def discover_vms_def discover_datasets_def bridge_epairs_def remove_epair_def Let_def
  by (auto intro!: keeps_intros)

lemma keeps_gc_epairs [keeps_intros]: "daemon_part f \<Longrightarrow> keeps f (gc_epairs m h)"
  unfolding gc_epairs_def by (intro keeps_intros)

lemma keeps_gc_try:
  assumes "keeps f (destroy m h name q force)"
  shows "keeps f (gc_try m h k name q force g)"
  unfolding gc_try_def by (intro keeps_intros assms)

text \<open>The registry entry of a runtime and whether it holds an address.\<close>

definition holding :: "string \<Rightarrow> nat \<Rightarrow> 'w daemon \<Rightarrow> reg_file option \<times> bool" where
  "holding n a s = (record_entry n s, lease_owner (d_leases s) a = Some n)"

lemma holding_part: "daemon_part (holding n a)"
  by (simp add: daemon_part_def holding_def)

lemma runtime_file_foreign: "runtime_name_ok n \<Longrightarrow> n' \<noteq> n \<Longrightarrow> foreign_file n' (registry_path n)"
  by (auto simp: foreign_file_def registry_path_def starts_with_def dest!: runtime_name_hd)

lemma keeps_holding_destroy:
  assumes "runtime_name_ok n" "n' \<noteq> n"
  shows "keeps (holding n a) (destroy m h n' q force)"
proof -
  have "keeps (\<lambda>s. lease_owner (d_leases s) a = Some n) (destroy m h n' q force)"
    using destroy_frames(2) [of n' "{n'}" a n m h q force] assms(2) by (auto simp: other_lease_def [abs_def])
  from keeps_pair [OF destroy_frames(1) [OF runtime_file_foreign [OF assms]] this]
  show ?thesis by (simp add: holding_def [abs_def])
qed

text \<open>
  A record a collection does not touch: it is another user's, or its owner is alive and
  only stale runtimes are collected.
\<close>

definition gc_spares :: "'w host \<Rightarrow> bool \<Rightarrow> int \<Rightarrow> record_doc \<Rightarrow> bool" where
  "gc_spares h stale_only uid r \<longleftrightarrow>
     (uid \<noteq> 0 \<and> \<not> py_eq_int (pget r ''owner_uid'') uid) \<or> (stale_only \<and> (\<forall>w. owner_alive h w r = Inr True))"

lemma keeps_gc_visit:
  assumes "runtime_name_ok n" "fst x \<noteq> n \<or> gc_spares h b uid (snd x)"
  shows "keeps (holding n a) (gc_visit m h b uid x g)"
proof (cases "fst x = n")
  case False
  then show ?thesis
    unfolding gc_visit_def Let_def
    by (intro keeps_intros keeps_gc_try keeps_holding_destroy assms(1))
next
  case True
  with assms(2) have "gc_spares h b uid (snd x)" by simp
  then show ?thesis
    unfolding gc_spares_def
    by (rule disjE) (auto simp: gc_visit_def Let_def keeps_def bind_p_def lift_p_def)
qed

lemma holding_registered:
  assumes "registered (d_registry s) = Inr rs" "runtime_name_ok n" "load_registry (d_registry s0) n = Inr (Some r)"
    and "holding n a s = holding n a s0"
  shows "(n, r) \<in> set rs"
proof -
  have "load_registry (d_registry s) n = load_registry (d_registry s0) n"
    by (rule load_registry_cong) (use assms(4) in \<open>simp add: holding_def\<close>)
  with registered_iff [OF assms(1)] assms(2,3) show ?thesis by simp
qed

lemma keeps_gc_unregistered:
  assumes "runtime_name_ok n" "n \<in> set (g_retained g)"
  shows "keeps (holding n a) (gc_unregistered m h g)"
  unfolding gc_unregistered_def
  by (intro keeps_bind keeps_discover holding_part keeps_fold_set keeps_gc_try keeps_holding_destroy assms(1))
    (use assms(2) in auto)

lemma keeps_clear_orphans:
  assumes "n \<in> active"
  shows "keeps (holding n a) (on_leases (clear_orphans active))"
proof (rule keepsI)
  fix s :: "'w daemon"
  obtain r d where c: "clear_orphans active (d_leases s) = (r, d)" by (cases "clear_orphans active (d_leases s)")
  have "lease_owner d a = Some n \<longleftrightarrow> lease_owner (d_leases s) a = Some n"
    using clear_orphans_get [OF c, of "lease_path a"]
  proof
    assume "dir_get d (lease_path a) = dir_get (d_leases s) (lease_path a)"
    then show ?thesis by (simp add: lease_owner_def)
  qed (use assms in \<open>auto simp: lease_owner_Some is_orphan_def\<close>)
  then show "holding n a (snd (on_leases (clear_orphans active) s)) = holding n a s"
    by (simp add: on_leases_def c holding_def)
qed

lemma keeps_gc_addresses:
  assumes "n \<in> set active"
  shows "keeps (holding n a) (gc_addresses m h uid active)"
  unfolding gc_addresses_def
  by (intro keeps_intros keeps_clear_orphans holding_part assms)

text \<open>
  Programs that keep the entry and the addresses of \<open>n\<close> whenever its record is \<open>r\<close>: the
  registry that is read along the way then lists \<open>n\<close> with \<open>r\<close>, and with no other record.
\<close>

definition secures :: "string \<Rightarrow> record_doc \<Rightarrow> nat \<Rightarrow> ('w daemon, 'a) prog \<Rightarrow> bool" where
  "secures n r a m \<longleftrightarrow>
     (\<forall>s. load_registry (d_registry s) n = Inr (Some r) \<longrightarrow> holding n a (snd (m s)) = holding n a s)"

lemma secures_keeps: "keeps (holding n a) m \<Longrightarrow> secures n r a m"
  by (simp add: secures_def keeps_def)

lemma holding_load: "holding n a t = holding n a s \<Longrightarrow> load_registry (d_registry t) n = load_registry (d_registry s) n"
  by (rule load_registry_cong) (simp add: holding_def)

lemma secures_bind:
  fixes m0 :: "('w daemon, 'x) prog"
  assumes "secures n r a m0" "\<And>x. secures n r a (k x)"
  shows "secures n r a (bind_p m0 k)"
  unfolding secures_def
proof (intro allI impI)
  fix s :: "'w daemon"
  assume load: "load_registry (d_registry s) n = Inr (Some r)"
  obtain q t where m: "m0 s = (q, t)" by (cases "m0 s")
  have t: "holding n a t = holding n a s" using assms(1) load m by (auto simp: secures_def)
  with load holding_load [OF t] assms(2) show "holding n a (snd (bind_p m0 k s)) = holding n a s"
    by (cases q) (auto simp: bind_p_def m secures_def)
qed

lemma secures_registered:
  assumes "runtime_name_ok n"
    and "\<And>rs. n \<in> set (map fst rs) \<Longrightarrow> (\<And>x. x \<in> set rs \<Longrightarrow> fst x = n \<Longrightarrow> snd x = r) \<Longrightarrow> secures n r a (k rs)"
  shows "secures n r a (bind_p registered_p k)"
  unfolding secures_def
proof (intro allI impI)
  fix s :: "'a daemon"
  assume load: "load_registry (d_registry s) n = Inr (Some r)"
  show "holding n a (snd (bind_p registered_p k s)) = holding n a s"
  proof (cases "registered (d_registry s)")
    case (Inr rs)
    have rs: "(n, r) \<in> set rs" using registered_iff [OF Inr, of n r] assms(1) load by simp
    have "snd x = r" if "x \<in> set rs" "fst x = n" for x
      using registered_iff [OF Inr, of n "snd x"] that load by auto
    with assms(2) [of rs] image_eqI [of n fst "(n, r)", OF _ rs] have "secures n r a (k rs)" by simp
    with load have "holding n a (snd (k rs s)) = holding n a s" unfolding secures_def by blast
    then show ?thesis by (simp add: bind_p_def registered_p_run Inr)
  qed (simp add: bind_p_def registered_p_run)
qed

lemma gc_run_secures:
  assumes ok: "runtime_name_ok n" "gc_spares h b uid r"
  shows "secures n r a (gc_run m h b uid)"
  unfolding gc_run_def
proof (rule secures_registered [OF ok(1)])
  fix rs
  assume rs: "\<And>x. x \<in> set rs \<Longrightarrow> fst x = n \<Longrightarrow> snd x = r"
  have visits: "keeps (holding n a) (fold_p (gc_visit m h b uid) rs g)" for g
    by (rule keeps_fold_set, rule keeps_gc_visit [OF ok(1)]) (use rs ok(2) in auto)
  have report: "secures n r a (gc_report m h b uid g ep)" for g ep
    unfolding gc_report_def
    by (rule secures_registered [OF ok(1)], rule secures_keeps) (intro keeps_bind keeps_gc_addresses keeps_prim)
  have rest: "secures n r a (gc_rest m h b uid g0)" for g0
    unfolding gc_rest_def Let_def
  proof (rule secures_registered [OF ok(1)])
    fix after
    assume n: "n \<in> set (map fst after)"
    have unreg: "keeps (holding n a) (gc_unregistered m h (g0\<lparr>g_retained := map fst after @ g_retained g0\<rparr>))"
      by (rule keeps_gc_unregistered [OF ok(1)]) (use n in simp)
    have mid: "secures n r a (bind_p (if uid = 0 then gc_epairs m h else return_p []) (gc_report m h b uid g))" for g
      by (rule secures_bind [OF secures_keeps report]) (intro keeps_if keeps_gc_epairs holding_part keeps_prim)
    show "secures n r a (bind_p (if uid = 0 then gc_unregistered m h (g0\<lparr>g_retained := map fst after @ g_retained g0\<rparr>)
          else return_p (g0\<lparr>g_retained := map fst after @ g_retained g0\<rparr>)) (\<lambda>g2.
        bind_p (if uid = 0 then gc_epairs m h else return_p []) (gc_report m h b uid g2)))"
      by (rule secures_bind [OF secures_keeps mid]) (intro keeps_if unreg keeps_prim)
  qed
  show "secures n r a (gc_collect m h b uid rs)"
    unfolding gc_collect_def by (rule secures_bind [OF secures_keeps [OF visits] rest])
qed

section \<open>What a collection reports\<close>

lemma dir_put_keeps_domain: "dir_get d n \<noteq> None \<Longrightarrow> dir_get (dir_put k v d) n \<noteq> None"
  by (simp add: dir_simps)

text \<open>\<open>n\<close> was cleaned and its record is gone, or it failed and its entry is still \<open>e\<close>.\<close>

definition settled :: "string \<Rightarrow> reg_file option \<Rightarrow> gc_state \<Rightarrow> 'w daemon \<Rightarrow> bool" where
  "settled n e g s \<longleftrightarrow>
     (n \<in> set (g_cleaned g) \<and> record_entry n s = None) \<or> (dir_get (g_errors g) n \<noteq> None \<and> record_entry n s = e)"

lemma destroy_Ret_entry: "destroy m h name q force s = (Ret x, t) \<Longrightarrow> record_entry name t = None"
  by (elim destroy_cases destroy_body_Ret)
    (auto simp: then_p_Ret_iff delete_record_def on_registry_def delete_registry_def dir_simps)

lemma destroy_Raise_registry: "destroy m h name q force s = (Raise e, t) \<Longrightarrow> d_registry t = d_registry s"
  by (elim destroy_cases) (auto dest: destroy_body_Raise)

lemma gc_try_cases:
  assumes "gc_try m h k name q force g s = (Ret g', t)"
  obtains (Cleaned) x where "destroy m h name q force s = (Ret x, t)" "g' = g\<lparr>g_cleaned := g_cleaned g @ [name]\<rparr>"
  | (Failed) e where "destroy m h name q force s = (Raise e, t)"
      "g' = g\<lparr>g_retained := (if k then name # g_retained g else g_retained g),
              g_errors := dir_put name (exn_msg e) (g_errors g)\<rparr>"
  using assms by (auto simp: gc_try_def catch_p_Ret_iff then_p_Ret_iff then_p_Raise_iff)

lemma gc_try_settles:
  assumes "gc_try m h k name q force g s = (Ret g', t)" "runtime_name_ok n"
    and "settled n e g s \<or> record_entry n s = e"
  shows "settled n e g' t \<or> (record_entry n t = e \<and> name \<noteq> n)"
  using assms(1)
proof (cases rule: gc_try_cases)
  case (Cleaned x)
  show ?thesis
  proof (cases "name = n")
    case True
    with Cleaned(2) destroy_Ret_entry [OF Cleaned(1)] show ?thesis by (simp add: settled_def)
  next
    case False
    with keepsD [OF destroy_frames(1) [OF runtime_file_foreign [OF assms(2) False]] Cleaned(1)] Cleaned(2) assms(3)
    show ?thesis by (auto simp: settled_def)
  qed
next
  case (Failed x)
  with destroy_Raise_registry [OF Failed(1)] assms(3) show ?thesis
    by (auto simp: settled_def dir_simps)
qed

lemma gc_visit_cases:
  assumes "gc_visit m h b uid x g s = (Ret g', t)"
  obtains (Kept) "g' = g\<lparr>g_retained := fst x # g_retained g\<rparr>" "t = s"
  | (Tried) "gc_try m h True (fst x) (PInt uid) (uid = 0) g s = (Ret g', t)"
  using assms by (auto simp: gc_visit_def Let_def bind_p_Ret_iff lift_p_Ret split: if_splits)

lemma gc_visit_settles:
  assumes "gc_visit m h b uid x g s = (Ret g', t)" "runtime_name_ok n" "settled n e g s \<or> record_entry n s = e"
  shows "settled n e g' t \<or> record_entry n t = e"
  using assms(1)
proof (cases rule: gc_visit_cases)
  case Kept
  with assms(3) show ?thesis by (auto simp: settled_def)
next
  case Tried
  from gc_try_settles [OF this assms(2,3)] show ?thesis by blast
qed

text \<open>A record a collection goes for: the requester's, or anybody's for root; and dead, or not only stale ones.\<close>

definition gc_targets :: "'w host \<Rightarrow> bool \<Rightarrow> int \<Rightarrow> record_doc \<Rightarrow> bool" where
  "gc_targets h stale_only uid r \<longleftrightarrow>
     (uid = 0 \<or> py_eq_int (pget r ''owner_uid'') uid) \<and> (stale_only \<longrightarrow> (\<forall>w. owner_alive h w r = Inr False))"

lemma gc_visit_target:
  assumes "gc_visit m h b uid (n, r) g s = (Ret g', t)" "runtime_name_ok n" "settled n e g s \<or> record_entry n s = e"
    and "gc_targets h b uid r"
  shows "settled n e g' t"
proof -
  have "gc_try m h True n (PInt uid) (uid = 0) g s = (Ret g', t)"
    using assms(1,4) by (auto simp: gc_visit_def gc_targets_def Let_def bind_p_Ret_iff lift_p_Ret split: if_splits)
  from gc_try_settles [OF this assms(2,3)] show ?thesis by simp
qed

lemma gc_try_settled:
  assumes "gc_try m h k name q force g s = (Ret g', t)" "runtime_name_ok n" "settled n e g s"
  shows "settled n e g' t"
  using assms(1)
proof (cases rule: gc_try_cases)
  case (Cleaned x)
  show ?thesis
  proof (cases "name = n")
    case True
    with Cleaned(2) destroy_Ret_entry [OF Cleaned(1)] show ?thesis by (simp add: settled_def)
  next
    case False
    with keepsD [OF destroy_frames(1) [OF runtime_file_foreign [OF assms(2) False]] Cleaned(1)] Cleaned(2) assms(3)
    show ?thesis by (auto simp: settled_def)
  qed
next
  case (Failed x)
  with destroy_Raise_registry [OF Failed(1)] assms(3) show ?thesis
    by (auto simp: settled_def dir_simps)
qed

lemma gc_visit_settled:
  assumes "gc_visit m h b uid x g s = (Ret g', t)" "runtime_name_ok n" "settled n e g s"
  shows "settled n e g' t"
  using assms(1)
proof (cases rule: gc_visit_cases)
  case Kept
  with assms(3) show ?thesis by (auto simp: settled_def)
next
  case Tried
  from gc_try_settled [OF this assms(2,3)] show ?thesis .
qed

lemma gc_visits_target:
  assumes "fold_p (gc_visit m h b uid) rs g s = (Ret g', t)" "(n, r) \<in> set rs" "runtime_name_ok n" "gc_targets h b uid r"
  shows "settled n (record_entry n s) g' t"
proof -
  let ?e = "record_entry n s"
  obtain xs ys where rs: "rs = xs @ (n, r) # ys" using assms(2) by (meson split_list)
  obtain g1 s1 g2 s2 where
    before: "fold_p (gc_visit m h b uid) xs g s = (Ret g1, s1)" and
    visit: "gc_visit m h b uid (n, r) g1 s1 = (Ret g2, s2)" and
    rest: "fold_p (gc_visit m h b uid) ys g2 s2 = (Ret g', t)"
    using assms(1) by (auto simp: rs fold_p_append_Ret bind_p_Ret_iff)
  have "settled n ?e g1 s1 \<or> record_entry n s1 = ?e"
    by (rule fold_p_inv [OF before, where I = "\<lambda>g s'. settled n ?e g s' \<or> record_entry n s' = ?e"])
      (use gc_visit_settles assms(3) in blast)+
  from gc_visit_target [OF visit assms(3) this assms(4)] have "settled n ?e g2 s2" .
  then show ?thesis
    by (rule fold_p_inv [OF rest, where I = "settled n ?e"]) (rule gc_visit_settled [OF _ assms(3)])
qed

lemma settled_cong:
  "settled n e g s \<Longrightarrow> record_entry n t = record_entry n s \<Longrightarrow> g_cleaned g' = g_cleaned g \<Longrightarrow> g_errors g' = g_errors g \<Longrightarrow>
     settled n e g' t"
  by (simp add: settled_def)

lemma gc_unregistered_settled:
  assumes "gc_unregistered m h g s = (Ret g', t)" "runtime_name_ok n" "settled n e g s"
  shows "settled n e g' t"
proof -
  obtain found s1 where f: "discover_all m h s = (Ret found, s1)"
      "fold_p (\<lambda>name. gc_try m h False name PNone True)
         (sort (remdups (filter (\<lambda>n. n \<notin> set (g_retained g)) found))) g s1 = (Ret g', t)"
    using assms(1) by (auto simp: gc_unregistered_def bind_p_Ret_iff)
  have "settled n e g s1"
    by (rule settled_cong [OF assms(3)])
      (use keepsD [OF keeps_discover(1) [OF daemon_part_intros(1)] f(1)] in simp_all)
  then show ?thesis
    by (rule fold_p_inv [OF f(2), where I = "settled n e"]) (rule gc_try_settled [OF _ assms(2)])
qed

lemma keeps_gc_addresses_registry: "keeps d_registry (gc_addresses m h uid active)"
  unfolding gc_addresses_def
  by (intro keeps_intros keeps_on_leases_other daemon_part_intros) simp

lemma gc_collect_Ret:
  assumes "gc_collect m h b uid rs s = (Ret out, t)"
  obtains g0 s1 and after :: "(string \<times> record_doc) list" and g2 s2 ep s3 active ad where
    "fold_p (gc_visit m h b uid) rs \<lparr>g_retained = [], g_cleaned = [], g_errors = []\<rparr> s = (Ret g0, s1)"
    "(if uid = 0 then gc_unregistered m h (g0\<lparr>g_retained := map fst after @ g_retained g0\<rparr>)
      else return_p (g0\<lparr>g_retained := map fst after @ g_retained g0\<rparr>)) s1 = (Ret g2, s2)"
    "d_registry s3 = d_registry s2" "registered (d_registry s3) = Inr active"
    "gc_addresses m h uid (map fst active) s3 = (Ret ad, t)"
    "out = gc_reply (g_cleaned g2) (map fst active) ep ad (g_errors g2) b"
proof -
  from assms obtain g0 s1 where 0: "fold_p (gc_visit m h b uid) rs \<lparr>g_retained = [], g_cleaned = [], g_errors = []\<rparr> s = (Ret g0, s1)"
      "gc_rest m h b uid g0 s1 = (Ret out, t)"
    by (auto simp: gc_collect_def bind_p_Ret_iff)
  define k where "k after = g0\<lparr>g_retained := map fst after @ g_retained g0\<rparr>" for after :: "(string \<times> record_doc) list"
  from 0(2) obtain after where a: "registered (d_registry s1) = Inr after"
    by (cases "registered (d_registry s1)") (auto simp: gc_rest_def bind_p_def registered_p_run)
  with 0(2) have "bind_p (if uid = 0 then gc_unregistered m h (k after) else return_p (k after)) (\<lambda>g2.
      bind_p (if uid = 0 then gc_epairs m h else return_p []) (gc_report m h b uid g2)) s1 = (Ret out, t)"
    by (simp only: gc_rest_def Let_def bind_p_def [of registered_p] registered_p_run k_def sum.case prod.case res.case)
  then obtain g2 s2 where 1: "(if uid = 0 then gc_unregistered m h (k after) else return_p (k after)) s1 = (Ret g2, s2)"
      "bind_p (if uid = 0 then gc_epairs m h else return_p []) (gc_report m h b uid g2) s2 = (Ret out, t)"
    by (subst (asm) bind_p_Ret_iff, elim exE conjE) (rule that)
  from 1(2) obtain ep s3 where 2: "(if uid = 0 then gc_epairs m h else return_p []) s2 = (Ret ep, s3)"
      "gc_report m h b uid g2 ep s3 = (Ret out, t)"
    unfolding bind_p_Ret_iff by blast
  from 2(2) obtain active ad where 3: "registered (d_registry s3) = Inr active"
      "gc_addresses m h uid (map fst active) s3 = (Ret ad, t)"
      "out = gc_reply (g_cleaned g2) (map fst active) ep ad (g_errors g2) b"
    by (auto simp: gc_report_def bind_p_Ret_iff registered_p_Ret)
  have "keeps d_registry (if uid = 0 then gc_epairs m h else return_p [])"
    by (intro keeps_if keeps_gc_epairs keeps_prim daemon_part_intros)
  from keepsD [OF this 2(1)] have "d_registry s3 = d_registry s2" .
  from that [OF 0(1) 1(1) [unfolded k_def] this 3] show thesis .
qed

section \<open>Examples\<close>

lemma registered_empty: "(\<And>p. dir_get d p = None) \<Longrightarrow> registered d = Inr []"
proof -
  assume "\<And>p. dir_get d p = None"
  then have "n \<notin> set (registered_names d)" for n by (simp add: registered_names_iff)
  then have "registered_names d = []" by (metis list.set_intros(1) neq_Nil_conv)
  then show "registered d = Inr []" by (simp add: registered_def)
qed

text \<open>The registry of one record of \<open>example_name\<close>.\<close>

lemma registered_single: "registered [(registry_path example_name, RFile b)] =
    (case load_registry [(registry_path example_name, RFile b)] example_name of
       Inl e \<Rightarrow> Inl e | Inr None \<Rightarrow> Inr [] | Inr (Some r) \<Rightarrow> Inr [(example_name, r)])"
proof -
  have "registered_names [(registry_path example_name, RFile b)] = [example_name]"
    using example_name_ok
    by (simp add: registered_names_def dir_names_def dir_get_def stem_json_def registry_path_def example_name_def
        runtime_prefix_def starts_with_def ends_with_def)
  then show ?thesis
    by (simp add: registered_def split: sum.split option.split)
qed

lemma failing_run:
  "run_cmd (failing_host (\<lambda>_. False)) False c s =
     (Ret \<lparr>cp_rc = 1, cp_out = [], cp_err = []\<rparr>, s\<lparr>d_log := d_log s @ [Ran c (Completed 1 [] [])]\<rparr>)"
  by (simp add: run_cmd_def run_timeout_def spawn_def failing_host_def bind_p_def)

section \<open>Properties\<close>

text \<open>
  C10. A collection never touches what it has to spare: the record of a runtime of another
  user (when the requester is not root), or of one whose owner is alive (when only stale
  runtimes are collected), and the addresses the runtime holds are, however the collection
  ends, as they were, even if the machine reports the runtime among what it discovers.
\<close>

theorem gc_spares_others:
  assumes "gc m h (PBool b) (PInt uid) s = (out, t)" "runtime_name_ok n"
    and "load_registry (d_registry s) n = Inr (Some r)"
    and "(uid \<noteq> 0 \<and> \<not> py_eq_int (pget r ''owner_uid'') uid) \<or> (b \<and> (\<forall>w. owner_alive h w r = Inr True))"
  shows "dir_get (d_registry t) (registry_path n) = dir_get (d_registry s) (registry_path n) \<and>
     (lease_owner (d_leases t) a = Some n \<longleftrightarrow> lease_owner (d_leases s) a = Some n)"
proof (cases "uid < 0")
  case True
  with assms(1) show ?thesis by (simp add: gc_def)
next
  case False
  with assms(1) have "gc_run m h b uid s = (out, t)" by (simp add: gc_def)
  with gc_run_secures [OF assms(2), of h b uid r a m] assms(3,4) have "holding n a t = holding n a s"
    by (force simp: secures_def gc_spares_def)
  then show ?thesis by (simp add: holding_def)
qed

theorem gc_spares_others_witness:
  "dir_get (d_registry (snd (gc example_manager example_host (PBool True) (PInt 1002) example_daemon)))
     (registry_path example_name) = dir_get (d_registry example_daemon) (registry_path example_name)"
proof -
  obtain out t where t: "gc example_manager example_host (PBool True) (PInt 1002) example_daemon = (out, t)"
    by (cases "gc example_manager example_host (PBool True) (PInt 1002) example_daemon")
  from gc_spares_others [OF t example_name_ok example_loaded] t show ?thesis
    by (simp add: example_record_def pget_def dir_get_def)
qed

text \<open>
  A collection that returns has dealt with every runtime it was to collect and says
  how: the name is reported as cleaned and its record is gone, or it has an entry among the
  errors, is reported as retained, and its record is as before. One failure does not keep
  the others from being collected.
\<close>

lemma gc_reports_targets:
  assumes "gc m h (PBool b) (PInt uid) s = (Ret out, t)" "runtime_name_ok n"
    and "load_registry (d_registry s) n = Inr (Some r)"
    and "uid = 0 \<or> py_eq_int (pget r ''owner_uid'') uid" "b \<Longrightarrow> (\<And>w. owner_alive h w r = Inr False)"
  shows "\<exists>cleaned active epairs addresses errors.
     out = gc_reply cleaned active epairs addresses errors b \<and>
     (n \<in> set cleaned \<and> load_registry (d_registry t) n = Inr None \<or>
      dir_get errors n \<noteq> None \<and> n \<in> set active \<and>
        dir_get (d_registry t) (registry_path n) = dir_get (d_registry s) (registry_path n))"
proof -
  have target: "gc_targets h b uid r" using assms(4,5) by (simp add: gc_targets_def)
  have "gc_run m h b uid s = (Ret out, t)" using assms(1) by (simp add: gc_def split: if_splits)
  then obtain rs where rs: "registered (d_registry s) = Inr rs" "gc_collect m h b uid rs s = (Ret out, t)"
    by (auto simp: gc_run_def bind_p_Ret_iff registered_p_Ret)
  have n: "(n, r) \<in> set rs" using registered_iff [OF rs(1)] assms(2,3) by simp
  from rs(2) obtain g0 s1 and after :: "(string \<times> record_doc) list" and g2 s2 ep s3 active ad where c:
    "fold_p (gc_visit m h b uid) rs \<lparr>g_retained = [], g_cleaned = [], g_errors = []\<rparr> s = (Ret g0, s1)"
    "(if uid = 0 then gc_unregistered m h (g0\<lparr>g_retained := map fst after @ g_retained g0\<rparr>)
      else return_p (g0\<lparr>g_retained := map fst after @ g_retained g0\<rparr>)) s1 = (Ret g2, s2)"
    "d_registry s3 = d_registry s2" "registered (d_registry s3) = Inr active"
    "gc_addresses m h uid (map fst active) s3 = (Ret ad, t)"
    "out = gc_reply (g_cleaned g2) (map fst active) ep ad (g_errors g2) b"
    by (rule gc_collect_Ret)
  have "settled n (record_entry n s) (g0\<lparr>g_retained := map fst after @ g_retained g0\<rparr>) s1"
    by (rule settled_cong [OF gc_visits_target [OF c(1) n assms(2) target]]) simp_all
  with c(2) gc_unregistered_settled [OF _ assms(2)] have "settled n (record_entry n s) g2 s2"
    by (auto split: if_splits)
  moreover have reg: "d_registry t = d_registry s2" using keepsD [OF keeps_gc_addresses_registry c(5)] c(3) by simp
  moreover have "n \<in> set (map fst active)" if "record_entry n s2 = record_entry n s"
  proof -
    have "load_registry (d_registry s3) n = Inr (Some r)"
      using load_registry_cong [of "d_registry s2" n "d_registry s"] that c(3) assms(3) by simp
    with registered_iff [OF c(4), of n r] assms(2) show ?thesis by force
  qed
  ultimately have "n \<in> set (g_cleaned g2) \<and> load_registry (d_registry t) n = Inr None \<or>
      dir_get (g_errors g2) n \<noteq> None \<and> n \<in> set (map fst active) \<and> record_entry n t = record_entry n s"
    unfolding settled_def reg by (elim disjE conjE) (simp add: load_registry_def, blast)
  with c(6) show ?thesis by blast
qed

lemma example_gc:
  "\<exists>out t. gc example_manager (failing_host (\<lambda>_. False)) (PBool False) (PInt 1001) example_daemon = (Ret out, t) \<and>
     d_registry t = []"
proof -
  obtain t where t: "destroy example_manager (failing_host (\<lambda>_. False)) example_name (PInt 1001) False example_daemon =
     (Ret (PDict [(''name'', PStr example_name), (''removed'', PList [])]), t)" by (rule example_destroy)
  have "dir_get (d_registry t) p = None" for p
  proof (cases "p = registry_path example_name")
    case True
    with destroy_Ret_entry [OF t] show ?thesis by simp
  next
    case False
    from t have "dir_get (d_registry t) p = dir_get (d_registry example_daemon) p"
      by (cases rule: destroy_cases)
        (use keepsD [OF destroy_body_other_record [OF False]] in fastforce)+
    with False show ?thesis by (simp add: example_daemon_def dir_get_def)
  qed
  then have empty: "d_registry t = []" "registered [] = Inr []"
    using dirs.names_iff [of _ "d_registry t"] registered_empty [of "[]"]
    by (auto simp: dir_names_def dir_get_def) (metis all_not_in_conv image_is_empty set_empty)
  have reg: "registered (d_registry example_daemon) = Inr [(example_name, example_record)]"
    using registered_single example_loaded by (simp add: example_daemon_def)
  have visit: "gc_visit example_manager (failing_host (\<lambda>_. False)) False 1001 (example_name, example_record) g example_daemon =
      (Ret (g\<lparr>g_cleaned := g_cleaned g @ [example_name]\<rparr>), t)" for g
    using t by (simp add: gc_visit_def gc_try_def catch_p_def then_p_def bind_p_def lift_p_def owner_alive_def
        example_record_def pget_def dir_get_def)
  show ?thesis
    by (simp add: gc_def gc_run_def gc_collect_def gc_rest_def gc_report_def gc_addresses_def bind_p_def registered_p_run
        reg visit then_p_def empty)
qed

lemma gc_reports_targets_witness:
  "\<exists>out t. gc example_manager (failing_host (\<lambda>_. False)) (PBool False) (PInt 1001) example_daemon = (Ret out, t) \<and>
     load_registry (d_registry t) example_name = Inr None"
proof -
  obtain out t where t: "gc example_manager (failing_host (\<lambda>_. False)) (PBool False) (PInt 1001) example_daemon = (Ret out, t)"
    "d_registry t = []" using example_gc by blast
  have "py_eq_int (pget example_record ''owner_uid'') 1001" by (simp add: example_record_def pget_def dir_get_def)
  with gc_reports_targets [OF t(1) example_name_ok example_loaded] t show ?thesis
    by (auto simp: load_registry_def dir_get_def)
qed

text \<open>
  C20. Root's collection leaves no lease behind for a name without a record: when it
  returns, every address lease that can be read belongs to a registered runtime.
\<close>

theorem gc_no_orphan_lease:
  assumes "gc m h (PBool b) (PInt 0) s = (Ret out, t)" "lease_owner (d_leases t) a = Some v"
  shows "\<exists>r. load_registry (d_registry t) v = Inr (Some r)"
proof -
  obtain rs where "gc_collect m h b 0 rs s = (Ret out, t)"
    using assms(1) by (auto simp: gc_def gc_run_def bind_p_Ret_iff registered_p_Ret)
  then obtain s3 active ad where c: "registered (d_registry s3) = Inr active"
      "gc_addresses m h 0 (map fst active) s3 = (Ret ad, t)"
    by (rule gc_collect_Ret)
  then obtain s4 where s4: "on_leases (clear_orphans (set (map fst active))) s3 = (Ret ad, s4)"
      "d_leases t = d_leases s4" "d_registry t = d_registry s3"
  proof -
    obtain released s4 where *: "on_leases (clear_orphans (set (map fst active))) s3 = (Ret released, s4)"
      "then_p (foreach_p released (\<lambda>a. then_p (run_cmd h False [''arp'', ''-d'', a]) (return_p ())))
        (return_p released) s4 = (Ret ad, t)"
      using c(2) by (auto simp: gc_addresses_def bind_p_Ret_iff)
    have "keeps d_leases (then_p (foreach_p released (\<lambda>a. then_p (run_cmd h False [''arp'', ''-d'', a]) (return_p ())))
        (return_p released) :: ('a daemon, string list) prog)"
      by (intro keeps_intros) auto
    from keepsD [OF this *(2)] * keepsD [OF keeps_gc_addresses_registry c(2)] that show thesis
      by (auto simp: then_p_Ret_iff)
  qed
  obtain d where d: "clear_orphans (set (map fst active)) (d_leases s3) = (Ret ad, d)" "d_leases s4 = d"
    using s4(1) by (auto simp: on_leases_def split: prod.splits)
  have "ends_with ''.lease'' (lease_path a)" by (simp add: lease_path_def)
  with clear_orphans_Ret_get [OF d(1), of "lease_path a"] assms(2) s4(2) d(2) have "v \<in> set (map fst active)"
    by (auto simp: lease_owner_Some is_orphan_def split: if_splits)
  then obtain r where "(v, r) \<in> set active" by auto
  with registered_iff [OF c(1)] s4(3) show ?thesis by auto
qed

definition owned_lease_daemon :: "unit daemon" where
  "owned_lease_daemon = owned_daemon\<lparr>d_leases := example_lease_dir\<rparr>"

lemma owned_record_loaded: "load_registry (d_registry owned_lease_daemon) example_name = Inr (Some owned_record)"
proof -
  have "json_ok (PDict owned_record)" "json_norm (PDict owned_record) = PDict owned_record"
    by (simp_all add: owned_record_def)
  then show ?thesis
    using load_registry_written [of "d_registry owned_lease_daemon" example_name owned_record]
    by (simp add: owned_lease_daemon_def owned_daemon_def dir_get_def del: json_norm.simps json_ok.simps)
qed

lemma owned_alive: "owner_alive (failing_host (\<lambda>_. False)) w owned_record = Inr True"
proof -
  have "query_process_identity (failing_host (\<lambda>_. False)) () 100 = query_process_identity example_host () 100"
    by (rule query_cong) (simp_all add: failing_host_def)
  then show ?thesis
    using fingerprint_nonempty [of 1001 "''Mon''"]
    by (simp add: owner_alive_def owned_record_def pget_def dir_get_def process_matches_def example_host_query)
qed

lemma owned_gc:
  "\<exists>out t. gc example_manager (failing_host (\<lambda>_. False)) (PBool True) (PInt 0) owned_lease_daemon = (Ret out, t) \<and>
     lease_owner (d_leases t) 167772162 = Some example_name"
proof -
  have reg: "registered (d_registry owned_lease_daemon) = Inr [(example_name, owned_record)]"
    using registered_single owned_record_loaded by (simp add: owned_lease_daemon_def owned_daemon_def)
  have strip: "py_strip (example_name @ [CHR 0x0A]) = example_name"
    using runtime_name_clean [OF example_name_ok] by (simp add: clean_owner_def)
  have clear: "clear_orphans {example_name} example_lease_dir = (Ret [], example_lease_dir)"
    by (simp add: clear_orphans_def visit_lease_def example_lease_dir_def dir_names_def dir_get_def bind_p_def
        read_lease_def utf8_round_trip strip)
  have lease: "lease_owner example_lease_dir 167772162 = Some example_name"
    by (simp add: lease_owner_def lease_path_examples example_lease_dir_def dir_get_def utf8_round_trip strip)
  have leases: "d_leases owned_lease_daemon = example_lease_dir" by (simp add: owned_lease_daemon_def)
  have visit: "gc_visit example_manager (failing_host (\<lambda>_. False)) True 0 (example_name, owned_record) g owned_lease_daemon =
      (Ret (g\<lparr>g_retained := example_name # g_retained g\<rparr>), owned_lease_daemon)" for g
    by (simp add: gc_visit_def lift_p_def owned_alive)
  show ?thesis
    by (simp add: gc_def gc_run_def gc_collect_def gc_rest_def gc_report_def gc_unregistered_def gc_epairs_def gc_addresses_def
        discover_all_def discover_jails_def discover_vms_def discover_datasets_def bridge_epairs_def Let_def bind_p_def
        registered_p_run reg visit failing_run on_leases_def leases clear lease then_p_def)
qed

theorem gc_no_orphan_lease_witness:
  "\<exists>out t r. gc example_manager (failing_host (\<lambda>_. False)) (PBool True) (PInt 0) owned_lease_daemon = (Ret out, t) \<and>
     load_registry (d_registry t) example_name = Inr (Some r)"
proof -
  obtain out t where t: "gc example_manager (failing_host (\<lambda>_. False)) (PBool True) (PInt 0) owned_lease_daemon = (Ret out, t)"
    "lease_owner (d_leases t) 167772162 = Some example_name" using owned_gc by blast
  from gc_no_orphan_lease [OF this] t show ?thesis by blast
qed

text \<open>
  One record that cannot be read ends every collection before it has begun: an
  exception, and nothing collected, whoever asks.
\<close>

lemma gc_unreadable_record:
  assumes "runtime_name_ok n" "load_registry (d_registry s) n = Inl e" "0 \<le> uid"
  shows "\<exists>e'. gc m h (PBool b) (PInt uid) s = (Raise e', s)"
proof -
  have "dir_get (d_registry s) (registry_path n) \<noteq> None \<and> dir_get (d_registry s) (registry_path n) \<noteq> Some RLink"
    using assms(2) by (auto simp: load_registry_def split: option.splits reg_file.splits)
  with assms(1) registered_names_iff have "n \<in> set (registered_names (d_registry s))" by blast
  with assms(2) load_all_Inl obtain e' where "registered (d_registry s) = Inl e'"
    unfolding registered_def by metis
  with assms(3) show ?thesis by (simp add: gc_def gc_run_def bind_p_def registered_p_run)
qed

lemma gc_unreadable_record_witness:
  "\<exists>e. gc example_manager example_host (PBool True) (PInt 0)
      (empty_daemon\<lparr>d_registry := [(registry_path example_name, RFile ''x'')]\<rparr>) =
    (Raise e, empty_daemon\<lparr>d_registry := [(registry_path example_name, RFile ''x'')]\<rparr>)"
proof -
  have "utf8_decode ''x'' = Some ''x'' \<and> loads ''x'' = None" by code_simp
  then have "\<exists>e. load_registry (d_registry (empty_daemon\<lparr>d_registry := [(registry_path example_name, RFile ''x'')]\<rparr>))
      example_name = Inl e"
    by (simp add: load_registry_def dir_get_def)
  then show ?thesis using gc_unreadable_record [OF example_name_ok] by fastforce
qed

end
