(* ===== verification/Daemon_Service.thy ===== *)
theory Daemon_Service
  imports Daemon_Gc Json_Round_Trip
begin

text \<open>
  runtime_daemon.py, the request handler: one line of JSON in, the peer's credentials from
  the kernel, the dispatch to the manager's operations, one line of JSON out. The daemon
  serves a request per connection, in threads; a history of the model is a sequence of
  requests served one after the other.
\<close>

section \<open>Dispatch\<close>

definition request_str :: "record_doc \<Rightarrow> string \<Rightarrow> exn + string" where
  "request_str request key =
     (case pget request key of
        PStr s \<Rightarrow> Inr s
      | _ \<Rightarrow> Inl (Exn ValueError (key @ '' must be a string'')))"

definition request_pid :: "record_doc \<Rightarrow> exn + pyval" where
  "request_pid request =
     (case pget request ''owner_pid'' of
        PInt i \<Rightarrow> Inr (PInt i)
      | _ \<Rightarrow> Inl (Exn ValueError ''owner_pid must be an integer process id''))"

definition ping_reply :: pyval where
  "ping_reply =
     PDict [(''service'', PStr ''freebsd-laboratory-runtime''), (''version'', PInt 4),
            (''capabilities'', PList [PStr ''jail'', PStr ''bhyve.freebsd'', PStr ''bhyve.linux'']),
            (''bhyve_profiles'', PList (map PStr (sort (map fst bhyve_profiles))))]"

definition dispatch_create_jail ::
    "manager \<Rightarrow> 'w host \<Rightarrow> record_doc \<Rightarrow> peer_credentials \<Rightarrow> ('w daemon, pyval) prog" where
  "dispatch_create_jail m h request peer =
     bind_p (lift_p (request_str request ''name'')) (\<lambda>name.
     bind_p (lift_p (request_pid request)) (\<lambda>owner_pid.
     bind_p (lift_p (request_str request ''ssh_public_key'')) (\<lambda>key.
       create_jail m h name owner_pid peer (PStr key))))"

definition dispatch_create_bhyve ::
    "manager \<Rightarrow> 'w host \<Rightarrow> record_doc \<Rightarrow> peer_credentials \<Rightarrow> ('w daemon, pyval) prog" where
  "dispatch_create_bhyve m h request peer =
     bind_p (lift_p (request_str request ''name'')) (\<lambda>name.
     bind_p (lift_p (request_pid request)) (\<lambda>owner_pid.
     bind_p (lift_p (request_str request ''ssh_public_key'')) (\<lambda>key.
       case pget_default request ''profile'' (PStr ''freebsd-python'') of
         PStr profile \<Rightarrow> create_bhyve m h name owner_pid peer (PStr key) (PStr profile)
       | _ \<Rightarrow> raise_p ValueError ''profile must be a string'')))"

definition dispatch ::
    "manager \<Rightarrow> 'w host \<Rightarrow> record_doc \<Rightarrow> peer_credentials \<Rightarrow> ('w daemon, pyval) prog" where
  "dispatch m h request peer =
     (let action = pget request ''action''
      in if py_eq_str action ''ping'' then return_p ping_reply
         else if py_eq_str action ''create-jail'' then dispatch_create_jail m h request peer
         else if py_eq_str action ''create-bhyve'' then dispatch_create_bhyve m h request peer
         else if py_eq_str action ''destroy'' then
           bind_p (lift_p (request_str request ''name'')) (\<lambda>name.
             destroy m h name (PInt (peer_uid peer)) False)
         else if py_eq_str action ''gc'' then
           (case pget_default request ''stale_only'' (PBool True) of
              PBool b \<Rightarrow> gc m h (PBool b) (PInt (peer_uid peer))
            | _ \<Rightarrow> raise_p ValueError ''stale_only must be boolean'')
         else raise_p ValueError ''unsupported runtime action'')"

section \<open>The handler\<close>

definition max_request_bytes :: nat where
  "max_request_bytes = 64 * 1024"

text \<open>\<open>rfile.readline(n)\<close> on what the connection delivers until its end.\<close>

definition read_line_upto :: "nat \<Rightarrow> string \<Rightarrow> string" where
  "read_line_upto n s =
     (let line = takeWhile (\<lambda>c. c \<noteq> CHR 0x0A) s
      in take n (if length line < length s then line @ [CHR 0x0A] else line))"

definition decode_request :: "string \<Rightarrow> exn + record_doc" where
  "decode_request raw =
     (if length raw > max_request_bytes then Inl (Exn ValueError ''request exceeded size limit'')
      else case utf8_decode raw of
        None \<Rightarrow> Inl (Exn UnicodeDecodeError ''invalid start byte'')
      | Some text \<Rightarrow>
          (case loads text of
             None \<Rightarrow> Inl (Exn JSONDecodeError ''Expecting value'')
           | Some (PDict request) \<Rightarrow> Inr request
           | Some _ \<Rightarrow> Inl (Exn ValueError ''request must be an object'')))"

text \<open>
  What \<open>_reply\<close> writes; a write that fails is ignored there and leaves no state. The
  credentials are the kernel's answer for the connection, already checked or refused.
\<close>

definition reply_text :: "pyval \<Rightarrow> string" where
  "reply_text response = utf8_encode (json_text True response) @ [CHR 0x0A]"

definition ok_reply :: "pyval \<Rightarrow> pyval" where
  "ok_reply result = PDict [(''ok'', PBool True), (''result'', result)]"

definition error_reply :: "exn \<Rightarrow> pyval" where
  "error_reply e = PDict [(''ok'', PBool False), (''error'', PStr (exn_msg e))]"

definition handle ::
    "manager \<Rightarrow> 'w host \<Rightarrow> exn + peer_credentials \<Rightarrow> string \<Rightarrow> ('w daemon, string option) prog" where
  "handle m h credentials incoming =
     catch_p
       (bind_p (lift_p credentials) (\<lambda>peer.
          let raw = read_line_upto (max_request_bytes + 1) incoming
          in if raw = [] then return_p None
             else bind_p (lift_p (decode_request raw)) (\<lambda>request.
                  bind_p (dispatch m h request peer) (\<lambda>result.
                    return_p (Some (reply_text (ok_reply result)))))))
       (\<lambda>e. return_p (Some (reply_text (error_reply e))))"

section \<open>Isolation\<close>

lemma create_body_foreign:
  assumes "name \<in> set (d_held s)" "load_registry (d_registry s) name = Inr (Some r)"
    and "\<And>o'. owner_from_peer h (d_world s) peer pid = Inr o' \<Longrightarrow> \<not> record_owned_by r o'"
  shows "snd (create_jail_body m h name pid peer key s) = s \<and> fst (create_jail_body m h name pid peer key s) \<noteq> Stuck"
    and "snd (create_bhyve_body m h name pid peer key profile s) = s \<and>
         fst (create_bhyve_body m h name pid peer key profile s) \<noteq> Stuck"
  using assms
  by (auto simp: create_jail_body_def create_bhyve_body_def bind_p_def then_p_def lift_p_def reconcile_registered_def
      load_record_def require_vm_backend_def split: sum.split)

lemma with_lock_unchanged:
  assumes "\<And>t. t = s\<lparr>d_held := name # d_held s\<rparr> \<Longrightarrow> snd (body t) = t \<and> fst (body t) \<noteq> Stuck"
  shows "snd (with_runtime_lock name body s) = s"
proof (cases "name \<in> set (d_held s)")
  case True
  then show ?thesis by (simp add: with_lock_held)
next
  case False
  obtain r t where b: "body (s\<lparr>d_held := name # d_held s\<rparr>) = (r, t)" by (cases "body (s\<lparr>d_held := name # d_held s\<rparr>)")
  with assms have t: "t = s\<lparr>d_held := name # d_held s\<rparr>" "r \<noteq> Stuck" by fastforce+
  from with_lock_run [where m = body and s = s, OF False b] t show ?thesis by simp
qed

lemma owner_from_peer_uid: "owner_from_peer h w peer pid = Inr o' \<Longrightarrow> own_uid o' = peer_uid peer"
  by (auto simp: owner_from_peer_def split: sum.splits option.splits if_splits)

text \<open>A runtime of somebody else: what a peer may not touch.\<close>

definition stranger :: "record_doc \<Rightarrow> int \<Rightarrow> bool" where
  "stranger r uid \<longleftrightarrow> uid \<noteq> 0 \<and> \<not> py_eq_int (pget r ''owner_uid'') uid"

lemma create_same_name:
  assumes "load_registry (d_registry s) name = Inr (Some r)" "stranger r (peer_uid peer)"
  shows "snd (create_jail m h name pid peer key s) = s" and "snd (create_bhyve m h name pid peer key profile s) = s"
proof -
  have foreign: "owner_from_peer h w peer pid = Inr o' \<Longrightarrow> \<not> record_owned_by r o'" for o' w
    using owner_from_peer_uid [of h w peer pid o'] assms(2) by (auto simp: stranger_def record_owned_by_def)
  show "snd (create_jail m h name pid peer key s) = s"
    unfolding create_jail_def
    by (rule with_lock_unchanged, rule create_body_foreign(1)) (use foreign assms(1) in auto)
  show "snd (create_bhyve m h name pid peer key profile s) = s"
    unfolding create_bhyve_def
    by (rule with_lock_unchanged, rule create_body_foreign(2)) (use foreign assms(1) in auto)
qed

lemma destroy_refused:
  assumes "load_registry (d_registry s) name = Inr (Some r)" "stranger r uid"
  shows "snd (destroy m h name (PInt uid) False s) = s"
proof -
  have "authorize_record r (PInt uid) \<noteq> Inr ()"
    using assms(2) by (auto simp: authorize_cases stranger_def)
  then obtain e where "authorize_record r (PInt uid) = Inl e"
    by (cases "authorize_record r (PInt uid)") auto
  then show ?thesis
    unfolding destroy_def
    by (intro with_lock_unchanged)
      (use assms(1) in \<open>auto simp: destroy_body_def bind_p_def then_p_def lift_p_def load_record_def Let_def split: sum.split\<close>)
qed

lemma keeps_holding_create:
  assumes "runtime_name_ok n" "name \<noteq> n"
  shows "keeps (holding n a) (create_jail m h name pid peer key)"
    and "keeps (holding n a) (create_bhyve m h name pid peer key profile)"
proof -
  have bad: "snd (create_jail m h name pid peer key s) = s \<and> snd (create_bhyve m h name pid peer key profile s) = s"
    if "\<not> runtime_name_ok name" for s
    unfolding create_jail_def create_bhyve_def
    by (intro conjI with_lock_unchanged)
      (use that in \<open>auto simp: create_jail_body_def create_bhyve_body_def bind_p_def lift_p_def validate_name_def\<close>)
  have "n \<noteq> []" using assms(1) runtime_name_nonempty by blast
  have lease: "keeps (\<lambda>s. lease_owner (d_leases s) a = Some n) x" if "keeps (other_lease {name, []} a n) x"
    for x :: "('w daemon, pyval) prog"
    using that \<open>n \<noteq> []\<close> assms(2) by (simp add: keeps_def other_lease_def)
  show "keeps (holding n a) (create_jail m h name pid peer key)"
  proof (cases "runtime_name_ok name")
    case True
    from keeps_pair [OF create_frames(1) [OF runtime_file_foreign [OF assms]] lease [OF create_lease_frames(1) [OF True]]]
    show ?thesis by (simp add: holding_def [abs_def])
  qed (simp add: keeps_def bad)
  show "keeps (holding n a) (create_bhyve m h name pid peer key profile)"
  proof (cases "runtime_name_ok name")
    case True
    from keeps_pair [OF create_frames(2) [OF runtime_file_foreign [OF assms]] lease [OF create_lease_frames(2) [OF True]]]
    show ?thesis by (simp add: holding_def [abs_def])
  qed (simp add: keeps_def bad)
qed

lemma secures_operations:
  assumes "runtime_name_ok n" "stranger r (peer_uid peer)"
  shows "secures n r a (create_jail m h name pid peer key)" "secures n r a (create_bhyve m h name pid peer key profile)"
    "secures n r a (destroy m h name (PInt (peer_uid peer)) False)"
    "secures n r a (gc m h (PBool b) (PInt (peer_uid peer)))"
proof -
  show "secures n r a (create_jail m h name pid peer key)"
    by (cases "name = n") (simp add: secures_def create_same_name [OF _ assms(2)],
        rule secures_keeps, rule keeps_holding_create [OF assms(1)])
  show "secures n r a (create_bhyve m h name pid peer key profile)"
    by (cases "name = n") (simp add: secures_def create_same_name [OF _ assms(2)],
        rule secures_keeps, rule keeps_holding_create [OF assms(1)])
  show "secures n r a (destroy m h name (PInt (peer_uid peer)) False)"
    by (cases "name = n") (simp add: secures_def destroy_refused [OF _ assms(2)],
        rule secures_keeps, rule keeps_holding_destroy [OF assms(1)])
  have "gc_spares h b (peer_uid peer) r" using assms(2) by (simp add: gc_spares_def stranger_def)
  from gc_run_secures [OF assms(1) this] show "secures n r a (gc m h (PBool b) (PInt (peer_uid peer)))"
    by (simp add: gc_def secures_def)
qed

lemma secures_prim:
  "secures n r a (return_p x)" "secures n r a (raise_p k msg)" "secures n r a (lift_p v)" "secures n r a (throw_p e)"
  by (simp_all add: secures_def lift_p_def split: sum.split)

lemma dispatch_secures:
  assumes "runtime_name_ok n" "stranger r (peer_uid peer)"
  shows "secures n r a (dispatch m h request peer)"
  unfolding dispatch_def dispatch_create_jail_def dispatch_create_bhyve_def Let_def
  by (auto intro!: secures_bind secures_prim secures_operations assms split: pyval.split)

lemma secures_catch:
  fixes m0 :: "('w daemon, 'x) prog"
  assumes "secures n r a m0" "\<And>e. secures n r a (k e)"
  shows "secures n r a (catch_p m0 k)"
  unfolding secures_def
proof (intro allI impI)
  fix s :: "'w daemon"
  assume load: "load_registry (d_registry s) n = Inr (Some r)"
  obtain q t where m: "m0 s = (q, t)" by (cases "m0 s")
  have t: "holding n a t = holding n a s" using assms(1) load m by (auto simp: secures_def)
  with load holding_load [OF t] assms(2) show "holding n a (snd (catch_p m0 k s)) = holding n a s"
    by (cases q) (auto simp: catch_p_def m secures_def)
qed

lemma handle_secures:
  assumes "runtime_name_ok n" "\<And>peer. credentials = Inr peer \<Longrightarrow> stranger r (peer_uid peer)"
  shows "secures n r a (handle m h credentials incoming)"
proof (cases credentials)
  case (Inl e)
  then show ?thesis by (simp add: secures_def handle_def lift_p_def catch_p_def bind_p_def)
next
  case (Inr peer)
  have run: "bind_p (return_p peer) f = f peer" for f :: "_ \<Rightarrow> ('b daemon, 'c) prog"
    by (rule ext) simp
  show ?thesis
    unfolding handle_def Let_def Inr lift_p_def [of "Inr peer"] sum.case run
    using Inr by (auto intro!: secures_catch secures_bind secures_prim dispatch_secures assms)
qed

section \<open>Histories of requests\<close>

type_synonym request_event = "(exn + peer_credentials) \<times> string"

definition serve :: "manager \<Rightarrow> 'w host \<Rightarrow> 'w daemon \<Rightarrow> request_event \<Rightarrow> 'w daemon" where
  "serve m h s e = snd (handle m h (fst e) (snd e) s)"

definition from_stranger :: "record_doc \<Rightarrow> request_event \<Rightarrow> bool" where
  "from_stranger r e \<longleftrightarrow> (case fst e of Inl _ \<Rightarrow> True | Inr peer \<Rightarrow> stranger r (peer_uid peer))"

definition runtime_is :: "string \<Rightarrow> record_doc \<Rightarrow> (nat \<Rightarrow> reg_file option \<times> bool) \<Rightarrow> 'w daemon \<Rightarrow> bool" where
  "runtime_is n r hold s \<longleftrightarrow>
     runtime_name_ok n \<and> load_registry (d_registry s) n = Inr (Some r) \<and> (\<forall>a. holding n a s = hold a)"

interpretation service: invariant_machine "serve m h" "runtime_is n r hold" "from_stranger r" for m h n r hold
proof
  fix s :: "'a daemon" and e :: request_event
  assume inv: "runtime_is n r hold s" and e: "from_stranger r e"
  have "secures n r a (handle m h (fst e) (snd e))" for a
    by (rule handle_secures) (use inv e in \<open>auto simp: runtime_is_def from_stranger_def\<close>)
  with inv have t: "holding n a (serve m h s e) = holding n a s" for a
    by (simp add: secures_def runtime_is_def serve_def)
  from inv holding_load [OF t [of 0]] t show "runtime_is n r hold (serve m h s e)"
    by (simp add: runtime_is_def)
qed

section \<open>Replies\<close>

lemma destroy_json_ok: "destroy m h name q force s = (Ret out, t) \<Longrightarrow> json_ok out"
  by (elim destroy_cases) (auto simp: list_all_iff)

lemma create_jail_json_ok: "create_jail m h name pid peer key s = (Ret out, t) \<Longrightarrow> json_ok out"
  unfolding create_jail_def
  by (elim with_lock_Ret create_jail_body_Ret build_jail_Ret) (auto simp: jail_reply_def)

lemma with_key_file_Ret:
  assumes "with_key_file m h name key body s = (Ret out, t)"
  obtains path u v where "body path u = (Ret out, v)"
proof -
  obtain x s1 where x: "(case x of Inl e \<Rightarrow> or_destroy m h name (throw_p e)
     | Inr tmp \<Rightarrow> finally_p (or_destroy m h name (body (c_registry_dir (m_config m) @ ''/'' @ tmp)))
         (on_registry (modify_p (dir_del tmp)))) s1 = (Ret out, t)"
    using assms by (auto simp: with_key_file_def bind_p_Ret_iff)
  show thesis
    using x by (cases x) (auto simp: or_destroy_Ret finally_p_Ret_iff intro: that)
qed

lemma create_bhyve_json_ok:
  assumes "create_bhyve m h name pid peer key profile s = (Ret out, t)"
  shows "json_ok out"
proof -
  obtain u where "create_bhyve_body m h name pid peer key profile (s\<lparr>d_held := name # d_held s\<rparr>) = (Ret out, u)"
    using assms unfolding create_bhyve_def by (rule with_lock_Ret)
  then obtain k p gp o' address v where
    "with_key_file m h name k (\<lambda>key_path. build_bhyve m h name p gp address key_path
       (initial_bhyve_record m name p gp o' address)) v = (Ret out, u)"
    by (auto simp: create_bhyve_body_def bind_p_Ret_iff then_p_Ret_iff Let_def split: if_splits)
  then obtain path w x where "build_bhyve m h name p gp address path (initial_bhyve_record m name p gp o' address) w = (Ret out, x)"
    by (rule with_key_file_Ret)
  then show ?thesis by (auto simp: build_bhyve_def bind_p_Ret_iff then_p_Ret_iff Let_def)
qed

lemma gc_try_errors: "gc_try m h k name q force g s = (Ret g', t) \<Longrightarrow> dir_ok (g_errors g) \<Longrightarrow> dir_ok (g_errors g')"
  by (elim gc_try_cases) (auto intro: dirs.ok_put)

lemma gc_visit_errors: "gc_visit m h b uid x g s = (Ret g', t) \<Longrightarrow> dir_ok (g_errors g) \<Longrightarrow> dir_ok (g_errors g')"
  by (elim gc_visit_cases) (auto dest: gc_try_errors)

lemma gc_unregistered_errors:
  assumes "gc_unregistered m h g s = (Ret g', t)" "dir_ok (g_errors g)"
  shows "dir_ok (g_errors g')"
proof -
  obtain found s1 where "fold_p (\<lambda>name. gc_try m h False name PNone True)
      (sort (remdups (filter (\<lambda>n. n \<notin> set (g_retained g)) found))) g s1 = (Ret g', t)"
    using assms(1) by (auto simp: gc_unregistered_def bind_p_Ret_iff)
  then show ?thesis
    by (rule fold_p_inv [where I = "\<lambda>g _. dir_ok (g_errors g)"]) (use assms(2) gc_try_errors in blast)+
qed

lemma gc_json_ok:
  assumes "gc m h b q s = (Ret out, t)"
  shows "json_ok out"
proof -
  obtain b' uid rs where "gc_collect m h b' uid rs s = (Ret out, t)"
    using assms by (auto simp: gc_def gc_run_def bind_p_Ret_iff registered_p_Ret split: pyval.splits if_splits)
  then obtain g0 s1 and after :: "(string \<times> record_doc) list" and g2 s2 ep and active :: "(string \<times> record_doc) list" and ad where c:
    "fold_p (gc_visit m h b' uid) rs \<lparr>g_retained = [], g_cleaned = [], g_errors = []\<rparr> s = (Ret g0, s1)"
    "(if uid = 0 then gc_unregistered m h (g0\<lparr>g_retained := map fst after @ g_retained g0\<rparr>)
      else return_p (g0\<lparr>g_retained := map fst after @ g_retained g0\<rparr>)) s1 = (Ret g2, s2)"
    "out = gc_reply (g_cleaned g2) (map fst active) ep ad (g_errors g2) b'"
    by (rule gc_collect_Ret) blast
  have "dir_ok (g_errors g0)"
    by (rule fold_p_inv [OF c(1), where I = "\<lambda>g _. dir_ok (g_errors g)"])
      (use gc_visit_errors in \<open>auto simp: dir_ok_def\<close>)
  with c(2) gc_unregistered_errors have "dir_ok (g_errors g2)"
    by (fastforce split: if_splits)
  then show ?thesis
    by (auto simp: c(3) gc_reply_def list_all_iff dir_ok_def comp_def case_prod_beta)
qed

lemma dispatch_create_json_ok:
  "dispatch_create_jail m h request peer s = (Ret out, t) \<Longrightarrow> json_ok out"
  "dispatch_create_bhyve m h request peer s = (Ret out, t) \<Longrightarrow> json_ok out"
proof -
  show "dispatch_create_jail m h request peer s = (Ret out, t) \<Longrightarrow> json_ok out"
    by (auto simp: dispatch_create_jail_def bind_p_Ret_iff intro: create_jail_json_ok)
  show "dispatch_create_bhyve m h request peer s = (Ret out, t) \<Longrightarrow> json_ok out"
    by (cases "pget_default request ''profile'' (PStr ''freebsd-python'')")
      (auto simp: dispatch_create_bhyve_def bind_p_Ret_iff intro: create_bhyve_json_ok)
qed

lemma ping_json_ok: "json_ok ping_reply"
  by (simp add: ping_reply_def list_all_iff)

lemma dispatch_json_ok:
  assumes "dispatch m h request peer s = (Ret out, t)"
  shows "json_ok out"
  using assms
  by (cases "pget_default request ''stale_only'' (PBool True)")
    (auto simp: dispatch_def Let_def bind_p_Ret_iff intro: destroy_json_ok dispatch_create_json_ok gc_json_ok ping_json_ok
      split: if_splits)

lemma reply_line:
  assumes "json_ok v"
  shows "reply_text v = json_text True v @ [CHR 0x0A]" "CHR 0x0A \<notin> set (json_text True v)"
    "loads (json_text True v) = Some (json_norm v)"
  using loads_of_bytes(2) [OF assms] json_text_no_newline [OF assms] loads_json_text [OF assms]
  by (simp_all add: reply_text_def)

section \<open>Properties\<close>

text \<open>
  C1. Isolation of runtimes between users. Whatever requests other users than root and the
  owner send, in any order and number, well formed or not, and whatever the commands of the
  host answer, the record of a registered runtime stays what it was and so does every
  address lease it holds.
\<close>

theorem requests_isolated:
  assumes "runtime_name_ok n" "load_registry (d_registry s) n = Inr (Some r)"
    and "list_all (from_stranger r) es"
  shows "load_registry (d_registry (run_steps (serve m h) s es)) n = Inr (Some r) \<and>
         (\<forall>a. lease_owner (d_leases (run_steps (serve m h) s es)) a = Some n \<longleftrightarrow> lease_owner (d_leases s) a = Some n)"
proof -
  have "runtime_is n r (\<lambda>a. holding n a s) s" using assms(1,2) by (simp add: runtime_is_def)
  from service.run_inv [OF this assms(3)] show ?thesis by (simp add: runtime_is_def holding_def)
qed

theorem requests_isolated_witness:
  "load_registry (d_registry (run_steps (serve example_manager example_host) example_daemon
       [(Inr \<lparr>peer_pid = 7, peer_uid = 1002, peer_gid = 1002\<rparr>,
         json_text True (PDict [(''action'', PStr ''destroy''), (''name'', PStr example_name)]) @ [CHR 0x0A]),
        (Inl (Exn RuntimeError ''Socket is closed''), ''x'')])) example_name = Inr (Some example_record)"
proof -
  have "list_all (from_stranger example_record)
      [(Inr \<lparr>peer_pid = 7, peer_uid = 1002, peer_gid = 1002\<rparr>, x), (Inl e, y)]" for x y e
    by (simp add: from_stranger_def stranger_def example_record_def pget_def dir_get_def)
  from requests_isolated [OF example_name_ok example_loaded this] show ?thesis by blast
qed

definition request_of :: "string \<Rightarrow> exn + record_doc" where
  "request_of incoming = decode_request (read_line_upto (max_request_bytes + 1) incoming)"

definition is_line_of :: "string \<Rightarrow> pyval \<Rightarrow> bool" where
  "is_line_of out reply \<longleftrightarrow>
     (\<exists>line. out = line @ [CHR 0x0A] \<and> CHR 0x0A \<notin> set line \<and> loads line = Some (json_norm reply))"

lemma is_line_of_reply: "json_ok reply \<Longrightarrow> is_line_of (reply_text reply) reply"
  using reply_line [of reply] by (auto simp: is_line_of_def)

lemma ok_reply_json_ok: "json_ok result \<Longrightarrow> json_ok (ok_reply result)" "json_ok (error_reply e)"
  by (simp_all add: ok_reply_def error_reply_def)

lemma read_line_upto_Nil: "read_line_upto (Suc k) incoming = [] \<longleftrightarrow> incoming = []"
  by (cases incoming) (auto simp: read_line_upto_def Let_def)

lemma handle_cases:
  "handle m h (Inl e) incoming s = (Ret (Some (reply_text (error_reply e))), s)"
  "handle m h (Inr peer) [] s = (Ret None, s)"
  "incoming \<noteq> [] \<Longrightarrow> request_of incoming = Inl e \<Longrightarrow>
     handle m h (Inr peer) incoming s = (Ret (Some (reply_text (error_reply e))), s)"
  "incoming \<noteq> [] \<Longrightarrow> request_of incoming = Inr request \<Longrightarrow>
     handle m h (Inr peer) incoming s =
       (case dispatch m h request peer s of
          (Ret result, t) \<Rightarrow> (Ret (Some (reply_text (ok_reply result))), t)
        | (Raise e', t) \<Rightarrow> (Ret (Some (reply_text (error_reply e'))), t)
        | (Stuck, t) \<Rightarrow> (Stuck, t))"
proof -
  note [simp] = handle_def lift_p_def catch_p_def bind_p_def Let_def request_of_def
  show "handle m h (Inl e) incoming s = (Ret (Some (reply_text (error_reply e))), s)" by simp
  show "handle m h (Inr peer) [] s = (Ret None, s)" by (simp add: read_line_upto_def)
  have ne: "read_line_upto (max_request_bytes + 1) incoming \<noteq> []" if "incoming \<noteq> []"
    using that read_line_upto_Nil by simp
  show "handle m h (Inr peer) incoming s = (Ret (Some (reply_text (error_reply e))), s)"
    if "incoming \<noteq> []" "request_of incoming = Inl e"
    using that ne [OF that(1)] by simp
  show "handle m h (Inr peer) incoming s =
       (case dispatch m h request peer s of
          (Ret result, t) \<Rightarrow> (Ret (Some (reply_text (ok_reply result))), t)
        | (Raise e', t) \<Rightarrow> (Ret (Some (reply_text (error_reply e'))), t)
        | (Stuck, t) \<Rightarrow> (Stuck, t))"
    if "incoming \<noteq> []" "request_of incoming = Inr request"
    using that ne [OF that(1)] by (simp split: prod.split res.split)
qed

text \<open>
  C21. The handler answers every request, once. It never raises. It sends nothing only
  where the peer closed the connection without a byte, or where the operation blocks for
  ever. Otherwise it sends one line of JSON that parses to the result of the dispatched
  operation, or to the error's message: that of the credentials, of a request that is no
  JSON object (nothing has changed then), or of the operation.
\<close>

theorem handle_replies:
  "case handle m h credentials incoming s of
     (Raise e, t) \<Rightarrow> False
   | (Stuck, t) \<Rightarrow> \<exists>peer request. credentials = Inr peer \<and> request_of incoming = Inr request \<and>
       dispatch m h request peer s = (Stuck, t)
   | (Ret None, t) \<Rightarrow> incoming = [] \<and> t = s
   | (Ret (Some out), t) \<Rightarrow>
       (\<exists>peer request result. credentials = Inr peer \<and> request_of incoming = Inr request \<and>
          dispatch m h request peer s = (Ret result, t) \<and> is_line_of out (ok_reply result)) \<or>
       (\<exists>peer request e. credentials = Inr peer \<and> request_of incoming = Inr request \<and>
          dispatch m h request peer s = (Raise e, t) \<and> is_line_of out (error_reply e)) \<or>
       (\<exists>e. (credentials = Inl e \<or> request_of incoming = Inl e) \<and> t = s \<and> is_line_of out (error_reply e))"
proof (cases credentials)
  case (Inl e)
  then show ?thesis by (auto simp: handle_cases is_line_of_reply ok_reply_json_ok)
next
  case (Inr peer)
  show ?thesis
  proof (cases "incoming = []")
    case True
    then show ?thesis by (simp add: handle_cases Inr)
  next
    case False
    show ?thesis
    proof (cases "request_of incoming")
      case (Inl e)
      then show ?thesis using False by (simp add: handle_cases Inr is_line_of_reply ok_reply_json_ok)
    next
      case (Inr request)
      then show ?thesis using False \<open>credentials = Inr peer\<close>
        by (auto simp: handle_cases is_line_of_reply ok_reply_json_ok dest: dispatch_json_ok
            split: prod.split res.split)
    qed
  qed
qed

lemma read_line_upto_length:
  "length (read_line_upto n s) = min n (length (takeWhile (\<lambda>c. c \<noteq> CHR 0x0A) s) + (if CHR 0x0A \<in> set s then 1 else 0))"
proof -
  have "length (takeWhile (\<lambda>c. c \<noteq> CHR 0x0A) s) < length s \<longleftrightarrow> CHR 0x0A \<in> set s"
    by (induction s) auto
  then show ?thesis by (simp add: read_line_upto_def Let_def min.commute)
qed

text \<open>
  The size limit is exact and comes before any parsing: a request reaches the decoder
  precisely when its line, with the newline that ends it, has at most 65,536 bytes; a
  longer one is answered with the limit's error and changes nothing.
\<close>

lemma request_size_limit:
  "request_of incoming = Inl (Exn ValueError ''request exceeded size limit'') \<longleftrightarrow>
     65536 < length (takeWhile (\<lambda>c. c \<noteq> CHR 0x0A) incoming) + (if CHR 0x0A \<in> set incoming then 1 else 0)"
proof -
  have "65536 < length (read_line_upto 65537 incoming) \<longleftrightarrow>
      65536 < length (takeWhile (\<lambda>c. c \<noteq> CHR 0x0A) incoming) + (if CHR 0x0A \<in> set incoming then 1 else 0)"
    by (auto simp: read_line_upto_length min_def)
  moreover have "request_of incoming = Inl (Exn ValueError ''request exceeded size limit'') \<longleftrightarrow>
      65536 < length (read_line_upto 65537 incoming)"
    by (auto simp: request_of_def decode_request_def max_request_bytes_def split: option.splits pyval.splits)
  ultimately show ?thesis by simp
qed

end
