(* ===== verification/Runtime_Client.thy ===== *)
theory Runtime_Client
  imports Daemon_Service
begin

text \<open>
  runtime_client.py: the client of the daemon's socket. A connection is a parameter of the
  client: \<open>exchange sent\<close> connects, sends the bytes and is then the list of what
  the calls of \<open>recv\<close> return, an error or a chunk; the end of the list is the end of the
  stream, where \<open>recv\<close> returns no bytes. The second half composes the client with the
  daemon's request handler, over a stream that delivers the reply in any chunks.
\<close>

section \<open>The client\<close>

definition max_response_bytes :: nat where
  "max_response_bytes = 1024 * 1024"

definition control_error :: "string \<Rightarrow> exn" where
  "control_error message = Exn RuntimeControlError message"

definition too_large :: exn where
  "too_large = control_error ''Runtime daemon response exceeded size limit''"

text \<open>The checks after the loop of \<open>_read_line\<close>.\<close>

definition finish_line :: "string list \<Rightarrow> nat \<Rightarrow> exn + string" where
  "finish_line chunks n =
     (if n > max_response_bytes then Inl too_large
      else if chunks = [] then Inl (control_error ''Runtime daemon closed the connection without a response'')
      else Inr (concat chunks))"

fun read_chunks :: "(exn + string) list \<Rightarrow> string list \<Rightarrow> nat \<Rightarrow> exn + string" where
  "read_chunks [] chunks n = finish_line chunks n"
| "read_chunks (Inl e # rest) chunks n = Inl e"
| "read_chunks (Inr chunk # rest) chunks n =
     (if chunk = [] then finish_line chunks n
      else if CHR 0x0A \<in> set chunk then
        (let head = takeWhile (\<lambda>c. c \<noteq> CHR 0x0A) chunk
         in finish_line (chunks @ [head]) (n + length head))
      else if n + length chunk > max_response_bytes then Inl too_large
      else read_chunks rest (chunks @ [chunk]) (n + length chunk))"

definition read_response_line :: "(exn + string) list \<Rightarrow> exn + string" where
  "read_response_line received = read_chunks received [] 0"

definition encode_request :: "string \<Rightarrow> record_doc \<Rightarrow> string" where
  "encode_request action payload =
     utf8_encode (json_text True (PDict ((''action'', PStr action) # payload))) @ [CHR 0x0A]"

text \<open>
  The answer, after the line was read. \<open>show_value\<close> is \<open>str\<close> on a value that is no
  string (a repr of a number, a list, ...).
\<close>

definition decode_response :: "(pyval \<Rightarrow> string) \<Rightarrow> string \<Rightarrow> exn + record_doc" where
  "decode_response show_value response =
     (case (case utf8_decode response of None \<Rightarrow> None | Some text \<Rightarrow> loads text) of
        None \<Rightarrow> Inl (control_error ''Runtime daemon returned invalid JSON'')
      | Some (PDict document) \<Rightarrow>
          (if pget document ''ok'' \<noteq> PBool True then
             (let error = pget document ''error'';
                  detail = (if truthy error then error else PStr ''runtime operation failed'')
              in Inl (control_error (case detail of PStr t \<Rightarrow> t | v \<Rightarrow> show_value v)))
           else
             (case pget_default document ''result'' (PDict []) of
                PDict result \<Rightarrow> Inr result
              | _ \<Rightarrow> Inl (control_error ''Runtime daemon returned an invalid result'')))
      | Some _ \<Rightarrow> Inl (control_error ''Runtime daemon returned a non-object response''))"

definition client_request ::
    "(pyval \<Rightarrow> string) \<Rightarrow> string \<Rightarrow> (string \<Rightarrow> ('s, (exn + string) list) prog) \<Rightarrow> string \<Rightarrow> record_doc \<Rightarrow> ('s, record_doc) prog" where
  "client_request show_value socket_path exchange action payload =
     bind_p
       (catch_p
          (bind_p (exchange (encode_request action payload)) (\<lambda>received. lift_p (read_response_line received)))
          (\<lambda>e. if exn_kind e = RuntimeControlError then throw_p e
                else if is_os_error (exn_kind e)
                then throw_p (control_error (''Runtime daemon unavailable at '' @ socket_path @ '': '' @ exn_msg e))
                else throw_p e))
       (\<lambda>response. lift_p (decode_response show_value response))"

definition client_ping where
  "client_ping v p x = client_request v p x ''ping'' []"

definition client_create_jail where
  "client_create_jail v p x name owner_pid ssh_public_key =
     client_request v p x ''create-jail''
       [(''name'', PStr name), (''owner_pid'', PInt owner_pid), (''ssh_public_key'', PStr ssh_public_key)]"

definition client_create_bhyve where
  "client_create_bhyve v p x name owner_pid ssh_public_key profile =
     client_request v p x ''create-bhyve''
       [(''name'', PStr name), (''owner_pid'', PInt owner_pid), (''ssh_public_key'', PStr ssh_public_key),
        (''profile'', PStr profile)]"

definition client_destroy where
  "client_destroy v p x name = client_request v p x ''destroy'' [(''name'', PStr name)]"

definition client_gc where
  "client_gc v p x stale_only = client_request v p x ''gc'' [(''stale_only'', PBool stale_only)]"

section \<open>Reading the line\<close>

text \<open>The reference: the first line of everything that is received.\<close>

definition first_line :: "string \<Rightarrow> exn + string" where
  "first_line s =
     (let line = takeWhile (\<lambda>c. c \<noteq> CHR 0x0A) s
      in if length line > max_response_bytes then Inl too_large
         else if s = [] then Inl (control_error ''Runtime daemon closed the connection without a response'')
         else Inr line)"

lemma takeWhile_no_newline: "CHR 0x0A \<notin> set s \<Longrightarrow> takeWhile (\<lambda>c. c \<noteq> CHR 0x0A) (s @ t) = s @ takeWhile (\<lambda>c. c \<noteq> CHR 0x0A) t"
  by (induction s) auto

lemma takeWhile_newline: "CHR 0x0A \<in> set s \<Longrightarrow> takeWhile (\<lambda>c. c \<noteq> CHR 0x0A) (s @ t) = takeWhile (\<lambda>c. c \<noteq> CHR 0x0A) s"
  by (induction s) auto

lemma read_chunks_first_line:
  assumes "[] \<notin> set cs" "[] \<notin> set acc" "CHR 0x0A \<notin> set (concat acc)"
  shows "read_chunks (map Inr cs) acc (length (concat acc)) = first_line (concat acc @ concat cs) \<or>
         length (concat acc) > max_response_bytes"
  using assms
proof (induction cs arbitrary: acc)
  case Nil
  then have "concat acc = [] \<longleftrightarrow> acc = []" by (cases acc) auto
  moreover have tw: "takeWhile (\<lambda>c. c \<noteq> CHR 0x0A) (concat acc) = concat acc"
    using Nil.prems(3) takeWhile_no_newline [of "concat acc" "[]"] by simp
  ultimately show ?case by (simp add: finish_line_def first_line_def Let_def tw del: concat_eq_Nil_conv)
next
  case (Cons c cs)
  from Cons.prems have c: "c \<noteq> []" by auto
  show ?case
  proof (cases "CHR 0x0A \<in> set c")
    case True
    then show ?thesis
      using c Cons.prems(3)
      by (auto simp: first_line_def finish_line_def Let_def takeWhile_no_newline takeWhile_newline)
  next
    case False
    have over: "length (takeWhile (\<lambda>c. c \<noteq> CHR 0x0A) (concat acc @ c @ concat cs)) \<ge> length (concat acc) + length c"
      using takeWhile_no_newline [of "concat acc @ c" "concat cs"] Cons.prems(3) False by simp
    from Cons.IH [of "acc @ [c]"] Cons.prems c False
    have "read_chunks (map Inr cs) (acc @ [c]) (length (concat acc) + length c) = first_line (concat acc @ c @ concat cs) \<or>
        length (concat acc) + length c > max_response_bytes" by auto
    then show ?thesis using c False over by (auto simp: first_line_def Let_def)
  qed
qed

lemma read_line_chunks: "[] \<notin> set cs \<Longrightarrow> read_response_line (map Inr cs) = first_line (concat cs)"
  using read_chunks_first_line [of cs "[]"] by (simp add: read_response_line_def max_response_bytes_def)

lemma read_chunks_errors:
  "read_chunks rs chunks n = Inl e \<Longrightarrow> exn_kind e = RuntimeControlError \<or> Inl e \<in> set rs"
  by (induction rs chunks n rule: read_chunks.induct)
    (auto simp: finish_line_def too_large_def control_error_def Let_def split: if_splits)

lemma decode_response_errors: "decode_response v s = Inl e \<Longrightarrow> exn_kind e = RuntimeControlError"
  by (auto simp: decode_response_def control_error_def Let_def split: option.splits pyval.splits if_splits)

section \<open>The client and the daemon\<close>

text \<open>A connection to the daemon: the handler's reply arrives in the chunks of the stream.\<close>

definition daemon_exchange ::
    "manager \<Rightarrow> 'w host \<Rightarrow> peer_credentials \<Rightarrow> (string \<Rightarrow> string list) \<Rightarrow> string \<Rightarrow> ('w daemon, (exn + string) list) prog" where
  "daemon_exchange m h peer chunks sent =
     bind_p (handle m h (Inr peer) sent) (\<lambda>out.
       return_p (map Inr (chunks (case out of None \<Rightarrow> [] | Some reply \<Rightarrow> reply))))"

definition reply_fits :: "pyval \<Rightarrow> bool" where
  "reply_fits reply \<longleftrightarrow> length (json_text True reply) \<le> max_response_bytes"

lemma read_line_upto_line:
  assumes "CHR 0x0A \<notin> set t" "length t < n"
  shows "read_line_upto n (t @ [CHR 0x0A]) = t @ [CHR 0x0A]"
  using assms takeWhile_no_newline [OF assms(1), of "[CHR 0x0A]"] by (simp add: read_line_upto_def)

lemma decode_request_line:
  assumes "json_ok (PDict d)" "json_norm (PDict d) = PDict d'" "length (json_text True (PDict d)) < max_request_bytes"
  shows "request_of (json_text True (PDict d) @ [CHR 0x0A]) = Inr d'"
proof -
  have *: "request_of (t @ [CHR 0x0A]) = Inr d'"
    if t: "CHR 0x0A \<notin> set t" "length t < max_request_bytes" "\<And>c. c \<in> set t \<Longrightarrow> (of_char c :: nat) < 128"
      and load: "loads (t @ [CHR 0x0A]) = Some (PDict d')" for t
  proof -
    have "read_line_upto (max_request_bytes + 1) (t @ [CHR 0x0A]) = t @ [CHR 0x0A]"
      using t(2) by (intro read_line_upto_line [OF t(1)]) linarith
    moreover have "utf8_decode (t @ [CHR 0x0A]) = Some (t @ [CHR 0x0A])"
      by (rule utf8_decode_ascii) (use t(3) in auto)
    moreover have "\<not> max_request_bytes < length (t @ [CHR 0x0A])" using t(2) by simp
    ultimately show ?thesis using load by (simp only: request_of_def decode_request_def if_False option.case pyval.case)
  qed
  show ?thesis
    by (rule * [OF json_text_no_newline [OF assms(1)] assms(3) json_text_ascii [OF assms(1)]])
      (simp_all only: loads_json_text_newline [OF assms(1)] assms(2))
qed

lemma first_line_reply:
  assumes "json_ok reply"
  shows "first_line (reply_text reply) = (if reply_fits reply then Inr (json_text True reply) else Inl too_large)"
  using reply_line [OF assms] takeWhile_no_newline [of "json_text True reply" "[CHR 0x0A]"]
  by (auto simp: first_line_def reply_fits_def Let_def)

lemma decode_response_text:
  assumes "json_ok reply" "json_norm reply = PDict document"
  shows "decode_response v (json_text True reply) =
     (if pget document ''ok'' \<noteq> PBool True then
        Inl (control_error (case (if truthy (pget document ''error'') then pget document ''error''
          else PStr ''runtime operation failed'') of PStr t \<Rightarrow> t | w \<Rightarrow> v w))
      else case pget_default document ''result'' (PDict []) of PDict result \<Rightarrow> Inr result
        | _ \<Rightarrow> Inl (control_error ''Runtime daemon returned an invalid result''))"
  using loads_of_bytes [OF assms(1)] loads_json_text [OF assms(1), of True] assms(2)
  by (simp add: decode_response_def Let_def)

lemma decode_ok_reply:
  assumes "json_ok result"
  shows "decode_response v (json_text True (ok_reply result)) =
     (case json_norm result of PDict r \<Rightarrow> Inr r | _ \<Rightarrow> Inl (control_error ''Runtime daemon returned an invalid result''))"
  using decode_response_text [OF ok_reply_json_ok(1) [OF assms], of "[(''ok'', PBool True), (''result'', json_norm result)]" v]
  by (simp add: ok_reply_def pget_def pget_default_def dir_get_def)

lemma decode_error_reply:
  "decode_response v (json_text True (error_reply e)) =
     Inl (control_error (if exn_msg e = [] then ''runtime operation failed'' else exn_msg e))"
  using decode_response_text [OF ok_reply_json_ok(2) [of e], of "[(''error'', PStr (exn_msg e)), (''ok'', PBool False)]" v]
  by (simp add: error_reply_def pget_def dir_get_def)

text \<open>Requests whose values are plain: nothing in them is changed by the text.\<close>

definition plain_request :: "record_doc \<Rightarrow> bool" where
  "plain_request d \<longleftrightarrow> distinct (map fst d) \<and> list_all (\<lambda>p. json_ok (snd p) \<and> json_norm (snd p) = snd p) d"

lemma plain_request_norm:
  assumes "plain_request d"
  shows "json_ok (PDict d)" "json_norm (PDict d) = PDict (sort_key fst d)" "dir_get (sort_key fst d) = dir_get d"
proof -
  show "json_ok (PDict d)" using assms by (auto simp: plain_request_def list_all_iff)
  have "map (\<lambda>p. (fst p, json_norm (snd p))) d = d"
    using assms by (auto simp: plain_request_def list_all_iff intro!: map_idI)
  then show "json_norm (PDict d) = PDict (sort_key fst d)" by simp
  show "dir_get (sort_key fst d) = dir_get d"
    using assms map_of_sort_key [of d] by (auto simp: plain_request_def dir_get_def fun_eq_iff)
qed

lemma request_field_cong:
  assumes "dir_get d = dir_get d'"
  shows "pget d = pget d'" "pget_default d = pget_default d'" "request_str d = request_str d'" "request_pid d = request_pid d'"
  by (simp_all add: fun_eq_iff pget_def pget_default_def request_str_def request_pid_def assms)

lemma dispatch_cong:
  assumes "dir_get d = dir_get d'"
  shows "dispatch m h d peer = dispatch m h d' peer"
  unfolding dispatch_def dispatch_create_jail_def dispatch_create_bhyve_def request_field_cong [OF assms] ..

text \<open>What the caller of the client sees of the result of an operation of the manager.\<close>

fun delivered :: "pyval res \<Rightarrow> record_doc res" where
  "delivered (Ret result) =
     (if \<not> reply_fits (ok_reply result) then Raise too_large
      else case json_norm result of PDict r \<Rightarrow> Ret r
        | _ \<Rightarrow> Raise (control_error ''Runtime daemon returned an invalid result''))"
| "delivered (Raise e) =
     Raise (if \<not> reply_fits (error_reply e) then too_large
            else control_error (if exn_msg e = [] then ''runtime operation failed'' else exn_msg e))"
| "delivered Stuck = Stuck"

lemma client_over_daemon:
  assumes "plain_request ((''action'', PStr action) # payload)" "\<And>b. concat (chunks b) = b \<and> [] \<notin> set (chunks b)"
    and "length (json_text True (PDict ((''action'', PStr action) # payload))) < max_request_bytes"
  shows "client_request v path (daemon_exchange m h peer chunks) action payload s =
     apfst delivered (dispatch m h ((''action'', PStr action) # payload) peer s)"
proof -
  define d where "d = (''action'', PStr action) # payload"
  note plain = plain_request_norm [OF assms(1) [folded d_def]]
  have bytes: "encode_request action payload = json_text True (PDict d) @ [CHR 0x0A]"
    by (simp only: encode_request_def d_def [symmetric] loads_of_bytes(2) [OF plain(1)])
  have req: "request_of (encode_request action payload) = Inr (sort_key fst d)"
    unfolding bytes by (rule decode_request_line [OF plain(1,2) assms(3) [folded d_def]])
  have ne: "encode_request action payload \<noteq> []" by (simp add: bytes)
  note run = handle_cases(4) [OF ne req, of m h peer s, unfolded dispatch_cong [OF plain(3)]]
  have line: "read_response_line (map Inr (chunks (reply_text reply))) =
      (if reply_fits reply then Inr (json_text True reply) else Inl too_large)" if "json_ok reply" for reply
    using read_line_chunks [of "chunks (reply_text reply)"] assms(2) first_line_reply [OF that] by simp
  have kind: "exn_kind too_large = RuntimeControlError" by (simp add: too_large_def control_error_def)
  obtain q t where q: "dispatch m h d peer s = (q, t)" by (cases "dispatch m h d peer s")
  show ?thesis
  proof (cases q)
    case (Ret result)
    have ok: "json_ok result" using dispatch_json_ok q Ret by blast
    show ?thesis
      unfolding d_def [symmetric]
      using run line [OF ok_reply_json_ok(1) [OF ok]] decode_ok_reply [OF ok, of v] q Ret kind
      by (simp add: client_request_def daemon_exchange_def bind_p_def catch_p_def lift_p_def split: pyval.split)
  next
    case (Raise e)
    show ?thesis
      unfolding d_def [symmetric]
      using run line [OF ok_reply_json_ok(2) [of e]] decode_error_reply [of v e] q Raise kind
      by (simp add: client_request_def daemon_exchange_def bind_p_def catch_p_def lift_p_def)
  next
    case Stuck
    show ?thesis
      unfolding d_def [symmetric]
      using run q Stuck by (simp add: client_request_def daemon_exchange_def bind_p_def catch_p_def)
  qed
qed

section \<open>Properties\<close>

text \<open>
  The client reads a reply the same way however the stream cuts it into chunks: what it
  returns is the first line of all the bytes, or the error for a line of more than a
  mebibyte, or for a stream that ends without a byte.
\<close>

lemma client_reads_any_chunking:
  assumes "[] \<notin> set cs"
  shows "read_response_line (map Inr cs) = first_line (concat cs)"
  using assms by (rule read_line_chunks)

lemma client_reads_any_chunking_witness:
  "read_response_line (map Inr [''{}'', [CHR 0x0A, CHR ''x'']]) = first_line [CHR ''{'', CHR ''}'', CHR 0x0A, CHR ''x'']"
  using client_reads_any_chunking [of "[''{}'', [CHR 0x0A, CHR ''x'']]"] by simp

text \<open>
  Nothing but the control error leaves the client: where connecting, sending and
  receiving fail only with an OSError (a timeout is one), every failure of a request is a
  RuntimeControlError, whatever the bytes of the reply are.
\<close>

lemma client_raises_control_errors:
  assumes "client_request v path exchange action payload s = (Raise e, t)"
    and "\<And>sent s e t. exchange sent s = (Raise e, t) \<Longrightarrow> is_os_error (exn_kind e)"
    and "\<And>sent s received e t. exchange sent s = (Ret received, t) \<Longrightarrow> Inl e \<in> set received \<Longrightarrow> is_os_error (exn_kind e)"
  shows "exn_kind e = RuntimeControlError"
proof -
  have line: "exn_kind e = RuntimeControlError \<or> is_os_error (exn_kind e)"
    if "exchange sent s = (Ret received, t)" "read_response_line received = Inl e" for sent s received e t
    using read_chunks_errors [of received "[]" 0 e] that assms(3) [OF that(1)] by (auto simp: read_response_line_def)
  define sent where "sent = bind_p (exchange (encode_request action payload)) (\<lambda>received. lift_p (read_response_line received))"
  define wrap where "wrap f = (if exn_kind f = RuntimeControlError then f
      else if is_os_error (exn_kind f)
      then control_error (''Runtime daemon unavailable at '' @ path @ '': '' @ exn_msg f) else f)" for f
  have run: "client_request v path exchange action payload =
      bind_p (catch_p sent (\<lambda>f. throw_p (wrap f))) (\<lambda>response. lift_p (decode_response v response))"
    unfolding client_request_def sent_def wrap_def by (intro arg_cong2 [where f = bind_p] arg_cong2 [where f = catch_p] ext) auto
  from assms(1) [unfolded run bind_p_Raise_iff catch_p_Raise_iff lift_p_Raise]
  consider (send) f u where "sent s = (Raise f, u)" "e = wrap f"
    | (reply) response where "decode_response v response = Inl e"
    by (auto simp: throw_p_def)
  then show ?thesis
  proof cases
    case send
    from send(1) have "exn_kind f = RuntimeControlError \<or> is_os_error (exn_kind f)"
      unfolding sent_def bind_p_Raise_iff lift_p_Raise using line assms(2) by blast
    then show ?thesis by (auto simp: send(2) wrap_def control_error_def)
  qed (rule decode_response_errors)
qed

lemma client_raises_control_errors_witness:
  "exn_kind (control_error (''Runtime daemon unavailable at /s: '' @ ''refused'')) = RuntimeControlError"
proof (rule client_raises_control_errors)
  show "client_request (\<lambda>_. []) ''/s'' (\<lambda>sent. throw_p (Exn OSError ''refused'')) ''ping'' [] () =
      (Raise (control_error (''Runtime daemon unavailable at /s: '' @ ''refused'')), ())"
    by (simp add: client_request_def bind_p_def catch_p_def control_error_def)
qed auto

lemma dispatch_actions:
  "dispatch m h [(''action'', PStr ''ping'')] peer = return_p ping_reply"
  "dispatch m h [(''action'', PStr ''destroy''), (''name'', PStr name)] peer = destroy m h name (PInt (peer_uid peer)) False"
  "dispatch m h [(''action'', PStr ''gc''), (''stale_only'', PBool b)] peer = gc m h (PBool b) (PInt (peer_uid peer))"
  "dispatch m h [(''action'', PStr ''create-jail''), (''name'', PStr name), (''owner_pid'', PInt pid), (''ssh_public_key'', PStr key)]
     peer = create_jail m h name (PInt pid) peer (PStr key)"
  "dispatch m h [(''action'', PStr ''create-bhyve''), (''name'', PStr name), (''owner_pid'', PInt pid), (''ssh_public_key'', PStr key),
     (''profile'', PStr profile)] peer = create_bhyve m h name (PInt pid) peer (PStr key) (PStr profile)"
  by (simp_all add: dispatch_def dispatch_create_jail_def dispatch_create_bhyve_def request_str_def request_pid_def pget_def
      pget_default_def dir_get_def bind_return lift_p_simps)

lemma request_fits:
  assumes "sum_list (map (\<lambda>p. 6 * length (fst p) + length (json_text True (snd p)) + 4) d) + 2 < max_request_bytes"
  shows "length (json_text True (PDict d)) < max_request_bytes"
  using json_dict_length [of True d] assms by linarith



end
