(* ===== verification/Remote_Provisioner.thy ===== *)
theory Remote_Provisioner
  imports Ssh_Transport Port_Pool Runtime_Client
begin

text \<open>
  remote_provisioner.py, provisioner.py and bhyve.py: the life of a remote kernel from the side
  of Jupyter. The provisioner's state extends the state of the connection file with its own
  fields, the tunnel port pool, the directories of the runtimes' keys and the world the
  operations outside act on. \<open>prov_env\<close> holds the configuration and what other programs
  answer: the daemon through its socket, OpenSSH, ssh-keygen, and Jupyter's \<open>LocalProvisioner\<close>.

  \<open>pre_launch\<close> waits for the guest and prepares the connection at the same time
  (\<open>asyncio.gather\<close>). The connection is prepared up to one suspension, the port allocation in
  a thread; \<open>gather_order\<close> says whether it is over when the wait ends (\<open>ConnectionFirst\<close>), or
  whether a wait that fails overtakes it (\<open>WaitFirst\<close>): then the exception handler runs, and
  the preparation, which nobody cancels, goes on after it.
\<close>

section \<open>Names and persisted ports\<close>

definition runtime_name :: "string \<Rightarrow> exn + string" where
  "runtime_name kernel_id =
     (let compact = py_lower (filter (\<lambda>c. ascii_lower c \<or> ascii_upper c \<or> ascii_digit c) kernel_id)
      in if compact = [] then Inl (Exn ValueError ''kernel_id does not contain a usable identifier'')
         else Inr (''freebsd-lab-'' @ take 16 compact))"

definition persisted_connection_ports :: "pyval \<Rightarrow> int list" where
  "persisted_connection_ports value =
     (case (case value of PList xs \<Rightarrow> Some xs | PTuple xs \<Rightarrow> Some xs | _ \<Rightarrow> None) of
        None \<Rightarrow> []
      | Some xs \<Rightarrow>
          (if length xs \<noteq> length connection_port_fields then []
           else case connection_ports (PDict (zip connection_port_fields xs)) of Inl _ \<Rightarrow> [] | Inr ports \<Rightarrow> ports))"

section \<open>State and environment\<close>

datatype runtime_kind = JailKind | BhyveKind | LinuxKind

datatype gather_order = ConnectionFirst | WaitFirst

datatype path_entry = KeyDirectory | OtherPath

record 'w prov_state = conn_state +
  pv_name :: "string option"
  pv_guest :: "string option"
  pv_hosts :: "string option"
  pv_key :: "string option"
  pv_created :: bool
  pv_orig_ip :: "string option"
  pv_orig_ports :: "int list"
  pv_tunnel :: "int list"
  pv_resv :: "port_reservation option"
  pv_cached :: bool
  pv_returned :: "int list"
  pv_dirs :: "path_entry dir"
  pv_pool :: port_state
  pv_world :: 'w

text \<open>What ssh-keygen leaves: its outcome, whether the two keys are regular files, and the text
  of the public one.\<close>

record keygen_result =
  kg_outcome :: outcome
  kg_private :: bool
  kg_public :: bool
  kg_text :: string

record 'w prov_env =
  pe_freebsd :: bool
  pe_kind :: runtime_kind
  pe_kernel_id :: string
  pe_pid :: int
  pe_uid :: int
  pe_show :: "pyval \<Rightarrow> string"
  pe_socket :: string
  pe_exchange :: "string \<Rightarrow> ('w, (exn + string) list) prog"
  pe_super_pre_launch :: "('w prov_state, string list) prog"
  pe_super_launch :: "string list \<Rightarrow> ('w prov_state, pyval) prog"
  pe_super_cleanup :: "('w prov_state, unit) prog"
  pe_mkdir_error :: "exn option"
  pe_keygen :: "string \<Rightarrow> 'w \<Rightarrow> keygen_result \<times> 'w"
  pe_runtime_dir :: string
  pe_remote_dir :: string
  pe_transport :: ssh_transport
  pe_startup_timeout :: int
  pe_view :: path_view
  pe_ssh :: "'w ssh_world"
  pe_io :: conn_io
  pe_restore_fault :: "write_fault option"
  pe_host :: "'w host"
  pe_port_start :: int
  pe_port_end :: int
  pe_lock :: lock_answer
  pe_taken :: "nat \<Rightarrow> bool"
  pe_lease_fail :: "string \<Rightarrow> bool"
  pe_order :: gather_order

definition on_world :: "('w, 'a) prog \<Rightarrow> ('w prov_state, 'a) prog" where
  "on_world m = zoom_p pv_world (\<lambda>w s. s\<lparr>pv_world := w\<rparr>) m"

definition on_pool :: "(port_state, 'a) prog \<Rightarrow> ('w prov_state, 'a) prog" where
  "on_pool m = zoom_p pv_pool (\<lambda>p s. s\<lparr>pv_pool := p\<rparr>) m"

section \<open>Requests to the daemon\<close>

text \<open>\<open>self._client()\<close> and the \<open>_request_create\<close> of the three classes.\<close>

definition linux_unsupported :: string where
  "linux_unsupported = ''Runtime daemon does not support Linux bhyve guests (missing bhyve.linux capability)''"

text \<open>\<open>"bhyve.linux" not in capabilities\<close>: membership in a list or a dict, a substring of text.\<close>

definition offers_linux :: "pyval \<Rightarrow> exn + bool" where
  "offers_linux capabilities =
     (case port_elements capabilities of
        Some xs \<Rightarrow> Inr (PStr ''bhyve.linux'' \<in> set xs)
      | None \<Rightarrow>
          (case capabilities of PStr s \<Rightarrow> Inr (contains_str ''bhyve.linux'' s)
           | _ \<Rightarrow> Inl (Exn TypeError ''argument is not iterable'')))"

definition jail_request :: "'w prov_env \<Rightarrow> string \<Rightarrow> int \<Rightarrow> string \<Rightarrow> ('w, record_doc) prog" where
  "jail_request e name owner_pid key = client_create_jail (pe_show e) (pe_socket e) (pe_exchange e) name owner_pid key"

definition freebsd_bhyve_request :: "'w prov_env \<Rightarrow> string \<Rightarrow> int \<Rightarrow> string \<Rightarrow> ('w, record_doc) prog" where
  "freebsd_bhyve_request e name owner_pid key =
     client_create_bhyve (pe_show e) (pe_socket e) (pe_exchange e) name owner_pid key ''freebsd-python''"

definition linux_bhyve_request :: "'w prov_env \<Rightarrow> string \<Rightarrow> int \<Rightarrow> string \<Rightarrow> ('w, record_doc) prog" where
  "linux_bhyve_request e name owner_pid key =
     bind_p (client_ping (pe_show e) (pe_socket e) (pe_exchange e)) (\<lambda>ping_info.
     bind_p (lift_p (offers_linux (pget_default ping_info ''capabilities'' (PList [])))) (\<lambda>ok.
       if \<not> ok then raise_p RuntimeError linux_unsupported
       else client_create_bhyve (pe_show e) (pe_socket e) (pe_exchange e) name owner_pid key ''linux-python''))"

definition request_create :: "'w prov_env \<Rightarrow> string \<Rightarrow> int \<Rightarrow> string \<Rightarrow> ('w, record_doc) prog" where
  "request_create e =
     (case pe_kind e of JailKind \<Rightarrow> jail_request e | BhyveKind \<Rightarrow> freebsd_bhyve_request e | LinuxKind \<Rightarrow> linux_bhyve_request e)"

definition runtime_label :: "runtime_kind \<Rightarrow> string" where
  "runtime_label k = (case k of JailKind \<Rightarrow> ''jail'' | BhyveKind \<Rightarrow> ''bhyve VM'' | LinuxKind \<Rightarrow> ''Linux bhyve VM'')"

definition name_key :: "runtime_kind \<Rightarrow> string" where
  "name_key k = (case k of JailKind \<Rightarrow> ''jail_name'' | _ \<Rightarrow> ''vm_name'')"

section \<open>Creating the runtime\<close>

definition runtime_path :: "'w prov_env \<Rightarrow> string \<Rightarrow> string" where
  "runtime_path e name = pe_runtime_dir e @ ''/'' @ name"

text \<open>A link or a file is unlinked, a directory removed with its contents; the entry is gone.\<close>

definition remove_runtime_path :: "string \<Rightarrow> ('w prov_state, unit) prog" where
  "remove_runtime_path name = modify_p (\<lambda>s. s\<lparr>pv_dirs := dir_del name (pv_dirs s)\<rparr>)"

definition make_runtime_path :: "'w prov_env \<Rightarrow> string \<Rightarrow> ('w prov_state, unit) prog" where
  "make_runtime_path e name =
     (case pe_mkdir_error e of
        Some x \<Rightarrow> throw_p x
      | None \<Rightarrow> modify_p (\<lambda>s. s\<lparr>pv_dirs := dir_put name KeyDirectory (pv_dirs s)\<rparr>))"

definition check_key_result :: "keygen_result \<Rightarrow> exn + string" where
  "check_key_result g =
     (case kg_outcome g of
        TimedOut \<Rightarrow> Inl (Exn TimeoutExpired ''Command timed out after 15 seconds'')
      | ExecFailed m \<Rightarrow> Inl (Exn OSError m)
      | Completed rc out err \<Rightarrow>
          (if rc \<noteq> 0 then
             Inl (Exn RuntimeError (''Unable to generate per-runtime SSH key: '' @
               (if py_strip err \<noteq> [] then py_strip err
                else if py_strip out \<noteq> [] then py_strip out else ''ssh-keygen failed'')))
           else if \<not> kg_private g then Inl (Exn RuntimeError ''ssh-keygen did not create a regular private key'')
           else if \<not> kg_public g then Inl (Exn RuntimeError ''ssh-keygen did not create a regular public key'')
           else let material = py_strip (kg_text g)
             in if CHR 0x0A \<in> set material \<or> \<not> starts_with ''ssh-ed25519 '' material
                then Inl (Exn RuntimeError ''ssh-keygen returned an invalid Ed25519 public key'')
                else Inr material))"

definition create_runtime_key :: "'w prov_env \<Rightarrow> string \<Rightarrow> ('w prov_state, string) prog" where
  "create_runtime_key e name =
     (let private_key = runtime_path e name @ ''/id_ed25519''
      in bind_p (on_world (\<lambda>w. case pe_keygen e private_key w of (g, w') \<Rightarrow> (Ret g, w'))) (\<lambda>g.
         bind_p (lift_p (check_key_result g)) (\<lambda>material.
           then_p (modify_p (\<lambda>s. s\<lparr>pv_key := Some private_key\<rparr>)) (return_p material))))"

definition accept_guest :: "'w prov_env \<Rightarrow> record_doc \<Rightarrow> ('w prov_state, unit) prog" where
  "accept_guest e result =
     (case pget result ''guest_ip'' of
        PStr ip \<Rightarrow>
          (if ip = [] then raise_p RuntimeError (''Runtime daemon did not return the '' @ runtime_label (pe_kind e) @ '' address'')
           else modify_p (\<lambda>s. s\<lparr>pv_guest := Some ip\<rparr>))
      | _ \<Rightarrow> raise_p RuntimeError (''Runtime daemon did not return the '' @ runtime_label (pe_kind e) @ '' address''))"

definition create_runtime :: "'w prov_env \<Rightarrow> ('w prov_state, unit) prog" where
  "create_runtime e =
     bind_p (lift_p (runtime_name (pe_kernel_id e))) (\<lambda>name.
       then_p (modify_p (\<lambda>s. s\<lparr>pv_name := Some name\<rparr>))
       (then_p (remove_runtime_path name)
       (then_p (make_runtime_path e name)
       (then_p (modify_p (\<lambda>s. s\<lparr>pv_hosts := Some (runtime_path e name @ ''/known_hosts'')\<rparr>))
       (bind_p (create_runtime_key e name) (\<lambda>key.
        bind_p (on_world (request_create e name (pe_pid e) key)) (\<lambda>result.
          then_p (modify_p (\<lambda>s. s\<lparr>pv_created := True\<rparr>)) (accept_guest e result))))))))"

section \<open>Destroying the runtime\<close>

definition release_tunnel_ports :: "'w prov_env \<Rightarrow> ('w prov_state, unit) prog" where
  "release_tunnel_ports e =
     bind_p (gets_p pv_resv) (\<lambda>reservation.
       then_p (modify_p (\<lambda>s. s\<lparr>pv_resv := None\<rparr>))
       (then_p (case reservation of
                  None \<Rightarrow> return_p ()
                | Some r \<Rightarrow> then_p (on_pool (reservation_release (pe_lock e) r)) (return_p ()))
         (modify_p (\<lambda>s. s\<lparr>pv_tunnel := []\<rparr>))))"

definition ask_destroy :: "'w prov_env \<Rightarrow> string \<Rightarrow> ('w prov_state, unit) prog" where
  "ask_destroy e name =
     catch_p (then_p (on_world (client_destroy (pe_show e) (pe_socket e) (pe_exchange e) name)) (return_p ()))
       (\<lambda>x. if exn_kind x = RuntimeControlError then return_p () else throw_p x)"

definition forget_runtime :: "string option \<Rightarrow> ('w prov_state, unit) prog" where
  "forget_runtime name =
     then_p (modify_p (\<lambda>s. s\<lparr>pv_created := False\<rparr>))
     (then_p (case name of Some n \<Rightarrow> when_p (n \<noteq> []) (remove_runtime_path n) | None \<Rightarrow> return_p ())
       (modify_p (\<lambda>s. s\<lparr>pv_name := None, pv_guest := None, pv_hosts := None, pv_key := None\<rparr>)))"

definition destroy_runtime :: "'w prov_env \<Rightarrow> ('w prov_state, unit) prog" where
  "destroy_runtime e =
     then_p (release_tunnel_ports e)
       (bind_p (gets_p (\<lambda>s. (pv_name s, pv_created s))) (\<lambda>(name, created).
         finally_p
           (case name of
              Some n \<Rightarrow> when_p (created \<and> n \<noteq> []) (ask_destroy e n)
            | None \<Rightarrow> return_p ())
           (forget_runtime name)))"

definition restore_connection :: "'w prov_env \<Rightarrow> ('w prov_state, unit) prog" where
  "restore_connection e =
     bind_p (gets_p (\<lambda>s. (pv_orig_ip s, pv_orig_ports s))) (\<lambda>(ip, ports).
       then_p (restore_connection_file ((pe_io e)\<lparr>ci_fault := pe_restore_fault e\<rparr>) ip (PTuple (map PInt ports)))
         (modify_p (\<lambda>s. s\<lparr>pv_orig_ip := None, pv_orig_ports := []\<rparr>)))"

text \<open>The handler of the three operations: restore the file, forget it, destroy the runtime.\<close>

definition undo_launch :: "'w prov_env \<Rightarrow> ('w prov_state, unit) prog" where
  "undo_launch e = then_p (restore_connection e) (destroy_runtime e)"

section \<open>Launching\<close>

text \<open>\<open>_transport()\<close>: the configured transport with the runtime's address and keys.\<close>

definition make_transport :: "'w prov_env \<Rightarrow> ('w prov_state, ssh_transport) prog" where
  "make_transport e =
     bind_p (gets_p (\<lambda>s. (pv_guest s, pv_hosts s, pv_key s))) (\<lambda>(guest, hosts, key).
       case (guest, hosts, key) of
         (Some g, Some h, Some k) \<Rightarrow>
           return_p ((pe_transport e)\<lparr>tr_host := g, tr_private_key := k, tr_known_hosts := h\<rparr>)
       | _ \<Rightarrow> raise_p RuntimeError (runtime_label (pe_kind e) @ '' SSH transport is not initialized''))"

definition release_jupyter_cached_ports :: "int list \<Rightarrow> ('w prov_state, unit) prog" where
  "release_jupyter_cached_ports ports =
     modify_p (\<lambda>s. if pv_cached s then s\<lparr>pv_returned := pv_returned s @ ports, pv_cached := False\<rparr> else s)"

definition allocate_tunnel :: "'w prov_env \<Rightarrow> string \<Rightarrow> ('w prov_state, port_reservation) prog" where
  "allocate_tunnel e name =
     bind_p (lift_p (port_pool_init (\<lambda>_. True) (PInt (pe_port_start e)) (PInt (pe_port_end e)) ''127.0.0.1'')) (\<lambda>pool.
     bind_p (gets_p pv_world) (\<lambda>w.
       on_pool (port_allocate (pe_host e) w (pe_pid e) (pe_uid e) (pe_lock e) (pe_taken e) (pe_lease_fail e) pool
         name (PInt (pe_pid e)) (PInt (int (length connection_port_fields))))))"

definition adopt_reservation :: "'w prov_env \<Rightarrow> port_reservation \<Rightarrow> ('w prov_state, string \<times> int list) prog" where
  "adopt_reservation e r =
     then_p (modify_p (\<lambda>s. s\<lparr>pv_resv := Some r\<rparr>))
     (bind_p (rewrite_connection_file (pe_io e) ''127.0.0.1'' (Some (PTuple (map (\<lambda>p. PInt (int p)) (rsv_ports r)))))
       (\<lambda>(host, original_ip, original_ports, tunnel_ports).
         then_p (modify_p (\<lambda>s. s\<lparr>pv_orig_ip := Some original_ip, pv_orig_ports := original_ports, pv_tunnel := tunnel_ports\<rparr>))
         (then_p (release_jupyter_cached_ports original_ports) (return_p (host, tunnel_ports)))))"

definition prepare_connection :: "'w prov_env \<Rightarrow> string \<Rightarrow> ('w prov_state, string \<times> int list) prog" where
  "prepare_connection e name = bind_p (allocate_tunnel e name) (adopt_reservation e)"

definition wait_for_guest :: "'w prov_env \<Rightarrow> ssh_transport \<Rightarrow> ('w prov_state, unit) prog" where
  "wait_for_guest e t =
     on_world (\<lambda>w. case wait_until_ready (pe_ssh e) t (PInt (pe_startup_timeout e)) w of
        None \<Rightarrow> (Stuck, w) | Some y \<Rightarrow> y)"

definition gather :: "'w prov_env \<Rightarrow> ssh_transport \<Rightarrow> string \<Rightarrow> ('w prov_state, string \<times> int list) prog" where
  "gather e t name =
     (case pe_order e of
        ConnectionFirst \<Rightarrow> bind_p (prepare_connection e name) (\<lambda>c. then_p (wait_for_guest e t) (return_p c))
      | WaitFirst \<Rightarrow> then_p (wait_for_guest e t) (prepare_connection e name))"

definition exec_line :: "string list \<Rightarrow> string" where
  "exec_line words = ''exec '' @ join_with '' '' (map shlex_quote words)"

definition staged_file_of :: "conn_state \<Rightarrow> string \<Rightarrow> staged_file" where
  "staged_file_of s path =
     (case dir_get (cs_dir s) (path_name path) of
        None \<Rightarrow> StageMissing | Some (ConnFile b) \<Rightarrow> StageFile b | Some _ \<Rightarrow> StageIrregular)"

definition stage_connection :: "'w prov_env \<Rightarrow> ssh_transport \<Rightarrow> string \<Rightarrow> ('w prov_state, string) prog" where
  "stage_connection e t host_file =
     bind_p (gets_p (\<lambda>s. staged_file_of (conn_state.truncate s))) (\<lambda>entry. on_world (stage (pe_ssh e) t entry host_file (pe_remote_dir e)))"

definition launch_words ::
    "'w prov_env \<Rightarrow> ssh_transport \<Rightarrow> string list \<Rightarrow> string \<Rightarrow> string \<Rightarrow> int list \<Rightarrow> exn + string list" where
  "launch_words e t cmd host_file remote_file tunnel_ports =
     (case remote_kernel_command (ci_resolve (pe_io e)) cmd host_file remote_file of
        Inl x \<Rightarrow> Inl x
      | Inr kernel_command \<Rightarrow> ssh_command t (exec_line kernel_command) tunnel_ports)"

definition finish_launch ::
    "'w prov_env \<Rightarrow> ssh_transport \<Rightarrow> string list \<Rightarrow> string \<Rightarrow> int list \<Rightarrow> ('w prov_state, string list) prog" where
  "finish_launch e t cmd host_file tunnel_ports =
     bind_p (stage_connection e t host_file) (\<lambda>remote_file.
       lift_p (launch_words e t cmd host_file remote_file tunnel_ports))"

definition connect_guest :: "'w prov_env \<Rightarrow> string list \<Rightarrow> ssh_transport \<Rightarrow> string \<Rightarrow> ('w prov_state, string list) prog" where
  "connect_guest e cmd t name =
     bind_p (gather e t name) (\<lambda>c. finish_launch e t cmd (fst c) (snd c))"

definition checked_transport :: "'w prov_env \<Rightarrow> ('w prov_state, ssh_transport) prog" where
  "checked_transport e =
     bind_p (make_transport e) (\<lambda>t. then_p (lift_p (assert_available (pe_view e) t)) (return_p t))"

definition name_unavailable :: "'w prov_env \<Rightarrow> string" where
  "name_unavailable e = ''Kernel manager or '' @ runtime_label (pe_kind e) @ '' name is unavailable''"

definition launch_remote :: "'w prov_env \<Rightarrow> string list \<Rightarrow> ('w prov_state, string list) prog" where
  "launch_remote e cmd =
     then_p (create_runtime e)
     (bind_p (checked_transport e) (\<lambda>t.
      bind_p (gets_p pv_name) (\<lambda>name. case name of
         None \<Rightarrow> raise_p RuntimeError (name_unavailable e)
       | Some n \<Rightarrow> connect_guest e cmd t n)))"

text \<open>
  The suspended preparation after the handler of a wait that overtook it; what it raises is
  never looked at.
\<close>

definition late_preparation :: "'w prov_env \<Rightarrow> string \<Rightarrow> ('w prov_state, unit) prog" where
  "late_preparation e name =
     catch_p (then_p (prepare_connection e name) (return_p ())) (\<lambda>_. return_p ())"

definition wait_was_pending :: "'w prov_env \<Rightarrow> 'w prov_state \<Rightarrow> string option" where
  "wait_was_pending e s =
     (case then_p (create_runtime e) (checked_transport e) s of
        (Ret t, u) \<Rightarrow>
          (case (pe_order e, fst (wait_for_guest e t u)) of (WaitFirst, Raise _) \<Rightarrow> pv_name u | _ \<Rightarrow> None)
      | _ \<Rightarrow> None)"

definition guarded_launch :: "'w prov_env \<Rightarrow> string list \<Rightarrow> ('w prov_state, string list) prog" where
  "guarded_launch e cmd s =
     catch_p (launch_remote e cmd)
       (\<lambda>x. then_p (undo_launch e)
         (then_p (case wait_was_pending e s of None \<Rightarrow> return_p () | Some n \<Rightarrow> late_preparation e n) (throw_p x))) s"

definition pre_launch :: "'w prov_env \<Rightarrow> ('w prov_state, string list) prog" where
  "pre_launch e =
     (if \<not> pe_freebsd e then raise_p RuntimeError ''FreeBSD remote runtime provisioner requires a FreeBSD host''
      else bind_p (pe_super_pre_launch e) (guarded_launch e))"

definition launch_kernel :: "'w prov_env \<Rightarrow> string list \<Rightarrow> ('w prov_state, pyval) prog" where
  "launch_kernel e cmd =
     then_p (bind_p (gets_p pv_resv) (\<lambda>reservation.
        case reservation of
          None \<Rightarrow> return_p ()
        | Some r \<Rightarrow> bind_p (on_pool (release_reservations r)) (\<lambda>r'. modify_p (\<lambda>s. s\<lparr>pv_resv := Some r'\<rparr>))))
       (catch_p (pe_super_launch e cmd) (\<lambda>x. then_p (undo_launch e) (throw_p x)))"

definition prov_cleanup :: "'w prov_env \<Rightarrow> ('w prov_state, unit) prog" where
  "prov_cleanup e = finally_p (pe_super_cleanup e) (undo_launch e)"

section \<open>Persistence\<close>

definition opt_str :: "string option \<Rightarrow> pyval" where
  "opt_str v = (case v of None \<Rightarrow> PNone | Some s \<Rightarrow> PStr s)"

definition get_provisioner_info :: "'w prov_env \<Rightarrow> record_doc \<Rightarrow> 'w prov_state \<Rightarrow> record_doc" where
  "get_provisioner_info e info s =
     fold (\<lambda>(k, v). dir_put k v)
       [(name_key (pe_kind e), opt_str (pv_name s)), (''guest_ip'', opt_str (pv_guest s)),
        (''known_hosts_file'', opt_str (pv_hosts s)), (''runtime_created'', PBool (pv_created s)),
        (''original_connection_ip'', opt_str (pv_orig_ip s)),
        (''original_connection_ports'', PList (map PInt (pv_orig_ports s))),
        (''tunnel_ports'', PList (map PInt (pv_tunnel s)))] info"

definition text_or_none :: "pyval \<Rightarrow> string option" where
  "text_or_none v = (case v of PStr s \<Rightarrow> if s = [] then None else Some s | _ \<Rightarrow> None)"

definition load_provisioner_info :: "'w prov_env \<Rightarrow> pyval \<Rightarrow> 'w prov_state \<Rightarrow> 'w prov_state" where
  "load_provisioner_info e provisioner_info s =
     (case provisioner_info of
        PDict info \<Rightarrow>
          (let name = text_or_none (pget info (name_key (pe_kind e)));
               key = (case name of
                        None \<Rightarrow> None
                      | Some n \<Rightarrow> let candidate = runtime_path e n @ ''/id_ed25519''
                          in if pv_file (pe_view e) candidate \<and> \<not> pv_link (pe_view e) candidate then Some candidate else None)
           in s\<lparr>pv_name := name, pv_guest := text_or_none (pget info ''guest_ip''),
                pv_hosts := text_or_none (pget info ''known_hosts_file''), pv_key := key,
                pv_created := truthy (pget info ''runtime_created''),
                pv_orig_ip := text_or_none (pget info ''original_connection_ip''),
                pv_orig_ports := persisted_connection_ports (pget_default info ''original_connection_ports'' (PList [])),
                pv_tunnel := persisted_connection_ports (pget_default info ''tunnel_ports'' (PList []))\<rparr>)
      | _ \<Rightarrow> s)"

section \<open>Frame lemmas\<close>

lemma keeps_on_world: "(\<And>s w. f (s\<lparr>pv_world := w\<rparr>) = f s) \<Longrightarrow> keeps f (on_world m)"
  by (auto simp: keeps_def on_world_def zoom_p_def split: prod.splits)

lemma keeps_on_pool: "(\<And>s p. f (s\<lparr>pv_pool := p\<rparr>) = f s) \<Longrightarrow> keeps f (on_pool m)"
  by (auto simp: keeps_def on_pool_def zoom_p_def split: prod.splits)

text \<open>The part of the state the restoration of ports and names depends on.\<close>

definition lent_part :: "'w prov_state \<Rightarrow> string option \<times> port_reservation option \<times> port_state" where
  "lent_part s = (pv_name s, pv_resv s, pv_pool s)"

lemma lent_part_simps [simp]:
  "lent_part (s\<lparr>pv_world := w\<rparr>) = lent_part s" "lent_part (s\<lparr>pv_guest := g\<rparr>) = lent_part s"
  "lent_part (s\<lparr>pv_hosts := h\<rparr>) = lent_part s" "lent_part (s\<lparr>pv_key := k\<rparr>) = lent_part s"
  "lent_part (s\<lparr>pv_created := b\<rparr>) = lent_part s" "lent_part (s\<lparr>pv_dirs := d\<rparr>) = lent_part s"
  "lent_part (s\<lparr>pv_orig_ip := oi, pv_orig_ports := ops, pv_tunnel := ts\<rparr>) = lent_part s"
  "lent_part (s\<lparr>pv_returned := rs, pv_cached := c\<rparr>) = lent_part s"
  by (simp_all add: lent_part_def)

lemma outside_conn_parts: "outside_conn lent_part" "outside_conn pv_name" "outside_conn pv_resv" "outside_conn pv_pool"
  "outside_conn pv_dirs" "outside_conn pv_created" "outside_conn pv_world" "outside_conn pv_orig_ip"
  by (simp_all add: outside_conn_def lent_part_def)

lemma keeps_create_parts:
  "keeps lent_part (remove_runtime_path n)" "keeps lent_part (make_runtime_path e n)"
  "keeps lent_part (create_runtime_key e n)" "keeps lent_part (accept_guest e result)"
proof -
  show "keeps lent_part (remove_runtime_path n)" by (auto simp: remove_runtime_path_def intro: keeps_modify)
  show "keeps lent_part (make_runtime_path e n)"
    by (auto simp: make_runtime_path_def intro: keeps_modify split: option.splits)
  show "keeps lent_part (create_runtime_key e n)"
    unfolding create_runtime_key_def Let_def
    by (intro keeps_bind keeps_then keeps_on_world keeps_lift keeps_modify keeps_prim) simp_all
  show "keeps lent_part (accept_guest e result)"
    by (auto simp: accept_guest_def intro: keeps_modify split: pyval.splits)
qed

lemma create_runtime_lent:
  assumes "create_runtime e s = (r, t)"
  shows "pv_resv t = pv_resv s" "pv_pool t = pv_pool s"
    "runtime_name (pe_kernel_id e) = Inr n \<Longrightarrow> pv_name t = Some n"
proof -
  define body where "body n =
       then_p (remove_runtime_path n)
       (then_p (make_runtime_path e n)
       (then_p (modify_p (\<lambda>s. s\<lparr>pv_hosts := Some (runtime_path e n @ ''/known_hosts'')\<rparr>))
       (bind_p (create_runtime_key e n) (\<lambda>key.
        bind_p (on_world (request_create e n (pe_pid e) key)) (\<lambda>result.
          then_p (modify_p (\<lambda>s. s\<lparr>pv_created := True\<rparr>)) (accept_guest e result))))))" for n
  have k: "keeps lent_part (body n)" for n
    unfolding body_def
    by (intro keeps_bind keeps_then keeps_create_parts keeps_on_world keeps_modify) simp_all
  have run: "create_runtime e s = (case runtime_name (pe_kernel_id e) of Inl x \<Rightarrow> (Raise x, s)
      | Inr n \<Rightarrow> body n (s\<lparr>pv_name := Some n\<rparr>))"
    unfolding create_runtime_def body_def by (simp add: lift_p_def split: sum.splits)
  show "pv_resv t = pv_resv s" "pv_pool t = pv_pool s" "runtime_name (pe_kernel_id e) = Inr n \<Longrightarrow> pv_name t = Some n"
    using assms run keepsD [OF k] by (auto simp: lent_part_def split: sum.splits)
qed

lemma keeps_launch_parts:
  "keeps f (make_transport e)" "keeps lent_part (wait_for_guest e t)" "keeps lent_part (stage_connection e t p)"
  "keeps f (checked_transport e)"
proof -
  show mt: "keeps f (make_transport e)"
    unfolding make_transport_def by (intro keeps_bind keeps_prim) (auto split: option.splits)
  show "keeps f (checked_transport e)"
    unfolding checked_transport_def by (intro keeps_bind keeps_then keeps_lift keeps_prim mt)
  show "keeps lent_part (wait_for_guest e t)" "keeps lent_part (stage_connection e t p)"
    unfolding wait_for_guest_def stage_connection_def by (intro keeps_bind keeps_on_world keeps_prim; simp)+
qed

section \<open>What a failed launch leaves\<close>

text \<open>The port pool as it is once the reservation the provisioner holds is given back.\<close>

definition settled_pool :: "'w prov_state \<Rightarrow> port_state" where
  "settled_pool s =
     (case pv_resv s of None \<Rightarrow> pv_pool s | Some r \<Rightarrow> snd (reservation_release LockReady r (pv_pool s)))"

lemma settled_lent: "lent_part s = lent_part t \<Longrightarrow> settled_pool s = settled_pool t"
  by (auto simp: settled_pool_def lent_part_def split: option.splits)

lemma keeps_settled: "keeps lent_part m \<Longrightarrow> m s = (r, t) \<Longrightarrow> settled_pool t = settled_pool s \<and> pv_name t = pv_name s"
  using keepsD [of lent_part m s r t] settled_lent [of t s] by (auto simp: lent_part_def)

lemma allocate_tunnel_settled:
  assumes run: "allocate_tunnel e n s = (r, t)" and env: "pe_lock e = LockReady" "1 < pe_pid e" "0 \<le> pe_uid e"
  shows "pv_resv t = pv_resv s" "pv_name t = pv_name s"
    "r = Ret rv \<Longrightarrow> no_more (pv_pool s) (snd (reservation_release LockReady rv (pv_pool t)))"
    "r = Raise x \<Longrightarrow> no_more (pv_pool s) (pv_pool t)"
proof -
  let ?init = "port_pool_init (\<lambda>_. True) (PInt (pe_port_start e)) (PInt (pe_port_end e)) ''127.0.0.1''"
  let ?alloc = "\<lambda>pool. port_allocate (pe_host e) (pv_world s) (pe_pid e) (pe_uid e) LockReady (pe_taken e) (pe_lease_fail e) pool
      n (PInt (pe_pid e)) (PInt (int (length connection_port_fields)))"
  show "pv_resv t = pv_resv s" "pv_name t = pv_name s"
    using run by (auto simp: allocate_tunnel_def bind_p_def lift_p_def on_pool_def zoom_p_def split: sum.splits prod.splits)
  show "no_more (pv_pool s) (snd (reservation_release LockReady rv (pv_pool t)))" if r: "r = Ret rv"
  proof -
    from run r env(1) obtain pool where pool: "?init = Inr pool" and al: "?alloc pool (pv_pool s) = (Ret rv, pv_pool t)"
      by (auto simp: allocate_tunnel_def bind_p_def lift_p_def on_pool_def zoom_p_def split: sum.splits prod.splits)
    have "1024 \<le> pp_start pool" "pp_end pool \<le> 65535" "pp_start pool \<le> pp_end pool"
      using pool by (auto simp: port_pool_init_def split: if_splits)
    from allocate_release [OF al env(2,3) this] show ?thesis by auto
  qed
  show "no_more (pv_pool s) (pv_pool t)" if r: "r = Raise x"
  proof (cases "?init")
    case (Inl y)
    with run r show ?thesis by (auto simp: allocate_tunnel_def bind_p_def lift_p_def)
  next
    case (Inr pool)
    with run r env(1) have "?alloc pool (pv_pool s) = (Raise x, pv_pool t)"
      by (auto simp: allocate_tunnel_def bind_p_def lift_p_def on_pool_def zoom_p_def split: prod.splits)
    then show ?thesis by (rule allocate_no_more)
  qed
qed

lemma keeps_adopt_rest:
  "keeps lent_part (bind_p (rewrite_connection_file io ip ports)
       (\<lambda>(host, original_ip, original_ports, tunnel_ports).
         then_p (modify_p (\<lambda>s. s\<lparr>pv_orig_ip := Some original_ip, pv_orig_ports := original_ports, pv_tunnel := tunnel_ports\<rparr>))
         (then_p (release_jupyter_cached_ports original_ports) (return_p (host, tunnel_ports)))))"
  unfolding release_jupyter_cached_ports_def case_prod_beta
  by (intro keeps_bind keeps_then keeps_rewrite keeps_modify keeps_prim outside_conn_parts) simp_all

lemma prepare_settled:
  assumes run: "prepare_connection e n s = (r, t)" and env: "pe_lock e = LockReady" "1 < pe_pid e" "0 \<le> pe_uid e"
    and none: "pv_resv s = None" and fin: "r \<noteq> Stuck"
  shows "no_more (pv_pool s) (settled_pool t) \<and> pv_name t = pv_name s"
proof -
  obtain q u where al: "allocate_tunnel e n s = (q, u)" by (cases "allocate_tunnel e n s")
  note a = allocate_tunnel_settled [OF al env]
  show ?thesis
  proof (cases q)
    case (Ret rv)
    then have "adopt_reservation e rv u = (r, t)" using run al by (simp add: prepare_connection_def bind_p_def)
    then have "settled_pool t = settled_pool (u\<lparr>pv_resv := Some rv\<rparr>) \<and> pv_name t = pv_name u"
      unfolding adopt_reservation_def using keeps_settled [OF keeps_adopt_rest] by fastforce
    then show ?thesis using a(2,3) Ret by (simp add: settled_pool_def)
  next
    case (Raise x)
    then have "t = u" using run al by (simp add: prepare_connection_def bind_p_def)
    then show ?thesis using a Raise none by (simp add: settled_pool_def)
  next
    case Stuck
    then show ?thesis using run al fin by (simp add: prepare_connection_def bind_p_def)
  qed
qed

lemma launch_remote_settled:
  assumes run: "launch_remote e cmd s = (Raise x, t)" and env: "pe_lock e = LockReady" "1 < pe_pid e" "0 \<le> pe_uid e"
    and none: "pv_resv s = None" and order: "pe_order e = ConnectionFirst"
  shows "no_more (pv_pool s) (settled_pool t)" "runtime_name (pe_kernel_id e) = Inr n \<Longrightarrow> pv_name t = Some n"
proof -
  obtain q1 s1 where c: "create_runtime e s = (q1, s1)" by (cases "create_runtime e s")
  note c' = create_runtime_lent [OF c]
  have s1: "no_more (pv_pool s) (settled_pool s1)" using c'(1,2) none by (simp add: settled_pool_def)
  have later: "no_more (pv_pool s) (settled_pool t) \<and> pv_name t = pv_name s1" if "q1 = Ret ()"
  proof -
    have rest: "bind_p (checked_transport e) (\<lambda>tr. bind_p (gets_p pv_name) (\<lambda>name. case name of
         None \<Rightarrow> raise_p RuntimeError (name_unavailable e) | Some n \<Rightarrow> connect_guest e cmd tr n)) s1 = (Raise x, t)"
      using run c that by (simp add: launch_remote_def then_p_def bind_p_def)
    obtain q2 where ct: "checked_transport e s1 = (q2, s1)"
      using keepsD [OF keeps_launch_parts(4) [of "\<lambda>s. s"]] by (metis surj_pair)
    have "t = s1 \<or> (\<exists>tr n. connect_guest e cmd tr n s1 = (Raise x, t))"
    proof (cases q2)
      case (Ret tr)
      with rest ct show ?thesis by (cases "pv_name s1") (auto simp: bind_p_def)
    qed (use rest ct in \<open>auto simp: bind_p_def\<close>)
    then consider "t = s1" | tr n where "connect_guest e cmd tr n s1 = (Raise x, t)" by blast
    then show ?thesis
    proof cases
      case 1
      then show ?thesis using s1 by simp
    next
      case (2 tr n)
      obtain q3 s3 where p: "prepare_connection e n s1 = (q3, s3)" by (cases "prepare_connection e n s1")
      have q3: "q3 \<noteq> Stuck"
        using 2 p order by (auto simp: connect_guest_def gather_def bind_p_def)
      have p': "no_more (pv_pool s) (settled_pool s3) \<and> pv_name s3 = pv_name s1"
        using prepare_settled [OF p env _ q3] c'(1,2) none by simp
      show ?thesis
      proof (cases q3)
        case (Ret c)
        obtain host ports where cc: "c = (host, ports)" by (cases c)
        have k: "keeps lent_part (then_p (wait_for_guest e tr) (finish_launch e tr cmd host ports))"
          unfolding finish_launch_def by (intro keeps_then keeps_bind keeps_launch_parts keeps_lift)
        have "then_p (wait_for_guest e tr) (finish_launch e tr cmd host ports) s3 = (Raise x, t)"
          using 2 p order Ret cc
          by (cases "wait_for_guest e tr s3") (auto simp: connect_guest_def gather_def bind_p_def then_p_def split: res.splits)
        from keeps_settled [OF k this] p' show ?thesis by simp
      next
        case (Raise y)
        then have "t = s3" using 2 p order by (simp add: connect_guest_def gather_def bind_p_def)
        with p' show ?thesis by simp
      qed (use q3 in simp)
    qed
  qed
  have early: "t = s1" if "q1 \<noteq> Ret ()"
    using run c that by (cases q1) (auto simp: launch_remote_def then_p_def bind_p_def)
  show "no_more (pv_pool s) (settled_pool t)" using later early s1 by auto
  show "pv_name t = Some n" if "runtime_name (pe_kernel_id e) = Inr n" using later early c'(3) [OF that] by auto
qed

section \<open>Undoing a launch\<close>

text \<open>The provisioner holds nothing: no name, address, keys, recorded ports or reservation.\<close>

definition holds_nothing :: "'w prov_state \<Rightarrow> bool" where
  "holds_nothing s \<longleftrightarrow>
     pv_name s = None \<and> pv_guest s = None \<and> pv_hosts s = None \<and> pv_key s = None \<and> \<not> pv_created s \<and>
     pv_orig_ip s = None \<and> pv_orig_ports s = [] \<and> pv_tunnel s = [] \<and> pv_resv s = None"

lemma restore_connection_run:
  "\<exists>u. restore_connection e s = (Ret (), u) \<and> lent_part u = lent_part s \<and> pv_dirs u = pv_dirs s \<and>
     pv_created u = pv_created s \<and> pv_world u = pv_world s \<and> pv_orig_ip u = None \<and> pv_orig_ports u = []"
proof -
  let ?m = "restore_connection_file ((pe_io e)\<lparr>ci_fault := pe_restore_fault e\<rparr>) (pv_orig_ip s) (PTuple (map PInt (pv_orig_ports s)))"
  obtain v where v: "?m s = (Ret (), v)" using returns_unit [OF returns_restore] by blast
  have "lent_part v = lent_part s" "pv_dirs v = pv_dirs s" "pv_created v = pv_created s" "pv_world v = pv_world s"
    using keepsD [OF keeps_restore [OF outside_conn_parts(1)] v] keepsD [OF keeps_restore [OF outside_conn_parts(5)] v]
      keepsD [OF keeps_restore [OF outside_conn_parts(6)] v] keepsD [OF keeps_restore [OF outside_conn_parts(7)] v] by auto
  then show ?thesis
    using v by (simp add: restore_connection_def then_p_def bind_p_def lent_part_def)
qed

lemma release_tunnel_run:
  assumes "pe_lock e = LockReady"
  shows "release_tunnel_ports e s = (Ret (), s\<lparr>pv_resv := None, pv_pool := settled_pool s, pv_tunnel := []\<rparr>)"
proof (cases "pv_resv s")
  case (Some r)
  obtain r' u where "reservation_release LockReady r (pv_pool s) = (Ret r', u)" using reservation_release_run by blast
  with Some assms show ?thesis
    by (simp add: release_tunnel_ports_def then_p_def bind_p_def on_pool_def zoom_p_def settled_pool_def)
qed (simp add: release_tunnel_ports_def then_p_def bind_p_def settled_pool_def)

lemma forget_runtime_run:
  "forget_runtime name s = (Ret (), s\<lparr>pv_created := False,
     pv_dirs := (case name of Some n \<Rightarrow> if n \<noteq> [] then dir_del n (pv_dirs s) else pv_dirs s | None \<Rightarrow> pv_dirs s),
     pv_name := None, pv_guest := None, pv_hosts := None, pv_key := None\<rparr>)"
  by (simp add: forget_runtime_def then_p_def bind_p_def remove_runtime_path_def when_p_def split: option.splits)

definition own_fields :: "'w prov_state \<Rightarrow> (string option \<times> int list \<times> int list) \<times> port_reservation option \<times> port_state \<times> path_entry dir" where
  "own_fields s = ((pv_orig_ip s, pv_orig_ports s, pv_tunnel s), pv_resv s, pv_pool s, pv_dirs s)"

lemma keeps_ask_destroy: "keeps own_fields (ask_destroy e n)"
  unfolding ask_destroy_def
  by (intro keeps_catch keeps_then keeps_on_world keeps_if keeps_prim) (simp add: own_fields_def)

text \<open>
  Undoing a launch: what the provisioner holds is gone on every path that ends, the daemon was
  asked to destroy the runtime when it had created it.
\<close>

lemma undo_launch_run:
  assumes "pe_lock e = LockReady" "undo_launch e s = (r, u)" "r \<noteq> Stuck"
  shows "holds_nothing u" "pv_pool u = settled_pool s"
    "pv_name s = Some n \<Longrightarrow> n \<noteq> [] \<Longrightarrow> dir_get (pv_dirs u) n = None"
    "pv_name s = Some n \<Longrightarrow> n \<noteq> [] \<Longrightarrow> pv_created s \<Longrightarrow>
       pv_world u = snd (client_destroy (pe_show e) (pe_socket e) (pe_exchange e) n (pv_world s))"
proof -
  obtain s1 where s1: "restore_connection e s = (Ret (), s1)" and k1: "lent_part s1 = lent_part s" "pv_dirs s1 = pv_dirs s"
    "pv_created s1 = pv_created s" "pv_world s1 = pv_world s" "pv_orig_ip s1 = None" "pv_orig_ports s1 = []"
    using restore_connection_run [of e s] by auto
  let ?s2 = "s1\<lparr>pv_resv := None, pv_pool := settled_pool s1, pv_tunnel := []\<rparr>"
  let ?ask = "case pv_name s1 of Some n \<Rightarrow> when_p (pv_created s1 \<and> n \<noteq> []) (ask_destroy e n) | None \<Rightarrow> return_p ()"
  have run: "finally_p ?ask (forget_runtime (pv_name s1)) ?s2 = (r, u)"
    using assms(2) s1 release_tunnel_run [OF assms(1), of s1]
    by (simp add: undo_launch_def destroy_runtime_def then_p_def bind_p_def cong: option.case_cong)
  obtain q s3 where ask: "?ask ?s2 = (q, s3)" by (cases "?ask ?s2")
  have "keeps own_fields ?ask" by (cases "pv_name s1") (auto intro: keeps_when keeps_ask_destroy)
  from keepsD [OF this ask] have k3: "own_fields s3 = own_fields ?s2" .
  have q: "q \<noteq> Stuck" using run ask assms(3) by (auto simp: finally_p_def)
  then have u: "u = snd (forget_runtime (pv_name s1) s3)"
    using run ask by (cases q) (auto simp: finally_p_def forget_runtime_run)
  have name: "pv_name s1 = pv_name s" "settled_pool s1 = settled_pool s"
    using k1(1) settled_lent by (auto simp: lent_part_def)
  show "holds_nothing u" "pv_pool u = settled_pool s"
    using k3 k1 name by (auto simp: u forget_runtime_run holds_nothing_def own_fields_def)
  show "dir_get (pv_dirs u) n = None" if "pv_name s = Some n" "n \<noteq> []"
    using that k3 name by (simp add: u forget_runtime_run dirs.get_del)
  show "pv_world u = snd (client_destroy (pe_show e) (pe_socket e) (pe_exchange e) n (pv_world s))"
    if "pv_name s = Some n" "n \<noteq> []" "pv_created s"
  proof -
    have "pv_world s3 = snd (client_destroy (pe_show e) (pe_socket e) (pe_exchange e) n (pv_world s))"
      using ask that k1 name
      by (cases "client_destroy (pe_show e) (pe_socket e) (pe_exchange e) n (pv_world s)")
        (auto simp: when_p_def ask_destroy_def catch_p_def then_p_def bind_p_def on_world_def zoom_p_def throw_p_def split: res.splits if_splits)
    then show ?thesis by (simp add: u forget_runtime_run)
  qed
qed

text \<open>
  A rewriting whose write fails has changed the kernel manager's address and ports already,
  and the provisioner knows no originals: undoing the launch leaves the manager so.
\<close>

lemma unrecorded_restore_keeps_manager:
  assumes "pv_orig_ip s = None" "pv_orig_ports s = []" "restore_connection e s = (r, u)"
  shows "cs_attrs u = cs_attrs s"
proof -
  let ?io = "(pe_io e)\<lparr>ci_fault := pe_restore_fault e\<rparr>"
  have "keeps cs_attrs (put_entry n x)" "keeps cs_attrs (del_entry n)" "keeps cs_attrs (entry_of p)" "keeps cs_attrs (parent_file io)"
    for n x p io by (simp_all add: keeps_def put_entry_def del_entry_def parent_file_def)
  note k = this
  have ld: "keeps cs_attrs (load_document io p)" for io p
    by (auto simp: keeps_def load_document_def bind_p_def split: option.splits conn_entry.splits)
  have "keeps cs_attrs (case ci_fault io of
              Some (WriteStops part) \<Rightarrow> then_p (put_entry tmp (ConnFile part)) (raise_p OSError m)
            | Some _ \<Rightarrow> then_p (put_entry tmp (ConnFile bytes)) (raise_p OSError m')
            | None \<Rightarrow> then_p (del_entry tmp) (put_entry name (ConnFile bytes)))" for io tmp name bytes m m'
    by (auto split: option.splits write_fault.splits intro!: keeps_then k)
  then have rt: "keeps cs_attrs (replace_through io x p b)" for io x p b
    unfolding replace_through_def Let_def by (intro keeps_bind keeps_then keeps_when keeps_if k keeps_prim)
  have "keeps cs_attrs (case v of PDict doc \<Rightarrow> replace_through io x p (document_bytes (g doc)) | _ \<Rightarrow> return_p ())" for io v x p g
    by (cases v) (auto intro: rt)
  then have "keeps cs_attrs (restore_file io ip ps p)" for io ip ps p
    unfolding restore_file_def by (intro keeps_catch keeps_bind keeps_if ld keeps_prim)
  then have "keeps cs_attrs (restore_connection_file ?io None (PTuple []))"
    unfolding restore_connection_file_def Let_def
    by (simp, intro keeps_bind keeps_then keeps_when keeps_if keeps_option k keeps_prim) simp_all
  then show ?thesis
    using assms by (auto simp: restore_connection_def then_p_def bind_p_def split: prod.splits res.splits dest: keepsD)
qed

text \<open>
  A wait that fails while the ports are still being allocated: the handler finds no reservation
  to give back, and the preparation that nobody cancels then takes the ports, rewrites the
  connection file and stays recorded in a provisioner that holds no runtime.
\<close>

lemma overtaken_preparation_stays:
  fixes e :: "'w prov_env"
  assumes "wait_was_pending e s = Some n" "launch_remote e cmd s = (Raise y, t)"
    and "undo_launch e t = (Ret (), v)" "prepare_connection e n v = (Ret c, w)"
  shows "guarded_launch e cmd s = (Raise y, w) \<and> pv_resv w \<noteq> None \<and> pv_orig_ip w \<noteq> None \<and> pv_tunnel w = snd c"
proof -
  have late: "late_preparation e n v = (Ret (), w)"
    using assms(4) by (simp add: late_preparation_def catch_p_def then_p_def bind_p_def)
  have run: "guarded_launch e cmd s = (Raise y, w)"
    using assms late by (simp add: guarded_launch_def catch_p_def then_p_def bind_p_def throw_p_def)
  obtain r u where al: "allocate_tunnel e n v = (Ret r, u)" and ad: "adopt_reservation e r u = (Ret c, w)"
    using assms(4) by (auto simp: prepare_connection_def bind_p_Ret_iff)
  obtain h oi ops ts u2 where rw: "rewrite_connection_file (pe_io e) ''127.0.0.1'' (Some (PTuple (map (\<lambda>p. PInt (int p)) (rsv_ports r))))
      (u\<lparr>pv_resv := Some r\<rparr>) = (Ret (h, oi, ops, ts), u2)"
    and w: "then_p (modify_p (\<lambda>s. s\<lparr>pv_orig_ip := Some oi, pv_orig_ports := ops, pv_tunnel := ts\<rparr>))
         (then_p (release_jupyter_cached_ports ops) (return_p (h, ts))) u2 = (Ret c, w)"
    using ad by (auto simp: adopt_reservation_def then_p_Ret_iff bind_p_Ret_iff)
  have "pv_resv u2 = Some r" using keepsD [OF keeps_rewrite [OF outside_conn_parts(3)] rw] by simp
  then show ?thesis using run w by (auto simp: release_jupyter_cached_ports_def)
qed

section \<open>A sample environment\<close>

text \<open>A host whose daemon cannot be reached.\<close>

definition sample_env :: "unit prov_env" where
  "sample_env =
     \<lparr>pe_freebsd = True, pe_kind = JailKind, pe_kernel_id = ''5f0c-91AB'', pe_pid = 100, pe_uid = 1001, pe_show = (\<lambda>_. []),
      pe_socket = ''/var/run/lab.sock'', pe_exchange = (\<lambda>_. raise_p OSError ''No such file or directory''),
      pe_super_pre_launch = return_p [''python3'', ''-f'', ''/run/k.json''], pe_super_launch = (\<lambda>_. return_p PNone),
      pe_super_cleanup = return_p (), pe_mkdir_error = None,
      pe_keygen = (\<lambda>_ w. (\<lparr>kg_outcome = Completed 0 [] [], kg_private = True, kg_public = True, kg_text = ''ssh-ed25519 AAAA''\<rparr>, w)),
      pe_runtime_dir = ''/home/u/.cache/lab'', pe_remote_dir = ''/tmp/freebsd-laboratory'', pe_transport = sample_transport,
      pe_startup_timeout = 30, pe_view = sample_view,
      pe_ssh = \<lparr>sw_now = (\<lambda>w. (0, w)), sw_connect = (\<lambda>h d w. (True, w)), sw_exec = (\<lambda>c i d w. (Completed 0 [] [], w)),
                sw_sleep = (\<lambda>d w. w)\<rparr>,
      pe_io = sample_io, pe_restore_fault = None, pe_host = example_host, pe_port_start = 30000, pe_port_end = 44999,
      pe_lock = LockReady, pe_taken = (\<lambda>_. False), pe_lease_fail = (\<lambda>_. False), pe_order = ConnectionFirst\<rparr>"

definition sample_prov :: "unit prov_state" where
  "sample_prov =
     \<lparr>cs_attrs = cs_attrs sample_conn, cs_dir = cs_dir sample_conn, pv_name = None, pv_guest = None, pv_hosts = None, pv_key = None,
      pv_created = False, pv_orig_ip = None, pv_orig_ports = [], pv_tunnel = [], pv_resv = None, pv_cached = False,
      pv_returned = [], pv_dirs = [], pv_pool = \<lparr>ps_leases = [], ps_bound = []\<rparr>, pv_world = ()\<rparr>"

lemma sample_name: "runtime_name (pe_kernel_id sample_env) = Inr ''freebsd-lab-5f0c91ab''"
  by code_simp

lemma sample_launch_raises: "\<exists>x u. guarded_launch sample_env cmd sample_prov = (Raise x, u)"
proof -
  let ?msg = "''Runtime daemon unavailable at /var/run/lab.sock: No such file or directory''"
  have key: "check_key_result \<lparr>kg_outcome = Completed 0 [] [], kg_private = True, kg_public = True, kg_text = ''ssh-ed25519 AAAA''\<rparr>
      = Inr ''ssh-ed25519 AAAA''"
    by code_simp
  have kid: "runtime_name ''5f0c-91AB'' = Inr ''freebsd-lab-5f0c91ab''" by code_simp
  have "\<exists>x t. create_runtime sample_env sample_prov = (Raise x, t)"
    by (simp add: create_runtime_def sample_env_def kid lift_p_def then_p_def bind_p_def remove_runtime_path_def make_runtime_path_def
        create_runtime_key_def on_world_def zoom_p_def key Let_def request_create_def jail_request_def client_create_jail_def client_request_def
        catch_p_def throw_p_def)
  then obtain x t where c: "launch_remote sample_env cmd sample_prov = (Raise x, t)"
    by (auto simp: launch_remote_def then_p_def bind_p_def)
  obtain r u where u: "undo_launch sample_env t = (r, u)" by (cases "undo_launch sample_env t")
  have "r \<noteq> Stuck"
  proof -
    have "\<exists>x u. ask_destroy sample_env n w = (x, u) \<and> x \<noteq> Stuck" for n and w :: "unit prov_state"
      by (simp add: ask_destroy_def client_destroy_def client_request_def sample_env_def catch_p_def then_p_def bind_p_def
          on_world_def zoom_p_def throw_p_def control_error_def)
    moreover obtain s1 where "restore_connection sample_env t = (Ret (), s1)" using restore_connection_run by blast
    moreover have "pe_lock sample_env = LockReady" by (simp add: sample_env_def)
    ultimately show ?thesis
      using u release_tunnel_run [of sample_env]
      by (auto simp: undo_launch_def destroy_runtime_def then_p_def bind_p_def finally_p_def forget_runtime_run when_p_def
          split: option.splits if_splits res.splits prod.splits) (metis prod.inject)+
  qed
  moreover have "wait_was_pending sample_env sample_prov = None"
    by (simp add: wait_was_pending_def sample_env_def split: prod.splits res.splits)
  ultimately show ?thesis using c u
    by (cases r) (simp_all add: guarded_launch_def catch_p_def then_return then_p_def bind_p_def throw_p_def)
qed

section \<open>Properties\<close>





text \<open>
  A Jupyter server that is restarted finds what it saved: loading the information a
  provisioner gave restores its name, address, file, flag, recorded originals and tunnel ports.
\<close>

lemma provisioner_info_round_trip:
  assumes "pv_name s \<noteq> Some []" "pv_guest s \<noteq> Some []" "pv_hosts s \<noteq> Some []" "pv_orig_ip s \<noteq> Some []"
    and "\<forall>ps \<in> {pv_orig_ports s, pv_tunnel s}. ps = [] \<or> length ps = 5 \<and> distinct ps \<and> set ps \<subseteq> {1..65535}"
  shows "let t = load_provisioner_info e (PDict (get_provisioner_info e info s)) s0 in
     pv_name t = pv_name s \<and> pv_guest t = pv_guest s \<and> pv_hosts t = pv_hosts s \<and> pv_created t = pv_created s \<and>
     pv_orig_ip t = pv_orig_ip s \<and> pv_orig_ports t = pv_orig_ports s \<and> pv_tunnel t = pv_tunnel s"
proof -
  let ?i = "get_provisioner_info e info s"
  have get: "pget ?i (name_key (pe_kind e)) = opt_str (pv_name s)" "pget ?i ''guest_ip'' = opt_str (pv_guest s)"
    "pget ?i ''known_hosts_file'' = opt_str (pv_hosts s)" "pget ?i ''runtime_created'' = PBool (pv_created s)"
    "pget ?i ''original_connection_ip'' = opt_str (pv_orig_ip s)"
    "pget_default ?i ''original_connection_ports'' d = PList (map PInt (pv_orig_ports s))"
    "pget_default ?i ''tunnel_ports'' d = PList (map PInt (pv_tunnel s))" for d
    by (auto simp: get_provisioner_info_def pget_def pget_default_def dirs.get_put name_key_def split: runtime_kind.splits)
  have str: "text_or_none (opt_str v) = v" if "v \<noteq> Some []" for v
    using that by (cases v) (auto simp: text_or_none_def opt_str_def)
  have ports: "persisted_connection_ports (PList (map PInt ps)) = ps"
    if "ps = [] \<or> length ps = 5 \<and> distinct ps \<and> set ps \<subseteq> {1..65535}" for ps
  proof (cases "ps = []")
    case False
    with that have "validate_port_sequence (PTuple (map PInt ps)) = Inr ps" by (intro validate_ints) auto
    then show ?thesis
      by (auto simp: persisted_connection_ports_def validate_port_sequence_def port_elements_def split: if_splits)
  qed (simp add: persisted_connection_ports_def port_fields_facts)
  show ?thesis
    using assms ports by (simp add: load_provisioner_info_def Let_def get str)
qed

lemma provisioner_info_round_trip_witness:
  "pv_name (load_provisioner_info sample_env (PDict (get_provisioner_info sample_env [] (sample_prov\<lparr>pv_name := Some ''n''\<rparr>))) sample_prov)
     = Some ''n''"
  using provisioner_info_round_trip [of "sample_prov\<lparr>pv_name := Some ''n''\<rparr>" sample_env "[]" sample_prov]
  by (simp add: sample_prov_def Let_def)

end
