(* ===== verification/Redaction.thy ===== *)
theory Redaction
  imports Json_Round_Trip "HOL-Library.Product_Lexorder"
begin

text \<open>
  The two redactions of the program: \<open>redact_payload\<close> of service.py, through which every
  evidence payload goes, and \<open>_redact\<close> of telemetry.py, through which every event that
  leaves for Sentry goes. Both mask the values of sensitive keys in nested documents; what
  that promises is stated once, in the locale \<open>redactor\<close>, and both are interpretations.
\<close>

section \<open>Documents that differ in secrets only\<close>

text \<open>
  Two values are the same in public when they differ at most in values under sensitive
  keys. The items of a set are hashable, so no dict is inside one.
\<close>

inductive same_public :: "(string \<Rightarrow> bool) \<Rightarrow> pyval \<Rightarrow> pyval \<Rightarrow> bool" for S :: "string \<Rightarrow> bool" where
  same_refl: "same_public S v v"
| same_dict: "list_all2 (\<lambda>p q. fst p = fst q \<and> (S (fst p) \<or> same_public S (snd p) (snd q))) d d' \<Longrightarrow>
     same_public S (PDict d) (PDict d')"
| same_list: "list_all2 (same_public S) xs ys \<Longrightarrow> same_public S (PList xs) (PList ys)"
| same_tuple: "list_all2 (same_public S) xs ys \<Longrightarrow> same_public S (PTuple xs) (PTuple ys)"

text \<open>No dict, at any depth, has another value than the mask under a sensitive key.\<close>

fun masked :: "(string \<Rightarrow> bool) \<Rightarrow> pyval \<Rightarrow> pyval \<Rightarrow> bool" where
  "masked S m (PDict d) \<longleftrightarrow> list_all (\<lambda>p. if S (fst p) then snd p = m else masked S m (snd p)) d"
| "masked S m (PList xs) \<longleftrightarrow> list_all (masked S m) xs"
| "masked S m (PTuple xs) \<longleftrightarrow> list_all (masked S m) xs"
| "masked S m (PSet xs) \<longleftrightarrow> list_all (masked S m) xs"
| "masked S m (PFrozenset xs) \<longleftrightarrow> list_all (masked S m) xs"
| "masked S m v \<longleftrightarrow> True"

fun no_dict :: "pyval \<Rightarrow> bool" where
  "no_dict (PDict d) \<longleftrightarrow> False"
| "no_dict (PList xs) \<longleftrightarrow> list_all no_dict xs"
| "no_dict (PTuple xs) \<longleftrightarrow> list_all no_dict xs"
| "no_dict (PSet xs) \<longleftrightarrow> list_all no_dict xs"
| "no_dict (PFrozenset xs) \<longleftrightarrow> list_all no_dict xs"
| "no_dict v \<longleftrightarrow> True"

text \<open>A value Python can build: set items hold no dict.\<close>

fun py_value :: "pyval \<Rightarrow> bool" where
  "py_value (PDict d) \<longleftrightarrow> list_all (\<lambda>p. py_value (snd p)) d"
| "py_value (PList xs) \<longleftrightarrow> list_all py_value xs"
| "py_value (PTuple xs) \<longleftrightarrow> list_all py_value xs"
| "py_value (PSet xs) \<longleftrightarrow> list_all no_dict xs"
| "py_value (PFrozenset xs) \<longleftrightarrow> list_all no_dict xs"
| "py_value v \<longleftrightarrow> True"

lemma no_dict_masked: "no_dict v \<Longrightarrow> masked S m v"
  by (induction v rule: no_dict.induct) (auto simp: list_all_iff)

lemma map_eq_list_all2: "list_all2 P xs ys \<Longrightarrow> (\<And>x y. P x y \<Longrightarrow> f x = f y) \<Longrightarrow> map f xs = map f ys"
  by (induction rule: list_all2_induct) auto

section \<open>The interface\<close>

locale redactor =
  fixes sensitive :: "string \<Rightarrow> bool" and mask :: pyval and redact :: "pyval \<Rightarrow> pyval"
  assumes redact_dict:
      "redact (PDict d) = PDict (map (\<lambda>p. (fst p, if sensitive (fst p) then mask else redact (snd p))) d)"
    and redact_list: "redact (PList xs) = PList (map redact xs)"
    and redact_tuple: "redact (PTuple xs) = PTuple (map redact xs) \<or> redact (PTuple xs) = PList (map redact xs)"
    and redact_tuple_cong: "map redact xs = map redact ys \<Longrightarrow> redact (PTuple xs) = redact (PTuple ys)"
    and redact_set: "list_all no_dict xs \<Longrightarrow> masked sensitive mask (redact (PSet xs)) \<and> masked sensitive mask (redact (PFrozenset xs))"
    and redact_scalar: "masked sensitive mask (redact (PStr s))" "redact PNone = PNone" "redact (PBool b) = PBool b"
      "redact (PInt i) = PInt i" "redact (PFloat t) = PFloat t"
begin

text \<open>What is under a sensitive key has no influence on the result.\<close>

lemma redact_same_public: "same_public sensitive v w \<Longrightarrow> redact v = redact w"
proof (induction rule: same_public.induct)
  case (same_dict d d')
  have "map (\<lambda>p. (fst p, if sensitive (fst p) then mask else redact (snd p))) d =
      map (\<lambda>p. (fst p, if sensitive (fst p) then mask else redact (snd p))) d'"
    by (rule map_eq_list_all2 [OF same_dict]) auto
  then show ?case by (simp add: redact_dict)
next
  case (same_list xs ys)
  then show ?case by (auto simp: redact_list intro: map_eq_list_all2)
next
  case (same_tuple xs ys)
  then show ?case by (auto intro: redact_tuple_cong map_eq_list_all2)
qed simp

text \<open>Nothing under a sensitive key survives.\<close>

lemma redact_masked: "py_value v \<Longrightarrow> masked sensitive mask (redact v)"
proof (induction v rule: py_value.induct)
  case (3 xs)
  then show ?case using redact_tuple [of xs] by (auto simp: list_all_iff)
qed (use redact_set redact_scalar in \<open>auto simp: redact_dict redact_list list_all_iff\<close>)

lemma redact_keys: "redact (PDict d) = PDict e \<Longrightarrow> map fst e = map fst d"
  by (auto simp: redact_dict comp_def)

end

section \<open>Evidence payloads\<close>

text \<open>
  \<open>SENSITIVE_KEY_RE\<close>: a word of the list, between a separator or the start and a separator
  or the end (where \<open>$\<close> also matches before a final newline), in any case of letters.
\<close>

definition sensitive_words :: "string list" where
  "sensitive_words =
     [''authorization'', ''cookie'', ''credential'', ''password'', ''passwd'', ''secret'', ''token'',
      ''apikey'', ''api_key'', ''api-key'', ''privatekey'', ''private_key'', ''private-key'']"

definition key_separator :: "char \<Rightarrow> bool" where
  "key_separator c \<longleftrightarrow> c = CHR ''_'' \<or> c = CHR ''-''"

definition ends_word :: "string \<Rightarrow> bool" where
  "ends_word rest \<longleftrightarrow> rest = [] \<or> rest = [CHR 0x0A] \<or> key_separator (hd rest)"

definition word_here :: "string \<Rightarrow> bool" where
  "word_here s \<longleftrightarrow> list_ex (\<lambda>w. starts_with w (map lower_char s) \<and> ends_word (drop (length w) s)) sensitive_words"

fun sensitive_from :: "bool \<Rightarrow> string \<Rightarrow> bool" where
  "sensitive_from at_boundary [] = False"
| "sensitive_from at_boundary (c # s) =
     ((at_boundary \<and> word_here (c # s)) \<or> sensitive_from (key_separator c) s)"

definition sensitive_key :: "string \<Rightarrow> bool" where
  "sensitive_key s = sensitive_from True s"

definition redacted_value :: pyval where
  "redacted_value = PStr ''[REDACTED]''"

definition canonical_json :: "pyval \<Rightarrow> string" where
  "canonical_json v = utf8_encode (json_text False v)"

definition type_name :: "pyval \<Rightarrow> string" where
  "type_name v = ''builtins.'' @
     (case v of PNone \<Rightarrow> ''NoneType'' | PBool _ \<Rightarrow> ''bool'' | PInt _ \<Rightarrow> ''int'' | PFloat _ \<Rightarrow> ''float'' | PStr _ \<Rightarrow> ''str''
      | PList _ \<Rightarrow> ''list'' | PTuple _ \<Rightarrow> ''tuple'' | PSet _ \<Rightarrow> ''set'' | PFrozenset _ \<Rightarrow> ''frozenset'' | PDict _ \<Rightarrow> ''dict'')"

text \<open>The items of a set, redacted, in the order of their type's name and canonical text.\<close>

definition sorted_items :: "(pyval \<times> pyval) list \<Rightarrow> pyval list" where
  "sorted_items items = map snd (sort_key (\<lambda>(x, r). (type_name x, canonical_json r)) items)"

fun redact_payload :: "pyval \<Rightarrow> pyval" where
  "redact_payload (PDict d) =
     PDict (map (\<lambda>p. (fst p, if sensitive_key (fst p) then redacted_value else redact_payload (snd p))) d)"
| "redact_payload (PList xs) = PList (map redact_payload xs)"
| "redact_payload (PTuple xs) = PList (map redact_payload xs)"
| "redact_payload (PSet xs) = PList (sorted_items (map (\<lambda>x. (x, redact_payload x)) xs))"
| "redact_payload (PFrozenset xs) = PList (sorted_items (map (\<lambda>x. (x, redact_payload x)) xs))"
| "redact_payload v = v"

lemma set_sorted_items: "set (sorted_items items) = snd ` set items"
  by (simp add: sorted_items_def)

lemma redact_no_dict: "no_dict v \<Longrightarrow> no_dict (redact_payload v)"
  by (induction v rule: redact_payload.induct) (auto simp: list_all_iff set_sorted_items)

interpretation evidence_redaction: redactor sensitive_key redacted_value redact_payload
proof unfold_locales
  fix xs assume "list_all no_dict xs"
  then have "list_all no_dict (map redact_payload xs)" using redact_no_dict by (auto simp: list_all_iff)
  then show "masked sensitive_key redacted_value (redact_payload (PSet xs)) \<and>
      masked sensitive_key redacted_value (redact_payload (PFrozenset xs))"
    using no_dict_masked by (auto simp: list_all_iff set_sorted_items)
qed simp_all

text \<open>The redacted payload has only what JSON can write, so the canonical text always exists.\<close>

lemma redact_serialisable: "serialisable (redact_payload v)"
  by (induction v rule: redact_payload.induct) (auto simp: list_all_iff set_sorted_items redacted_value_def)

section \<open>Telemetry events\<close>

definition sensitive_parts :: "string list" where
  "sensitive_parts =
     [''authorization'', ''cookie'', ''password'', ''passwd'', ''secret'', ''token'', ''api_key'', ''apikey'', ''private_key'']"

definition is_sensitive_key :: "string \<Rightarrow> bool" where
  "is_sensitive_key key =
     (let normalized = map (\<lambda>c. if c = CHR ''-'' then CHR ''_'' else c) (py_lower key)
      in list_ex (\<lambda>part. contains_str part normalized) sensitive_parts)"

text \<open>
  \<open>_INLINE_SECRET_RE.sub\<close>. A match is a word, \<open>=\<close> or \<open>:\<close>, white space, and at least one
  character that is no white space, comma or semicolon; the text up to the value stays.
\<close>

definition inline_words :: "string list" where
  "inline_words =
     [''authorization'', ''password'', ''passwd'', ''token'', ''secret'', ''apikey'', ''api_key'', ''api-key'']"

definition value_char :: "char \<Rightarrow> bool" where
  "value_char c \<longleftrightarrow> \<not> is_space c \<and> c \<noteq> CHR '','' \<and> c \<noteq> CHR '';''"

text \<open>The part of the match that stays, if the word \<open>w\<close> starts a match at \<open>s\<close>.\<close>

definition inline_match :: "string \<Rightarrow> string \<Rightarrow> string option" where
  "inline_match s w =
     (let rest = drop (length w) s
      in if starts_with w (map lower_char s) \<and> rest \<noteq> [] \<and> (hd rest = CHR ''='' \<or> hd rest = CHR '':'') then
           (let spaces = takeWhile is_space (tl rest); v = dropWhile is_space (tl rest)
            in if v \<noteq> [] \<and> value_char (hd v) then Some (take (length w + 1 + length spaces) s) else None)
         else None)"

definition inline_here :: "string \<Rightarrow> string option" where
  "inline_here s = List.find (\<lambda>_. True) (List.map_filter (inline_match s) inline_words)"

function filter_inline :: "string \<Rightarrow> string" where
  "filter_inline [] = []"
| "filter_inline (c # s) =
     (case inline_here (c # s) of
        Some kept \<Rightarrow> (if kept = [] then c # filter_inline s
                       else kept @ ''[Filtered]'' @ filter_inline (dropWhile value_char (drop (length kept) (c # s))))
      | None \<Rightarrow> c # filter_inline s)"
  by pat_completeness auto
termination
  by (relation "measure length")
    (auto simp: neq_Nil_conv intro: le_less_trans [OF length_dropWhile_le])

definition filtered_value :: pyval where
  "filtered_value = PStr ''[Filtered]''"

fun redact_event :: "pyval \<Rightarrow> pyval" where
  "redact_event (PStr s) = PStr (filter_inline s)"
| "redact_event (PDict d) =
     PDict (map (\<lambda>p. (fst p, if is_sensitive_key (fst p) then filtered_value else redact_event (snd p))) d)"
| "redact_event (PList xs) = PList (map redact_event xs)"
| "redact_event (PTuple xs) = PTuple (map redact_event xs)"
| "redact_event v = v"

interpretation telemetry_redaction: redactor is_sensitive_key filtered_value redact_event
  by unfold_locales (auto intro!: no_dict_masked simp: list_all_iff)

end
