(* ===== verification/Evidence.thy ===== *)
theory Evidence
  imports Redaction Sha256
begin

text \<open>
  service.py, recording: the evidence session of the Jupyter server. A session is the list
  of its events and the directory of its files, of which \<open>events.jsonl\<close> gets one line per
  event. The file system's answers to an append are a parameter of the operation, and so is
  the text of the current time. The YAML parser, the path resolution of the operating system
  and the random session id are parameters of the start of a session.
\<close>

section \<open>The session directory\<close>

text \<open>A link is what it resolves to: the content of a file, or nothing.\<close>

datatype bundle_file = Regular string | Link "string option" | Subdir

type_synonym session_files = "bundle_file dir"

text \<open>\<open>path.read_bytes()\<close> and \<open>path.is_file()\<close>, which follow a link, and \<open>path.is_symlink()\<close>.\<close>

definition content_of :: "session_files \<Rightarrow> string \<Rightarrow> string option" where
  "content_of d name =
     (case dir_get d name of
        Some (Regular b) \<Rightarrow> Some b
      | Some (Link target) \<Rightarrow> target
      | _ \<Rightarrow> None)"

definition is_link :: "session_files \<Rightarrow> string \<Rightarrow> bool" where
  "is_link d name \<longleftrightarrow> (case dir_get d name of Some (Link _) \<Rightarrow> True | _ \<Rightarrow> False)"

text \<open>Opening for writing: through a link, or a new file.\<close>

definition write_through :: "string \<Rightarrow> string \<Rightarrow> (session_files, unit) prog" where
  "write_through name b d =
     (case dir_get d name of
        Some Subdir \<Rightarrow> (Raise (Exn OSError (''Is a directory: '' @ name)), d)
      | Some (Link _) \<Rightarrow> (Ret (), dir_put name (Link (Some b)) d)
      | _ \<Rightarrow> (Ret (), dir_put name (Regular b) d))"

section \<open>Events\<close>

definition stage_order :: "string list" where
  "stage_order = [''observed'', ''explained'', ''reproduced'', ''modified'', ''verified'', ''recovered'', ''designed'']"

definition client_event_kinds :: "string list" where
  "client_event_kinds = [''cell-executed'', ''notebook-context'']"

definition machine_event_kinds :: "string list" where
  "machine_event_kinds =
     [''reproduction-complete'', ''mutation-applied'', ''verification-complete'', ''recovery-complete'', ''design-validated'']"

text \<open>
  \<open>minimize_persisted_payload\<close>: the source text of a cell is replaced by its digest and
  its size.
\<close>

definition cell_source :: "pyval \<Rightarrow> exn + string" where
  "cell_source source =
     (case source of
        PList parts \<Rightarrow>
          (if list_all (\<lambda>p. case p of PStr _ \<Rightarrow> True | _ \<Rightarrow> False) parts
           then Inr (concat (map (\<lambda>p. case p of PStr t \<Rightarrow> t | _ \<Rightarrow> []) parts))
           else Inl (Exn ValueError ''Cell source list must contain only strings''))
      | PStr t \<Rightarrow> Inr t
      | _ \<Rightarrow> Inl (Exn ValueError ''Cell source must be a string or string list''))"

definition minimize_cell :: "record_doc \<Rightarrow> exn + record_doc" where
  "minimize_cell cell =
     (case cell_source (pget_default cell ''source'' (PStr [])) of
        Inl e \<Rightarrow> Inl e
      | Inr text \<Rightarrow>
          Inr (dir_put ''source_bytes'' (PInt (int (length (utf8_encode text))))
                (dir_put ''source_sha256'' (PStr (hexdigest (utf8_encode text))) (dir_del ''source'' cell))))"

definition minimize_persisted_payload :: "string \<Rightarrow> record_doc \<Rightarrow> exn + record_doc" where
  "minimize_persisted_payload kind payload =
     (if kind \<noteq> ''cell-executed'' then Inr payload
      else case pget payload ''cell'' of
        PDict cell \<Rightarrow> map_sum id (\<lambda>c. dir_put ''cell'' (PDict c) payload) (minimize_cell cell)
      | _ \<Rightarrow> Inl (Exn ValueError ''cell-executed payload requires a cell object''))"

record evidence_event =
  ev_sequence :: nat
  ev_recorded_at :: string
  ev_kind :: string
  ev_source :: string
  ev_payload_sha256 :: string
  ev_payload :: record_doc

text \<open>\<open>asdict(event)\<close>.\<close>

definition event_dict :: "evidence_event \<Rightarrow> pyval" where
  "event_dict e =
     PDict [(''sequence'', PInt (int (ev_sequence e))), (''recorded_at'', PStr (ev_recorded_at e)),
            (''kind'', PStr (ev_kind e)), (''source'', PStr (ev_source e)),
            (''payload_sha256'', PStr (ev_payload_sha256 e)), (''payload'', PDict (ev_payload e))]"

definition event_line :: "evidence_event \<Rightarrow> string" where
  "event_line e = canonical_json (event_dict e) @ [CHR 0x0A]"

section \<open>The service\<close>

record lab_service =
  ls_spec :: record_doc
  ls_session_id :: string
  ls_session_dir :: string
  ls_started_at :: string
  ls_max_events :: int
  ls_max_bytes :: int
  ls_fsync :: bool
  ls_events :: "evidence_event list"
  ls_dir :: session_files

definition events_name :: string where
  "events_name = ''events.jsonl''"

text \<open>
  The answers of the file system to \<open>open("ab")\<close>, \<open>write\<close> and \<open>fsync\<close> (an error, if
  any). The stream is unbuffered: one write call, which may write less than the line; the
  source does not look at the count.
\<close>

datatype append_answer =
  OpenFails string | WriteFails string | Wrote "string option" | WroteShort nat "string option"

definition append_bytes :: "bool \<Rightarrow> string option \<Rightarrow> string \<Rightarrow> (session_files, unit) prog" where
  "append_bytes fsync sync bytes d =
     then_p (write_through events_name ((case content_of d events_name of None \<Rightarrow> [] | Some b \<Rightarrow> b) @ bytes))
       (case sync of Some msg \<Rightarrow> if fsync then raise_p OSError msg else return_p () | None \<Rightarrow> return_p ()) d"

definition append_log :: "append_answer \<Rightarrow> bool \<Rightarrow> string \<Rightarrow> (session_files, unit) prog" where
  "append_log io fsync line =
     (case io of
        OpenFails msg \<Rightarrow> raise_p OSError msg
      | WriteFails msg \<Rightarrow> raise_p OSError msg
      | Wrote sync \<Rightarrow> append_bytes fsync sync line
      | WroteShort n sync \<Rightarrow> append_bytes fsync sync (take n line))"

definition too_large_payload :: "nat \<Rightarrow> int \<Rightarrow> exn" where
  "too_large_payload n limit =
     Exn EvidencePayloadTooLarge (''Event payload is '' @ nat_str n @ '' bytes; limit is '' @ int_str limit)"

text \<open>What \<open>_record\<close> does before it takes the lock: the payload as it will be kept.\<close>

definition safe_payload :: "int \<Rightarrow> string \<Rightarrow> pyval \<Rightarrow> exn + record_doc" where
  "safe_payload limit kind payload =
     (case payload of
        PDict _ \<Rightarrow>
          (case redact_payload payload of
             PDict redacted \<Rightarrow>
               (let n = length (canonical_json (PDict redacted))
                in if int n > limit then Inl (too_large_payload n limit)
                   else minimize_persisted_payload kind redacted)
           | _ \<Rightarrow> Inl (Exn ValueError ''Redacted event payload must be a mapping''))
      | _ \<Rightarrow> Inl (Exn ValueError ''Event payload must be a mapping''))"

definition new_event :: "lab_service \<Rightarrow> string \<Rightarrow> string \<Rightarrow> string \<Rightarrow> record_doc \<Rightarrow> evidence_event" where
  "new_event s now kind source payload =
     \<lparr>ev_sequence = length (ls_events s) + 1, ev_recorded_at = now, ev_kind = kind, ev_source = source,
      ev_payload_sha256 = hexdigest (canonical_json (PDict payload)), ev_payload = payload\<rparr>"

definition record_event ::
    "append_answer \<Rightarrow> string \<Rightarrow> string \<Rightarrow> string \<Rightarrow> pyval \<Rightarrow> (lab_service, evidence_event) prog" where
  "record_event io now source kind payload s =
     (case safe_payload (ls_max_bytes s) kind payload of
        Inl e \<Rightarrow> (Raise e, s)
      | Inr safe \<Rightarrow>
          (if int (length (ls_events s)) \<ge> ls_max_events s then
             (Raise (Exn EvidenceEventLimitReached
                (''Evidence session reached its '' @ int_str (ls_max_events s) @ ''-event limit'')), s)
           else
             (let event = new_event s now kind source safe
              in case append_log io (ls_fsync s) (event_line event) (ls_dir s) of
                   (Ret _, d) \<Rightarrow> (Ret event, s\<lparr>ls_dir := d, ls_events := ls_events s @ [event]\<rparr>)
                 | (Raise e, d) \<Rightarrow> (Raise e, s\<lparr>ls_dir := d\<rparr>)
                 | (Stuck, d) \<Rightarrow> (Stuck, s\<lparr>ls_dir := d\<rparr>))))"

definition record_client_event :: "append_answer \<Rightarrow> string \<Rightarrow> string \<Rightarrow> pyval \<Rightarrow> (lab_service, evidence_event) prog" where
  "record_client_event io now kind payload =
     (if kind \<notin> set client_event_kinds then raise_p ValueError (''Client event kind is not allowed: '' @ kind)
      else record_event io now ''jupyterlab-observer'' kind payload)"

definition record_machine_event :: "append_answer \<Rightarrow> string \<Rightarrow> string \<Rightarrow> pyval \<Rightarrow> (lab_service, evidence_event) prog" where
  "record_machine_event io now kind payload =
     (if kind \<notin> set machine_event_kinds then raise_p ValueError (''Machine event kind is not allowed: '' @ kind)
      else record_event io now ''laboratory-server'' kind payload)"

section \<open>Stages\<close>

text \<open>
  \<open>int(value)\<close> of a string of digits fails on a superscript, which \<open>isdigit\<close> accepts, and
  on more than 4,300 digits.
\<close>

definition is_positive_int :: "pyval \<Rightarrow> exn + bool" where
  "is_positive_int value =
     (case value of
        PBool _ \<Rightarrow> Inr False
      | PInt i \<Rightarrow> Inr (i > 0)
      | PStr t \<Rightarrow>
          (if t \<noteq> [] \<and> list_all is_digit t then
             (case (if length t > 4300 then None else py_int t) of
                None \<Rightarrow> Inl (Exn ValueError (''invalid literal for int(): '' @ t))
              | Some i \<Rightarrow> Inr (i > 0))
           else Inr False)
      | _ \<Rightarrow> Inr False)"

text \<open>\<open>any(...)\<close> over the events: it stops at the first that holds, or that raises.\<close>

fun any_explained :: "evidence_event list \<Rightarrow> exn + bool" where
  "any_explained [] = Inr False"
| "any_explained (e # es) =
     (if ev_kind e \<noteq> ''notebook-context'' then any_explained es
      else case is_positive_int (pget_default (ev_payload e) ''markdown_cells'' (PInt 0)) of
             Inl err \<Rightarrow> Inl err
           | Inr True \<Rightarrow> Inr True
           | Inr False \<Rightarrow> any_explained es)"

definition stage_mapping :: "(string \<times> string) list" where
  "stage_mapping =
     [(''reproduction-complete'', ''reproduced''), (''mutation-applied'', ''modified''),
      (''verification-complete'', ''verified''), (''recovery-complete'', ''recovered''), (''design-validated'', ''designed'')]"

definition completed_stages :: "evidence_event list \<Rightarrow> exn + string list" where
  "completed_stages events =
     (let kinds = map ev_kind events
      in case any_explained events of
           Inl err \<Rightarrow> Inl err
         | Inr explained \<Rightarrow>
             Inr ((if ''cell-executed'' \<in> set kinds then [''observed''] else []) @
                  (if explained then [''explained''] else []) @
                  map snd (filter (\<lambda>p. fst p \<in> set kinds) stage_mapping)))"

section \<open>The signing configuration and the state\<close>

text \<open>What the path of the signing key is: an unusable path with its text, or a file with its name.\<close>

datatype key_path = KeyUnavailable string | KeyFile string string

record signing_config =
  sg_private_key :: string
  sg_key_id :: string

definition signing_error :: "string \<Rightarrow> exn + 'a" where
  "signing_error what = Inl (Exn ValueError (''evidence.signing'' @ what))"

text \<open>\<open>_signing_config\<close>: \<open>None\<close> is the configuration that is not enabled.\<close>

definition signing_key :: "(string \<Rightarrow> key_path) \<Rightarrow> record_doc \<Rightarrow> exn + signing_config option" where
  "signing_key find_key signing =
     (case pget signing ''private_key'' of
        PStr key_path \<Rightarrow>
          (if key_path = [] then signing_error ''.private_key is required when signing is enabled''
           else case find_key key_path of
             KeyUnavailable path \<Rightarrow> signing_error (''.private_key is unavailable: '' @ path)
           | KeyFile path name \<Rightarrow>
               (case pget_default signing ''key_id'' (PStr name) of
                  PStr key_id \<Rightarrow>
                    (if key_id = [] then signing_error ''.key_id must be a non-empty string''
                     else Inr (Some \<lparr>sg_private_key = path, sg_key_id = key_id\<rparr>))
                | _ \<Rightarrow> signing_error ''.key_id must be a non-empty string''))
      | _ \<Rightarrow> signing_error ''.private_key is required when signing is enabled'')"

definition get_signing_config :: "(string \<Rightarrow> key_path) \<Rightarrow> record_doc \<Rightarrow> exn + signing_config option" where
  "get_signing_config find_key spec =
     (case pget_default spec ''evidence'' (PDict []) of
        PDict evidence \<Rightarrow>
          (case pget_default evidence ''signing'' (PDict []) of
             PNone \<Rightarrow> Inr None
           | PDict signing \<Rightarrow>
               (case pget_default signing ''enabled'' (PBool False) of
                  PBool enabled \<Rightarrow>
                    (if \<not> enabled then Inr None
                     else if \<not> py_eq_str (pget_default signing ''algorithm'' (PStr ''ed25519'')) ''ed25519'' then
                       Inl (Exn ValueError ''Only Ed25519 evidence signing is supported'')
                     else signing_key find_key signing)
                | _ \<Rightarrow> signing_error ''.enabled must be boolean'')
           | _ \<Rightarrow> signing_error '' must be a mapping'')
      | _ \<Rightarrow> Inr None)"

definition runtime_identity :: "string \<Rightarrow> string \<Rightarrow> string \<Rightarrow> pyval" where
  "runtime_identity system release_name machine =
     PDict [(''system'', PStr system), (''release'', PStr release_name), (''machine'', PStr machine),
            (''is_freebsd'', PBool (system = ''FreeBSD''))]"

definition capitalize :: "string \<Rightarrow> string" where
  "capitalize s =
     (case s of [] \<Rightarrow> []
      | c # r \<Rightarrow> (if ascii_lower c then char_of ((of_char c :: nat) - 32) else c) # map lower_char r)"

definition stage_entry :: "string list \<Rightarrow> string \<Rightarrow> pyval" where
  "stage_entry completed stage =
     PDict [(''id'', PStr stage), (''label'', PStr (capitalize stage)), (''completed'', PBool (stage \<in> set completed))]"

definition lab_state :: "(string \<Rightarrow> key_path) \<Rightarrow> pyval \<Rightarrow> lab_service \<Rightarrow> exn + pyval" where
  "lab_state find_key runtime s =
     (case completed_stages (ls_events s) of
        Inl e \<Rightarrow> Inl e
      | Inr completed \<Rightarrow>
          (case get_signing_config find_key (ls_spec s) of
             Inl e \<Rightarrow> Inl e
           | Inr signing \<Rightarrow>
               Inr (PDict
                 [(''schema'', PStr ''softcloud.lab-state/v1''),
                  (''lab'', PDict [(''id'', pget (ls_spec s) ''id''),
                     (''title'', pget_default (ls_spec s) ''title'' (pget (ls_spec s) ''id'')),
                     (''notebook'', pget (ls_spec s) ''notebook'')]),
                  (''runtime'', runtime),
                  (''evidence'', PDict [(''session_id'', PStr (ls_session_id s)),
                     (''events'', PInt (int (length (ls_events s)))), (''max_events'', PInt (ls_max_events s)),
                     (''max_event_payload_bytes'', PInt (ls_max_bytes s)), (''attestation'', PStr ''self-recorded''),
                     (''signing_enabled'', PBool (signing \<noteq> None))]),
                  (''stages'', PList (map (stage_entry completed) stage_order))])))"

section \<open>The start of a session\<close>

text \<open>
  A path is the list of its parts. \<open>resolved\<close> is what the operating system resolves the
  joined path to.
\<close>

definition resolve_inside_root :: "bool \<Rightarrow> string list \<Rightarrow> string list \<Rightarrow> string \<Rightarrow> exn + string list" where
  "resolve_inside_root link root resolved value =
     (if link then Inl (Exn ValueError (''lab_path must not be a symbolic link: '' @ value))
      else if resolved \<noteq> root \<and> take (length root) resolved \<noteq> root then
        Inl (Exn ValueError (''Path escapes Jupyter root: '' @ value))
      else Inr resolved)"

definition load_spec :: "(string \<Rightarrow> exn + pyval) \<Rightarrow> bundle_file option \<Rightarrow> exn + record_doc" where
  "load_spec parse entry =
     (case entry of
        Some (Regular bytes) \<Rightarrow>
          (case utf8_decode bytes of
             None \<Rightarrow> Inl (Exn UnicodeDecodeError ''invalid start byte'')
           | Some text \<Rightarrow>
               (case parse text of
                  Inl e \<Rightarrow> Inl (Exn ValueError (''Invalid lab.yaml: '' @ exn_msg e))
                | Inr (PDict document) \<Rightarrow>
                    (if \<not> py_eq_str (pget document ''schema'') ''softcloud.lab/v1''
                     then Inl (Exn ValueError ''Unsupported laboratory schema'')
                     else case pget document ''id'' of
                       PStr lab_id \<Rightarrow> (if lab_id = [] then Inl (Exn ValueError ''Laboratory id is required'') else Inr document)
                     | _ \<Rightarrow> Inl (Exn ValueError ''Laboratory id is required''))
                | Inr _ \<Rightarrow> Inl (Exn ValueError ''lab.yaml must contain a mapping'')))
      | _ \<Rightarrow> Inl (Exn ValueError ''lab.yaml must be a regular file''))"

definition positive_limit :: "int \<Rightarrow> string \<Rightarrow> pyval \<Rightarrow> exn + int" where
  "positive_limit least message value =
     (case value of
        PInt i \<Rightarrow> if i < least then Inl (Exn ValueError message) else Inr i
      | _ \<Rightarrow> Inl (Exn ValueError message))"

text \<open>
  \<open>LabService.__init__\<close>: the limits, then the lab file and its text, then the new
  directory with an empty event log. A directory that exists already is an error.
\<close>

definition lab_service_init ::
    "pyval \<Rightarrow> pyval \<Rightarrow> bool \<Rightarrow> exn + string list \<Rightarrow> exn + record_doc \<Rightarrow> string \<Rightarrow> bool \<Rightarrow> string \<Rightarrow> string \<Rightarrow>
     exn + lab_service" where
  "lab_service_init max_events max_bytes fsync lab_file spec evidence_root dir_exists session_id now =
     (case positive_limit 1 ''max_events must be positive'' max_events of
        Inl e \<Rightarrow> Inl e
      | Inr n \<Rightarrow>
          (case positive_limit 1024 ''max_event_payload_bytes must be at least 1024'' max_bytes of
             Inl e \<Rightarrow> Inl e
           | Inr k \<Rightarrow>
               (case lab_file of
                  Inl e \<Rightarrow> Inl e
                | Inr _ \<Rightarrow>
                    (case spec of
                       Inl e \<Rightarrow> Inl e
                     | Inr document \<Rightarrow>
                         (if dir_exists then Inl (Exn OSError ''File exists'')
                          else Inr \<lparr>ls_spec = document, ls_session_id = session_id, ls_session_dir = evidence_root @ ''/'' @ session_id, ls_started_at = now,
                                    ls_max_events = n, ls_max_bytes = k, ls_fsync = fsync, ls_events = [],
                                    ls_dir = [(events_name, Regular [])]\<rparr>)))))"

end
