(* ===== verification/Evidence_Session.thy ===== *)
theory Evidence_Session
  imports Evidence
begin

text \<open>
  What the evidence session promises over histories of record calls: the events are
  numbered, bounded, redacted, hashed, and \<open>events.jsonl\<close> is their text; an event once
  recorded stays. And what it does not promise when the disk fails.
\<close>

section \<open>Minimised payloads\<close>

lemma masked_put: "masked S m (PDict d) \<Longrightarrow> \<not> S k \<Longrightarrow> masked S m v \<Longrightarrow> masked S m (PDict (dir_put k v d))"
  by (induction d) (auto simp: dir_put_def)

lemma masked_del: "masked S m (PDict d) \<Longrightarrow> masked S m (PDict (dir_del k d))"
  by (auto simp: dir_del_def AList.delete_eq list_all_iff)

lemma masked_get:
  assumes "masked S m (PDict d)" "pget d k = PDict c" "\<not> S k"
  shows "masked S m (PDict c)"
proof -
  have "(k, PDict c) \<in> set d"
    using assms(2) by (auto simp: pget_def dir_get_def split: option.splits dest: map_of_SomeD)
  with assms(1) have "if S k then PDict c = m else masked S m (PDict c)" by (fastforce simp: list_all_iff)
  with assms(3) show ?thesis by simp
qed

lemma plain_keys: "\<not> sensitive_key ''cell''" "\<not> sensitive_key ''source_sha256''" "\<not> sensitive_key ''source_bytes''"
  by code_simp+

abbreviation payload_masked :: "record_doc \<Rightarrow> bool" where
  "payload_masked p \<equiv> masked sensitive_key redacted_value (PDict p)"

text \<open>A kept cell has no source, but its digest and size.\<close>

definition cell_minimal :: "string \<Rightarrow> record_doc \<Rightarrow> bool" where
  "cell_minimal kind p \<longleftrightarrow>
     (kind = ''cell-executed'' \<longrightarrow>
        (\<exists>cell digest n. pget p ''cell'' = PDict cell \<and> dir_get cell ''source'' = None \<and>
           pget cell ''source_sha256'' = PStr digest \<and> length digest = 64 \<and> pget cell ''source_bytes'' = PInt (int n)))"

lemma minimize_persisted:
  assumes "minimize_persisted_payload kind p = Inr q" "payload_masked p"
  shows "payload_masked q" "cell_minimal kind q"
proof -
  have "payload_masked q \<and> cell_minimal kind q"
  proof (cases "kind = ''cell-executed''")
    case False
    with assms show ?thesis by (auto simp: minimize_persisted_payload_def cell_minimal_def)
  next
    case True
    then obtain cell c where c: "pget p ''cell'' = PDict cell" "minimize_cell cell = Inr c" "q = dir_put ''cell'' (PDict c) p"
      using assms(1) by (auto simp: minimize_persisted_payload_def map_sum_Inr_iff split: pyval.splits)
    have "payload_masked cell" using masked_get [OF assms(2) c(1) plain_keys(1)] .
    with c(2) have "payload_masked c"
      by (auto simp: minimize_cell_def split: sum.splits simp del: masked.simps(1)
          intro!: masked_put masked_del plain_keys)
    then have "payload_masked q" unfolding c(3) by (intro masked_put assms(2) plain_keys)
    moreover from c(2) have "cell_minimal kind q"
      by (auto simp: c(3) cell_minimal_def minimize_cell_def pget_def dir_simps split: sum.splits)
    ultimately show ?thesis by simp
  qed
  then show "payload_masked q" "cell_minimal kind q" by auto
qed

lemma safe_payload_Inr:
  assumes "safe_payload limit kind payload = Inr q" "py_value payload"
  obtains d r where "payload = PDict d" "redact_payload payload = PDict r" "int (length (canonical_json (PDict r))) \<le> limit"
    "minimize_persisted_payload kind r = Inr q" "payload_masked q" "cell_minimal kind q"
proof -
  obtain d r where d: "payload = PDict d" "redact_payload payload = PDict r" "int (length (canonical_json (PDict r))) \<le> limit"
    "minimize_persisted_payload kind r = Inr q"
    using assms(1) by (cases payload) (auto simp: safe_payload_def Let_def split: if_splits)
  moreover have "payload_masked r" using evidence_redaction.redact_masked [OF assms(2)] d(2) by simp
  ultimately show thesis using minimize_persisted that by blast
qed

section \<open>One record call\<close>

lemma append_log_whole:
  assumes "content_of d events_name = Some b" "io = Wrote None \<or> (\<exists>msg. io = OpenFails msg \<or> io = WriteFails msg)"
    "append_log io fsync line d = (r, d')"
  shows "(r = Ret () \<and> content_of d' events_name = Some (b @ line) \<and> io = Wrote None) \<or> ((\<exists>e. r = Raise e) \<and> d' = d)"
  using assms
  by (auto simp: append_log_def append_bytes_def write_through_def content_of_def then_p_def bind_p_def dir_simps
      split: option.splits bundle_file.splits)

lemma write_through_known:
  assumes "content_of d events_name = Some b"
  obtains d' where "write_through events_name c d = (Ret (), d')" "content_of d' events_name = Some c"
  using assms
  by (auto simp: write_through_def content_of_def dir_simps split: option.splits bundle_file.splits)

lemma append_log_not_Stuck: "append_log io fsync line d \<noteq> (Stuck, d')"
  by (auto simp: append_log_def append_bytes_def write_through_def then_p_Stuck_iff split: append_answer.splits option.splits
      bundle_file.splits if_splits)

lemma record_event_cases:
  obtains (refused) e where "record_event io now source kind payload s = (Raise e, s)"
  | (failed) safe e d where "safe_payload (ls_max_bytes s) kind payload = Inr safe"
      "int (length (ls_events s)) < ls_max_events s"
      "append_log io (ls_fsync s) (event_line (new_event s now kind source safe)) (ls_dir s) = (Raise e, d)"
      "record_event io now source kind payload s = (Raise e, s\<lparr>ls_dir := d\<rparr>)"
  | (recorded) safe d where "safe_payload (ls_max_bytes s) kind payload = Inr safe"
      "int (length (ls_events s)) < ls_max_events s"
      "append_log io (ls_fsync s) (event_line (new_event s now kind source safe)) (ls_dir s) = (Ret (), d)"
      "record_event io now source kind payload s =
         (Ret (new_event s now kind source safe), s\<lparr>ls_dir := d, ls_events := ls_events s @ [new_event s now kind source safe]\<rparr>)"
proof (cases "safe_payload (ls_max_bytes s) kind payload")
  case (Inl e)
  then show ?thesis using refused by (simp add: record_event_def)
next
  case (Inr safe)
  show ?thesis
  proof (cases "int (length (ls_events s)) < ls_max_events s")
    case False
    then show ?thesis using refused Inr by (simp add: record_event_def)
  next
    case True
    obtain r d where a: "append_log io (ls_fsync s) (event_line (new_event s now kind source safe)) (ls_dir s) = (r, d)"
      by fastforce
    show ?thesis
    proof (cases r)
      case (Ret x)
      with a Inr True show ?thesis by (intro recorded) (auto simp: record_event_def Let_def)
    next
      case (Raise e)
      with a Inr True show ?thesis by (intro failed) (auto simp: record_event_def)
    next
      case Stuck
      with a append_log_not_Stuck show ?thesis by blast
    qed
  qed
qed

section \<open>Histories\<close>

text \<open>A record call: of a client or of the machine.\<close>

record evidence_request =
  rq_client :: bool
  rq_kind :: string
  rq_payload :: pyval
  rq_now :: string
  rq_io :: append_answer

definition evidence_call :: "evidence_request \<Rightarrow> (lab_service, evidence_event) prog" where
  "evidence_call q =
     (if rq_client q then record_client_event else record_machine_event) (rq_io q) (rq_now q) (rq_kind q) (rq_payload q)"

definition evidence_step :: "lab_service \<Rightarrow> evidence_request \<Rightarrow> lab_service" where
  "evidence_step s q = snd (evidence_call q s)"

text \<open>The disk keeps what it is given, or refuses the call.\<close>

definition sound_disk :: "evidence_request \<Rightarrow> bool" where
  "sound_disk q \<longleftrightarrow> py_value (rq_payload q) \<and>
     (case rq_io q of Wrote sync \<Rightarrow> sync = None | WroteShort n sync \<Rightarrow> False | _ \<Rightarrow> True)"

definition event_ok :: "evidence_event \<Rightarrow> bool" where
  "event_ok e \<longleftrightarrow>
     ev_payload_sha256 e = hexdigest (canonical_json (PDict (ev_payload e))) \<and>
     payload_masked (ev_payload e) \<and> cell_minimal (ev_kind e) (ev_payload e) \<and>
     (ev_source e = ''jupyterlab-observer'' \<and> ev_kind e \<in> set client_event_kinds \<or>
      ev_source e = ''laboratory-server'' \<and> ev_kind e \<in> set machine_event_kinds)"

definition session_ok :: "lab_service \<Rightarrow> bool" where
  "session_ok s \<longleftrightarrow>
     map ev_sequence (ls_events s) = [1..<length (ls_events s) + 1] \<and>
     int (length (ls_events s)) \<le> ls_max_events s \<and>
     list_all event_ok (ls_events s) \<and>
     content_of (ls_dir s) events_name = Some (concat (map event_line (ls_events s)))"

lemma record_event_session_ok:
  assumes "session_ok s" "py_value payload" "io = Wrote None \<or> (\<exists>msg. io = OpenFails msg \<or> io = WriteFails msg)"
    and "source = ''jupyterlab-observer'' \<and> kind \<in> set client_event_kinds \<or>
         source = ''laboratory-server'' \<and> kind \<in> set machine_event_kinds"
  shows "session_ok (snd (record_event io now source kind payload s))"
proof (cases rule: record_event_cases [of io now source kind payload s])
  case (refused e)
  with assms(1) show ?thesis by simp
next
  case (failed safe e d)
  have "content_of (ls_dir s) events_name = Some (concat (map event_line (ls_events s)))"
    using assms(1) by (simp add: session_ok_def)
  from append_log_whole [OF this assms(3) failed(3)] have "d = ls_dir s" by auto
  with failed(4) assms(1) show ?thesis by simp
next
  case (recorded safe d)
  let ?e = "new_event s now kind source safe"
  have log: "content_of (ls_dir s) events_name = Some (concat (map event_line (ls_events s)))"
    using assms(1) by (simp add: session_ok_def)
  from append_log_whole [OF this assms(3) recorded(3)]
  have d: "content_of d events_name = Some (concat (map event_line (ls_events s)) @ event_line ?e)" by auto
  from recorded(1) assms(2) have "payload_masked safe" "cell_minimal kind safe" by (blast elim: safe_payload_Inr)+
  then have e: "event_ok ?e" using assms(4) by (simp add: event_ok_def new_event_def del: masked.simps(1))
  have "ev_sequence ?e = length (ls_events s) + 1" by (simp add: new_event_def)
  with assms(1) recorded(2,4) d e show ?thesis by (simp add: session_ok_def)
qed

lemma evidence_step_session_ok: "session_ok s \<Longrightarrow> sound_disk q \<Longrightarrow> session_ok (evidence_step s q)"
  by (cases "rq_io q")
    (auto simp: evidence_step_def evidence_call_def record_client_event_def record_machine_event_def sound_disk_def
      intro!: record_event_session_ok)

lemma record_event_extends: "\<exists>xs. ls_events (snd (record_event io now source kind payload s)) = ls_events s @ xs"
  by (cases rule: record_event_cases [of io now source kind payload s]) auto

lemma evidence_step_extends: "\<exists>xs. ls_events (evidence_step s q) = ls_events s @ xs"
  using record_event_extends
  by (auto simp: evidence_step_def evidence_call_def record_client_event_def record_machine_event_def)

interpretation evidence: append_only_machine evidence_step session_ok sound_disk ls_events
  by unfold_locales (fact evidence_step_session_ok evidence_step_extends)+

section \<open>Properties\<close>

lemma session_start:
  "lab_service_init max_events max_bytes fsync lab_file spec evidence_root dir_exists session_id now = Inr s \<Longrightarrow>
     session_ok s \<and> ls_events s = [] \<and> 1 \<le> ls_max_events s \<and> 1024 \<le> ls_max_bytes s"
  by (auto simp: lab_service_init_def positive_limit_def session_ok_def content_of_def dir_get_def
      split: sum.splits if_splits pyval.splits)

text \<open>
  C3. The evidence of a session. From the start of a session, over any history of record
  calls by clients and by the machine on a disk that keeps what it accepts, the events are
  numbered from one without a gap and never exceed the limit; each carries the digest of
  its payload's canonical text, no value under a sensitive key and no cell source, and a
  kind its recorder may record; \<open>events.jsonl\<close> is exactly the text of the events; and
  whatever is recorded later, the events recorded before stay as they are.
\<close>

theorem evidence_history:
  assumes "lab_service_init max_events max_bytes fsync lab_file spec evidence_root dir_exists session_id now = Inr s0"
    and "list_all sound_disk (qs @ rs)" and "s = run_steps evidence_step s0 qs"
  shows "map ev_sequence (ls_events s) = [1..<length (ls_events s) + 1] \<and>
    int (length (ls_events s)) \<le> ls_max_events s \<and>
    list_all event_ok (ls_events s) \<and>
    content_of (ls_dir s) events_name = Some (concat (map event_line (ls_events s))) \<and>
    (\<exists>later. ls_events (run_steps evidence_step s0 (qs @ rs)) = ls_events s @ later)"
proof -
  have "session_ok s0" using session_start [OF assms(1)] by blast
  from evidence.run_inv [OF this, of qs] assms(2,3) have "session_ok s" by simp
  moreover have "\<exists>later. ls_events (run_steps evidence_step s0 (qs @ rs)) = ls_events s @ later"
    using evidence.run_extends [of s rs] by (simp add: evidence.run_append assms(3))
  ultimately show ?thesis by (simp add: session_ok_def)
qed

definition example_spec :: record_doc where
  "example_spec = [(''schema'', PStr ''softcloud.lab/v1''), (''id'', PStr ''lab-1'')]"

definition example_session :: lab_service where
  "example_session = \<lparr>ls_spec = example_spec, ls_session_id = ''s1'', ls_session_dir = ''/e/s1'', ls_started_at = ''t0'', ls_max_events = 2,
     ls_max_bytes = 1024, ls_fsync = True, ls_events = [], ls_dir = [(events_name, Regular [])]\<rparr>"

lemma example_session_start:
  "lab_service_init (PInt 2) (PInt 1024) True (Inr []) (Inr example_spec) ''/e'' False ''s1'' ''t0'' = Inr example_session"
  by (simp add: lab_service_init_def positive_limit_def example_session_def)

definition example_request :: evidence_request where
  "example_request = \<lparr>rq_client = False, rq_kind = ''design-validated'', rq_payload = PDict [(''password'', PStr ''x'')],
     rq_now = ''t1'', rq_io = Wrote None\<rparr>"

theorem evidence_history_witness:
  "map ev_sequence (ls_events (run_steps evidence_step example_session [example_request])) =
     [1..<length (ls_events (run_steps evidence_step example_session [example_request])) + 1]"
proof -
  have "list_all sound_disk ([example_request] @ [])" by (simp add: sound_disk_def example_request_def)
  from evidence_history [OF example_session_start this refl] show ?thesis by blast
qed

text \<open>
  C14. Secrets leave no trace. Two payloads that differ at most in values under sensitive
  keys, however deep, are recorded as the same event, with the same digest and the same
  bytes on disk, and refused with the same error.
\<close>

lemma same_public_dict: "same_public S v w \<Longrightarrow> (\<exists>d. v = PDict d) \<longleftrightarrow> (\<exists>d. w = PDict d)"
  by (cases rule: same_public.cases) auto

lemma safe_payload_same_public:
  assumes "same_public sensitive_key v w"
  shows "safe_payload limit kind v = safe_payload limit kind w"
proof -
  note eq = evidence_redaction.redact_same_public [OF assms]
  show ?thesis
  proof (cases "\<exists>d. v = PDict d")
    case True
    then obtain d d' where "v = PDict d" "w = PDict d'" using same_public_dict [OF assms] by auto
    then show ?thesis using eq by (simp add: safe_payload_def del: redact_payload.simps)
  next
    case False
    then show ?thesis using same_public_dict [OF assms]
      by (auto simp: safe_payload_def split: pyval.split)
  qed
qed

theorem secrets_leave_no_trace:
  assumes "same_public sensitive_key v w"
  shows "evidence_call (q\<lparr>rq_payload := v\<rparr>) s = evidence_call (q\<lparr>rq_payload := w\<rparr>) s"
  using safe_payload_same_public [OF assms]
  by (simp add: evidence_call_def record_client_event_def record_machine_event_def record_event_def)

theorem secrets_leave_no_trace_witness:
  "evidence_call (example_request\<lparr>rq_payload := PDict [(''login'', PDict [(''Api-Key'', PStr ''a'')]), (''n'', PInt 1)]\<rparr>) example_session =
   evidence_call (example_request\<lparr>rq_payload := PDict [(''login'', PDict [(''Api-Key'', PList [])]), (''n'', PInt 1)]\<rparr>) example_session"
proof (rule secrets_leave_no_trace)
  have "sensitive_key ''Api-Key''" by code_simp
  then show "same_public sensitive_key (PDict [(''login'', PDict [(''Api-Key'', PStr ''a'')]), (''n'', PInt 1)])
     (PDict [(''login'', PDict [(''Api-Key'', PList [])]), (''n'', PInt 1)])"
    by (intro same_dict) (auto intro: same_dict same_refl)
qed

section \<open>Stages\<close>

lemma any_explained_append:
  "any_explained (es @ fs) = (case any_explained es of Inl e \<Rightarrow> Inl e | Inr True \<Rightarrow> Inr True | Inr False \<Rightarrow> any_explained fs)"
  by (induction es) (auto split: sum.split bool.split)

lemma set_if_single: "set (if c then [x] else []) = {t. t = x \<and> c}"
  by (cases c) auto

lemma completed_stages_set:
  assumes "completed_stages es = Inr stages"
  shows "set stages =
     {t. t = ''observed'' \<and> ''cell-executed'' \<in> ev_kind ` set es} \<union> {t. t = ''explained'' \<and> any_explained es = Inr True} \<union>
     snd ` {p \<in> set stage_mapping. fst p \<in> ev_kind ` set es}"
proof -
  obtain b where b: "any_explained es = Inr b"
    using assms by (auto simp: completed_stages_def Let_def split: sum.splits)
  with assms have "stages = (if ''cell-executed'' \<in> ev_kind ` set es then [''observed''] else []) @
      (if b then [''explained''] else []) @ map snd (filter (\<lambda>p. fst p \<in> ev_kind ` set es) stage_mapping)"
    by (simp add: completed_stages_def)
  then show ?thesis by (simp only: set_append set_if_single set_map set_filter b sum.inject eq_True Un_assoc)
qed

text \<open>
  Progress is never taken back: a stage that is completed stays completed whatever is
  recorded later, as long as the stages can be computed.
\<close>

lemma completed_stages_grow:
  assumes "completed_stages (ls_events s) = Inr stages" "completed_stages (ls_events (run_steps evidence_step s qs)) = Inr later"
  shows "set stages \<subseteq> set later"
proof -
  obtain xs where xs: "ls_events (run_steps evidence_step s qs) = ls_events s @ xs"
    using evidence.run_extends by blast
  from assms(1) have "any_explained (ls_events s) = Inr True \<or> any_explained (ls_events s) = Inr False"
    by (auto simp: completed_stages_def Let_def split: sum.splits)
  then show ?thesis
    unfolding completed_stages_set [OF assms(1)] completed_stages_set [OF assms(2)] xs any_explained_append by auto
qed

definition designed_session :: lab_service where
  "designed_session = example_session\<lparr>ls_events := [new_event example_session ''t1'' ''design-validated'' ''laboratory-server'' []]\<rparr>"

lemma completed_stages_grow_witness:
  "set [''designed''] \<subseteq> set [''designed'']"
proof (rule completed_stages_grow)
  show "completed_stages (ls_events designed_session) = Inr [''designed'']"
    by (simp add: designed_session_def new_event_def completed_stages_def stage_mapping_def)
  have "evidence_step designed_session (example_request\<lparr>rq_kind := ''x''\<rparr>) = designed_session"
    by (simp add: evidence_step_def evidence_call_def example_request_def record_machine_event_def machine_event_kinds_def)
  then show "completed_stages (ls_events (run_steps evidence_step designed_session [example_request\<lparr>rq_kind := ''x''\<rparr>])) =
      Inr [''designed'']"
    by (simp add: designed_session_def new_event_def completed_stages_def stage_mapping_def)
qed

section \<open>What goes wrong\<close>

text \<open>The payload of a client that counts its cells with a superscript digit.\<close>

definition superscript_payload :: record_doc where
  "superscript_payload = [(''markdown_cells'', PStr [CHR 0xB2])]"

lemma superscript_safe:
  assumes "1024 \<le> limit"
  shows "safe_payload limit ''notebook-context'' (PDict superscript_payload) = Inr superscript_payload"
proof -
  have red: "redact_payload (PDict superscript_payload) = PDict superscript_payload"
    unfolding superscript_payload_def by code_simp
  have "length (json_text False (PDict superscript_payload)) \<le> 6 * 14 + length (json_string False [CHR 0xB2]) + 4 + 2"
    using json_dict_length [of False superscript_payload] by (simp add: superscript_payload_def)
  moreover have "length (json_string False [CHR 0xB2]) \<le> 8" using json_string_length [of False "[CHR 0xB2]"] by simp
  ultimately have "length (canonical_json (PDict superscript_payload)) \<le> 2 * 98"
    using utf8_encode_length [of "json_text False (PDict superscript_payload)"] unfolding canonical_json_def by linarith
  with assms red show ?thesis
    by (simp add: safe_payload_def minimize_persisted_payload_def Let_def del: redact_payload.simps)
qed

lemma superscript_raises: "is_positive_int (PStr [CHR 0xB2]) = Inl (Exn ValueError (''invalid literal for int(): '' @ [CHR 0xB2]))"
  unfolding is_positive_int_def by code_simp

text \<open>
  One client event disables the session's state for good. A notebook context whose
  cell count is a superscript digit is accepted and recorded, and from then on, whatever
  is recorded later, the state cannot be computed: it raises instead of reporting.
\<close>

lemma superscript_count_breaks_state:
  assumes "session_ok s" "1024 \<le> ls_max_bytes s" "int (length (ls_events s)) < ls_max_events s"
    and "any_explained (ls_events s) = Inr False"
  shows "\<exists>e t. record_client_event (Wrote None) now ''notebook-context'' (PDict superscript_payload) s = (Ret e, t) \<and>
    (\<forall>qs. \<exists>err. lab_state find_key runtime (run_steps evidence_step t qs) = Inl err)"
proof -
  let ?e = "new_event s now ''notebook-context'' ''jupyterlab-observer'' superscript_payload"
  have "content_of (ls_dir s) events_name = Some (concat (map event_line (ls_events s)))"
    using assms(1) by (simp add: session_ok_def)
  moreover from this obtain d where
    "write_through events_name (concat (map event_line (ls_events s)) @ event_line ?e) (ls_dir s) = (Ret (), d)"
    by (rule write_through_known)
  ultimately have "append_log (Wrote None) (ls_fsync s) (event_line ?e) (ls_dir s) = (Ret (), d)"
    by (simp add: append_log_def append_bytes_def then_p_def bind_p_def)
  with superscript_safe [OF assms(2)] assms(3)
  have run: "record_client_event (Wrote None) now ''notebook-context'' (PDict superscript_payload) s =
      (Ret ?e, s\<lparr>ls_dir := d, ls_events := ls_events s @ [?e]\<rparr>)" (is "_ = (_, ?t)")
    by (simp add: record_client_event_def client_event_kinds_def record_event_def Let_def)
  have bad: "any_explained [?e] = Inl (Exn ValueError (''invalid literal for int(): '' @ [CHR 0xB2]))"
    using superscript_raises by (simp add: new_event_def superscript_payload_def pget_default_def dir_get_def)
  have "\<exists>err. lab_state find_key runtime (run_steps evidence_step ?t qs) = Inl err" for qs
  proof -
    obtain xs where "ls_events (run_steps evidence_step ?t qs) = (ls_events s @ [?e]) @ xs"
      using evidence.run_extends [of ?t qs] by auto
    moreover have "any_explained ((ls_events s @ [?e]) @ xs) =
        Inl (Exn ValueError (''invalid literal for int(): '' @ [CHR 0xB2]))"
      unfolding any_explained_append [of "ls_events s @ [?e]"] any_explained_append [of "ls_events s"] bad assms(4) by simp
    ultimately show ?thesis by (simp add: lab_state_def completed_stages_def Let_def)
  qed
  with run show ?thesis by blast
qed

lemma superscript_count_breaks_state_witness:
  "\<exists>e t. record_client_event (Wrote None) ''t1'' ''notebook-context'' (PDict superscript_payload) example_session = (Ret e, t) \<and>
    (\<forall>qs. \<exists>err. lab_state (\<lambda>_. KeyUnavailable []) PNone (run_steps evidence_step t qs) = Inl err)"
  using session_start [OF example_session_start]
  by (intro superscript_count_breaks_state) (auto simp: example_session_def)

text \<open>
  A failed fsync splits the log from the session. The line is in \<open>events.jsonl\<close>, the
  call raises and the event is not in the session, so the next event is written under the
  same sequence number: the log then has two lines for it.
\<close>

lemma failed_fsync_repeats_number:
  assumes "session_ok s" "ls_fsync s" "int (length (ls_events s)) < ls_max_events s"
    and "safe_payload (ls_max_bytes s) kind payload = Inr safe" "safe_payload (ls_max_bytes s) kind' payload' = Inr safe'"
  shows "\<exists>t u first second.
    record_event (Wrote (Some msg)) now source kind payload s = (Raise (Exn OSError msg), t) \<and>
    record_event (Wrote None) now' source' kind' payload' t = (Ret second, u) \<and>
    content_of (ls_dir u) events_name = Some (concat (map event_line (ls_events s)) @ event_line first @ event_line second) \<and>
    ev_sequence first = ev_sequence second \<and> ls_events u = ls_events s @ [second]"
proof -
  let ?b = "concat (map event_line (ls_events s))" and ?e = "new_event s now kind source safe"
    and ?e' = "new_event s now' kind' source' safe'"
  have log: "content_of (ls_dir s) events_name = Some ?b"
    using assms(1) by (simp add: session_ok_def)
  then obtain d where d: "write_through events_name (?b @ event_line ?e) (ls_dir s) = (Ret (), d)"
      "content_of d events_name = Some (?b @ event_line ?e)"
    by (rule write_through_known)
  from d(2) obtain d' where d': "write_through events_name ((?b @ event_line ?e) @ event_line ?e') d = (Ret (), d')"
      "content_of d' events_name = Some ((?b @ event_line ?e) @ event_line ?e')"
    by (rule write_through_known)
  have same: "new_event (s\<lparr>ls_dir := d\<rparr>) now' kind' source' safe' = ?e'" by (simp add: new_event_def)
  have "record_event (Wrote (Some msg)) now source kind payload s = (Raise (Exn OSError msg), s\<lparr>ls_dir := d\<rparr>)"
    using assms(2-4) log d(1) by (simp add: record_event_def Let_def append_log_def append_bytes_def then_p_def bind_p_def)
  moreover have "record_event (Wrote None) now' source' kind' payload' (s\<lparr>ls_dir := d\<rparr>) =
      (Ret ?e', s\<lparr>ls_dir := d', ls_events := ls_events s @ [?e']\<rparr>)"
    using assms(3,5) d(2) d'(1) same
    by (simp add: record_event_def Let_def append_log_def append_bytes_def then_p_def bind_p_def)
  moreover have "ev_sequence ?e = ev_sequence ?e'" by (simp add: new_event_def)
  moreover have "content_of (ls_dir (s\<lparr>ls_dir := d', ls_events := ls_events s @ [?e']\<rparr>)) events_name =
      Some (?b @ event_line ?e @ event_line ?e')" using d'(2) by simp
  moreover have "ls_events (s\<lparr>ls_dir := d', ls_events := ls_events s @ [?e']\<rparr>) = ls_events s @ [?e']" by simp
  ultimately show ?thesis by blast
qed

lemma failed_fsync_repeats_number_witness:
  "\<exists>t u first second.
    record_event (Wrote (Some ''I/O error'')) ''t1'' ''x'' ''notebook-context'' (PDict superscript_payload) example_session =
      (Raise (Exn OSError ''I/O error''), t) \<and>
    record_event (Wrote None) ''t2'' ''x'' ''notebook-context'' (PDict superscript_payload) t = (Ret second, u) \<and>
    content_of (ls_dir u) events_name =
      Some (concat (map event_line (ls_events example_session)) @ event_line first @ event_line second) \<and>
    ev_sequence first = ev_sequence second \<and> ls_events u = ls_events example_session @ [second]"
  using session_start [OF example_session_start] superscript_safe [of 1024]
  by (intro failed_fsync_repeats_number) (auto simp: example_session_def)

end
