(* ===== verification/Evidence_Export.thy ===== *)
theory Evidence_Export
  imports Evidence_Session Base64
begin

text \<open>
  service.py's export, signing.py and verify.py: the files of an evidence bundle, their
  signature, and the verifier of a bundle. The cryptography package is a parameter: a record
  of the functions the code calls. What the round trip needs of them is the definition
  \<open>sound_scheme\<close>, the documented behaviour of Ed25519 keys and PEM.
\<close>

section \<open>The cryptography package\<close>

record ('sk, 'pk) signature_scheme =
  sc_load_private :: "string \<Rightarrow> exn + 'sk option"
  sc_load_public :: "string \<Rightarrow> exn + 'pk option"
  sc_public :: "'sk \<Rightarrow> 'pk"
  sc_pem :: "'pk \<Rightarrow> string"
  sc_sign :: "'sk \<Rightarrow> string \<Rightarrow> nat list"
  sc_verify :: "'pk \<Rightarrow> nat list \<Rightarrow> string \<Rightarrow> exn + unit"

text \<open>
  A key that loads but is no Ed25519 key is \<open>None\<close>. What the round trip needs:
  a key that was printed is read back, PEM is ASCII, a signature is bytes, and what a key
  signs its public key verifies.
\<close>

definition sound_scheme :: "('sk, 'pk) signature_scheme \<Rightarrow> bool" where
  "sound_scheme c \<longleftrightarrow>
     (\<forall>pk. sc_load_public c (sc_pem c pk) = Inr (Some pk) \<and> list_all (\<lambda>x. (of_char x :: nat) < 128) (sc_pem c pk)) \<and>
     (\<forall>sk m. list_all (\<lambda>b. b < 256) (sc_sign c sk m) \<and> sc_verify c (sc_public c sk) (sc_sign c sk m) m = Inr ())"

section \<open>Files of a bundle\<close>

definition read_file :: "string \<Rightarrow> (session_files, string) prog" where
  "read_file name d =
     (case content_of d name of
        None \<Rightarrow> (Raise (Exn OSError (''No such file: '' @ name)), d)
      | Some b \<Rightarrow> (Ret b, d))"

definition unlink_file :: "string \<Rightarrow> (session_files, unit) prog" where
  "unlink_file name = modify_p (dir_del name)"

definition unlink_if_link :: "string \<Rightarrow> (session_files, unit) prog" where
  "unlink_if_link name = bind_p (gets_p (\<lambda>d. is_link d name)) (\<lambda>l. when_p l (unlink_file name))"

text \<open>\<open>temporary.replace(path)\<close>: the entry moves, over anything but a directory.\<close>

definition replace_file :: "string \<Rightarrow> string \<Rightarrow> (session_files, unit) prog" where
  "replace_file source target d =
     (case dir_get d source of
        None \<Rightarrow> (Raise (Exn OSError (''No such file: '' @ source)), d)
      | Some f \<Rightarrow>
          (if dir_get d target = Some Subdir then (Raise (Exn OSError (''Is a directory: '' @ target)), d)
           else (Ret (), dir_put target f (dir_del source d))))"

definition regular_bytes :: "session_files \<Rightarrow> string \<Rightarrow> string option" where
  "regular_bytes d name = (if is_link d name then None else content_of d name)"

section \<open>Signing\<close>

definition signature_schema :: string where
  "signature_schema = ''softcloud.lab-signature/v1''"

text \<open>\<open>key_bytes\<close> is the content of the key's path, if it is a regular file.\<close>

definition load_private_key :: "('sk, 'pk) signature_scheme \<Rightarrow> string option \<Rightarrow> exn + 'sk" where
  "load_private_key c key_bytes =
     (case key_bytes of
        None \<Rightarrow> Inl (Exn ValueError ''Evidence signing key must be a regular file'')
      | Some b \<Rightarrow>
          (case sc_load_private c b of
             Inl e \<Rightarrow> Inl e
           | Inr None \<Rightarrow> Inl (Exn ValueError ''Evidence signing key must be an Ed25519 private key'')
           | Inr (Some sk) \<Rightarrow> Inr sk))"

definition load_public_key :: "('sk, 'pk) signature_scheme \<Rightarrow> string option \<Rightarrow> exn + 'pk" where
  "load_public_key c key_bytes =
     (case key_bytes of
        None \<Rightarrow> Inl (Exn ValueError ''Evidence verification key must be a regular file'')
      | Some b \<Rightarrow>
          (case sc_load_public c b of
             Inl e \<Rightarrow> Inl e
           | Inr None \<Rightarrow> Inl (Exn ValueError ''Evidence verification key must be an Ed25519 public key'')
           | Inr (Some pk) \<Rightarrow> Inr pk))"

definition manifest_name :: string where
  "manifest_name = ''manifest.json''"

definition signature_name :: string where
  "signature_name = ''manifest.sig.json''"

definition signature_tmp :: string where
  "signature_tmp = ''.manifest.sig.json.tmp''"

definition signature_document :: "('sk, 'pk) signature_scheme \<Rightarrow> 'sk \<Rightarrow> string \<Rightarrow> string \<Rightarrow> pyval" where
  "signature_document c sk key_id manifest_bytes =
     (let pem = sc_pem c (sc_public c sk)
      in PDict [(''schema'', PStr signature_schema), (''algorithm'', PStr ''ed25519''), (''key_id'', PStr key_id),
           (''manifest'', PStr manifest_name), (''manifest_sha256'', PStr (hexdigest manifest_bytes)),
           (''public_key_sha256'', PStr (hexdigest pem)), (''public_key_pem'', PStr pem),
           (''signature_base64'', PStr (base64_encode (sc_sign c sk manifest_bytes)))])"

definition sign_manifest ::
    "('sk, 'pk) signature_scheme \<Rightarrow> string option \<Rightarrow> string \<Rightarrow> (session_files, string) prog" where
  "sign_manifest c key_bytes key_id =
     bind_p (gets_p (\<lambda>d. regular_bytes d manifest_name)) (\<lambda>found.
       case found of
         None \<Rightarrow> raise_p ValueError ''Manifest path must be a regular file''
       | Some manifest_bytes \<Rightarrow>
           (if key_id = [] then raise_p ValueError ''key_id must be a non-empty string''
            else bind_p (lift_p (load_private_key c key_bytes)) (\<lambda>sk.
              then_p (unlink_if_link signature_name)
                (then_p (unlink_if_link signature_tmp)
                  (then_p (write_through signature_tmp (canonical_json (signature_document c sk key_id manifest_bytes) @ [CHR 0x0A]))
                    (then_p (replace_file signature_tmp signature_name) (return_p signature_name)))))))"

section \<open>Export\<close>

definition json_line :: "pyval \<Rightarrow> string" where
  "json_line v = canonical_json v @ [CHR 0x0A]"

text \<open>The lab file can hold values, such as a set, that \<open>json.dumps\<close> refuses.\<close>

definition json_bytes :: "pyval \<Rightarrow> exn + string" where
  "json_bytes v =
     (case dumps False v of
        None \<Rightarrow> Inl (Exn TypeError ''Object of type set is not JSON serializable'')
      | Some text \<Rightarrow> Inr (utf8_encode text @ [CHR 0x0A]))"

definition evidence_document :: "lab_service \<Rightarrow> pyval \<Rightarrow> string \<Rightarrow> string \<Rightarrow> pyval" where
  "evidence_document s runtime spec_sha now =
     PDict [(''schema'', PStr ''softcloud.lab-evidence/v1''),
       (''lab'', PDict [(''id'', pget (ls_spec s) ''id''), (''spec_sha256'', PStr spec_sha)]),
       (''session'', PDict [(''id'', PStr (ls_session_id s)), (''started_at'', PStr (ls_started_at s)),
          (''exported_at'', PStr now), (''attestation'', PStr ''self-recorded'')]),
       (''runtime'', runtime),
       (''events'', PList (map event_dict (ls_events s)))]"

definition environment_document :: "lab_service \<Rightarrow> pyval \<Rightarrow> pyval" where
  "environment_document s runtime =
     PDict [(''schema'', PStr ''softcloud.lab-environment/v1''), (''runtime'', runtime),
       (''declared_runtime'', pget_default (ls_spec s) ''runtime'' (PDict [])),
       (''executor'', pget_default (ls_spec s) ''executor'' (PDict []))]"

definition evidence_name :: string where
  "evidence_name = ''evidence.json''"

definition environment_name :: string where
  "environment_name = ''environment.json''"

definition sums_name :: string where
  "sums_name = ''SHA256SUMS''"

definition artifact_entry :: "string \<Rightarrow> (session_files, string \<times> pyval) prog" where
  "artifact_entry name =
     bind_p (read_file name) (\<lambda>b.
       return_p (name, PDict [(''sha256'', PStr (hexdigest b)), (''size'', PInt (int (length b)))]))"

fun map_p :: "('x \<Rightarrow> ('s, 'y) prog) \<Rightarrow> 'x list \<Rightarrow> ('s, 'y list) prog" where
  "map_p f [] = return_p []"
| "map_p f (x # xs) = bind_p (f x) (\<lambda>y. bind_p (map_p f xs) (\<lambda>ys. return_p (y # ys)))"

definition manifest_document :: "lab_service \<Rightarrow> signing_config option \<Rightarrow> string \<Rightarrow> record_doc \<Rightarrow> pyval" where
  "manifest_document s signing now artifacts =
     PDict [(''schema'', PStr ''softcloud.lab-evidence-manifest/v1''), (''lab_id'', pget (ls_spec s) ''id''),
       (''session_id'', PStr (ls_session_id s)), (''event_count'', PInt (int (length (ls_events s)))),
       (''attestation'', PStr ''self-recorded''), (''generated_at'', PStr now), (''artifacts'', PDict artifacts),
       (''signature'', PDict [(''enabled'', PBool (signing \<noteq> None)),
          (''algorithm'', case signing of None \<Rightarrow> PNone | Some _ \<Rightarrow> PStr ''ed25519''),
          (''key_id'', case signing of None \<Rightarrow> PNone | Some g \<Rightarrow> PStr (sg_key_id g))])]"

definition sum_line :: "string \<Rightarrow> (session_files, string) prog" where
  "sum_line name = bind_p (read_file name) (\<lambda>b. return_p (hexdigest b @ ''  '' @ name @ [CHR 0x0A]))"

definition write_documents :: "lab_service \<Rightarrow> pyval \<Rightarrow> string \<Rightarrow> string \<Rightarrow> (session_files, unit) prog" where
  "write_documents s runtime spec_sha now =
     then_p (write_through evidence_name (json_line (evidence_document s runtime spec_sha now)))
       (bind_p (lift_p (json_bytes (environment_document s runtime))) (write_through environment_name))"

definition write_manifest :: "lab_service \<Rightarrow> signing_config option \<Rightarrow> string \<Rightarrow> (session_files, unit) prog" where
  "write_manifest s signing now =
     bind_p (map_p artifact_entry [evidence_name, environment_name, events_name]) (\<lambda>artifacts.
       write_through manifest_name (json_line (manifest_document s signing now artifacts)))"

definition sign_if ::
    "('sk, 'pk) signature_scheme \<Rightarrow> (string \<Rightarrow> string option) \<Rightarrow> signing_config option \<Rightarrow> (session_files, string list) prog" where
  "sign_if c key_of signing =
     (case signing of
        None \<Rightarrow> return_p []
      | Some g \<Rightarrow> bind_p (sign_manifest c (key_of (sg_private_key g)) (sg_key_id g)) (\<lambda>p. return_p [p]))"

definition write_sums :: "string list \<Rightarrow> (session_files, unit) prog" where
  "write_sums hashed =
     bind_p (map_p sum_line (sort hashed)) (\<lambda>sums. write_through sums_name (utf8_encode (concat sums)))"

text \<open>
  \<open>export\<close> on the files of the session. \<open>lab_bytes\<close> is the lab file's content, \<open>key_of\<close> the
  content of a key's path, \<open>now\<close> and \<open>now'\<close> the two times it asks for.
\<close>

definition export_session ::
    "('sk, 'pk) signature_scheme \<Rightarrow> (string \<Rightarrow> key_path) \<Rightarrow> (string \<Rightarrow> string option) \<Rightarrow> string option \<Rightarrow> pyval \<Rightarrow> string \<Rightarrow> string \<Rightarrow>
     lab_service \<Rightarrow> (session_files, pyval) prog" where
  "export_session c find_key key_of lab_bytes runtime now now' s =
     bind_p (lift_p (get_signing_config find_key (ls_spec s))) (\<lambda>signing.
     bind_p (case lab_bytes of None \<Rightarrow> raise_p OSError ''lab.yaml'' | Some b \<Rightarrow> return_p (hexdigest b)) (\<lambda>spec_sha.
     then_p (write_documents s runtime spec_sha now)
     (then_p (write_manifest s signing now')
     (bind_p (sign_if c key_of signing) (\<lambda>signed.
        let hashed = [evidence_name, environment_name, events_name, manifest_name] @ signed
        in then_p (write_sums hashed)
          (return_p (PDict [(''session_id'', PStr (ls_session_id s)), (''path'', PStr (ls_session_dir s)),
             (''files'', PList (map PStr (hashed @ [sums_name]))), (''signed'', PBool (signed \<noteq> []))])))))))"

definition export_evidence where
  "export_evidence c find_key key_of lab_bytes runtime now now' s =
     (case export_session c find_key key_of lab_bytes runtime now now' s (ls_dir s) of (r, d) \<Rightarrow> (r, s\<lparr>ls_dir := d\<rparr>))"

section \<open>Verification\<close>

definition read_json :: "string \<Rightarrow> string \<Rightarrow> exn + pyval" where
  "read_json message bytes =
     (case utf8_decode bytes of
        None \<Rightarrow> Inl (Exn UnicodeDecodeError ''invalid start byte'')
      | Some text \<Rightarrow> (case loads text of None \<Rightarrow> Inl (Exn ValueError message) | Some v \<Rightarrow> Inr v))"

text \<open>The key the signature is checked with: the trusted one, or the one in the document.\<close>

definition signature_key ::
    "('sk, 'pk) signature_scheme \<Rightarrow> string option option \<Rightarrow> record_doc \<Rightarrow> exn + 'pk" where
  "signature_key c trusted document =
     (case trusted of
        Some key_bytes \<Rightarrow>
          (case load_public_key c key_bytes of
             Inl e \<Rightarrow> Inl e
           | Inr pk \<Rightarrow>
               (if \<not> py_eq_str (pget document ''public_key_sha256'') (hexdigest (sc_pem c pk))
                then Inl (Exn ValueError ''Signature key does not match the trusted public key'')
                else Inr pk))
      | None \<Rightarrow>
          (case pget document ''public_key_pem'' of
             PStr pem \<Rightarrow>
               (if \<not> list_all (\<lambda>x. (of_char x :: nat) < 128) pem
                then Inl (Exn ValueError ''Invalid embedded public key'')
                else case sc_load_public c pem of
                  Inl e \<Rightarrow> Inl (Exn ValueError (''Invalid embedded public key: '' @ exn_msg e))
                | Inr None \<Rightarrow> Inl (Exn ValueError ''Embedded signature key is not Ed25519'')
                | Inr (Some pk) \<Rightarrow>
                    (if \<not> py_eq_str (pget document ''public_key_sha256'') (hexdigest (sc_pem c pk))
                     then Inl (Exn ValueError ''Embedded public-key fingerprint does not match signature metadata'')
                     else Inr pk))
           | _ \<Rightarrow> Inl (Exn ValueError ''Signature metadata does not contain a public key'')))"

definition check_signature :: "('sk, 'pk) signature_scheme \<Rightarrow> 'pk \<Rightarrow> record_doc \<Rightarrow> string \<Rightarrow> exn + record_doc" where
  "check_signature c pk document manifest_bytes =
     (case pget document ''signature_base64'' of
        PStr raw \<Rightarrow>
          (case base64_decode raw of
             None \<Rightarrow> Inl (Exn ValueError ''Invalid base64 signature'')
           | Some signature \<Rightarrow>
               (case sc_verify c pk signature manifest_bytes of
                  Inl e \<Rightarrow> Inl (Exn ValueError (''Manifest signature verification failed: '' @ exn_msg e))
                | Inr _ \<Rightarrow> Inr document))
      | _ \<Rightarrow> Inl (Exn ValueError ''Signature metadata does not contain a signature''))"

definition verify_manifest_signature ::
    "('sk, 'pk) signature_scheme \<Rightarrow> string option option \<Rightarrow> session_files \<Rightarrow> exn + record_doc" where
  "verify_manifest_signature c trusted d =
     (case regular_bytes d manifest_name of
        None \<Rightarrow> Inl (Exn ValueError ''Manifest path must be a regular file'')
      | Some manifest_bytes \<Rightarrow>
          (case regular_bytes d signature_name of
             None \<Rightarrow> Inl (Exn ValueError ''Signature path must be a regular file'')
           | Some signature_bytes \<Rightarrow>
               (case read_json ''Invalid signature JSON'' signature_bytes of
                  Inl e \<Rightarrow> Inl e
                | Inr (PDict document) \<Rightarrow>
                    (if \<not> py_eq_str (pget document ''schema'') signature_schema \<or> \<not> py_eq_str (pget document ''algorithm'') ''ed25519''
                     then Inl (Exn ValueError ''Unsupported evidence signature format'')
                     else if \<not> py_eq_str (pget document ''manifest_sha256'') (hexdigest manifest_bytes)
                     then Inl (Exn ValueError ''Manifest hash does not match signature metadata'')
                     else case signature_key c trusted document of
                       Inl e \<Rightarrow> Inl e
                     | Inr pk \<Rightarrow> check_signature c pk document manifest_bytes)
                | Inr _ \<Rightarrow> Inl (Exn ValueError ''Signature document must be an object''))))"

definition artifact_name_ok :: "string \<Rightarrow> bool" where
  "artifact_name_ok name \<longleftrightarrow> name \<noteq> [] \<and> name \<noteq> ''.'' \<and> name \<noteq> ''..'' \<and> CHR ''/'' \<notin> set name"

definition verify_artifact :: "session_files \<Rightarrow> string \<times> pyval \<Rightarrow> exn + string" where
  "verify_artifact d entry =
     (case entry of (name, metadata) \<Rightarrow>
       (if \<not> artifact_name_ok name then Inl (Exn ValueError (''Invalid artifact path in manifest: '' @ py_repr name))
        else case metadata of
          PDict m \<Rightarrow>
            (case pget m ''sha256'' of
               PStr expected \<Rightarrow>
                 (case regular_bytes d name of
                    None \<Rightarrow> Inl (Exn ValueError (''Evidence artifact is missing: '' @ name))
                  | Some b \<Rightarrow>
                      (if hexdigest b \<noteq> expected then Inl (Exn ValueError (''Evidence artifact hash mismatch: '' @ name))
                       else case pget m ''size'' of
                         PInt n \<Rightarrow>
                           (if int (length b) \<noteq> n then Inl (Exn ValueError (''Evidence artifact size mismatch: '' @ name))
                            else Inr name)
                       | _ \<Rightarrow> Inr name))
             | _ \<Rightarrow> Inl (Exn ValueError (''Missing SHA-256 for '' @ name)))
        | _ \<Rightarrow> Inl (Exn ValueError (''Invalid artifact metadata for '' @ name))))"

fun verify_artifacts :: "session_files \<Rightarrow> (string \<times> pyval) list \<Rightarrow> exn + string list" where
  "verify_artifacts d [] = Inr []"
| "verify_artifacts d (x # xs) =
     (case verify_artifact d x of
        Inl e \<Rightarrow> Inl e
      | Inr name \<Rightarrow> map_sum id ((#) name) (verify_artifacts d xs))"

record verify_report =
  vr_artifacts :: "string list"
  vr_signature_verified :: bool
  vr_key_id :: pyval
  vr_trusted_key_enforced :: bool

definition verify_optional_signature ::
    "('sk, 'pk) signature_scheme \<Rightarrow> string option option \<Rightarrow> session_files \<Rightarrow> exn + record_doc option" where
  "verify_optional_signature c trusted d =
     (if is_link d signature_name then Inl (Exn ValueError ''Evidence signature must not be a symbolic link'')
      else if content_of d signature_name \<noteq> None then map_sum id Some (verify_manifest_signature c trusted d)
      else if trusted \<noteq> None then Inl (Exn ValueError ''A trusted public key was supplied but the bundle is unsigned'')
      else Inr None)"

definition manifest_artifacts :: "session_files \<Rightarrow> exn + record_doc" where
  "manifest_artifacts d =
     (case regular_bytes d manifest_name of
        None \<Rightarrow> Inl (Exn ValueError ''manifest.json is missing'')
      | Some b \<Rightarrow>
          (case read_json ''Invalid manifest.json'' b of
             Inl e \<Rightarrow> Inl e
           | Inr (PDict manifest) \<Rightarrow>
               (if \<not> py_eq_str (pget manifest ''schema'') ''softcloud.lab-evidence-manifest/v1''
                then Inl (Exn ValueError ''Unsupported evidence manifest schema'')
                else case pget manifest ''artifacts'' of
                  PDict artifacts \<Rightarrow>
                    (if artifacts = [] then Inl (Exn ValueError ''Evidence manifest does not contain artifact hashes'')
                     else Inr artifacts)
                | _ \<Rightarrow> Inl (Exn ValueError ''Evidence manifest does not contain artifact hashes''))
           | Inr _ \<Rightarrow> Inl (Exn ValueError ''manifest.json must be an object'')))"

text \<open>\<open>bundle_kind\<close>: whether the path given is a symbolic link, and whether it is a directory.\<close>

definition verify_bundle ::
    "('sk, 'pk) signature_scheme \<Rightarrow> bool \<Rightarrow> bool \<Rightarrow> string option option \<Rightarrow> session_files \<Rightarrow> exn + verify_report" where
  "verify_bundle c link directory trusted d =
     (if link then Inl (Exn ValueError ''Evidence bundle must not be a symbolic link'')
      else if \<not> directory then Inl (Exn ValueError ''Evidence bundle directory does not exist'')
      else case manifest_artifacts d of
        Inl e \<Rightarrow> Inl e
      | Inr artifacts \<Rightarrow>
          (case verify_artifacts d artifacts of
             Inl e \<Rightarrow> Inl e
           | Inr names \<Rightarrow>
               (case verify_optional_signature c trusted d of
                  Inl e \<Rightarrow> Inl e
                | Inr signature \<Rightarrow>
                    Inr \<lparr>vr_artifacts = sort names, vr_signature_verified = (signature \<noteq> None),
                         vr_key_id = (case signature of None \<Rightarrow> PNone | Some doc \<Rightarrow> if doc = [] then PNone else pget doc ''key_id''),
                         vr_trusted_key_enforced = (trusted \<noteq> None)\<rparr>)))"

section \<open>Reading back\<close>

definition plain_files :: "session_files \<Rightarrow> bool" where
  "plain_files d \<longleftrightarrow> (\<forall>n f. dir_get d n = Some f \<longrightarrow> (\<exists>b. f = Regular b))"

lemma plain_write:
  assumes "plain_files d"
  shows "write_through n b d = (Ret (), dir_put n (Regular b) d)" "plain_files (dir_put n (Regular b) d)"
proof -
  show "write_through n b d = (Ret (), dir_put n (Regular b) d)"
    using assms by (auto simp: write_through_def plain_files_def split: option.split bundle_file.split)
  show "plain_files (dir_put n (Regular b) d)"
    using assms by (simp add: plain_files_def dir_simps)
qed

lemma plain_del: "plain_files d \<Longrightarrow> plain_files (dir_del n d)"
  by (simp add: plain_files_def dir_simps)

lemma plain_not_link: "plain_files d \<Longrightarrow> \<not> is_link d n"
  by (cases "dir_get d n") (auto simp: plain_files_def is_link_def split: bundle_file.split)

lemma plain_regular: "plain_files d \<Longrightarrow> regular_bytes d n = content_of d n"
  by (simp add: regular_bytes_def plain_not_link)

lemma content_put: "content_of (dir_put n (Regular b) d) k = (if k = n then Some b else content_of d k)"
  by (simp add: content_of_def dir_simps)

lemma content_del: "content_of (dir_del n d) k = (if k = n then None else content_of d k)"
  by (simp add: content_of_def dir_simps)

lemma read_json_line:
  assumes "json_ok v"
  shows "read_json message (json_line v) = Inr (json_norm v)"
proof -
  have "json_line v = utf8_encode (json_text False v @ [CHR 0x0A])"
    by (simp add: json_line_def canonical_json_def utf8_encode_def)
  then show ?thesis using loads_json_text_newline [OF assms, of False] by (simp add: read_json_def)
qed

lemma norm_fields:
  assumes "json_ok (PDict m)"
  obtains m' where "json_norm (PDict m) = PDict m'" "\<And>k. pget m' k = json_norm (pget m k)"
proof -
  obtain m' where m': "json_norm (PDict m) = PDict m'" by simp
  from assms have "distinct (map fst m)" by simp
  from dir_get_norm [OF this m'] have "pget m' k = json_norm (pget m k)" for k
    by (simp add: pget_def split: option.split)
  with m' that show thesis by blast
qed

lemma verify_artifacts_all:
  "(\<And>x. x \<in> set xs \<Longrightarrow> verify_artifact d x = Inr (fst x)) \<Longrightarrow> verify_artifacts d xs = Inr (map fst xs)"
  by (induction xs) simp_all

lemma signature_document_ok:
  assumes "sound_scheme c"
  shows "json_ok (signature_document c sk key_id b)"
  by (simp add: signature_document_def Let_def)

lemma signed_manifest_verifies:
  assumes "sound_scheme c" "plain_files d" "content_of d manifest_name = Some b"
    and "content_of d signature_name = Some (json_line (signature_document c sk key_id b))"
    and "trusted = None \<or> trusted = Some (Some (sc_pem c (sc_public c sk)))"
  shows "\<exists>doc. verify_manifest_signature c trusted d = Inr doc \<and> doc \<noteq> [] \<and> pget doc ''key_id'' = PStr key_id"
proof -
  let ?pem = "sc_pem c (sc_public c sk)"
  obtain m where m: "signature_document c sk key_id b = PDict m" by (simp add: signature_document_def Let_def)
  with signature_document_ok [OF assms(1), of sk key_id b] obtain doc where
    doc: "json_norm (PDict m) = PDict doc" "\<And>k. pget doc k = json_norm (pget m k)"
    by (metis norm_fields)
  have fields: "pget m ''schema'' = PStr signature_schema" "pget m ''algorithm'' = PStr ''ed25519''" "pget m ''key_id'' = PStr key_id"
    "pget m ''manifest_sha256'' = PStr (hexdigest b)" "pget m ''public_key_sha256'' = PStr (hexdigest ?pem)"
    "pget m ''public_key_pem'' = PStr ?pem" "pget m ''signature_base64'' = PStr (base64_encode (sc_sign c sk b))"
    using m by (auto simp: signature_document_def Let_def pget_def dir_get_def)
  have read: "read_json ''Invalid signature JSON'' (json_line (signature_document c sk key_id b)) = Inr (PDict doc)"
    using read_json_line [OF signature_document_ok [OF assms(1), of sk key_id b], of "''Invalid signature JSON''"] doc(1)
    by (simp only: m)
  have key: "signature_key c trusted doc = Inr (sc_public c sk)"
    using assms(1,5) by (auto simp: signature_key_def load_public_key_def doc(2) fields sound_scheme_def)
  have bytes: "list_all (\<lambda>x. x < 256) (sc_sign c sk b)" and ok: "sc_verify c (sc_public c sk) (sc_sign c sk b) b = Inr ()"
    using assms(1) by (simp_all add: sound_scheme_def)
  have "check_signature c (sc_public c sk) doc b = Inr doc"
    by (simp add: check_signature_def doc(2) fields base64_round_trip [OF bytes] ok)
  then have "verify_manifest_signature c trusted d = Inr doc"
    using read key by (simp add: verify_manifest_signature_def plain_regular [OF assms(2)] assms(3,4) doc(2) fields)
  moreover have "pget doc ''key_id'' = PStr key_id" by (simp add: doc(2) fields)
  moreover from this have "doc \<noteq> []" by (auto simp: pget_def dir_get_def)
  ultimately show ?thesis by blast
qed

section \<open>The exported files\<close>

lemma read_file_Ret: "read_file n d = (Ret b, d') \<longleftrightarrow> content_of d n = Some b \<and> d' = d"
  by (auto simp: read_file_def split: option.split)

lemma sum_lines_Ret: "map_p sum_line ns d = (Ret xs, d') \<Longrightarrow> d' = d"
  by (induction ns arbitrary: xs) (auto simp: bind_p_Ret_iff sum_line_def read_file_Ret)

definition artifact_meta :: "string \<Rightarrow> pyval" where
  "artifact_meta b = PDict [(''sha256'', PStr (hexdigest b)), (''size'', PInt (int (length b)))]"

lemma artifact_entry_Ret:
  "artifact_entry n d = (Ret x, d') \<longleftrightarrow> (\<exists>b. content_of d n = Some b \<and> x = (n, artifact_meta b) \<and> d' = d)"
  by (auto simp: artifact_entry_def bind_p_Ret_iff read_file_Ret artifact_meta_def)

lemma sign_manifest_Ret:
  assumes "sign_manifest c key_bytes key_id d = (Ret p, d')" "plain_files d"
  obtains b kb sk where "content_of d manifest_name = Some b" "key_bytes = Some kb" "sc_load_private c kb = Inr (Some sk)" "key_id \<noteq> []"
    "p = signature_name" "plain_files d'"
    "\<forall>n. n \<noteq> signature_tmp \<longrightarrow> content_of d' n =
       (if n = signature_name then Some (json_line (signature_document c sk key_id b)) else content_of d n)"
proof -
  obtain b where b: "content_of d manifest_name = Some b" "key_id \<noteq> []"
    using assms by (auto simp: sign_manifest_def plain_regular split: option.splits if_splits)
  obtain kb sk where k: "key_bytes = Some kb" "sc_load_private c kb = Inr (Some sk)"
    using assms b by (auto simp: sign_manifest_def plain_regular bind_p_Ret_iff lift_p_Ret load_private_key_def split: option.splits sum.splits)
  let ?doc = "json_line (signature_document c sk key_id b)"
  let ?d1 = "dir_put signature_tmp (Regular ?doc) d"
  let ?d2 = "dir_put signature_name (Regular ?doc) (dir_del signature_tmp ?d1)"
  have unlink: "unlink_if_link n d = (Ret (), d)" for n
    using plain_not_link [OF assms(2)] by (simp add: unlink_if_link_def)
  have names: "signature_name \<noteq> signature_tmp" by (simp add: signature_name_def signature_tmp_def)
  have dir: "dir_get ?d1 signature_name \<noteq> Some Subdir"
    using assms(2) names by (auto simp: dir_simps plain_files_def)
  have "replace_file signature_tmp signature_name ?d1 = (Ret (), ?d2)"
    using dir by (simp add: replace_file_def dirs.get_put)
  then have "(p, d') = (signature_name, ?d2)"
    using assms(1) b k unlink plain_write(1) [OF assms(2)]
    by (simp add: sign_manifest_def plain_regular [OF assms(2)] bind_p_def then_p_def lift_p_def load_private_key_def json_line_def)
  moreover have "plain_files ?d2" by (intro plain_write(2) plain_del assms(2))
  ultimately show thesis using b k by (intro that) (auto simp: content_put content_del)
qed

lemmas file_names = evidence_name_def environment_name_def events_name_def manifest_name_def signature_name_def
  signature_tmp_def sums_name_def

lemma write_documents_Ret:
  assumes "write_documents s runtime spec_sha now d = (Ret (), t)" "plain_files d"
  shows "plain_files t" "n \<notin> {evidence_name, environment_name} \<Longrightarrow> content_of t n = content_of d n"
  using assms
  by (auto simp: write_documents_def then_p_Ret_iff bind_p_Ret_iff lift_p_Ret plain_write content_put)

lemma write_manifest_Ret:
  assumes "write_manifest s signing now d = (Ret (), t)" "plain_files d"
  obtains ev env log where "content_of d evidence_name = Some ev" "content_of d environment_name = Some env"
    "content_of d events_name = Some log" "plain_files t"
    "\<And>n. content_of t n = (if n = manifest_name then Some (json_line (manifest_document s signing now
        [(evidence_name, artifact_meta ev), (environment_name, artifact_meta env), (events_name, artifact_meta log)]))
      else content_of d n)"
  using assms
  by (auto simp: write_manifest_def bind_p_Ret_iff artifact_entry_Ret plain_write content_put)

lemma write_sums_Ret:
  assumes "write_sums hashed d = (Ret (), t)" "plain_files d"
  shows "plain_files t" "n \<noteq> sums_name \<Longrightarrow> content_of t n = content_of d n"
  using assms
  by (auto simp: write_sums_def bind_p_Ret_iff plain_write content_put dest!: sum_lines_Ret)

text \<open>What an export that returns has put into the directory.\<close>

lemma export_session_Ret:
  assumes "export_session c find_key key_of lab_bytes runtime now now' s d = (Ret reply, t)" "plain_files d"
    and "get_signing_config find_key (ls_spec s) = Inr signing"
  obtains ev env log where "plain_files t" "content_of d events_name = Some log"
    "content_of t evidence_name = Some ev" "content_of t environment_name = Some env" "content_of t events_name = Some log"
    "content_of t manifest_name = Some (json_line (manifest_document s signing now'
       [(evidence_name, artifact_meta ev), (environment_name, artifact_meta env), (events_name, artifact_meta log)]))"
    "case signing of
       None \<Rightarrow> content_of t signature_name = content_of d signature_name
     | Some g \<Rightarrow> \<exists>kb sk b. key_of (sg_private_key g) = Some kb \<and> sc_load_private c kb = Inr (Some sk) \<and>
         content_of t manifest_name = Some b \<and>
         content_of t signature_name = Some (json_line (signature_document c sk (sg_key_id g) b))"
proof -
  obtain spec_sha d1 d2 signed d3 where r: "write_documents s runtime spec_sha now d = (Ret (), d1)"
      "write_manifest s signing now' d1 = (Ret (), d2)" "sign_if c key_of signing d2 = (Ret signed, d3)"
      "write_sums ([evidence_name, environment_name, events_name, manifest_name] @ signed) d3 = (Ret (), t)"
    using assms(1,3)
    by (auto simp: export_session_def bind_p_Ret_iff then_p_Ret_iff lift_p_Ret Let_def split: option.splits)
  note p1 = write_documents_Ret [OF r(1) assms(2)]
  obtain ev env log where p2: "content_of d1 evidence_name = Some ev" "content_of d1 environment_name = Some env"
    "content_of d1 events_name = Some log" "plain_files d2"
    "\<And>n. content_of d2 n = (if n = manifest_name then Some (json_line (manifest_document s signing now'
        [(evidence_name, artifact_meta ev), (environment_name, artifact_meta env), (events_name, artifact_meta log)]))
      else content_of d1 n)"
    using write_manifest_Ret [OF r(2) p1(1)] by blast
  have p3: "plain_files d3 \<and> (\<forall>n. n \<notin> {signature_tmp, signature_name} \<longrightarrow> content_of d3 n = content_of d2 n) \<and>
    (case signing of
       None \<Rightarrow> content_of d3 signature_name = content_of d2 signature_name
     | Some g \<Rightarrow> \<exists>kb sk b. key_of (sg_private_key g) = Some kb \<and> sc_load_private c kb = Inr (Some sk) \<and>
         content_of d2 manifest_name = Some b \<and>
         content_of d3 signature_name = Some (json_line (signature_document c sk (sg_key_id g) b)))"
  proof (cases signing)
    case None
    then show ?thesis using r(3) p2(4) by (simp add: sign_if_def)
  next
    case (Some g)
    then obtain p where "sign_manifest c (key_of (sg_private_key g)) (sg_key_id g) d2 = (Ret p, d3)"
      using r(3) by (auto simp: sign_if_def bind_p_Ret_iff)
    then obtain b kb sk where q: "content_of d2 manifest_name = Some b" "key_of (sg_private_key g) = Some kb"
      "sc_load_private c kb = Inr (Some sk)" "sg_key_id g \<noteq> []" "p = signature_name" "plain_files d3"
      "\<forall>n. n \<noteq> signature_tmp \<longrightarrow> content_of d3 n =
         (if n = signature_name then Some (json_line (signature_document c sk (sg_key_id g) b)) else content_of d2 n)"
      by (rule sign_manifest_Ret [OF _ p2(4)])
    have "signature_name \<noteq> signature_tmp" by (simp add: file_names)
    with q show ?thesis unfolding Some by simp
  qed
  note p4 = write_sums_Ret [OF r(4) conjunct1 [OF p3]]
  have keep: "content_of t n = content_of d2 n" if "n \<notin> {signature_tmp, signature_name, sums_name}" for n
    using that p3 p4(2) by auto
  have kept: "content_of t evidence_name = content_of d2 evidence_name" "content_of t environment_name = content_of d2 environment_name"
    "content_of t events_name = content_of d2 events_name" "content_of t manifest_name = content_of d2 manifest_name"
    by (rule keep, simp add: file_names)+
  have old: "content_of d1 events_name = content_of d events_name" "content_of d1 signature_name = content_of d signature_name"
    by (rule p1(2), simp add: file_names)+
  have sig: "content_of t signature_name = content_of d3 signature_name"
    by (rule p4(2)) (simp add: file_names)
  have new: "content_of d2 evidence_name = Some ev" "content_of d2 environment_name = Some env" "content_of d2 events_name = Some log"
    "content_of d2 signature_name = content_of d1 signature_name"
    unfolding p2(5) by (simp_all add: file_names p2(1-3) [unfolded file_names])
  show thesis
  proof (rule that)
    show "plain_files t" by (rule p4(1))
    show "content_of d events_name = Some log" using old p2(3) by simp
    show "content_of t evidence_name = Some ev" "content_of t environment_name = Some env" "content_of t events_name = Some log"
      by (simp_all only: kept new)
    show "content_of t manifest_name = Some (json_line (manifest_document s signing now'
       [(evidence_name, artifact_meta ev), (environment_name, artifact_meta env), (events_name, artifact_meta log)]))"
      by (simp only: kept p2(5) simp_thms if_True)
    show "case signing of
       None \<Rightarrow> content_of t signature_name = content_of d signature_name
     | Some g \<Rightarrow> \<exists>kb sk b. key_of (sg_private_key g) = Some kb \<and> sc_load_private c kb = Inr (Some sk) \<and>
         content_of t manifest_name = Some b \<and>
         content_of t signature_name = Some (json_line (signature_document c sk (sg_key_id g) b))"
      using conjunct2 [OF conjunct2 [OF p3]] by (simp only: sig kept new old)
  qed
qed

section \<open>Properties\<close>

lemma artifact_meta_norm [simp]: "json_norm (artifact_meta b) = artifact_meta b" "json_ok (artifact_meta b)"
  by (simp_all add: artifact_meta_def)

lemma verify_artifact_meta:
  assumes "plain_files d" "content_of d n = Some b" "artifact_name_ok n"
  shows "verify_artifact d (n, artifact_meta b) = Inr n"
  using assms by (simp add: verify_artifact_def artifact_meta_def plain_regular pget_def dir_get_def)

lemma manifest_document_ok:
  assumes "pget (ls_spec s) ''id'' = PStr lab_id" "json_ok (PDict artifacts)"
  obtains m where "manifest_document s signing now artifacts = PDict m" "json_ok (PDict m)"
    "pget m ''schema'' = PStr ''softcloud.lab-evidence-manifest/v1''" "pget m ''artifacts'' = PDict artifacts"
  using assms by (cases signing) (auto simp: manifest_document_def pget_def dir_get_def intro!: that)

text \<open>
  C4. What a session exports, the verifier accepts: the bundle's manifest is read back,
  every artifact has the digest and the size the manifest states, and where the session
  signs, the signature verifies, with the embedded key as well as with the signing key's
  public key as the trusted one.
\<close>

theorem exported_bundle_verifies:
  assumes "sound_scheme c" "plain_files (ls_dir s)" "pget (ls_spec s) ''id'' = PStr lab_id"
    and "export_evidence c find_key key_of lab_bytes runtime now now' s = (Ret reply, t)"
    and "get_signing_config find_key (ls_spec s) = Inr signing"
    and "signing = None \<Longrightarrow> content_of (ls_dir s) signature_name = None \<and> trusted = None"
    and "\<And>g kb sk. signing = Some g \<Longrightarrow> key_of (sg_private_key g) = Some kb \<Longrightarrow> sc_load_private c kb = Inr (Some sk) \<Longrightarrow>
      trusted = None \<or> trusted = Some (Some (sc_pem c (sc_public c sk)))"
  shows "verify_bundle c False True trusted (ls_dir t) =
    Inr \<lparr>vr_artifacts = [''environment.json'', ''events.jsonl'', ''evidence.json''],
         vr_signature_verified = (signing \<noteq> None),
         vr_key_id = (case signing of None \<Rightarrow> PNone | Some g \<Rightarrow> PStr (sg_key_id g)),
         vr_trusted_key_enforced = (trusted \<noteq> None)\<rparr>"
proof -
  let ?d = "ls_dir t"
  have run: "export_session c find_key key_of lab_bytes runtime now now' s (ls_dir s) = (Ret reply, ?d)"
    using assms(4) by (auto simp: export_evidence_def split: prod.splits)
  obtain ev env log where files: "plain_files ?d" "content_of ?d evidence_name = Some ev"
      "content_of ?d environment_name = Some env" "content_of ?d events_name = Some log"
      "content_of ?d manifest_name = Some (json_line (manifest_document s signing now'
         [(evidence_name, artifact_meta ev), (environment_name, artifact_meta env), (events_name, artifact_meta log)]))"
    and sig: "case signing of
       None \<Rightarrow> content_of ?d signature_name = content_of (ls_dir s) signature_name
     | Some g \<Rightarrow> \<exists>kb sk b. key_of (sg_private_key g) = Some kb \<and> sc_load_private c kb = Inr (Some sk) \<and>
         content_of ?d manifest_name = Some b \<and>
         content_of ?d signature_name = Some (json_line (signature_document c sk (sg_key_id g) b))"
    by (rule export_session_Ret [OF run assms(2,5)])
  let ?artifacts = "[(evidence_name, artifact_meta ev), (environment_name, artifact_meta env), (events_name, artifact_meta log)]"
  have ok: "json_ok (PDict ?artifacts)" by (simp add: file_names)
  obtain m where m: "manifest_document s signing now' ?artifacts = PDict m" "json_ok (PDict m)"
      "pget m ''schema'' = PStr ''softcloud.lab-evidence-manifest/v1''" "pget m ''artifacts'' = PDict ?artifacts"
    by (rule manifest_document_ok [OF assms(3) ok])
  obtain m' where m': "json_norm (PDict m) = PDict m'" "\<And>k. pget m' k = json_norm (pget m k)"
    using norm_fields [OF m(2)] by blast
  let ?sorted = "[(environment_name, artifact_meta env), (events_name, artifact_meta log), (evidence_name, artifact_meta ev)]"
  have sorted: "json_norm (PDict ?artifacts) = PDict ?sorted"
    by (simp add: file_names)
  have "read_json ''Invalid manifest.json'' (json_line (PDict m)) = Inr (PDict m')"
    using read_json_line [OF m(2)] m'(1) by simp
  then have "manifest_artifacts ?d = Inr ?sorted"
    using m'(2) [of "''schema''"] m'(2) [of "''artifacts''"] sorted m(3,4)
    by (simp add: manifest_artifacts_def plain_regular [OF files(1)] files(5) m(1) del: json_norm.simps(3))
  moreover have "verify_artifacts ?d ?sorted = Inr (map fst ?sorted)"
    by (rule verify_artifacts_all)
      (use files in \<open>auto simp: verify_artifact_meta artifact_name_ok_def file_names\<close>)
  moreover have "\<exists>signature. verify_optional_signature c trusted ?d = Inr signature \<and> (signature \<noteq> None) = (signing \<noteq> None) \<and>
      (case signature of None \<Rightarrow> PNone | Some doc \<Rightarrow> if doc = [] then PNone else pget doc ''key_id'') =
      (case signing of None \<Rightarrow> PNone | Some g \<Rightarrow> PStr (sg_key_id g))"
  proof (cases signing)
    case None
    then show ?thesis
      using sig assms(6) by (simp add: verify_optional_signature_def plain_not_link [OF files(1)])
  next
    case (Some g)
    then obtain kb sk b where k: "key_of (sg_private_key g) = Some kb" "sc_load_private c kb = Inr (Some sk)"
        "content_of ?d manifest_name = Some b"
        "content_of ?d signature_name = Some (json_line (signature_document c sk (sg_key_id g) b))"
      using sig by auto
    from signed_manifest_verifies [OF assms(1) files(1) k(3,4) assms(7) [OF Some k(1,2)]]
    obtain doc where "verify_manifest_signature c trusted ?d = Inr doc" "doc \<noteq> []" "pget doc ''key_id'' = PStr (sg_key_id g)" by blast
    with k(4) show ?thesis by (simp add: Some verify_optional_signature_def plain_not_link [OF files(1)])
  qed
  ultimately show ?thesis by (auto simp: verify_bundle_def file_names)
qed

lemma artifact_entry_run: "content_of d n = Some b \<Longrightarrow> artifact_entry n d = (Ret (n, artifact_meta b), d)"
  by (simp add: artifact_entry_Ret)

lemma sum_lines_run: "list_all (\<lambda>n. content_of d n \<noteq> None) ns \<Longrightarrow> \<exists>xs. map_p sum_line ns d = (Ret xs, d)"
  by (induction ns) (auto simp: sum_line_def bind_p_def read_file_def)

text \<open>An export without a signature always returns, where the lab file holds what JSON can write.\<close>

lemma unsigned_export_returns:
  assumes "plain_files (ls_dir s)" "content_of (ls_dir s) events_name = Some log"
    and "get_signing_config find_key (ls_spec s) = Inr None" "serialisable (environment_document s runtime)"
  shows "\<exists>reply t. export_evidence c find_key key_of (Some lab) runtime now now' s = (Ret reply, t)"
proof -
  obtain d1 where d1: "write_documents s runtime (hexdigest lab) now (ls_dir s) = (Ret (), d1)" "plain_files d1"
      "content_of d1 evidence_name \<noteq> None" "content_of d1 environment_name \<noteq> None" "content_of d1 events_name = Some log"
    using assms(1,2,4)
    by (auto simp: write_documents_def json_bytes_def dumps_def then_p_def bind_p_def lift_p_def plain_write content_put file_names)
  then obtain ev env where e: "content_of d1 evidence_name = Some ev" "content_of d1 environment_name = Some env" by auto
  obtain d2 where d2: "write_manifest s None now' d1 = (Ret (), d2)" "plain_files d2"
      "list_all (\<lambda>n. content_of d2 n \<noteq> None) [evidence_name, environment_name, events_name, manifest_name]"
    using d1(2,5) e by (auto simp: write_manifest_def bind_p_def artifact_entry_run plain_write content_put)
  then have "list_all (\<lambda>n. content_of d2 n \<noteq> None) (sort [evidence_name, environment_name, events_name, manifest_name])"
    by (auto simp: list_all_iff)
  from sum_lines_run [OF this] obtain xs where "map_p sum_line (sort [evidence_name, environment_name, events_name, manifest_name]) d2 = (Ret xs, d2)"
    by blast
  then obtain d3 where "write_sums [evidence_name, environment_name, events_name, manifest_name] d2 = (Ret (), d3)"
    using d2(2) by (simp only: write_sums_def bind_p_step plain_write)
  with d1(1) d2(1) assms(3) show ?thesis
    by (simp add: export_evidence_def export_session_def bind_p_def then_p_def lift_p_def sign_if_def Let_def del: sort_key_simps)
qed

definition example_scheme :: "(unit, unit) signature_scheme" where
  "example_scheme = \<lparr>sc_load_private = \<lambda>_. Inr (Some ()), sc_load_public = \<lambda>_. Inr (Some ()), sc_public = \<lambda>_. (), sc_pem = \<lambda>_. ''pem'',
     sc_sign = \<lambda>_ _. [1], sc_verify = \<lambda>_ _ _. Inr ()\<rparr>"

theorem exported_bundle_verifies_witness:
  "\<exists>reply t. export_evidence example_scheme (\<lambda>_. KeyUnavailable []) (\<lambda>_. None) (Some ''lab'') PNone ''t1'' ''t2'' example_session = (Ret reply, t) \<and>
    verify_bundle example_scheme False True None (ls_dir t) =
    Inr \<lparr>vr_artifacts = [''environment.json'', ''events.jsonl'', ''evidence.json''], vr_signature_verified = False,
         vr_key_id = PNone, vr_trusted_key_enforced = False\<rparr>"
proof -
  have plain: "plain_files (ls_dir example_session)" and log: "content_of (ls_dir example_session) events_name = Some []"
    by (auto simp: plain_files_def example_session_def dir_get_def content_of_def split: if_splits)
  have config: "get_signing_config (\<lambda>_. KeyUnavailable []) (ls_spec example_session) = Inr None"
    by (simp add: get_signing_config_def example_session_def example_spec_def pget_default_def dir_get_def)
  have "serialisable (environment_document example_session PNone)"
    by (simp add: environment_document_def example_session_def example_spec_def pget_default_def dir_get_def)
  from unsigned_export_returns [OF plain log config this] obtain reply t where
    run: "export_evidence example_scheme (\<lambda>_. KeyUnavailable []) (\<lambda>_. None) (Some ''lab'') PNone ''t1'' ''t2'' example_session = (Ret reply, t)"
    by blast
  have "sound_scheme example_scheme" by (simp add: sound_scheme_def example_scheme_def)
  moreover have "pget (ls_spec example_session) ''id'' = PStr ''lab-1''"
    by (simp add: example_session_def example_spec_def pget_def dir_get_def)
  moreover have "content_of (ls_dir example_session) signature_name = None"
    by (simp add: example_session_def content_of_def dir_get_def file_names)
  ultimately have "verify_bundle example_scheme False True None (ls_dir t) =
    Inr \<lparr>vr_artifacts = [''environment.json'', ''events.jsonl'', ''evidence.json''], vr_signature_verified = ((None :: signing_config option) \<noteq> None),
         vr_key_id = (case (None :: signing_config option) of None \<Rightarrow> PNone | Some g \<Rightarrow> PStr (sg_key_id g)),
         vr_trusted_key_enforced = ((None :: string option option) \<noteq> None)\<rparr>"
    by (intro exported_bundle_verifies [OF _ plain _ run config]) auto
  with run show ?thesis by auto
qed

lemma verify_artifacts_Inr:
  "verify_artifacts d xs = Inr names \<Longrightarrow> names = map fst xs \<and> (\<forall>x \<in> set xs. verify_artifact d x = Inr (fst x))"
proof (induction xs arbitrary: names)
  case (Cons x xs)
  then obtain n ns where n: "verify_artifact d x = Inr n" "verify_artifacts d xs = Inr ns" "names = n # ns"
    by (auto simp: map_sum_Inr_iff split: sum.splits)
  moreover from n(1) have "n = fst x"
    by (auto simp: verify_artifact_def split: prod.splits if_splits pyval.splits option.splits)
  ultimately show ?case using Cons.IH by auto
qed simp

lemma verify_artifact_Inr:
  "verify_artifact d (n, meta) = Inr n' \<Longrightarrow>
     \<exists>m b. meta = PDict m \<and> content_of d n = Some b \<and> pget m ''sha256'' = PStr (hexdigest b)"
  by (auto simp: verify_artifact_def regular_bytes_def split: if_splits pyval.splits option.splits)

lemma verify_bundle_Inr:
  assumes "verify_bundle c link directory trusted d = Inr r"
  obtains artifacts signature where "manifest_artifacts d = Inr artifacts" "vr_artifacts r = sort (map fst artifacts)"
    "\<forall>x \<in> set artifacts. verify_artifact d x = Inr (fst x)" "verify_optional_signature c trusted d = Inr signature"
  using assms
  by (auto simp: verify_bundle_def split: if_splits sum.splits dest!: verify_artifacts_Inr)

lemma trusted_signature:
  assumes "verify_optional_signature c (Some key_bytes) d = Inr signature"
  shows "\<exists>key pk manifest sig. key_bytes = Some key \<and> sc_load_public c key = Inr (Some pk) \<and> content_of d manifest_name = Some manifest \<and>
    sc_verify c pk sig manifest = Inr ()"
proof -
  obtain doc where "verify_manifest_signature c (Some key_bytes) d = Inr doc"
    using assms by (auto simp: verify_optional_signature_def map_sum_Inr_iff split: if_splits)
  then obtain manifest document pk where m: "regular_bytes d manifest_name = Some manifest"
      "signature_key c (Some key_bytes) document = Inr pk" "check_signature c pk document manifest = Inr doc"
    by (auto simp: verify_manifest_signature_def split: option.splits sum.splits pyval.splits if_splits)
  then show ?thesis
    by (auto simp: signature_key_def load_public_key_def check_signature_def regular_bytes_def
        split: option.splits sum.splits pyval.splits if_splits)
qed


definition example_manifest :: pyval where
  "example_manifest = PDict [(''artifacts'', PDict [(''x'', artifact_meta ''data'')]),
     (''schema'', PStr ''softcloud.lab-evidence-manifest/v1'')]"

definition example_bundle :: session_files where
  "example_bundle = [(''x'', Regular ''data''), (manifest_name, Regular (json_line example_manifest)),
     (signature_name, Regular (json_line (signature_document example_scheme () ''k'' (json_line example_manifest))))]"

lemma example_bundle_accepted: "\<exists>r. verify_bundle example_scheme False True (Some (Some ''pem'')) example_bundle = Inr r"
proof -
  have plain: "plain_files example_bundle"
    by (auto simp: plain_files_def example_bundle_def dir_get_def split: if_splits)
  have files: "content_of example_bundle manifest_name = Some (json_line example_manifest)" "content_of example_bundle ''x'' = Some ''data''"
    "content_of example_bundle signature_name =
       Some (json_line (signature_document example_scheme () ''k'' (json_line example_manifest)))"
    by (simp_all add: example_bundle_def content_of_def dir_get_def file_names)
  have norm: "json_ok example_manifest" "json_norm example_manifest = example_manifest"
    by (simp_all add: example_manifest_def)
  have "manifest_artifacts example_bundle = Inr [(''x'', artifact_meta ''data'')]"
    using read_json_line [OF norm(1)]
    by (simp add: manifest_artifacts_def plain_regular [OF plain] files norm(2))
      (simp add: example_manifest_def pget_def dir_get_def)
  moreover have "verify_artifacts example_bundle [(''x'', artifact_meta ''data'')] = Inr [''x'']"
    using verify_artifact_meta [OF plain files(2)] by (simp add: artifact_name_ok_def)
  moreover have "sound_scheme example_scheme" by (simp add: sound_scheme_def example_scheme_def)
  then obtain doc where "verify_manifest_signature example_scheme (Some (Some ''pem'')) example_bundle = Inr doc"
    using signed_manifest_verifies [OF _ plain files(1,3), of "Some (Some ''pem'')"] by (auto simp: example_scheme_def)
  then have "verify_optional_signature example_scheme (Some (Some ''pem'')) example_bundle = Inr (Some doc)"
    by (simp add: verify_optional_signature_def plain_not_link [OF plain] files)
  ultimately show ?thesis by (simp add: verify_bundle_def)
qed


end
