(* ===== verification/Evidence_Http.thy ===== *)
theory Evidence_Http
  imports Evidence_Export
begin

text \<open>
  handlers.py: the three endpoints of the Jupyter extension. The body of a request arrives
  parsed, \<open>PNone\<close> where it is empty. \<open>HttpError\<close> is a \<open>web.HTTPError\<close>; any other exception
  leaves the handler and becomes the server's error 500.
\<close>

datatype http_reply = Reply nat pyval | HttpError nat string

definition get_state :: "(string \<Rightarrow> key_path) \<Rightarrow> pyval \<Rightarrow> (lab_service, http_reply) prog" where
  "get_state find_key runtime =
     bind_p (bind_p (gets_p (lab_state find_key runtime)) lift_p) (\<lambda>state. return_p (Reply 200 state))"

text \<open>The \<open>except\<close> clauses, in their order.\<close>

definition event_error :: "exn \<Rightarrow> (lab_service, http_reply) prog" where
  "event_error e =
     (if exn_kind e = EvidencePayloadTooLarge then return_p (HttpError 413 (exn_msg e))
      else if exn_kind e = EvidenceEventLimitReached then return_p (HttpError 429 (exn_msg e))
      else if is_value_error (exn_kind e) then return_p (HttpError 400 (exn_msg e))
      else throw_p e)"

definition accept_event ::
    "(string \<Rightarrow> key_path) \<Rightarrow> pyval \<Rightarrow> append_answer \<Rightarrow> string \<Rightarrow> string \<Rightarrow> pyval \<Rightarrow> (lab_service, http_reply) prog" where
  "accept_event find_key runtime io now kind payload =
     bind_p (catch_p (bind_p (record_client_event io now kind payload) (\<lambda>event. return_p (Inr event)))
               (\<lambda>e. bind_p (event_error e) (\<lambda>r. return_p (Inl r)))) (\<lambda>outcome.
       case outcome of
         Inl reply \<Rightarrow> return_p reply
       | Inr event \<Rightarrow>
           bind_p (bind_p (gets_p (lab_state find_key runtime)) lift_p) (\<lambda>state.
             return_p (Reply 201 (PDict [(''accepted'', PBool True), (''sequence'', PInt (int (ev_sequence event))),
               (''state'', state)]))))"

definition post_event ::
    "(string \<Rightarrow> key_path) \<Rightarrow> pyval \<Rightarrow> append_answer \<Rightarrow> string \<Rightarrow> pyval \<Rightarrow> (lab_service, http_reply) prog" where
  "post_event find_key runtime io now body =
     (case body of
        PDict document \<Rightarrow>
          (case pget document ''kind'' of
             PStr kind \<Rightarrow>
               (if kind = [] then return_p (HttpError 400 ''Event kind is required'')
                else case pget_default document ''payload'' (PDict []) of
                  PDict payload \<Rightarrow> accept_event find_key runtime io now kind (PDict payload)
                | _ \<Rightarrow> return_p (HttpError 400 ''Event payload must be an object''))
           | _ \<Rightarrow> return_p (HttpError 400 ''Event kind is required''))
      | _ \<Rightarrow> return_p (HttpError 400 ''JSON object required''))"

definition post_export where
  "post_export c find_key key_of lab_bytes runtime now now' =
     bind_p (export_evidence c find_key key_of lab_bytes runtime now now') (\<lambda>v. return_p (Reply 200 v))"

lemma append_log_Raise: "append_log io fsync line d = (Raise e, d') \<Longrightarrow> exn_kind e = OSError"
  by (auto simp: append_log_def append_bytes_def then_p_Raise_iff write_through_def
      split: append_answer.splits option.splits bundle_file.splits if_splits)

lemma record_client_event_Raise:
  assumes "record_client_event io now kind payload s = (Raise e, t)" "exn_kind e \<noteq> OSError"
  shows "t = s"
proof -
  show ?thesis
  proof (cases "kind \<in> set client_event_kinds")
    case True
    then have "record_event io now ''jupyterlab-observer'' kind payload s = (Raise e, t)"
      using assms(1) by (simp add: record_client_event_def)
    then show ?thesis
      using append_log_Raise assms(2) by (cases rule: record_event_cases [of io now "''jupyterlab-observer''" kind payload s]) auto
  qed (use assms(1) in \<open>simp add: record_client_event_def\<close>)
qed

lemma safe_payload_Inl: "safe_payload limit kind payload = Inl e \<Longrightarrow> exn_kind e \<in> {ValueError, EvidencePayloadTooLarge}"
  by (auto simp: safe_payload_def Let_def too_large_payload_def minimize_persisted_payload_def minimize_cell_def cell_source_def
      split: pyval.splits if_splits sum.splits)

lemma record_client_event_kind:
  assumes "record_client_event io now kind payload s = (Raise e, t)"
  shows "exn_kind e \<in> {ValueError, EvidencePayloadTooLarge, EvidenceEventLimitReached, OSError}"
proof -
  show ?thesis
    using assms
    by (auto simp: record_client_event_def record_event_def Let_def split: if_splits sum.splits prod.splits res.splits
        dest!: safe_payload_Inl append_log_Raise)
qed

lemma record_client_event_Ret:
  assumes "record_client_event io now kind payload s = (Ret e, t)"
  shows "ls_events t = ls_events s @ [e] \<and> ev_sequence e = length (ls_events s) + 1"
proof -
  have "record_event io now ''jupyterlab-observer'' kind payload s = (Ret e, t)"
    using assms by (auto simp: record_client_event_def split: if_splits)
  then show ?thesis
    by (cases rule: record_event_cases [of io now "''jupyterlab-observer''" kind payload s]) (auto simp: new_event_def)
qed

lemma record_event_not_Stuck: "record_event io now source kind payload s \<noteq> (Stuck, t)"
  by (cases rule: record_event_cases [of io now source kind payload s]) auto


end
