(* ===== verification/Bench_Stats.thy ===== *)
theory Bench_Stats
  imports Json Complex_Main "HOL-Library.Multiset"
begin

text \<open>
  benchmark.py, the figures: the summary of a list of durations and the summaries of the
  results of a benchmark. Durations are numbers of ten-thousandths of a second, the unit the
  code rounds every duration to. The rounding itself, \<open>round(x, 4)\<close>, is a parameter \<open>rnd\<close>: how
  a tie is decided depends on the binary representation of the float; what the properties use
  of it is that it is monotone and leaves whole numbers of ten-thousandths alone.
\<close>

section \<open>Summaries of durations\<close>

record metric_summary =
  ms_count :: nat
  ms_mean :: int
  ms_median :: int
  ms_min :: int
  ms_max :: int
  ms_std_dev :: int
  ms_p95 :: int

definition empty_summary :: metric_summary where
  "empty_summary = \<lparr>ms_count = 0, ms_mean = 0, ms_median = 0, ms_min = 0, ms_max = 0, ms_std_dev = 0, ms_p95 = 0\<rparr>"

definition fmean :: "int list \<Rightarrow> real" where
  "fmean xs = real_of_int (sum_list xs) / real (length xs)"

text \<open>\<open>statistics.median\<close> and \<open>statistics.stdev\<close>, of a sorted list.\<close>

definition median :: "int list \<Rightarrow> real" where
  "median xs =
     (let n = length xs
      in if n mod 2 = 1 then real_of_int (xs ! (n div 2))
         else (real_of_int (xs ! (n div 2 - 1)) + real_of_int (xs ! (n div 2))) / 2)"

definition stdev :: "int list \<Rightarrow> real" where
  "stdev xs = sqrt (sum_list (map (\<lambda>x. (real_of_int x - fmean xs)\<^sup>2) xs) / (real (length xs) - 1))"

text \<open>The 95th percentile: the rank \<open>0.95 * (n - 1)\<close> as whole number and twentieths.\<close>

definition p95 :: "int list \<Rightarrow> real" where
  "p95 xs =
     (let n = length xs; r = 19 * (n - 1); lower = r div 20; upper = (r + 19) div 20; weight = real (r mod 20) / 20
      in real_of_int (xs ! lower) * (1 - weight) + real_of_int (xs ! upper) * weight)"

definition compute_metric_summary :: "(real \<Rightarrow> int) \<Rightarrow> int list \<Rightarrow> metric_summary" where
  "compute_metric_summary rnd values =
     (if values = [] then empty_summary
      else let xs = sort values; n = length xs
        in \<lparr>ms_count = n, ms_mean = rnd (fmean xs), ms_median = rnd (median xs), ms_min = rnd (real_of_int (xs ! 0)),
            ms_max = rnd (real_of_int (xs ! (n - 1))), ms_std_dev = rnd (if n > 1 then stdev xs else 0),
            ms_p95 = rnd (if n = 1 then real_of_int (xs ! 0) else p95 xs)\<rparr>)"

section \<open>Summaries of results\<close>

record iteration_result =
  ir_alias :: string
  ir_display :: string
  ir_iteration :: int
  ir_warmup :: bool
  ir_mode :: string
  ir_create :: int
  ir_ws :: int
  ir_first :: int
  ir_spinup :: int
  ir_warm :: int
  ir_destroy :: int
  ir_lifecycle :: int
  ir_success :: bool
  ir_error :: "string option"
  ir_kernel :: pyval
  ir_meta :: pyval

record runtime_summary =
  rs_alias :: string
  rs_display :: string
  rs_mode :: string
  rs_total :: nat
  rs_successful :: nat
  rs_failed :: nat
  rs_metrics :: "(string \<times> metric_summary) list"
  rs_meta :: pyval

type_synonym group_key = "string \<times> string"

text \<open>\<open>grouped.setdefault(key, []).append(r)\<close> on a dict, which keeps the order of its keys.\<close>

fun append_to :: "group_key \<Rightarrow> iteration_result \<Rightarrow> (group_key \<times> iteration_result list) list \<Rightarrow> (group_key \<times> iteration_result list) list" where
  "append_to k r [] = [(k, [r])]"
| "append_to k r (g # gs) = (if fst g = k then (k, snd g @ [r]) # gs else g # append_to k r gs)"

definition group_results :: "iteration_result list \<Rightarrow> (group_key \<times> iteration_result list) list" where
  "group_results results =
     fold (\<lambda>r gs. if ir_warmup r then gs else append_to (ir_alias r, ir_mode r) r gs) results []"

definition metric_names :: "string \<Rightarrow> (string \<times> (iteration_result \<Rightarrow> int)) list" where
  "metric_names mode =
     [(''create_sec'', ir_create), (''destroy_sec'', ir_destroy), (''lifecycle_sec'', ir_lifecycle)] @
     (if mode = ''jupyter''
      then [(''ws_connect_sec'', ir_ws), (''first_exec_sec'', ir_first), (''spinup_sec'', ir_spinup), (''warm_exec_sec'', ir_warm)]
      else [])"

definition first_metadata :: "iteration_result list \<Rightarrow> pyval" where
  "first_metadata rs = (case filter (\<lambda>r. truthy (ir_meta r)) rs of [] \<Rightarrow> PDict [] | r # _ \<Rightarrow> ir_meta r)"

definition summarize_group :: "(real \<Rightarrow> int) \<Rightarrow> group_key \<times> iteration_result list \<Rightarrow> runtime_summary" where
  "summarize_group rnd g =
     (let rs = snd g; successful = filter ir_success rs
      in \<lparr>rs_alias = fst (fst g), rs_display = (case rs of [] \<Rightarrow> fst (fst g) | r # _ \<Rightarrow> ir_display r), rs_mode = snd (fst g),
          rs_total = length rs, rs_successful = length successful, rs_failed = length rs - length successful,
          rs_metrics = map (\<lambda>(n, f). (n, compute_metric_summary rnd (map f successful))) (metric_names (snd (fst g))),
          rs_meta = first_metadata successful\<rparr>)"

definition summarize_results :: "(real \<Rightarrow> int) \<Rightarrow> iteration_result list \<Rightarrow> runtime_summary list" where
  "summarize_results rnd results = map (summarize_group rnd) (group_results results)"

section \<open>The order of the figures\<close>

lemma sorted_nth_le: "sorted xs \<Longrightarrow> i \<le> j \<Longrightarrow> j < length xs \<Longrightarrow> real_of_int (xs ! i) \<le> real_of_int (xs ! j)" for xs :: "int list"
  by (simp add: sorted_nth_mono)

lemma mix_between:
  fixes w a b :: real
  assumes "0 \<le> w" "w \<le> 1" "a \<le> b"
  shows "a \<le> a * (1 - w) + b * w \<and> a * (1 - w) + b * w \<le> b"
proof -
  have "a * (1 - w) + b * w = a + (b - a) * w" "a * (1 - w) + b * w = b - (b - a) * (1 - w)"
    by (simp_all add: algebra_simps)
  moreover have "0 \<le> (b - a) * w" "0 \<le> (b - a) * (1 - w)" using assms by simp_all
  ultimately show ?thesis by linarith
qed

lemma p95_between:
  assumes "sorted xs" "2 \<le> length xs"
  defines "lower \<equiv> 19 * (length xs - 1) div 20" and "upper \<equiv> (19 * (length xs - 1) + 19) div 20"
  shows "real_of_int (xs ! lower) \<le> p95 xs \<and> p95 xs \<le> real_of_int (xs ! upper) \<and> lower \<le> upper \<and> upper < length xs"
proof -
  have ord: "lower \<le> upper" "upper < length xs" using assms(2) by (simp_all add: lower_def upper_def)
  have "real_of_int (xs ! lower) \<le> real_of_int (xs ! upper)" using assms(1) ord by (intro sorted_nth_le)
  then show ?thesis
    using mix_between [of "real (19 * (length xs - 1) mod 20) / 20"] ord
    by (simp add: p95_def Let_def lower_def upper_def)
qed

lemma median_between:
  assumes "sorted xs" "xs \<noteq> []"
  shows "real_of_int (xs ! 0) \<le> median xs \<and> median xs \<le> real_of_int (xs ! (length xs div 2))"
proof -
  have "length xs div 2 < length xs" using assms(2) by simp
  then have "real_of_int (xs ! (length xs div 2 - 1)) \<le> real_of_int (xs ! (length xs div 2))"
    "real_of_int (xs ! 0) \<le> real_of_int (xs ! (length xs div 2 - 1))" "real_of_int (xs ! 0) \<le> real_of_int (xs ! (length xs div 2))"
    using assms(1) by (simp_all only: of_int_le_iff) (auto intro: sorted_nth_mono)
  then show ?thesis by (auto simp: median_def Let_def)
qed

lemma median_le_p95:
  assumes "sorted xs" "2 \<le> length xs"
  shows "median xs \<le> p95 xs"
proof (cases "length xs = 2")
  case True
  then obtain a b where xs: "xs = [a, b]" by (auto simp: length_Suc_conv numeral_2_eq_2)
  then have "real_of_int a \<le> real_of_int b" using assms(1) by simp
  then show ?thesis by (simp add: xs median_def p95_def Let_def)
next
  case False
  then have "length xs div 2 \<le> 19 * (length xs - 1) div 20" using assms(2) by simp
  then have "real_of_int (xs ! (length xs div 2)) \<le> real_of_int (xs ! (19 * (length xs - 1) div 20))"
    using assms by (intro sorted_nth_le) auto
  moreover have "xs \<noteq> []" using assms(2) by auto
  ultimately show ?thesis using median_between [OF assms(1)] p95_between [OF assms] by fastforce
qed

lemma fmean_between:
  assumes "xs \<noteq> []" "\<And>x. x \<in> set xs \<Longrightarrow> a \<le> x \<and> x \<le> b"
  shows "real_of_int a \<le> fmean xs \<and> fmean xs \<le> real_of_int b"
proof -
  have "a * int (length xs) \<le> sum_list xs \<and> sum_list xs \<le> b * int (length xs)"
    using assms(2) by (induction xs) (auto simp: algebra_simps, force+)
  then have "real_of_int (a * int (length xs)) \<le> real_of_int (sum_list xs)" "real_of_int (sum_list xs) \<le> real_of_int (b * int (length xs))"
    by linarith+
  then show ?thesis using assms(1) by (simp add: fmean_def field_simps)
qed

definition good_rounding :: "(real \<Rightarrow> int) \<Rightarrow> bool" where
  "good_rounding rnd \<longleftrightarrow> mono rnd \<and> (\<forall>i. rnd (real_of_int i) = i)"

lemma good_rounding_round: "good_rounding round"
  unfolding good_rounding_def by (intro conjI allI monoI round_mono round_of_int)

section \<open>The groups\<close>

lemma append_to_keys: "fst ` set (append_to k r gs) = insert k (fst ` set gs)"
  by (induction gs) auto

lemma append_to_distinct: "distinct (map fst gs) \<Longrightarrow> distinct (map fst (append_to k r gs))"
proof (induction gs)
  case (Cons g gs)
  then show ?case using append_to_keys [of k r gs] by (auto simp flip: set_map)
qed simp

lemma append_to_mset: "mset (concat (map snd (append_to k r gs))) = add_mset r (mset (concat (map snd gs)))"
  by (induction gs) auto

definition group_ok :: "group_key \<times> iteration_result list \<Rightarrow> bool" where
  "group_ok g \<longleftrightarrow> snd g \<noteq> [] \<and> (\<forall>q \<in> set (snd g). (ir_alias q, ir_mode q) = fst g)"

lemma append_to_members:
  "list_all group_ok gs \<Longrightarrow> list_all group_ok (append_to (ir_alias r, ir_mode r) r gs)"
  by (induction gs) (auto simp: group_ok_def)

lemma group_results_spec:
  "distinct (map fst (group_results rs)) \<and>
   mset (concat (map snd (group_results rs))) = mset (filter (\<lambda>r. \<not> ir_warmup r) rs) \<and>
   list_all group_ok (group_results rs)"
proof (induction rs rule: rev_induct)
  case Nil
  then show ?case by (simp add: group_results_def)
next
  case (snoc r rs)
  have step: "group_results (rs @ [r]) =
      (if ir_warmup r then group_results rs else append_to (ir_alias r, ir_mode r) r (group_results rs))"
    by (simp add: group_results_def)
  show ?case
  proof (cases "ir_warmup r")
    case True
    with snoc step show ?thesis by simp
  next
    case False
    then have "group_results (rs @ [r]) = append_to (ir_alias r, ir_mode r) r (group_results rs)" using step by simp
    moreover have "list_all group_ok (append_to (ir_alias r, ir_mode r) r (group_results rs))"
      using snoc append_to_members by blast
    moreover have "distinct (map fst (append_to (ir_alias r, ir_mode r) r (group_results rs)))"
      using snoc append_to_distinct by blast
    moreover have "mset (concat (map snd (append_to (ir_alias r, ir_mode r) r (group_results rs)))) =
        mset (filter (\<lambda>r. \<not> ir_warmup r) (rs @ [r]))"
      using snoc False by (simp add: append_to_mset del: mset_filter)
    ultimately show ?thesis by simp
  qed
qed

section \<open>Properties\<close>

text \<open>
  C36. The figures of a summary are in order, minimum, median, 95th percentile, maximum, with the
  mean between the extremes; they depend on the durations only as a multiset, and the extremes
  are durations that were measured.
\<close>

theorem summary_in_order:
  assumes "good_rounding rnd" "values \<noteq> []"
  shows "let m = compute_metric_summary rnd values in
     ms_count m = length values \<and> ms_min m = Min (set values) \<and> ms_max m = Max (set values) \<and>
     ms_min m \<le> ms_median m \<and> ms_median m \<le> ms_p95 m \<and> ms_p95 m \<le> ms_max m \<and>
     ms_min m \<le> ms_mean m \<and> ms_mean m \<le> ms_max m \<and>
     (\<forall>other. mset other = mset values \<longrightarrow> compute_metric_summary rnd other = m)"
proof -
  define xs where "xs = sort values"
  have xs: "sorted xs" "xs \<noteq> []" "length xs = length values" "set xs = set values"
    unfolding xs_def using assms(2) by (simp_all only: sorted_sort length_sort set_sort) (metis length_0_conv length_sort)
  have mono: "a \<le> b \<Longrightarrow> rnd a \<le> rnd b" for a b using assms(1) unfolding good_rounding_def by (elim conjE monoD)
  have whole: "rnd (real_of_int i) = i" for i using assms(1) by (simp add: good_rounding_def)
  have last: "xs ! i \<le> xs ! (length xs - 1)" if "i < length xs" for i
    using that xs(1) by (intro sorted_nth_mono) auto
  have first: "xs ! 0 \<le> xs ! i" if "i < length xs" for i
    using that xs(1) by (intro sorted_nth_mono) auto
  have lo: "Min (set values) = xs ! 0"
    using xs(2) first unfolding xs(4) [symmetric] by (intro Min_eqI) (auto simp: in_set_conv_nth)
  have hi: "Max (set values) = xs ! (length xs - 1)"
    using xs(2) last unfolding xs(4) [symmetric] by (intro Max_eqI) (auto simp: in_set_conv_nth intro!: exI [of _ "length xs - 1"])
  have bounds: "x \<in> set xs \<Longrightarrow> xs ! 0 \<le> x \<and> x \<le> xs ! (length xs - 1)" for x
    using first last by (auto simp: in_set_conv_nth)
  have m: "compute_metric_summary rnd values =
      \<lparr>ms_count = length xs, ms_mean = rnd (fmean xs), ms_median = rnd (median xs), ms_min = xs ! 0,
       ms_max = xs ! (length xs - 1), ms_std_dev = rnd (if length xs > 1 then stdev xs else 0),
       ms_p95 = rnd (if length xs = 1 then real_of_int (xs ! 0) else p95 xs)\<rparr>"
    using assms(2) by (simp add: compute_metric_summary_def Let_def whole flip: xs_def)
  have mid: "xs ! 0 \<le> rnd (median xs)" "xs ! 0 \<le> rnd (fmean xs)" "rnd (fmean xs) \<le> xs ! (length xs - 1)"
    using median_between [OF xs(1,2)] fmean_between [OF xs(2) bounds] mono whole by metis+
  have high: "rnd (median xs) \<le> rnd (if length xs = 1 then real_of_int (xs ! 0) else p95 xs)"
    "rnd (if length xs = 1 then real_of_int (xs ! 0) else p95 xs) \<le> xs ! (length xs - 1)"
  proof -
    have "rnd (median xs) \<le> rnd (if length xs = 1 then real_of_int (xs ! 0) else p95 xs) \<and>
        rnd (if length xs = 1 then real_of_int (xs ! 0) else p95 xs) \<le> rnd (real_of_int (xs ! (length xs - 1)))"
    proof (cases "length xs = 1")
      case True
      then show ?thesis by (simp add: median_def)
    next
      case False
      then have two: "2 \<le> length xs" using xs(2) by (cases xs rule: list.exhaust) (auto simp: Suc_le_eq)
      have "p95 xs \<le> real_of_int (xs ! (length xs - 1))"
        using p95_between [OF xs(1) two] last [of "(19 * (length xs - 1) + 19) div 20"] by linarith
      then show ?thesis using False median_le_p95 [OF xs(1) two] by (simp add: mono)
    qed
    then show "rnd (median xs) \<le> rnd (if length xs = 1 then real_of_int (xs ! 0) else p95 xs)"
      "rnd (if length xs = 1 then real_of_int (xs ! 0) else p95 xs) \<le> xs ! (length xs - 1)"
      by (simp_all add: whole)
  qed
  have same: "compute_metric_summary rnd other = compute_metric_summary rnd values" if "mset other = mset values" for other
  proof -
    have "sort other = sort values" using that by (intro properties_for_sort) simp_all
    moreover have "other \<noteq> []" using that assms(2) by auto
    ultimately show ?thesis using assms(2) by (simp add: compute_metric_summary_def)
  qed
  show ?thesis
    unfolding Let_def using same mid high lo hi xs(3) by (simp add: m)
qed

theorem summary_in_order_witness:
  "ms_min (compute_metric_summary round [30000, 10000, 20000]) = 10000 \<and>
   ms_max (compute_metric_summary round [30000, 10000, 20000]) = 30000"
proof -
  let ?v = "[30000, 10000, 20000 :: int]"
  have "ms_min (compute_metric_summary round ?v) = Min (set ?v) \<and> ms_max (compute_metric_summary round ?v) = Max (set ?v)"
    using summary_in_order [OF good_rounding_round, of ?v] unfolding Let_def by blast
  then show ?thesis by simp
qed

text \<open>
  The summaries account for every result once: each has a key of its own, only results of
  that runtime and mode, as many successes and failures as it has runs, and all runs together
  are the results that are no warm-up.
\<close>

lemma summaries_account:
  "let ss = summarize_results rnd results in
     distinct (map (\<lambda>s. (rs_alias s, rs_mode s)) ss) \<and>
     sum_list (map rs_total ss) = length (filter (\<lambda>r. \<not> ir_warmup r) results) \<and>
     sum_list (map rs_failed ss) = length (filter (\<lambda>r. \<not> ir_warmup r \<and> \<not> ir_success r) results) \<and>
     list_all (\<lambda>s. rs_total s = rs_successful s + rs_failed s \<and> 0 < rs_total s) ss"
proof -
  note g = group_results_spec [of results]
  let ?gs = "group_results results"
  have keys: "map (\<lambda>s. (rs_alias s, rs_mode s)) (summarize_results rnd results) = map fst ?gs"
    by (simp add: summarize_results_def summarize_group_def Let_def)
  have total: "map rs_total (summarize_results rnd results) = map (length \<circ> snd) ?gs"
    by (simp add: summarize_results_def summarize_group_def Let_def)
  have failed: "map rs_failed (summarize_results rnd results) = map (length \<circ> filter (\<lambda>r. \<not> ir_success r) \<circ> snd) ?gs"
  proof -
    have "length rs - length (filter ir_success rs) = length (filter (\<lambda>r. \<not> ir_success r) rs)" for rs
      using sum_length_filter_compl [of ir_success rs] by simp
    note this [simp]
    show ?thesis by (simp add: summarize_results_def summarize_group_def Let_def)
  qed
  have sums: "sum_list (map (length \<circ> snd) gs) = length (concat (map snd gs))"
    "sum_list (map (length \<circ> filter P \<circ> snd) gs) = length (filter P (concat (map snd gs)))" for gs :: "(group_key \<times> iteration_result list) list" and P
    by (induction gs) auto
  have len: "length (concat (map snd ?gs)) = length (filter (\<lambda>r. \<not> ir_warmup r) results)"
    using g by (metis size_mset)
  have flen: "length (filter (\<lambda>r. \<not> ir_success r) (concat (map snd ?gs))) = length (filter (\<lambda>r. \<not> ir_warmup r \<and> \<not> ir_success r) results)"
  proof -
    have "mset (filter (\<lambda>r. \<not> ir_success r) (concat (map snd ?gs))) = filter_mset (\<lambda>r. \<not> ir_success r) (mset (concat (map snd ?gs)))"
      by (rule mset_filter)
    also have "\<dots> = filter_mset (\<lambda>r. \<not> ir_success r) (mset (filter (\<lambda>r. \<not> ir_warmup r) results))"
      using g by (simp only:)
    also have "\<dots> = mset (filter (\<lambda>r. \<not> ir_success r) (filter (\<lambda>r. \<not> ir_warmup r) results))"
      by (simp only: mset_filter)
    finally have "length (filter (\<lambda>r. \<not> ir_success r) (concat (map snd ?gs))) =
        length (filter (\<lambda>r. \<not> ir_success r) (filter (\<lambda>r. \<not> ir_warmup r) results))"
      by (rule mset_eq_length)
    moreover have "filter (\<lambda>r. \<not> ir_success r) (filter (\<lambda>r. \<not> ir_warmup r) results) =
        filter (\<lambda>r. \<not> ir_warmup r \<and> \<not> ir_success r) results"
      by simp
    ultimately have "length (filter (\<lambda>r. \<not> ir_success r) (concat (map snd ?gs))) =
        length (filter (\<lambda>r. \<not> ir_warmup r \<and> \<not> ir_success r) results)"
      by (simp only:)
    then show ?thesis by simp
  qed
  have "list_all (\<lambda>s. rs_total s = rs_successful s + rs_failed s \<and> 0 < rs_total s) (summarize_results rnd results)"
    using g by (auto simp: list_all_iff summarize_results_def summarize_group_def Let_def group_ok_def)
  then show ?thesis
    using g keys total failed sums len flen by (simp add: Let_def)
qed

end
