(* ===== verification/Bench_Report.thy ===== *)
theory Bench_Report
  imports Bench_Stats Json_Pretty
begin

text \<open>
  benchmark.py, the reports: the four formats, and the file a report is saved in. A duration is
  a number of ten-thousandths of a second; \<open>ms3\<close> is the rounding of \<open>f"{x:.3f}"\<close> to thousandths,
  whose ties depend on the float. \<open>show_value\<close> is \<open>str\<close> on a value that is no string. The
  metadata of a result is what the guest printed as JSON, so it need not be a dict.
\<close>

section \<open>Text\<close>

definition pad_right :: "nat \<Rightarrow> string \<Rightarrow> string" where
  "pad_right w s = s @ replicate (w - length s) (CHR '' '')"

definition center :: "nat \<Rightarrow> string \<Rightarrow> string" where
  "center w s = (let p = w - length s in replicate (p div 2) (CHR '' '') @ s @ replicate (p - p div 2) (CHR '' ''))"

definition zero_pad :: "nat \<Rightarrow> string \<Rightarrow> string" where
  "zero_pad w s = replicate (w - length s) (CHR ''0'') @ s"

text \<open>\<open>f"{x:.3f}"\<close> of a duration that is no less than 0.\<close>

definition fixed3 :: "(int \<Rightarrow> nat) \<Rightarrow> int \<Rightarrow> string" where
  "fixed3 ms3 x = nat_str (ms3 x div 1000) @ ''.'' @ zero_pad 3 (nat_str (ms3 x mod 1000))"

text \<open>\<open>str(x)\<close> of a duration: the four decimals without the zeros at their end, but for one.\<close>

definition duration_str :: "int \<Rightarrow> string" where
  "duration_str x =
     (let digits = rstrip_char (CHR ''0'') (zero_pad 4 (nat_str (nat x mod 10000)))
      in nat_str (nat x div 10000) @ ''.'' @ (if digits = [] then ''0'' else digits))"

definition str_of :: "(pyval \<Rightarrow> string) \<Rightarrow> pyval \<Rightarrow> string" where
  "str_of show_value v = (case v of PStr s \<Rightarrow> s | _ \<Rightarrow> show_value v)"

text \<open>\<open>meta.get(key, "")\<close>: only a dict has the method.\<close>

definition meta_get :: "pyval \<Rightarrow> string \<Rightarrow> exn + pyval" where
  "meta_get meta key =
     (case meta of PDict d \<Rightarrow> Inr (pget_default d key (PStr []))
      | _ \<Rightarrow> Inl (Exn AttributeError ''object has no attribute get''))"

definition meta_str :: "(pyval \<Rightarrow> string) \<Rightarrow> pyval \<Rightarrow> string \<Rightarrow> exn + string" where
  "meta_str show_value meta key = map_sum id (str_of show_value) (meta_get meta key)"

text \<open>\<open>f"{val:<16}"\<close> raises TypeError on a value whose class has no format of its own.\<close>

definition cell_text :: "(pyval \<Rightarrow> string) \<Rightarrow> pyval \<Rightarrow> exn + string" where
  "cell_text show_value v =
     (case v of PStr s \<Rightarrow> Inr s | PInt _ \<Rightarrow> Inr (show_value v) | PFloat _ \<Rightarrow> Inr (show_value v) | PBool b \<Rightarrow> Inr (if b then ''1'' else ''0'')
      | _ \<Rightarrow> Inl (Exn TypeError ''unsupported format string passed to __format__''))"

definition meta_cell :: "(pyval \<Rightarrow> string) \<Rightarrow> pyval \<Rightarrow> string \<Rightarrow> exn + string" where
  "meta_cell show_value meta key = (case meta_get meta key of Inl e \<Rightarrow> Inl e | Inr v \<Rightarrow> cell_text show_value v)"

fun all_ok :: "(exn + 'a) list \<Rightarrow> exn + 'a list" where
  "all_ok [] = Inr []"
| "all_ok (x # xs) = (case x of Inl e \<Rightarrow> Inl e | Inr v \<Rightarrow> map_sum id ((#) v) (all_ok xs))"

definition guest_platform :: "(pyval \<Rightarrow> string) \<Rightarrow> pyval \<Rightarrow> exn + string" where
  "guest_platform show_value meta =
     (case (meta_str show_value meta ''system'', meta_str show_value meta ''platform'') of
        (Inr a, Inr b) \<Rightarrow> Inr (a @ '' ('' @ b @ '')'')
      | (Inl e, _) \<Rightarrow> Inl e | (_, Inl e) \<Rightarrow> Inl e)"

definition summary_modes :: "runtime_summary list \<Rightarrow> string list" where
  "summary_modes ss = sort (remdups (map rs_mode ss))"

section \<open>The table\<close>

definition table_row :: "nat list \<Rightarrow> string list \<Rightarrow> string" where
  "table_row widths cells = join_with '' | '' (map2 pad_right widths cells) @ [CHR 0x0A]"

definition table_rule :: "nat list \<Rightarrow> string" where
  "table_rule widths = join_with ''-+-'' (map (\<lambda>w. replicate w (CHR ''-'')) widths) @ [CHR 0x0A]"

definition table_widths :: "nat list" where
  "table_widths = [24, 22, 6, 9, 9, 9, 9, 9, 9]"

definition table_phases :: "(string \<times> string) list" where
  "table_phases =
     [(''create_sec'', ''Create (POST/alloc)''), (''ws_connect_sec'', ''WebSocket Connect''),
      (''first_exec_sec'', ''First Code Probe''), (''spinup_sec'', ''Total Spin-Up''),
      (''warm_exec_sec'', ''Warm Code Exec''), (''destroy_sec'', ''Destroy (DELETE)''),
      (''lifecycle_sec'', ''Full Lifecycle'')]"

definition runs_text :: "runtime_summary \<Rightarrow> string" where
  "runs_text s = nat_str (rs_successful s) @ ''/'' @ nat_str (rs_total s)"

definition figures :: "metric_summary \<Rightarrow> int list" where
  "figures m = [ms_mean m, ms_median m, ms_min m, ms_max m, ms_std_dev m, ms_p95 m]"

definition present_phases :: "(string \<times> string) list \<Rightarrow> runtime_summary \<Rightarrow> (metric_summary \<times> string) list" where
  "present_phases phases s =
     concat (map (\<lambda>(k, label). case map_of (rs_metrics s) k of None \<Rightarrow> [] | Some m \<Rightarrow> [(m, label)]) phases)"

text \<open>Only the first row of a runtime has its name and its runs.\<close>

definition table_cells :: "(int \<Rightarrow> nat) \<Rightarrow> runtime_summary \<Rightarrow> nat \<times> metric_summary \<times> string \<Rightarrow> string list" where
  "table_cells ms3 s = (\<lambda>(i, m, label).
     [if i = 0 then rs_display s else [], label, if i = 0 then runs_text s else []] @
     map (\<lambda>x. if ms_count m = 0 then ''-'' else fixed3 ms3 x @ ''s'') (figures m))"

definition table_summary :: "(int \<Rightarrow> nat) \<Rightarrow> runtime_summary \<Rightarrow> string" where
  "table_summary ms3 s =
     concat (map (\<lambda>r. table_row table_widths (table_cells ms3 s r)) (enumerate 0 (present_phases table_phases s))) @
     table_rule table_widths"

definition table_mode :: "(int \<Rightarrow> nat) \<Rightarrow> runtime_summary list \<Rightarrow> string \<Rightarrow> string" where
  "table_mode ms3 ss mode =
     ''--- '' @ (if mode = ''jupyter'' then ''JUPYTER END-TO-END KERNEL RUNTIMES'' else ''DIRECT RUNTIME DAEMON (HYPERVISOR/ZFS)'') @
     '' ---'' @ [CHR 0x0A, CHR 0x0A] @
     table_row table_widths [''Runtime'', ''Phase Metric'', ''Runs'', ''Mean'', ''Median'', ''Min'', ''Max'', ''StdDev'', ''P95''] @
     table_rule table_widths @
     concat (map (table_summary ms3) (filter (\<lambda>s. rs_mode s = mode) ss)) @ [CHR 0x0A]"

definition guest_widths :: "nat list" where
  "guest_widths = [26, 16, 20, 16, 26]"

definition guest_row :: "(pyval \<Rightarrow> string) \<Rightarrow> runtime_summary \<Rightarrow> exn + string" where
  "guest_row show_value s =
     (if truthy (rs_meta s)
      then map_sum id (table_row guest_widths)
             (all_ok (Inr (rs_display s) # guest_platform show_value (rs_meta s) #
                map (meta_cell show_value (rs_meta s)) [''release'', ''python'', ''nodename'']))
      else Inr [])"

definition format_table :: "(int \<Rightarrow> nat) \<Rightarrow> (pyval \<Rightarrow> string) \<Rightarrow> runtime_summary list \<Rightarrow> exn + string" where
  "format_table ms3 show_value ss =
     (case all_ok (map (guest_row show_value) ss) of
        Inl e \<Rightarrow> Inl e
      | Inr rows \<Rightarrow> Inr (
          [CHR 0x0A] @ replicate 100 (CHR ''='') @ [CHR 0x0A] @
          center 100 ''FREEBSD LABORATORY RUNTIME BENCHMARK RESULTS'' @ [CHR 0x0A] @
          replicate 100 (CHR ''='') @ [CHR 0x0A, CHR 0x0A] @
          concat (map (table_mode ms3 ss) (summary_modes ss)) @
          ''--- GUEST ENVIRONMENT INTROSPECTION ---'' @ [CHR 0x0A, CHR 0x0A] @
          table_row guest_widths [''Runtime'', ''OS Platform'', ''Kernel Release'', ''Python Version'', ''Probe Node / Host''] @
          table_rule guest_widths @ concat rows @ table_rule guest_widths @ [CHR 0x0A]))"

section \<open>Markdown\<close>

definition md_phases :: "(string \<times> string) list" where
  "md_phases =
     [(''create_sec'', ''Create / Provision''), (''ws_connect_sec'', ''WebSocket Connect''),
      (''first_exec_sec'', ''First Code Probe''), (''spinup_sec'', ''**Total Spin-Up**''),
      (''warm_exec_sec'', ''Warm Execution''), (''destroy_sec'', ''**Destroy / Cleanup**''),
      (''lifecycle_sec'', ''**Full Lifecycle**'')]"

definition md_row :: "string list \<Rightarrow> string" where
  "md_row cells = ''| '' @ join_with '' | '' cells @ '' |'' @ [CHR 0x0A]"

definition md_cells :: "(int \<Rightarrow> nat) \<Rightarrow> runtime_summary \<Rightarrow> nat \<times> metric_summary \<times> string \<Rightarrow> string list" where
  "md_cells ms3 s = (\<lambda>(i, m, label).
     [if i = 0 then ''**'' @ rs_display s @ ''**'' else [], label, if i = 0 then runs_text s else []] @
     map (\<lambda>x. ''`'' @ fixed3 ms3 x @ ''s`'') (figures m))"

definition md_mode :: "(int \<Rightarrow> nat) \<Rightarrow> runtime_summary list \<Rightarrow> string \<Rightarrow> string" where
  "md_mode ms3 ss mode =
     ''## '' @ (if mode = ''jupyter'' then ''Jupyter End-to-End Kernel Runtimes'' else ''Direct Runtime Daemon'') @ [CHR 0x0A, CHR 0x0A] @
     md_row [''Runtime'', ''Metric Phase'', ''Runs'', ''Mean'', ''Median'', ''Min'', ''Max'', ''Std Dev'', ''P95''] @
     ''|---|---|---|---|---|---|---|---|---|'' @ [CHR 0x0A] @
     concat (map (\<lambda>s. concat (map (\<lambda>r. md_row (md_cells ms3 s r)) (enumerate 0 (present_phases md_phases s))))
       (filter (\<lambda>s. rs_mode s = mode) ss)) @ [CHR 0x0A]"

definition md_guest :: "(pyval \<Rightarrow> string) \<Rightarrow> runtime_summary \<Rightarrow> exn + string" where
  "md_guest show_value s =
     (if truthy (rs_meta s)
      then map_sum id (\<lambda>cells. md_row ((''**'' @ rs_display s @ ''**'') # hd cells # map (\<lambda>c. ''`'' @ c @ ''`'') (tl cells)))
             (all_ok (guest_platform show_value (rs_meta s) #
                map (meta_str show_value (rs_meta s)) [''release'', ''python'', ''nodename'']))
      else Inr [])"

definition format_markdown :: "(int \<Rightarrow> nat) \<Rightarrow> (pyval \<Rightarrow> string) \<Rightarrow> runtime_summary list \<Rightarrow> exn + string" where
  "format_markdown ms3 show_value ss =
     (case all_ok (map (md_guest show_value) ss) of
        Inl e \<Rightarrow> Inl e
      | Inr rows \<Rightarrow> Inr (
          ''# FreeBSD Laboratory Runtime Benchmark Report'' @ [CHR 0x0A, CHR 0x0A] @
          concat (map (md_mode ms3 ss) (summary_modes ss)) @
          ''## Guest Runtime Environment Details'' @ [CHR 0x0A, CHR 0x0A] @
          md_row [''Runtime'', ''OS Platform'', ''Kernel Release'', ''Python Version'', ''Hostname''] @
          ''|---|---|---|---|---|'' @ [CHR 0x0A] @ concat rows @ [CHR 0x0A]))"

section \<open>JSON\<close>

record bench_config =
  bc_mode :: string
  bc_runtimes :: "string list"
  bc_iterations :: int
  bc_warmup :: int
  bc_base_url :: string
  bc_token :: string
  bc_socket :: string
  bc_timeout :: string
  bc_format :: string
  bc_output :: "string option"
  bc_verbose :: bool
  bc_quiet :: bool

definition opt_value :: "string option \<Rightarrow> pyval" where
  "opt_value v = (case v of None \<Rightarrow> PNone | Some s \<Rightarrow> PStr s)"

definition config_dict :: "bench_config \<Rightarrow> pyval" where
  "config_dict c = PDict
     [(''mode'', PStr (bc_mode c)), (''runtimes'', PList (map PStr (bc_runtimes c))), (''iterations'', PInt (bc_iterations c)),
      (''warmup'', PInt (bc_warmup c)), (''base_url'', PStr (bc_base_url c)), (''token'', PStr (bc_token c)),
      (''socket_path'', PStr (bc_socket c)), (''timeout'', PFloat (bc_timeout c)), (''output_format'', PStr (bc_format c)),
      (''output_file'', opt_value (bc_output c)), (''verbose'', PBool (bc_verbose c)), (''quiet'', PBool (bc_quiet c))]"

definition metric_dict :: "metric_summary \<Rightarrow> pyval" where
  "metric_dict m = PDict
     [(''count'', PInt (int (ms_count m))), (''mean'', PFloat (duration_str (ms_mean m))), (''median'', PFloat (duration_str (ms_median m))),
      (''min'', PFloat (duration_str (ms_min m))), (''max'', PFloat (duration_str (ms_max m))),
      (''std_dev'', PFloat (duration_str (ms_std_dev m))), (''p95'', PFloat (duration_str (ms_p95 m)))]"

definition summary_dict :: "runtime_summary \<Rightarrow> pyval" where
  "summary_dict s = PDict
     [(''runtime_alias'', PStr (rs_alias s)), (''runtime_display'', PStr (rs_display s)), (''mode'', PStr (rs_mode s)),
      (''total_runs'', PInt (int (rs_total s))), (''successful_runs'', PInt (int (rs_successful s))),
      (''failed_runs'', PInt (int (rs_failed s))), (''metrics'', PDict (map (\<lambda>(n, m). (n, metric_dict m)) (rs_metrics s))),
      (''guest_metadata'', rs_meta s)]"

definition result_dict :: "iteration_result \<Rightarrow> pyval" where
  "result_dict r = PDict
     [(''runtime_alias'', PStr (ir_alias r)), (''runtime_display'', PStr (ir_display r)), (''iteration'', PInt (ir_iteration r)),
      (''is_warmup'', PBool (ir_warmup r)), (''mode'', PStr (ir_mode r)), (''create_sec'', PFloat (duration_str (ir_create r))),
      (''ws_connect_sec'', PFloat (duration_str (ir_ws r))), (''first_exec_sec'', PFloat (duration_str (ir_first r))),
      (''spinup_sec'', PFloat (duration_str (ir_spinup r))), (''warm_exec_sec'', PFloat (duration_str (ir_warm r))),
      (''destroy_sec'', PFloat (duration_str (ir_destroy r))), (''lifecycle_sec'', PFloat (duration_str (ir_lifecycle r))),
      (''success'', PBool (ir_success r)), (''error'', opt_value (ir_error r)), (''kernel_id'', ir_kernel r),
      (''guest_metadata'', ir_meta r)]"

definition report_payload :: "string \<Rightarrow> string \<Rightarrow> runtime_summary list \<Rightarrow> iteration_result list \<Rightarrow> bench_config \<Rightarrow> pyval" where
  "report_payload now host ss rs c = PDict
     [(''timestamp'', PStr now), (''config'', config_dict c), (''host_platform'', PStr host),
      (''summaries'', PList (map summary_dict ss)), (''iterations'', PList (map result_dict rs))]"

definition format_json_data :: "string \<Rightarrow> string \<Rightarrow> runtime_summary list \<Rightarrow> iteration_result list \<Rightarrow> bench_config \<Rightarrow> exn + string" where
  "format_json_data now host ss rs c =
     (case dumps_pretty (report_payload now host ss rs c) of
        None \<Rightarrow> Inl (Exn TypeError ''Object is not JSON serializable'')
      | Some text \<Rightarrow> Inr text)"

section \<open>CSV\<close>

text \<open>\<open>csv.writer\<close> with its defaults: a field with a comma, a quote or a line end is quoted.\<close>

definition csv_special :: "char \<Rightarrow> bool" where
  "csv_special c \<longleftrightarrow> c = CHR '','' \<or> c = CHR 0x22 \<or> c = CHR 0x0D \<or> c = CHR 0x0A"

definition csv_field :: "string \<Rightarrow> string" where
  "csv_field s =
     (if list_ex csv_special s
      then CHR 0x22 # concat (map (\<lambda>c. if c = CHR 0x22 then [c, c] else [c]) s) @ [CHR 0x22] else s)"

definition csv_row :: "string list \<Rightarrow> string" where
  "csv_row cells = join_with '','' (map csv_field cells) @ [CHR 0x0D, CHR 0x0A]"

definition bool_str :: "bool \<Rightarrow> string" where
  "bool_str b = (if b then ''True'' else ''False'')"

definition csv_header :: "string list" where
  "csv_header =
     [''runtime_alias'', ''runtime_display'', ''mode'', ''iteration'', ''is_warmup'', ''success'', ''create_sec'', ''ws_connect_sec'',
      ''first_exec_sec'', ''spinup_sec'', ''warm_exec_sec'', ''destroy_sec'', ''lifecycle_sec'', ''error'', ''guest_os'',
      ''guest_release'', ''guest_python'']"

text \<open>A cell of csv: None is the empty text, another value its \<open>str\<close>.\<close>

definition csv_value :: "(pyval \<Rightarrow> string) \<Rightarrow> pyval \<Rightarrow> string" where
  "csv_value show_value v = (if v = PNone then [] else str_of show_value v)"

definition csv_cells :: "(pyval \<Rightarrow> string) \<Rightarrow> iteration_result \<Rightarrow> exn + string list" where
  "csv_cells show_value r =
     (let meta = (if truthy (ir_meta r) then ir_meta r else PDict [])
      in map_sum id
        (\<lambda>guest. [ir_alias r, ir_display r, ir_mode r, int_str (ir_iteration r), bool_str (ir_warmup r), bool_str (ir_success r)] @
           map duration_str [ir_create r, ir_ws r, ir_first r, ir_spinup r, ir_warm r, ir_destroy r, ir_lifecycle r] @
           [case ir_error r of None \<Rightarrow> [] | Some e \<Rightarrow> e] @ map (csv_value show_value) guest)
        (all_ok (map (meta_get meta) [''system'', ''release'', ''python''])))"

definition csv_table :: "(pyval \<Rightarrow> string) \<Rightarrow> iteration_result list \<Rightarrow> exn + string list list" where
  "csv_table show_value rs = map_sum id ((#) csv_header) (all_ok (map (csv_cells show_value) rs))"

definition format_csv_data :: "(pyval \<Rightarrow> string) \<Rightarrow> iteration_result list \<Rightarrow> exn + string" where
  "format_csv_data show_value rs = map_sum id (\<lambda>rows. concat (map csv_row rows)) (csv_table show_value rs)"

section \<open>The report file\<close>

datatype out_entry = OutLink | OutFile string | OutDir

text \<open>Where the saving of a report can fail, after the temporary file was made.\<close>

datatype save_fault = SaveWrite string | SaveMode | SaveRename

text \<open>
  What the system answers: the expansion of \<open>~\<close>, the parent of a path, the directories
  \<open>mkdir(parents=True)\<close> made with the exception that stopped it, and the name \<open>mkstemp\<close> chose.
\<close>

record save_io =
  so_expand :: "string \<Rightarrow> string"
  so_parent :: "string \<Rightarrow> string"
  so_mkdir :: "string list \<times> exn option"
  so_mkstemp :: "exn + string"
  so_fault :: "(save_fault \<times> exn) option"

definition put_out :: "string \<Rightarrow> out_entry \<Rightarrow> (out_entry dir, unit) prog" where
  "put_out p e = modify_p (dir_put p e)"

definition make_parents :: "save_io \<Rightarrow> (out_entry dir, unit) prog" where
  "make_parents io =
     then_p (foreach_p (fst (so_mkdir io)) (\<lambda>p. put_out p OutDir))
       (case snd (so_mkdir io) of None \<Rightarrow> return_p () | Some x \<Rightarrow> throw_p x)"

definition fill_and_rename :: "save_io \<Rightarrow> string \<Rightarrow> string \<Rightarrow> string \<Rightarrow> (out_entry dir, unit) prog" where
  "fill_and_rename io tmp raw bytes =
     (case so_fault io of
        Some (SaveWrite part, x) \<Rightarrow> then_p (put_out tmp (OutFile part)) (throw_p x)
      | Some (_, x) \<Rightarrow> then_p (put_out tmp (OutFile bytes)) (throw_p x)
      | None \<Rightarrow>
          then_p (put_out tmp (OutFile bytes))
            (bind_p (gets_p (\<lambda>d. dir_get d raw)) (\<lambda>e.
              if e = Some OutDir then raise_p OSError ''Is a directory''
              else then_p (modify_p (dir_del tmp)) (put_out raw (OutFile bytes)))))"

definition write_output_file :: "save_io \<Rightarrow> string \<Rightarrow> string \<Rightarrow> (out_entry dir, unit) prog" where
  "write_output_file io path content =
     (let raw = so_expand io path; parent = so_parent io raw
      in bind_p (gets_p (\<lambda>d. (dir_get d raw, dir_get d parent))) (\<lambda>(e, p).
        if e = Some OutLink then raise_p RuntimeError (''Refusing to write to symlinked destination: '' @ raw)
        else if p = Some OutLink then raise_p RuntimeError (''Refusing to write to symlinked parent directory: '' @ parent)
        else then_p (make_parents io)
            (bind_p (lift_p (so_mkstemp io)) (\<lambda>tmp.
              then_p (put_out tmp (OutFile []))
                (finally_p (fill_and_rename io tmp raw (utf8_encode content)) (modify_p (dir_del tmp)))))))"

section \<open>Reading a csv text\<close>

text \<open>
  The reference for the writer: a reader of csv in the usual four states. It returns no rows for
  a text that breaks the rules, for instance one that ends inside a quoted field.
\<close>

datatype csv_state = FieldStart | Unquoted | Quoted | QuoteSeen

fun csv_read :: "csv_state \<Rightarrow> string \<Rightarrow> string list \<Rightarrow> string list list \<Rightarrow> string \<Rightarrow> string list list option" where
  "csv_read st f r rows [] = (if st = FieldStart \<and> r = [] then Some (rev rows) else None)"
| "csv_read Quoted f r rows (c # s) =
     (if c = CHR 0x22 then csv_read QuoteSeen f r rows s else csv_read Quoted (c # f) r rows s)"
| "csv_read st f r rows (c # s) =
     (if c = CHR 0x22 then
        (if st = FieldStart then csv_read Quoted f r rows s
         else if st = QuoteSeen then csv_read Quoted (c # f) r rows s else None)
      else if c = CHR '','' then csv_read FieldStart [] (rev f # r) rows s
      else if c = CHR 0x0D then
        (case s of [] \<Rightarrow> None
         | d # u \<Rightarrow> if d = CHR 0x0A then csv_read FieldStart [] [] (rev (rev f # r) # rows) u else None)
      else if c = CHR 0x0A \<or> st = QuoteSeen then None
      else csv_read Unquoted (c # f) r rows s)"

definition csv_parse :: "string \<Rightarrow> string list list option" where
  "csv_parse s = csv_read FieldStart [] [] [] s"

lemma read_quoted:
  "csv_read Quoted f r rows (concat (map (\<lambda>c. if c = CHR 0x22 then [c, c] else [c]) s) @ CHR 0x22 # t)
     = csv_read QuoteSeen (rev s @ f) r rows t"
  by (induction s arbitrary: f) auto

lemma read_plain:
  "\<not> list_ex csv_special s \<Longrightarrow> st \<in> {FieldStart, Unquoted} \<Longrightarrow> s \<noteq> [] \<Longrightarrow>
     csv_read st f r rows (s @ t) = csv_read Unquoted (rev s @ f) r rows t"
proof (induction s arbitrary: st f)
  case (Cons c s)
  then have c: "c \<noteq> CHR 0x22" "c \<noteq> CHR '',''" "c \<noteq> CHR 0x0D" "c \<noteq> CHR 0x0A" by (auto simp: csv_special_def)
  have "csv_read st f r rows (c # s @ t) = csv_read Unquoted (c # f) r rows (s @ t)"
    using Cons.prems(2) c by auto
  then show ?case using Cons.IH [of Unquoted "c # f"] Cons.prems(1) by (cases "s = []") auto
qed simp

text \<open>After a written field the reader is ready for its separator, with the field read.\<close>

lemma read_field_comma:
  "csv_read FieldStart [] r rows (csv_field s @ CHR '','' # t) = csv_read FieldStart [] (s # r) rows t"
  using read_quoted [of "[]" r rows s "CHR '','' # t"] read_plain [of s FieldStart "[]" r rows "CHR '','' # t"]
  by (cases "s = []") (auto simp: csv_field_def)

lemma read_field_end:
  "csv_read FieldStart [] r rows (csv_field s @ CHR 0x0D # CHR 0x0A # t) = csv_read FieldStart [] [] (rev (s # r) # rows) t"
  using read_quoted [of "[]" r rows s "CHR 0x0D # CHR 0x0A # t"] read_plain [of s FieldStart "[]" r rows "CHR 0x0D # CHR 0x0A # t"]
  by (cases "s = []") (auto simp: csv_field_def)

lemma read_row:
  "cells \<noteq> [] \<Longrightarrow> csv_read FieldStart [] r rows (csv_row cells @ t) = csv_read FieldStart [] [] ((rev r @ cells) # rows) t"
proof (induction cells arbitrary: r)
  case (Cons f fs)
  show ?case
  proof (cases "fs = []")
    case True
    then show ?thesis using read_field_end [of r rows f t] by (simp add: csv_row_def)
  next
    case False
    then have "csv_row (f # fs) @ t = csv_field f @ CHR '','' # csv_row fs @ t"
      by (simp add: csv_row_def join_Cons)
    then show ?thesis using read_field_comma [of r rows f] Cons.IH [of "f # r"] False by simp
  qed
qed simp

lemma csv_parse_rows: "[] \<notin> set rows \<Longrightarrow> csv_parse (concat (map csv_row rows)) = Some rows"
proof -
  have "csv_read FieldStart [] [] acc (concat (map csv_row rows)) = Some (rev acc @ rows)" if "[] \<notin> set rows" for acc
    using that
  proof (induction rows arbitrary: acc)
    case (Cons x xs)
    then have "csv_read FieldStart [] [] acc (csv_row x @ concat (map csv_row xs)) =
        csv_read FieldStart [] [] (x # acc) (concat (map csv_row xs))"
      using read_row [of x "[]" acc] by fastforce
    with Cons show ?case by simp
  qed simp
  then show "[] \<notin> set rows \<Longrightarrow> ?thesis" by (simp add: csv_parse_def)
qed

section \<open>Lemmas\<close>

lemma all_ok_Inr: "all_ok xs = Inr ys \<longleftrightarrow> xs = map Inr ys"
  by (induction xs arbitrary: ys) (auto split: sum.splits simp: map_sum_def, auto split: sum.splits)

lemma csv_cells_length: "csv_cells show_value r = Inr row \<Longrightarrow> length row = 17"
proof -
  have three: "length guest = 3" if "all_ok (map (meta_get m) [a, b, c]) = Inr guest" for m a b c and guest :: "pyval list"
    using arg_cong [OF that [unfolded all_ok_Inr], of length] by simp
  show "csv_cells show_value r = Inr row \<Longrightarrow> ?thesis"
    unfolding csv_cells_def Let_def map_sum_Inr_iff by (elim exE conjE, drule three) simp
qed

lemma csv_table_rows:
  assumes "csv_table show_value rs = Inr rows"
  shows "length rows = Suc (length rs) \<and> list_all (\<lambda>row. length row = 17) rows"
proof -
  obtain body where body: "rows = csv_header # body" "map (csv_cells show_value) rs = map Inr body"
    using assms by (auto simp: csv_table_def map_sum_Inr_iff all_ok_Inr)
  have "length row = 17" if "row \<in> set body" for row
  proof -
    have "Inr row \<in> set (map (csv_cells show_value) rs)" using that unfolding body(2) by simp
    then obtain r where "Inr row = csv_cells show_value r" by auto
    then have "csv_cells show_value r = Inr row" by simp
    then show ?thesis by (rule csv_cells_length)
  qed
  moreover have "length body = length rs" using arg_cong [OF body(2), of length] by simp
  ultimately show ?thesis using body(1) by (simp add: csv_header_def list_all_iff)
qed

text \<open>What the system guarantees: only ancestors are made, and the temporary name is new.\<close>

definition save_io_ok :: "save_io \<Rightarrow> string \<Rightarrow> out_entry dir \<Rightarrow> bool" where
  "save_io_ok io path d \<longleftrightarrow>
     so_expand io path \<notin> set (fst (so_mkdir io)) \<and>
     (case so_mkstemp io of Inl _ \<Rightarrow> True
      | Inr tmp \<Rightarrow> tmp \<noteq> so_expand io path \<and> tmp \<notin> set (fst (so_mkdir io)) \<and> dir_get d tmp = None)"

lemma make_dirs_run: "foreach_p ps (\<lambda>p. put_out p OutDir) d = (Ret (), fold (\<lambda>p. dir_put p OutDir) ps d)"
  by (induction ps arbitrary: d) (auto simp: put_out_def)

lemma make_dirs_get: "p \<notin> set ps \<Longrightarrow> dir_get (fold (\<lambda>p. dir_put p OutDir) ps d) p = dir_get d p"
  by (induction ps arbitrary: d) (auto simp: dirs.get_put)

lemma put_out_run: "put_out p e d = (Ret (), dir_put p e d)"
  by (simp add: put_out_def)

lemma fill_and_rename_run:
  "\<exists>r u. finally_p (fill_and_rename io tmp raw bytes) (modify_p (dir_del tmp)) d = (r, u) \<and>
     (if r = Ret () then so_fault io = None \<and> u = dir_del tmp (dir_put raw (OutFile bytes) (dir_del tmp (dir_put tmp (OutFile bytes) d)))
      else (\<exists>e. r = Raise e) \<and> (\<exists>x. u = dir_del tmp (dir_put tmp (OutFile x) d)))"
  by (auto simp: fill_and_rename_def put_out_def finally_p_def then_p_def bind_p_def split: option.splits save_fault.splits)

section \<open>Properties\<close>

text \<open>
  C35. A csv report can be read back: a reader of csv gets the header and one row per result from
  it, each of 17 cells with the very texts that were written, whatever commas, quotes or line
  ends an error message or a guest put into them.
\<close>

theorem csv_report_reads_back:
  assumes "format_csv_data show_value rs = Inr text"
  shows "\<exists>rows. csv_table show_value rs = Inr rows \<and> csv_parse text = Some rows \<and>
     length rows = Suc (length rs) \<and> list_all (\<lambda>row. length row = 17) rows"
proof -
  obtain rows where rows: "csv_table show_value rs = Inr rows" "text = concat (map csv_row rows)"
    using assms by (auto simp: format_csv_data_def map_sum_Inr_iff)
  then have "[] \<notin> set rows" using csv_table_rows [OF rows(1)] by (auto simp: list_all_iff)
  then show ?thesis using rows csv_table_rows [OF rows(1)] csv_parse_rows by simp
qed

definition sample_result :: iteration_result where
  "sample_result =
     \<lparr>ir_alias = ''jail'', ir_display = ''Jail'', ir_iteration = 1, ir_warmup = False, ir_mode = ''daemon'', ir_create = 12500, ir_ws = 0,
      ir_first = 0, ir_spinup = 12500, ir_warm = 0, ir_destroy = 3, ir_lifecycle = 12600, ir_success = False,
      ir_error = Some ''no, \"jail\"'', ir_kernel = PNone, ir_meta = PDict []\<rparr>"

lemma sample_csv: "\<exists>row. csv_cells (\<lambda>_. []) sample_result = Inr row"
  by (simp add: csv_cells_def sample_result_def meta_get_def Let_def truthy.simps)

theorem csv_report_reads_back_witness:
  "\<exists>doc rows. format_csv_data (\<lambda>_. []) [sample_result] = Inr doc \<and> csv_parse doc = Some rows \<and> length rows = 2"
proof -
  obtain doc where doc: "format_csv_data (\<lambda>_. []) [sample_result] = Inr doc"
    using sample_csv by (auto simp: format_csv_data_def csv_table_def)
  show ?thesis using csv_report_reads_back [OF doc] doc by auto
qed



section \<open>What a report gives away, and what it does not survive\<close>

text \<open>The token of the server is a value of the configuration a JSON report holds.\<close>

lemma report_holds_token:
  "\<exists>rest c. report_payload now host ss rs config = PDict rest \<and> map_of rest ''config'' = Some (PDict c) \<and>
     map_of c ''token'' = Some (PStr (bc_token config))"
  by (simp add: report_payload_def config_dict_def)

text \<open>One result whose guest printed a list as its metadata, and no csv report is made.\<close>

lemma list_metadata_loses_csv:
  assumes "r \<in> set rs" "ir_meta r = PList (v # vs)"
  shows "\<exists>e. format_csv_data show_value rs = Inl e"
proof -
  have "map (csv_cells show_value) rs \<noteq> map Inr body" for body
  proof
    assume "map (csv_cells show_value) rs = map Inr body"
    then have "csv_cells show_value r \<in> Inr ` set body" using assms(1) by (metis imageI image_set)
    moreover have "\<exists>e. csv_cells show_value r = Inl e" using assms(2) by (simp add: csv_cells_def meta_get_def)
    ultimately show False by auto
  qed
  then show ?thesis
    by (cases "all_ok (map (csv_cells show_value) rs)") (auto simp: format_csv_data_def csv_table_def all_ok_Inr)
qed

end
