(* ===== verification/Bench_Client.thy ===== *)
theory Bench_Client
  imports Json_Pretty Complex_Main
begin

text \<open>
  benchmark.py, the client of a Jupyter server: the requests it makes, with their headers and
  cookies, and the loop that runs a piece of code on a kernel and waits for its answer. A request
  goes out through \<open>send\<close>, which gives the bytes of the answer or raises; the cookies of the
  session are read through \<open>jar\<close>. What the loop meets is a list: each entry is a reading of the
  clock with what the socket then gave.
\<close>

section \<open>Text\<close>

text \<open>\<open>s.splitlines()\<close>, with all the line ends it knows.\<close>

definition line_end :: "char \<Rightarrow> bool" where
  "line_end c \<longleftrightarrow> (of_char c :: nat) \<in> {10, 11, 12, 13, 28, 29, 30, 133}"

fun split_all_lines :: "string \<Rightarrow> string list" where
  "split_all_lines [] = []"
| "split_all_lines [c] = (if line_end c then [[]] else [[c]])"
| "split_all_lines (c # d # s) =
     (if c = CHR 0x0D \<and> d = CHR 0x0A then [] # split_all_lines s
      else if line_end c then [] # split_all_lines (d # s)
      else case split_all_lines (d # s) of [] \<Rightarrow> [[c]]
           | w # ws \<Rightarrow> (if line_end d then [c] # ws else (c # w) # ws))"

text \<open>\<open>s.split(p, 1)[1]\<close>, when \<open>p in s\<close>.\<close>

fun after_first :: "string \<Rightarrow> string \<Rightarrow> string option" where
  "after_first p [] = (if p = [] then Some [] else None)"
| "after_first p (c # s) = (if starts_with p (c # s) then Some (drop (length p) (c # s)) else after_first p s)"

text \<open>A method of a dict, on a value that need not be one.\<close>

definition value_get :: "pyval \<Rightarrow> string \<Rightarrow> pyval \<Rightarrow> exn + pyval" where
  "value_get v key other =
     (case v of PDict d \<Rightarrow> Inr (pget_default d key other)
      | _ \<Rightarrow> Inl (Exn AttributeError ''object has no attribute get''))"

section \<open>The session\<close>

record http_request =
  hr_url :: string
  hr_method :: string
  hr_headers :: "(string \<times> string) list"
  hr_body :: "string option"
  hr_timeout :: pyval

record jupyter_helper =
  jh_base :: string
  jh_ws :: string
  jh_token :: string
  jh_xsrf :: "string option"

type_synonym cookies = "(string \<times> string option) list"

definition get_request :: "string \<Rightarrow> (string \<times> string) list \<Rightarrow> http_request" where
  "get_request url headers = \<lparr>hr_url = url, hr_method = ''GET'', hr_headers = headers, hr_body = None, hr_timeout = PInt 10\<rparr>"

definition ws_base :: "string \<Rightarrow> string" where
  "ws_base base = (if starts_with ''http'' base then ''ws'' @ drop 4 base else base)"

definition token_query :: "string \<Rightarrow> string" where
  "token_query token = (if token = [] then [] else ''?token='' @ token)"

text \<open>The session cookies; a server that answers neither address leaves them as they are.\<close>

definition authenticate :: "(http_request \<Rightarrow> ('s, string) prog) \<Rightarrow> ('s \<Rightarrow> cookies) \<Rightarrow> string \<Rightarrow> string \<Rightarrow> ('s, string option) prog" where
  "authenticate send jar base token =
     then_p
       (catch_p (bind_p (send (get_request (base @ ''/lab'' @ token_query token) [])) (\<lambda>_. return_p ()))
          (\<lambda>_. catch_p (bind_p (send (get_request (base @ ''/api'') [])) (\<lambda>_. return_p ())) (\<lambda>_. return_p ())))
       (gets_p (\<lambda>s. case map_of (jar s) ''_xsrf'' of None \<Rightarrow> Some [] | Some v \<Rightarrow> v))"

definition new_helper :: "(http_request \<Rightarrow> ('s, string) prog) \<Rightarrow> ('s \<Rightarrow> cookies) \<Rightarrow> string \<Rightarrow> string \<Rightarrow> ('s, jupyter_helper) prog" where
  "new_helper send jar base_url token =
     (let base = rstrip_char (CHR ''/'') base_url
      in bind_p (authenticate send jar base token) (\<lambda>xsrf.
           return_p \<lparr>jh_base = base, jh_ws = ws_base base, jh_token = token, jh_xsrf = xsrf\<rparr>))"

definition auth_header :: "string \<Rightarrow> (string \<times> string) list" where
  "auth_header token = (if token = [] then [] else [(''Authorization'', ''token '' @ token)])"

definition build_headers :: "jupyter_helper \<Rightarrow> (string \<times> string) list" where
  "build_headers h =
     [(''Content-Type'', ''application/json'')] @ auth_header (jh_token h) @
     (case jh_xsrf h of None \<Rightarrow> [] | Some x \<Rightarrow> if x = [] then [] else [(''X-XSRFToken'', x)])"

definition cookie_header :: "cookies \<Rightarrow> string" where
  "cookie_header cs = join_with ''; '' (map (\<lambda>(n, v). n @ ''='' @ (case v of None \<Rightarrow> ''None'' | Some x \<Rightarrow> x)) cs)"

text \<open>\<open>json.loads(resp.read().decode("utf-8"))\<close>.\<close>

definition answer_json :: "string \<Rightarrow> exn + pyval" where
  "answer_json bytes =
     (case utf8_decode bytes of
        None \<Rightarrow> Inl (Exn UnicodeDecodeError ''invalid start byte'')
      | Some text \<Rightarrow> (case loads text of None \<Rightarrow> Inl (Exn JSONDecodeError ''Expecting value'') | Some v \<Rightarrow> Inr v))"

definition ask_json :: "(http_request \<Rightarrow> ('s, string) prog) \<Rightarrow> http_request \<Rightarrow> ('s, pyval) prog" where
  "ask_json send rq = bind_p (send rq) (\<lambda>bytes. lift_p (answer_json bytes))"

definition helper_ping :: "(http_request \<Rightarrow> ('s, string) prog) \<Rightarrow> jupyter_helper \<Rightarrow> ('s, pyval) prog" where
  "helper_ping send h = ask_json send (get_request (jh_base h @ ''/api/status'') (build_headers h))"

definition get_kernelspecs :: "(http_request \<Rightarrow> ('s, string) prog) \<Rightarrow> jupyter_helper \<Rightarrow> ('s, pyval) prog" where
  "get_kernelspecs send h =
     bind_p (ask_json send (get_request (jh_base h @ ''/api/kernelspecs'') (build_headers h)))
       (\<lambda>data. lift_p (value_get data ''kernelspecs'' (PDict [])))"

definition create_request :: "jupyter_helper \<Rightarrow> string \<Rightarrow> pyval \<Rightarrow> http_request" where
  "create_request h kernel_name timeout =
     \<lparr>hr_url = jh_base h @ ''/api/kernels'', hr_method = ''POST'', hr_headers = build_headers h,
      hr_body = Some (utf8_encode (json_spaced (PDict [(''name'', PStr kernel_name)]))), hr_timeout = timeout\<rparr>"

definition create_kernel :: "(http_request \<Rightarrow> ('s, string) prog) \<Rightarrow> jupyter_helper \<Rightarrow> string \<Rightarrow> pyval \<Rightarrow> ('s, pyval) prog" where
  "create_kernel send h kernel_name timeout = ask_json send (create_request h kernel_name timeout)"

definition delete_request :: "jupyter_helper \<Rightarrow> string \<Rightarrow> pyval \<Rightarrow> http_request" where
  "delete_request h kernel_id timeout =
     \<lparr>hr_url = jh_base h @ ''/api/kernels/'' @ kernel_id, hr_method = ''DELETE'', hr_headers = build_headers h,
      hr_body = None, hr_timeout = timeout\<rparr>"

definition delete_kernel :: "(http_request \<Rightarrow> ('s, string) prog) \<Rightarrow> jupyter_helper \<Rightarrow> string \<Rightarrow> pyval \<Rightarrow> ('s, unit) prog" where
  "delete_kernel send h kernel_id timeout = bind_p (send (delete_request h kernel_id timeout)) (\<lambda>_. return_p ())"

text \<open>The address and the headers of the web socket; the connecting is a parameter.\<close>

definition channels_url :: "jupyter_helper \<Rightarrow> string \<Rightarrow> string" where
  "channels_url h kernel_id = jh_ws h @ ''/api/kernels/'' @ kernel_id @ ''/channels'' @ token_query (jh_token h)"

definition ws_headers :: "jupyter_helper \<Rightarrow> cookies \<Rightarrow> (string \<times> string) list" where
  "ws_headers h cs =
     (let c = cookie_header cs in (if c = [] then [] else [(''Cookie'', c)]) @ auth_header (jh_token h))"

definition connect_websocket ::
    "(string \<Rightarrow> (string \<times> string) list \<Rightarrow> ('s, 'c) prog) \<Rightarrow> ('s \<Rightarrow> cookies) \<Rightarrow> jupyter_helper \<Rightarrow> string \<Rightarrow> ('s, 'c) prog" where
  "connect_websocket open_ws jar h kernel_id =
     bind_p (gets_p jar) (\<lambda>cs. open_ws (channels_url h kernel_id) (ws_headers h cs))"

section \<open>Running code\<close>

text \<open>What reading the socket gave: a message, its end, or an exception such as the time limit's.\<close>

datatype ws_event = Message string | Closed | Failed exn

definition execute_message :: "string \<Rightarrow> string \<Rightarrow> string \<Rightarrow> pyval" where
  "execute_message msg_id session code = PDict
     [(''header'', PDict [(''msg_id'', PStr msg_id), (''username'', PStr ''freebsd''), (''session'', PStr session),
        (''msg_type'', PStr ''execute_request''), (''version'', PStr ''5.3'')]),
      (''parent_header'', PDict []), (''metadata'', PDict []),
      (''content'', PDict [(''code'', PStr code), (''silent'', PBool False), (''store_history'', PBool True),
        (''user_expressions'', PDict []), (''allow_stdin'', PBool False)]),
      (''channel'', PStr ''shell'')]"

datatype reading = Skip | Chunk pyval | Reply pyval

text \<open>One message: the parts are read in the order of the code, so what is no dict raises.\<close>

definition read_message :: "string \<Rightarrow> string \<Rightarrow> exn + reading" where
  "read_message msg_id raw =
     (case loads raw of
        None \<Rightarrow> Inl (Exn JSONDecodeError ''Expecting value'')
      | Some msg \<Rightarrow>
     (case value_get msg ''msg_type'' PNone of Inl e \<Rightarrow> Inl e | Inr msg_type \<Rightarrow>
     (case value_get msg ''content'' (PDict []) of Inl e \<Rightarrow> Inl e | Inr content \<Rightarrow>
     (case value_get msg ''parent_header'' (PDict []) of Inl e \<Rightarrow> Inl e | Inr parent \<Rightarrow>
     (case value_get parent ''msg_id'' PNone of Inl e \<Rightarrow> Inl e | Inr parent_id \<Rightarrow>
        if parent_id \<noteq> PStr msg_id then Inr Skip
        else if msg_type = PStr ''stream''
          then (case value_get content ''name'' PNone of Inl e \<Rightarrow> Inl e
                | Inr n \<Rightarrow> if n = PStr ''stdout'' then map_sum id Chunk (value_get content ''text'' (PStr [])) else Inr Skip)
        else if msg_type = PStr ''execute_reply'' then Inr (Reply content) else Inr Skip)))))"

fun joined :: "pyval list \<Rightarrow> exn + string" where
  "joined [] = Inr []"
| "joined (v # vs) =
     (case v of PStr s \<Rightarrow> map_sum id ((@) s) (joined vs)
      | _ \<Rightarrow> Inl (Exn TypeError ''sequence item: expected str instance''))"

definition answer :: "pyval list \<Rightarrow> pyval \<Rightarrow> exn + string \<times> pyval" where
  "answer chunks reply = map_sum id (\<lambda>s. (s, reply)) (joined (rev chunks))"

text \<open>The loop; \<open>None\<close> when what it meets ends before it does.\<close>

fun await_reply :: "string \<Rightarrow> real \<Rightarrow> (real \<times> ws_event) list \<Rightarrow> pyval list \<Rightarrow> (exn + string \<times> pyval) option" where
  "await_reply msg_id deadline [] chunks = None"
| "await_reply msg_id deadline ((now, ev) # rest) chunks =
     (if \<not> now < deadline then Some (answer chunks (PDict []))
      else case ev of
        Failed e \<Rightarrow> Some (Inl e)
      | Closed \<Rightarrow> Some (answer chunks (PDict []))
      | Message raw \<Rightarrow>
          (case read_message msg_id raw of
             Inl e \<Rightarrow> Some (Inl e)
           | Inr Skip \<Rightarrow> await_reply msg_id deadline rest chunks
           | Inr (Chunk v) \<Rightarrow> await_reply msg_id deadline rest (v # chunks)
           | Inr (Reply content) \<Rightarrow> Some (answer chunks content)))"

record ('s, 'c) ws_io =
  wi_uuid :: "('s, string) prog"
  wi_write :: "'c \<Rightarrow> string \<Rightarrow> ('s, unit) prog"
  wi_observe :: "'c \<Rightarrow> ('s, real \<times> (real \<times> ws_event) list) prog"

definition execute_code :: "('s, 'c) ws_io \<Rightarrow> 'c \<Rightarrow> string \<Rightarrow> real \<Rightarrow> ('s, string \<times> pyval) prog" where
  "execute_code io conn code timeout =
     bind_p (wi_uuid io) (\<lambda>msg_id.
     bind_p (wi_uuid io) (\<lambda>session.
     then_p (wi_write io conn (json_spaced (execute_message msg_id session code)))
       (bind_p (wi_observe io conn) (\<lambda>(start, met).
          case await_reply msg_id (start + timeout) met [] of
            None \<Rightarrow> stuck_p
          | Some x \<Rightarrow> lift_p x))))"

section \<open>Lemmas\<close>

text \<open>The loop ends with the first reading at or past the deadline, at the latest.\<close>

lemma await_ends: "\<exists>p \<in> set met. deadline \<le> fst p \<Longrightarrow> \<exists>x. await_reply msg_id deadline met chunks = Some x"
proof (induction met arbitrary: chunks)
  case (Cons p rest)
  show ?case
  proof (cases "deadline \<le> fst p")
    case True
    then show ?thesis by (cases p) simp
  next
    case False
    with Cons show ?thesis
      by (cases p; cases "snd p") (auto split: sum.splits reading.splits)
  qed
qed simp

text \<open>A socket that is closed before any answer is an empty answer, and not an error.\<close>

lemma closed_is_an_answer: "now < deadline \<Longrightarrow> await_reply msg_id deadline ((now, Closed) # rest) [] = Some (Inr ([], PDict []))"
  by (simp add: answer_def)

lemma late_is_an_answer: "deadline \<le> now \<Longrightarrow> await_reply msg_id deadline ((now, ev) # rest) [] = Some (Inr ([], PDict []))"
  by (simp add: answer_def)

text \<open>Messages of other requests do not matter.\<close>

definition foreign :: "string \<Rightarrow> string \<Rightarrow> bool" where
  "foreign msg_id raw \<longleftrightarrow> read_message msg_id raw = Inr Skip"

fun is_foreign :: "string \<Rightarrow> ws_event \<Rightarrow> bool" where
  "is_foreign msg_id (Message raw) = foreign msg_id raw"
| "is_foreign msg_id _ = False"

lemma await_ignores_foreign:
  "list_all (\<lambda>p. fst p < deadline) met \<Longrightarrow>
     await_reply msg_id deadline (met @ rest) chunks =
     await_reply msg_id deadline (filter (\<lambda>p. \<not> is_foreign msg_id (snd p)) met @ rest) chunks"
proof (induction met arbitrary: chunks)
  case (Cons p met)
  obtain now ev where p: "p = (now, ev)" by (cases p)
  with Cons show ?case
    by (cases ev) (auto simp: foreign_def split: sum.splits reading.splits)
qed simp

end
