(* ===== verification/Bench_Runner.thy ===== *)
theory Bench_Runner
  imports Bench_Report Bench_Client Runtime_Client
begin

text \<open>
  benchmark.py, the runner: what it measures of one kernel of a Jupyter server and of one runtime
  of the daemon, the schedule of the iterations, the temporary ssh key, the clean-up of an
  interrupted benchmark, and the command. The world behind the runner is a parameter; the runner
  also keeps a trace of the requests it sent, which the code does not have.
\<close>

section \<open>Runtimes\<close>

record runtime_spec =
  sp_alias :: string
  sp_name :: string
  sp_display :: string
  sp_guest_os :: "string option"
  sp_provisioner :: "string option"
  sp_profile :: "string option"
  sp_type :: string

definition runtime_presets :: "(string \<times> runtime_spec) list" where
  "runtime_presets =
     [(''jail'', \<lparr>sp_alias = ''jail'', sp_name = ''freebsd-python'', sp_display = ''FreeBSD VNET Jail'', sp_guest_os = Some ''FreeBSD'',
         sp_provisioner = Some ''freebsd-jail-provisioner'', sp_profile = None, sp_type = ''jail''\<rparr>),
      (''freebsd-bhyve'', \<lparr>sp_alias = ''freebsd-bhyve'', sp_name = ''freebsd-python-bhyve'', sp_display = ''FreeBSD bhyve VM'',
         sp_guest_os = Some ''FreeBSD'', sp_provisioner = Some ''freebsd-bhyve-provisioner'', sp_profile = Some ''freebsd-python'',
         sp_type = ''bhyve''\<rparr>),
      (''linux-bhyve'', \<lparr>sp_alias = ''linux-bhyve'', sp_name = ''linux-python-bhyve'', sp_display = ''Linux bhyve VM'',
         sp_guest_os = Some ''Linux'', sp_provisioner = Some ''linux-bhyve-provisioner'', sp_profile = Some ''linux-python'',
         sp_type = ''bhyve''\<rparr>)]"

definition custom_spec :: "string \<Rightarrow> runtime_spec" where
  "custom_spec clean =
     \<lparr>sp_alias = clean, sp_name = clean, sp_display = clean, sp_guest_os = None, sp_provisioner = None,
      sp_profile = Some (if contains_str ''freebsd'' clean then ''freebsd-python'' else ''linux-python''),
      sp_type = (if contains_str ''jail'' clean then ''jail'' else ''bhyve'')\<rparr>"

definition select_runtime :: "string \<Rightarrow> string \<times> runtime_spec" where
  "select_runtime r =
     (let clean = py_lower (py_strip r)
      in (clean, case map_of runtime_presets clean of Some spec \<Rightarrow> spec | None \<Rightarrow> custom_spec clean))"

definition parse_runtimes_arg :: "string \<Rightarrow> string list" where
  "parse_runtimes_arg arg =
     (if arg = [] \<or> py_lower arg = ''all'' then [''jail'', ''freebsd-bhyve'', ''linux-bhyve'']
      else filter (\<lambda>item. item \<noteq> []) (map py_strip (split_on (CHR '','') arg)))"

section \<open>The runner and its world\<close>

record ('w, 'c) bench_io =
  bi_tick :: "'w \<Rightarrow> real \<times> 'w"
  bi_millis :: "'w \<Rightarrow> int \<times> 'w"
  bi_open :: "http_request \<Rightarrow> ('w, string) prog"
  bi_jar :: "'w \<Rightarrow> cookies"
  bi_connect :: "string \<Rightarrow> (string \<times> string) list \<Rightarrow> ('w, 'c) prog"
  bi_ws :: "('w, 'c) ws_io"
  bi_close :: "'c \<Rightarrow> ('w, unit) prog"
  bi_exchange :: "string \<Rightarrow> ('w, (exn + string) list) prog"
  bi_mkstemp :: "('w, string) prog"
  bi_keygen :: "string \<Rightarrow> ('w, unit) prog"
  bi_read :: "string \<Rightarrow> ('w, string) prog"
  bi_unlink :: "string \<Rightarrow> ('w, unit) prog"
  bi_pid :: int
  bi_show :: "pyval \<Rightarrow> string"
  bi_round :: "real \<Rightarrow> int"

datatype bench_call = Asked http_request | Told string

record 'w bench =
  bn_world :: 'w
  bn_results :: "iteration_result list"
  bn_kernels :: "pyval list"
  bn_daemons :: "string list"
  bn_helper :: "jupyter_helper option"
  bn_client :: "string option"
  bn_key :: "string option"
  bn_public :: "string option"
  bn_interrupted :: bool
  bn_trace :: "bench_call list"

text \<open>A result of the run that is being made, with the locals the \<open>finally\<close> block reads.\<close>

record 'c launch =
  ln_result :: iteration_result
  ln_kernel :: pyval
  ln_conn :: "'c option"

type_synonym ('w, 'c) attempt = "'w bench \<times> 'c launch"

definition ext_b :: "('w, 'a) prog \<Rightarrow> ('w bench, 'a) prog" where
  "ext_b = zoom_p bn_world (\<lambda>w b. b\<lparr>bn_world := w\<rparr>)"

definition note_call :: "bench_call \<Rightarrow> ('w bench, unit) prog" where
  "note_call c = modify_p (\<lambda>b. b\<lparr>bn_trace := bn_trace b @ [c]\<rparr>)"

definition send_b :: "('w, 'c) bench_io \<Rightarrow> http_request \<Rightarrow> ('w bench, string) prog" where
  "send_b io rq = then_p (note_call (Asked rq)) (ext_b (bi_open io rq))"

definition jar_b :: "('w, 'c) bench_io \<Rightarrow> 'w bench \<Rightarrow> cookies" where
  "jar_b io b = bi_jar io (bn_world b)"

definition exchange_b :: "('w, 'c) bench_io \<Rightarrow> string \<Rightarrow> ('w bench, (exn + string) list) prog" where
  "exchange_b io bytes = then_p (note_call (Told bytes)) (ext_b (bi_exchange io bytes))"

definition read_clock :: "('w \<Rightarrow> 't \<times> 'w) \<Rightarrow> ('w bench, 't) prog" where
  "read_clock clk = ext_b (\<lambda>w. case clk w of (t, v) \<Rightarrow> (Ret t, v))"

definition on_bench :: "('w bench, 'a) prog \<Rightarrow> (('w, 'c) attempt, 'a) prog" where
  "on_bench = zoom_p fst (\<lambda>b s. (b, snd s))"

definition on_result :: "(iteration_result \<Rightarrow> iteration_result) \<Rightarrow> (('w, 'c) attempt, unit) prog" where
  "on_result f = modify_p (\<lambda>(b, l). (b, l\<lparr>ln_result := f (ln_result l)\<rparr>))"

definition tick :: "('w, 'c) bench_io \<Rightarrow> (('w, 'c) attempt, real) prog" where
  "tick io = on_bench (read_clock (bi_tick io))"

definition new_result :: "string \<Rightarrow> string \<Rightarrow> nat \<Rightarrow> bool \<Rightarrow> string \<Rightarrow> iteration_result" where
  "new_result alias display i warmup mode =
     \<lparr>ir_alias = alias, ir_display = display, ir_iteration = int i + 1, ir_warmup = warmup, ir_mode = mode, ir_create = 0, ir_ws = 0,
      ir_first = 0, ir_spinup = 0, ir_warm = 0, ir_destroy = 0, ir_lifecycle = 0, ir_success = True, ir_error = None,
      ir_kernel = PNone, ir_meta = PDict []\<rparr>"

definition failed_with :: "string \<Rightarrow> iteration_result \<Rightarrow> iteration_result" where
  "failed_with m r = r\<lparr>ir_success := False, ir_error := Some m\<rparr>"

text \<open>An error of the destruction is only recorded when there is no earlier one.\<close>

definition destroy_failed :: "exn \<Rightarrow> iteration_result \<Rightarrow> iteration_result" where
  "destroy_failed e r = (if ir_success r then failed_with (''Destroy error: '' @ exn_msg e) r else r)"

section \<open>The ssh key\<close>

definition get_ssh_key :: "('w, 'c) bench_io \<Rightarrow> ('w bench, string) prog" where
  "get_ssh_key io =
     bind_p (gets_p bn_public) (\<lambda>public. case public of
       Some key \<Rightarrow> return_p key
     | None \<Rightarrow>
         bind_p (ext_b (bi_mkstemp io)) (\<lambda>path.
         then_p (ext_b (bi_unlink io path))
         (then_p (ext_b (bi_keygen io path))
         (then_p (modify_p (\<lambda>b. b\<lparr>bn_key := Some path\<rparr>))
           (bind_p (ext_b (bi_read io (path @ ''.pub''))) (\<lambda>text.
              then_p (modify_p (\<lambda>b. b\<lparr>bn_public := Some (py_strip text)\<rparr>)) (return_p (py_strip text))))))))"

definition unlink_quietly :: "('w, 'c) bench_io \<Rightarrow> string \<Rightarrow> ('w bench, unit) prog" where
  "unlink_quietly io path =
     catch_p (ext_b (bi_unlink io path)) (\<lambda>e. if is_os_error (exn_kind e) then return_p () else throw_p e)"

definition cleanup_temp_ssh_key :: "('w, 'c) bench_io \<Rightarrow> ('w bench, unit) prog" where
  "cleanup_temp_ssh_key io =
     bind_p (gets_p bn_key) (\<lambda>key. case key of
       None \<Rightarrow> return_p ()
     | Some path \<Rightarrow>
         if path = [] then return_p ()
         else then_p (unlink_quietly io path)
             (then_p (unlink_quietly io (path @ ''.pub''))
               (modify_p (\<lambda>b. b\<lparr>bn_key := None, bn_public := None\<rparr>))))"

section \<open>One kernel\<close>

text \<open>\<open>set.add\<close> and \<open>set.discard\<close> raise on a value that has no hash.\<close>

definition hashable :: "pyval \<Rightarrow> bool" where
  "hashable v = (case v of PList _ \<Rightarrow> False | PDict _ \<Rightarrow> False | PSet _ \<Rightarrow> False | _ \<Rightarrow> True)"

definition on_kernels :: "(pyval list \<Rightarrow> pyval list) \<Rightarrow> pyval \<Rightarrow> ('w bench, unit) prog" where
  "on_kernels f kid =
     (if hashable kid then modify_p (\<lambda>b. b\<lparr>bn_kernels := f (bn_kernels b)\<rparr>) else raise_p TypeError ''unhashable type'')"

text \<open>The metadata the probe printed, on the first line that has the marker.\<close>

definition probe_metadata :: "string \<Rightarrow> pyval option" where
  "probe_metadata stdout =
     (case filter (contains_str ''PROBE_DATA:'') (split_all_lines stdout) of
        [] \<Rightarrow> None
      | line # _ \<Rightarrow> (case after_first ''PROBE_DATA:'' line of None \<Rightarrow> None | Some raw \<Rightarrow> loads (py_strip raw)))"

text \<open>The log line reads four members, also when nothing is printed.\<close>

definition log_metadata :: "pyval \<Rightarrow> exn + unit" where
  "log_metadata meta =
     (if truthy meta then map_sum id (\<lambda>_. ()) (all_ok (map (\<lambda>k. value_get meta k PNone) [''system'', ''release'', ''nodename'', ''python'']))
      else Inr ())"

definition probe_code :: string where
  "probe_code =
     ''import json, sys, os, platform'' @ [CHR 0x0A] @
     ''info = {'' @ [CHR 0x27] @ ''platform'' @ [CHR 0x27] @ '': sys.platform, '' @ [CHR 0x27] @ ''nodename'' @ [CHR 0x27] @
     '': os.uname().nodename, '' @ [CHR 0x27] @ ''system'' @ [CHR 0x27] @ '': platform.system(), '' @ [CHR 0x27] @ ''release'' @
     [CHR 0x27] @ '': platform.release(), '' @ [CHR 0x27] @ ''python'' @ [CHR 0x27] @ '': sys.version.split()[0]}'' @ [CHR 0x0A] @
     ''print('' @ [CHR 0x27] @ ''PROBE_DATA:'' @ [CHR 0x27] @ '' + json.dumps(info))'' @ [CHR 0x0A]"

definition ws_b :: "('w, 'c) bench_io \<Rightarrow> (('w, 'c) attempt, 'c) ws_io" where
  "ws_b io = \<lparr>wi_uuid = on_bench (ext_b (wi_uuid (bi_ws io))), wi_write = (\<lambda>c m. on_bench (ext_b (wi_write (bi_ws io) c m))),
     wi_observe = (\<lambda>c. on_bench (ext_b (wi_observe (bi_ws io) c)))\<rparr>"

definition create_phase :: "('w, 'c) bench_io \<Rightarrow> bench_config \<Rightarrow> jupyter_helper \<Rightarrow> runtime_spec \<Rightarrow> (('w, 'c) attempt, unit) prog" where
  "create_phase io config h spec =
     bind_p (tick io) (\<lambda>start.
     bind_p (on_bench (create_kernel (send_b io) h (sp_name spec) (PFloat (bc_timeout config)))) (\<lambda>resp.
     bind_p (tick io) (\<lambda>stop.
     then_p (on_result (\<lambda>r. r\<lparr>ir_create := bi_round io (stop - start)\<rparr>))
     (bind_p (lift_p (value_get resp ''id'' PNone)) (\<lambda>kid.
     then_p (modify_p (\<lambda>(b, l). (b, l\<lparr>ln_kernel := kid\<rparr>)))
     (then_p (on_result (\<lambda>r. r\<lparr>ir_kernel := kid\<rparr>))
       (when_p (truthy kid) (on_bench (on_kernels (List.insert kid) kid)))))))))"

definition connect_phase :: "('w, 'c) bench_io \<Rightarrow> jupyter_helper \<Rightarrow> (('w, 'c) attempt, 'c) prog" where
  "connect_phase io h =
     bind_p (tick io) (\<lambda>start.
     bind_p (gets_p (\<lambda>(b, l). ln_kernel l)) (\<lambda>kid.
     bind_p (on_bench (connect_websocket (\<lambda>url hs. ext_b (bi_connect io url hs)) (jar_b io) h (str_of (bi_show io) kid))) (\<lambda>conn.
     then_p (modify_p (\<lambda>(b, l). (b, l\<lparr>ln_conn := Some conn\<rparr>)))
     (bind_p (tick io) (\<lambda>stop.
     then_p (on_result (\<lambda>r. r\<lparr>ir_ws := bi_round io (stop - start)\<rparr>)) (return_p conn))))))"

definition probe_phase :: "('w, 'c) bench_io \<Rightarrow> real \<Rightarrow> 'c \<Rightarrow> (('w, 'c) attempt, unit) prog" where
  "probe_phase io t0 conn =
     bind_p (tick io) (\<lambda>start.
     bind_p (execute_code (ws_b io) conn probe_code 30) (\<lambda>(stdout, reply).
     bind_p (tick io) (\<lambda>stop.
     then_p (on_result (\<lambda>r. r\<lparr>ir_first := bi_round io (stop - start), ir_spinup := bi_round io (stop - t0)\<rparr>))
     (then_p (on_result (\<lambda>r. case probe_metadata stdout of None \<Rightarrow> r | Some meta \<Rightarrow> r\<lparr>ir_meta := meta\<rparr>))
       (bind_p (gets_p (\<lambda>(b, l). ir_meta (ln_result l))) (\<lambda>meta. lift_p (log_metadata meta)))))))"

definition warm_phase :: "('w, 'c) bench_io \<Rightarrow> 'c \<Rightarrow> (('w, 'c) attempt, unit) prog" where
  "warm_phase io conn =
     bind_p (tick io) (\<lambda>start.
     bind_p (execute_code (ws_b io) conn ''1 + 1'' 10) (\<lambda>_.
     bind_p (tick io) (\<lambda>stop.
       on_result (\<lambda>r. r\<lparr>ir_warm := bi_round io (stop - start)\<rparr>))))"

definition measure_kernel :: "('w, 'c) bench_io \<Rightarrow> bench_config \<Rightarrow> jupyter_helper \<Rightarrow> runtime_spec \<Rightarrow> real \<Rightarrow> (('w, 'c) attempt, unit) prog" where
  "measure_kernel io config h spec t0 =
     then_p (create_phase io config h spec)
       (bind_p (connect_phase io h) (\<lambda>conn. then_p (probe_phase io t0 conn) (warm_phase io conn)))"

definition close_phase :: "('w, 'c) bench_io \<Rightarrow> (('w, 'c) attempt, unit) prog" where
  "close_phase io =
     bind_p (gets_p (\<lambda>(b, l). ln_conn l)) (\<lambda>conn. case conn of
       None \<Rightarrow> return_p ()
     | Some c \<Rightarrow> catch_p (on_bench (ext_b (bi_close io c))) (\<lambda>_. return_p ()))"

text \<open>The destruction of either kind: the durations when it returns, the error when it raises.\<close>

definition timed_destroy :: "('w, 'c) bench_io \<Rightarrow> real \<Rightarrow> ('w bench, 'a) prog \<Rightarrow> ('w bench, unit) prog \<Rightarrow> (('w, 'c) attempt, unit) prog" where
  "timed_destroy io t0 remove discard =
     bind_p (tick io) (\<lambda>start.
     finally_p
       (catch_p
         (then_p (on_bench remove)
           (bind_p (tick io) (\<lambda>stop.
            then_p (on_result (\<lambda>r. r\<lparr>ir_destroy := bi_round io (stop - start)\<rparr>))
             (bind_p (tick io) (\<lambda>now. on_result (\<lambda>r. r\<lparr>ir_lifecycle := bi_round io (now - t0)\<rparr>))))))
         (\<lambda>e. on_result (destroy_failed e)))
       (on_bench discard))"

definition delete_phase :: "('w, 'c) bench_io \<Rightarrow> bench_config \<Rightarrow> jupyter_helper \<Rightarrow> real \<Rightarrow> (('w, 'c) attempt, unit) prog" where
  "delete_phase io config h t0 =
     bind_p (gets_p (\<lambda>(b, l). ln_kernel l)) (\<lambda>kid.
       when_p (truthy kid)
         (timed_destroy io t0 (delete_kernel (send_b io) h (str_of (bi_show io) kid) (PFloat (bc_timeout config)))
           (on_kernels (removeAll kid) kid)))"

definition benchmark_jupyter_runtime ::
    "('w, 'c) bench_io \<Rightarrow> bench_config \<Rightarrow> jupyter_helper \<Rightarrow> string \<Rightarrow> runtime_spec \<Rightarrow> nat \<Rightarrow> bool \<Rightarrow> ('w bench, iteration_result) prog" where
  "benchmark_jupyter_runtime io config h key spec i warmup b =
     (case bind_p (tick io) (\<lambda>t0.
             finally_p
               (catch_p (measure_kernel io config h spec t0) (\<lambda>e. on_result (failed_with (exn_msg e))))
               (then_p (close_phase io) (delete_phase io config h t0)))
           (b, \<lparr>ln_result = new_result key (sp_display spec) i warmup ''jupyter'', ln_kernel = PNone, ln_conn = None\<rparr>) of
        (Ret _, c, l) \<Rightarrow> (Ret (ln_result l), c)
      | (Raise e, c, l) \<Rightarrow> (Raise e, c)
      | (Stuck, c, l) \<Rightarrow> (Stuck, c))"

section \<open>One runtime of the daemon\<close>

definition bench_name :: "int \<Rightarrow> string" where
  "bench_name millis = ''freebsd-lab-b'' @ zero_pad 8 (nat_str (nat (millis mod 100000000)))"

definition ask_runtime :: "('w, 'c) bench_io \<Rightarrow> string \<Rightarrow> runtime_spec \<Rightarrow> string \<Rightarrow> string \<Rightarrow> ('w bench, record_doc) prog" where
  "ask_runtime io socket spec name pubkey =
     (if sp_type spec = ''jail''
      then client_create_jail (bi_show io) socket (exchange_b io) name (bi_pid io) pubkey
      else client_create_bhyve (bi_show io) socket (exchange_b io) name (bi_pid io) pubkey
             (case sp_profile spec of None \<Rightarrow> ''freebsd-python'' | Some p \<Rightarrow> if p = [] then ''freebsd-python'' else p))"

definition measure_runtime :: "('w, 'c) bench_io \<Rightarrow> string \<Rightarrow> runtime_spec \<Rightarrow> string \<Rightarrow> string \<Rightarrow> (('w, 'c) attempt, unit) prog" where
  "measure_runtime io socket spec name pubkey =
     bind_p (tick io) (\<lambda>start.
     then_p (on_bench (ask_runtime io socket spec name pubkey))
     (bind_p (tick io) (\<lambda>stop.
     then_p (on_result (\<lambda>r. r\<lparr>ir_create := bi_round io (stop - start), ir_spinup := bi_round io (stop - start)\<rparr>))
       (on_bench (modify_p (\<lambda>b. b\<lparr>bn_daemons := List.insert name (bn_daemons b)\<rparr>))))))"

definition benchmark_daemon_runtime ::
    "('w, 'c) bench_io \<Rightarrow> string \<Rightarrow> string \<Rightarrow> runtime_spec \<Rightarrow> nat \<Rightarrow> bool \<Rightarrow> ('w bench, iteration_result) prog" where
  "benchmark_daemon_runtime io socket key spec i warmup =
     bind_p (read_clock (bi_millis io)) (\<lambda>millis.
     bind_p (get_ssh_key io) (\<lambda>pubkey. \<lambda>b.
       let name = bench_name millis
       in case bind_p (tick io) (\<lambda>t0.
             finally_p
               (catch_p (measure_runtime io socket spec name pubkey) (\<lambda>e. on_result (failed_with (exn_msg e))))
               (bind_p (gets_p (\<lambda>(c, l). name \<in> set (bn_daemons c))) (\<lambda>active.
                  when_p active
                    (timed_destroy io t0 (client_destroy (bi_show io) socket (exchange_b io) name)
                      (modify_p (\<lambda>c. c\<lparr>bn_daemons := removeAll name (bn_daemons c)\<rparr>))))))
           (b, \<lparr>ln_result = new_result key (sp_display spec @ '' (Daemon)'') i warmup ''daemon'', ln_kernel = PNone, ln_conn = None\<rparr>) of
        (Ret _, c, l) \<Rightarrow> (Ret (ln_result l), c)
      | (Raise e, c, l) \<Rightarrow> (Raise e, c)
      | (Stuck, c, l) \<Rightarrow> (Stuck, c)))"

section \<open>The schedule\<close>

definition preflight_jupyter :: "('w, 'c) bench_io \<Rightarrow> bench_config \<Rightarrow> ('w bench, unit) prog" where
  "preflight_jupyter io config =
     bind_p (new_helper (send_b io) (jar_b io) (bc_base_url config) (bc_token config)) (\<lambda>h.
     then_p (modify_p (\<lambda>b. b\<lparr>bn_helper := Some h\<rparr>))
       (catch_p
         (bind_p (helper_ping (send_b io) h) (\<lambda>status.
            bind_p (lift_p (value_get status ''kernels'' (PInt 0))) (\<lambda>_. return_p ())))
         (\<lambda>e. if bc_mode config = ''jupyter'' then throw_p e else return_p ())))"

text \<open>\<open>", ".join(v)\<close> for its exception only: a list of texts, a text, or the keys of a dict.\<close>

definition can_join :: "pyval \<Rightarrow> exn + unit" where
  "can_join v =
     (let ok = (case v of PList xs \<Rightarrow> list_all (\<lambda>x. case x of PStr _ \<Rightarrow> True | _ \<Rightarrow> False) xs | PStr _ \<Rightarrow> True | PDict _ \<Rightarrow> True | _ \<Rightarrow> False)
      in if ok then Inr () else Inl (Exn TypeError ''can only join an iterable''))"

definition preflight_daemon :: "('w, 'c) bench_io \<Rightarrow> bench_config \<Rightarrow> ('w bench, unit) prog" where
  "preflight_daemon io config =
     then_p (modify_p (\<lambda>b. b\<lparr>bn_client := Some (bc_socket config)\<rparr>))
       (catch_p
         (bind_p (client_ping (bi_show io) (bc_socket config) (exchange_b io)) (\<lambda>info.
            lift_p (can_join (pget_default info ''capabilities'' (PList [])))))
         (\<lambda>e. if bc_mode config = ''daemon'' then throw_p e else return_p ()))"

definition keep_result :: "('w bench, iteration_result) prog \<Rightarrow> ('w bench, unit) prog" where
  "keep_result m = bind_p m (\<lambda>r. modify_p (\<lambda>b. b\<lparr>bn_results := bn_results b @ [r]\<rparr>))"

definition has_jupyter :: "bench_config \<Rightarrow> bool" where
  "has_jupyter config \<longleftrightarrow> bc_mode config \<in> {''jupyter'', ''both''}"

definition has_daemon :: "bench_config \<Rightarrow> bool" where
  "has_daemon config \<longleftrightarrow> bc_mode config \<in> {''daemon'', ''both''}"

text \<open>The assertions: without its client a mode is not run.\<close>

definition run_jupyter :: "('w, 'c) bench_io \<Rightarrow> bench_config \<Rightarrow> string \<Rightarrow> runtime_spec \<Rightarrow> nat \<Rightarrow> bool \<Rightarrow> ('w bench, iteration_result) prog" where
  "run_jupyter io config key spec i warmup =
     bind_p (gets_p bn_helper) (\<lambda>h. case h of None \<Rightarrow> raise_p AssertionError [] | Some h \<Rightarrow> benchmark_jupyter_runtime io config h key spec i warmup)"

definition run_daemon :: "('w, 'c) bench_io \<Rightarrow> string \<Rightarrow> runtime_spec \<Rightarrow> nat \<Rightarrow> bool \<Rightarrow> ('w bench, iteration_result) prog" where
  "run_daemon io key spec i warmup =
     bind_p (gets_p bn_client) (\<lambda>c. case c of None \<Rightarrow> raise_p AssertionError [] | Some path \<Rightarrow> benchmark_daemon_runtime io path key spec i warmup)"

text \<open>The flag of the signal handler is never reset, so leaving the loop is skipping what is left of it.\<close>

definition run_one :: "('w, 'c) bench_io \<Rightarrow> bench_config \<Rightarrow> nat \<Rightarrow> string \<times> runtime_spec \<Rightarrow> ('w bench, unit) prog" where
  "run_one io config i = (\<lambda>(key, spec).
     bind_p (gets_p bn_interrupted) (\<lambda>stop.
       if stop then return_p ()
       else then_p (when_p (has_jupyter config) (keep_result (run_jupyter io config key spec i (int i < bc_warmup config))))
              (when_p (has_daemon config) (keep_result (run_daemon io key spec i (int i < bc_warmup config))))))"

definition run_benchmark :: "('w, 'c) bench_io \<Rightarrow> bench_config \<Rightarrow> ('w bench, iteration_result list) prog" where
  "run_benchmark io config =
     then_p (when_p (has_jupyter config) (preflight_jupyter io config))
    (then_p (when_p (has_daemon config) (preflight_daemon io config))
    (then_p (foreach_p [0..<nat (bc_iterations config + bc_warmup config)]
              (\<lambda>i. foreach_p (map select_runtime (bc_runtimes config)) (run_one io config i)))
    (then_p (cleanup_temp_ssh_key io) (gets_p bn_results))))"

section \<open>An interruption\<close>

definition delete_quietly :: "('w, 'c) bench_io \<Rightarrow> jupyter_helper \<Rightarrow> pyval \<Rightarrow> ('w bench, unit) prog" where
  "delete_quietly io h kid =
     catch_p (delete_kernel (send_b io) h (str_of (bi_show io) kid) (PFloat ''10.0'')) (\<lambda>_. return_p ())"

definition destroy_quietly :: "('w, 'c) bench_io \<Rightarrow> string \<Rightarrow> string \<Rightarrow> ('w bench, unit) prog" where
  "destroy_quietly io socket name =
     catch_p (bind_p (client_destroy (bi_show io) socket (exchange_b io) name) (\<lambda>_. return_p ())) (\<lambda>_. return_p ())"

definition emergency_cleanup :: "('w, 'c) bench_io \<Rightarrow> ('w bench, unit) prog" where
  "emergency_cleanup io =
     bind_p (gets_p (\<lambda>b. (bn_helper b, bn_client b, bn_kernels b, bn_daemons b))) (\<lambda>(h, c, kernels, daemons).
     then_p (case h of None \<Rightarrow> return_p () | Some h \<Rightarrow> foreach_p kernels (delete_quietly io h))
    (then_p (case c of None \<Rightarrow> return_p () | Some path \<Rightarrow> foreach_p daemons (destroy_quietly io path))
       (cleanup_temp_ssh_key io)))"

text \<open>The handler of SIGINT and SIGTERM; its value is the status the process exits with.\<close>

definition on_interrupt :: "('w, 'c) bench_io \<Rightarrow> ('w bench, nat) prog" where
  "on_interrupt io =
     then_p (modify_p (\<lambda>b. b\<lparr>bn_interrupted := True\<rparr>)) (then_p (emergency_cleanup io) (return_p 130))"

section \<open>The command\<close>

record bench_args =
  ba_runtimes :: string
  ba_mode :: string
  ba_iterations :: int
  ba_warmup :: int
  ba_base_url :: string
  ba_token :: string
  ba_socket :: string
  ba_timeout :: string
  ba_format :: string
  ba_output :: "string option"
  ba_verbose :: bool
  ba_quiet :: bool

definition config_of_args :: "bench_args \<Rightarrow> bench_config" where
  "config_of_args a =
     \<lparr>bc_mode = ba_mode a, bc_runtimes = parse_runtimes_arg (ba_runtimes a), bc_iterations = max 1 (ba_iterations a),
      bc_warmup = max 0 (ba_warmup a), bc_base_url = ba_base_url a, bc_token = ba_token a, bc_socket = ba_socket a,
      bc_timeout = ba_timeout a, bc_format = ba_format a, bc_output = ba_output a, bc_verbose = ba_verbose a, bc_quiet = ba_quiet a\<rparr>"

definition make_report :: "(pyval \<Rightarrow> string) \<Rightarrow> (int \<Rightarrow> nat) \<Rightarrow> string \<Rightarrow> string \<Rightarrow> runtime_summary list \<Rightarrow> iteration_result list \<Rightarrow> bench_config \<Rightarrow> exn + string" where
  "make_report show_value ms3 now host ss rs config =
     (if bc_format config = ''markdown'' then format_markdown ms3 show_value ss
      else if bc_format config = ''json'' then format_json_data now host ss rs config
      else if bc_format config = ''csv'' then format_csv_data show_value rs
      else format_table ms3 show_value ss)"

definition exit_code :: "iteration_result list \<Rightarrow> nat" where
  "exit_code rs = (if list_ex (\<lambda>r. \<not> ir_warmup r \<and> \<not> ir_success r) rs then 1 else 0)"

definition async_main ::
    "('w, 'c) bench_io \<Rightarrow> save_io \<Rightarrow> (int \<Rightarrow> nat) \<Rightarrow> string \<Rightarrow> string \<Rightarrow> bench_args \<Rightarrow> ('w bench \<times> out_entry dir, nat) prog" where
  "async_main io save ms3 now host a =
     (let config = config_of_args a
      in bind_p (zoom_p fst (\<lambda>b s. (b, snd s)) (run_benchmark io config)) (\<lambda>rs.
         bind_p (lift_p (make_report (bi_show io) ms3 now host (summarize_results (bi_round io) rs) rs config)) (\<lambda>report.
         then_p (case bc_output config of
                   None \<Rightarrow> return_p ()
                 | Some path \<Rightarrow> when_p (path \<noteq> []) (zoom_p snd (\<lambda>d s. (fst s, d)) (write_output_file save path report)))
           (return_p (exit_code rs)))))"

end
