(* ===== verification/Bench_Requests.thy ===== *)
theory Bench_Requests
  imports Bench_Runner
begin

text \<open>
  What one benchmark asks of the server and of the daemon, on every path: the creations and the
  destructions, and what stays among the active kernels and runtimes.
\<close>

section \<open>What a step leaves alone\<close>

lemma keeps_ext_b [keeps_intros]: "(\<And>w b. f (b\<lparr>bn_world := w\<rparr>) = f b) \<Longrightarrow> keeps f (ext_b m)"
  by (auto simp: keeps_def ext_b_def zoom_p_def split: prod.splits)

lemma keeps_read_clock [keeps_intros]: "(\<And>w b. f (b\<lparr>bn_world := w\<rparr>) = f b) \<Longrightarrow> keeps f (read_clock clk)"
  by (simp add: read_clock_def keeps_ext_b)

lemma keeps_on_bench [keeps_intros]: "(\<And>l. keeps (\<lambda>b. f (b, l)) m) \<Longrightarrow> keeps f (on_bench m)"
  by (auto simp: keeps_def on_bench_def zoom_p_def split: prod.splits) (metis snd_conv)

lemma keeps_on_result [keeps_intros]: "(\<And>b l. f (b, l\<lparr>ln_result := g (ln_result l)\<rparr>) = f (b, l)) \<Longrightarrow> keeps f (on_result g)"
  unfolding on_result_def by (rule keeps_modify) (auto split: prod.splits)

lemma keeps_modify_pair [keeps_intros]: "(\<And>b l. f (g b l) = f (b, l)) \<Longrightarrow> keeps f (modify_p (\<lambda>(b, l). g b l))"
  by (rule keeps_modify) (auto split: prod.splits)

lemma keeps_execute_code [keeps_intros]:
  "keeps f (wi_uuid io) \<Longrightarrow> (\<And>m. keeps f (wi_write io c m)) \<Longrightarrow> keeps f (wi_observe io c) \<Longrightarrow> keeps f (execute_code io c code t)"
  unfolding execute_code_def by (intro keeps_intros; assumption?)

text \<open>The parts of the state the properties are about.\<close>

definition calls_view :: "('w, 'c) attempt \<Rightarrow> bench_call list \<times> pyval list \<times> string list \<times> pyval \<times> pyval \<times> bool \<times> string option" where
  "calls_view s = (bn_trace (fst s), bn_kernels (fst s), bn_daemons (fst s), ln_kernel (snd s), ir_kernel (ln_result (snd s)),
     ir_success (ln_result (snd s)), ir_error (ln_result (snd s)))"

lemma keeps_tick [keeps_intros]: "keeps calls_view (tick io)"
  unfolding tick_def by (intro keeps_intros) (simp add: calls_view_def)

lemma keeps_connect: "keeps calls_view (connect_phase io h)"
  unfolding connect_phase_def connect_websocket_def by (intro keeps_intros) (simp_all add: calls_view_def)

lemma keeps_probe: "keeps calls_view (probe_phase io t0 conn)"
  unfolding probe_phase_def ws_b_def
  by (intro keeps_intros) (simp_all add: calls_view_def keeps_ext_b keeps_on_bench split: option.splits)

lemma keeps_warm: "keeps calls_view (warm_phase io conn)"
  unfolding warm_phase_def ws_b_def
  by (intro keeps_intros) (simp_all add: calls_view_def keeps_ext_b keeps_on_bench)

lemma keeps_close: "keeps calls_view (close_phase io)"
  unfolding close_phase_def by (intro keeps_intros) (simp_all add: calls_view_def keeps_ext_b keeps_on_bench split: option.splits)


lemma zoom_step: "zoom_p get put m s = (case m (get s) of (r, t) \<Rightarrow> (r, put t s))"
  by (simp add: zoom_p_def)

lemma on_bench_run: "on_bench m (b, l) = (case m b of (r, c) \<Rightarrow> (r, (c, l)))"
  by (simp add: on_bench_def zoom_p_def)

lemma tick_run: "tick io (b, l) = (Ret (fst (bi_tick io (bn_world b))), (b\<lparr>bn_world := snd (bi_tick io (bn_world b))\<rparr>, l))"
  by (simp add: tick_def on_bench_run read_clock_def ext_b_def zoom_p_def split: prod.splits)

lemma on_result_run: "on_result f (b, l) = (Ret (), (b, l\<lparr>ln_result := f (ln_result l)\<rparr>))"
  by (simp add: on_result_def)

lemma bind_tick: "bind_p (tick io) f (b, l) = f (fst (bi_tick io (bn_world b))) (b\<lparr>bn_world := snd (bi_tick io (bn_world b))\<rparr>, l)"
  by (simp add: bind_p_def tick_run)

lemma then_on_result: "then_p (on_result g) m (b, l) = m (b, l\<lparr>ln_result := g (ln_result l)\<rparr>)"
  by (simp add: then_p_def bind_p_def on_result_run)

text \<open>A request leaves the trace behind, and the world as the server made it.\<close>

lemma send_run:
  "send_b io rq b = (case bi_open io rq (bn_world b) of (r, w) \<Rightarrow> (r, b\<lparr>bn_trace := bn_trace b @ [Asked rq], bn_world := w\<rparr>))"
  by (simp add: send_b_def note_call_def ext_b_def zoom_p_def)

definition reply_id :: "string res \<Rightarrow> pyval" where
  "reply_id r = (case r of Ret body \<Rightarrow> (case answer_json body of Inr (PDict d) \<Rightarrow> pget_default d ''id'' PNone | _ \<Rightarrow> PNone) | _ \<Rightarrow> PNone)"

lemma create_phase_run:
  fixes b :: "'w bench"
  assumes "create_phase io config h spec (b, l) = (r, t)" "ln_kernel l = PNone" "ir_kernel (ln_result l) = PNone"
  defines "rq \<equiv> create_request h (sp_name spec) (PFloat (bc_timeout config))"
  defines "kid \<equiv> reply_id (fst (bi_open io rq (snd (bi_tick io (bn_world b)))))"
  shows "calls_view t = (bn_trace b @ [Asked rq],
     (if truthy kid \<and> hashable kid then List.insert kid (bn_kernels b) else bn_kernels b), bn_daemons b, kid, kid,
     ir_success (ln_result l), ir_error (ln_result l))"
proof -
  let ?b1 = "b\<lparr>bn_world := snd (bi_tick io (bn_world b))\<rparr>"
  obtain a w where open_rq: "bi_open io rq (snd (bi_tick io (bn_world b))) = (a, w)" by fastforce
  let ?b2 = "?b1\<lparr>bn_trace := bn_trace b @ [Asked rq], bn_world := w\<rparr>"
  have send: "send_b io rq ?b1 = (a, ?b2)" using open_rq by (simp add: send_run)
  show ?thesis
  proof (cases a)
    case (Ret body)
    show ?thesis
    proof (cases "answer_json body")
      case (Inl e)
      then show ?thesis
        using assms(1-3) send Ret open_rq
        by (auto simp: create_phase_def tick_run create_kernel_def ask_json_def on_bench_run bind_p_def lift_p_def calls_view_def
              reply_id_def kid_def simp flip: rq_def)
    next
      case (Inr v)
      show ?thesis
      proof (cases "\<exists>d. v = PDict d")
        case True
        then obtain d where "v = PDict d" by blast
        then show ?thesis
          using assms(1-3) send Ret open_rq Inr
          by (auto simp: create_phase_def tick_run create_kernel_def ask_json_def on_bench_run bind_p_def lift_p_def calls_view_def
                reply_id_def kid_def then_on_result tick_run on_result_run then_p_def value_get_def when_p_def on_kernels_def
                simp flip: rq_def split: if_splits)
      next
        case False
        then have "value_get v ''id'' PNone = Inl (Exn AttributeError ''object has no attribute get'')" "reply_id (Ret body) = PNone"
          using Inr by (auto simp: value_get_def reply_id_def split: pyval.splits)
        then show ?thesis
          using assms(1-3) send Ret open_rq Inr
          by (auto simp: create_phase_def tick_run create_kernel_def ask_json_def on_bench_run bind_p_def lift_p_def calls_view_def
                kid_def then_on_result tick_run on_result_run then_p_def simp flip: rq_def)
      qed
    qed
  qed (use assms(1-3) send open_rq in \<open>auto simp: create_phase_def tick_run create_kernel_def ask_json_def on_bench_run bind_p_def
         calls_view_def reply_id_def kid_def simp flip: rq_def\<close>)
qed

lemma measure_kernel_view:
  assumes "measure_kernel io config h spec t0 s = (r, t)"
  shows "\<exists>q u. create_phase io config h spec s = (q, u) \<and> calls_view t = calls_view u"
proof -
  obtain q u where c: "create_phase io config h spec s = (q, u)" by (cases "create_phase io config h spec s")
  have rest: "keeps calls_view (bind_p (connect_phase io h) (\<lambda>conn. then_p (probe_phase io t0 conn) (warm_phase io conn)))"
    by (intro keeps_intros keeps_connect keeps_probe keeps_warm)
  have "calls_view t = calls_view u"
    using assms c keepsD [OF rest] by (cases q) (auto simp: measure_kernel_def then_p_def bind_p_def)
  then show ?thesis using c by blast
qed

lemma timed_destroy_run:
  fixes b :: "'w bench"
  assumes "timed_destroy io t0 remove discard (b, l) = (r, t)" "r \<noteq> Stuck"
  shows "\<exists>q c. remove (b\<lparr>bn_world := snd (bi_tick io (bn_world b))\<rparr>) = (q, c) \<and> q \<noteq> Stuck \<and>
     (\<exists>w l' a d. discard (c\<lparr>bn_world := w\<rparr>) = (a, d) \<and> t = (d, l') \<and> r = a \<and> ln_kernel l' = ln_kernel l \<and>
        ir_kernel (ln_result l') = ir_kernel (ln_result l) \<and>
        (case q of Ret _ \<Rightarrow> ir_success (ln_result l') = ir_success (ln_result l) \<and> ir_error (ln_result l') = ir_error (ln_result l)
         | Raise e \<Rightarrow> l' = l\<lparr>ln_result := destroy_failed e (ln_result l)\<rparr> | Stuck \<Rightarrow> False))"
proof -
  obtain q c where q: "remove (b\<lparr>bn_world := snd (bi_tick io (bn_world b))\<rparr>) = (q, c)" by fastforce
  have world: "c = c\<lparr>bn_world := bn_world c\<rparr>" by simp
  show ?thesis
  proof (cases q)
    case (Ret x)
    then show ?thesis
      using assms q
      by (auto simp: timed_destroy_def tick_run finally_p_def catch_p_def then_p_def bind_p_def on_bench_run tick_run on_result_run
          split: res.splits prod.splits)
  next
    case (Raise e)
    show ?thesis
    proof (intro exI conjI)
      show "remove (b\<lparr>bn_world := snd (bi_tick io (bn_world b))\<rparr>) = (q, c)" "q \<noteq> Stuck" using q Raise by auto
      show "discard (c\<lparr>bn_world := bn_world c\<rparr>) = (r, snd (r, fst t))" "t = (snd (r, fst t), l\<lparr>ln_result := destroy_failed e (ln_result l)\<rparr>)" "r = r"
        using assms q Raise
        by (auto simp: timed_destroy_def tick_run finally_p_def catch_p_def then_p_def bind_p_def on_bench_run tick_run on_result_run
            split: res.splits prod.splits)
    qed (auto simp: Raise destroy_failed_def failed_with_def)
  next
    case Stuck
    then show ?thesis
      using assms q
      by (auto simp: timed_destroy_def tick_run finally_p_def catch_p_def then_p_def bind_p_def on_bench_run)
  qed
qed


lemma calls_viewD:
  "calls_view s = (tr, ks, ds, k, ik, ok, e) \<Longrightarrow> bn_trace (fst s) = tr \<and> bn_kernels (fst s) = ks \<and> bn_daemons (fst s) = ds \<and>
     ln_kernel (snd s) = k \<and> ir_kernel (ln_result (snd s)) = ik \<and> ir_success (ln_result (snd s)) = ok \<and> ir_error (ln_result (snd s)) = e"
  by (simp add: calls_view_def)

lemma kernel_measured:
  fixes b :: "'w bench"
  assumes "catch_p (measure_kernel io config h spec t0) (\<lambda>e. on_result (failed_with (exn_msg e))) (b, l) = (r, t)" "r \<noteq> Stuck"
    and fresh: "ln_kernel l = PNone" "ir_kernel (ln_result l) = PNone" "ir_success (ln_result l)" "ir_error (ln_result l) = None"
  defines "rq \<equiv> create_request h (sp_name spec) (PFloat (bc_timeout config))"
  defines "kid \<equiv> reply_id (fst (bi_open io rq (snd (bi_tick io (bn_world b)))))"
  shows "r = Ret () \<and> (\<exists>ok e. (ok \<longleftrightarrow> e = None) \<and> calls_view t = (bn_trace b @ [Asked rq],
     (if truthy kid \<and> hashable kid then List.insert kid (bn_kernels b) else bn_kernels b), bn_daemons b, kid, kid, ok, e))"
proof -
  obtain q u where m: "measure_kernel io config h spec t0 (b, l) = (q, u)" by (cases "measure_kernel io config h spec t0 (b, l)")
  obtain q' u' where c: "create_phase io config h spec (b, l) = (q', u')" "calls_view u = calls_view u'"
    using measure_kernel_view [OF m] by blast
  note view = create_phase_run [OF c(1) fresh(1,2), folded rq_def, folded kid_def]
  obtain c' l' where u: "u = (c', l')" by (cases u)
  show ?thesis
    using assms(1,2) m u view c(2) fresh(3,4)
    by (cases q) (auto simp: catch_p_def on_result_run calls_view_def failed_with_def)
qed


definition delete_call :: "('w, 'c) bench_io \<Rightarrow> bench_config \<Rightarrow> jupyter_helper \<Rightarrow> pyval \<Rightarrow> bench_call list" where
  "delete_call io config h kid =
     (if truthy kid then [Asked (delete_request h (str_of (bi_show io) kid) (PFloat (bc_timeout config)))] else [])"

lemma delete_phase_run:
  fixes b :: "'w bench"
  assumes "delete_phase io config h t0 (b, l) = (r, t)" "r \<noteq> Stuck" "ln_kernel l = kid" "ir_success (ln_result l) \<longleftrightarrow> ir_error (ln_result l) = None"
  shows "bn_trace (fst t) = bn_trace b @ delete_call io config h kid \<and> bn_daemons (fst t) = bn_daemons b \<and>
     set (bn_kernels (fst t)) = set (bn_kernels b) - (if truthy kid \<and> hashable kid then {kid} else {}) \<and>
     ir_kernel (ln_result (snd t)) = ir_kernel (ln_result l) \<and>
     (ir_success (ln_result (snd t)) \<longleftrightarrow> ir_error (ln_result (snd t)) = None) \<and>
     (case r of Ret _ \<Rightarrow> \<not> truthy kid \<or> hashable kid | _ \<Rightarrow> truthy kid \<and> \<not> hashable kid)"
proof (cases "truthy kid")
  case False
  then have "r = Ret ()" "t = (b, l)" using assms(1,3) by (auto simp: delete_phase_def)
  then show ?thesis using False assms(4) by (simp add: delete_call_def)
next
  case True
  then have "timed_destroy io t0 (delete_kernel (send_b io) h (str_of (bi_show io) kid) (PFloat (bc_timeout config)))
      (on_kernels (removeAll kid) kid) (b, l) = (r, t)"
    using assms(1,3) by (simp add: delete_phase_def)
  from timed_destroy_run [OF this assms(2)]
  obtain q c w l' a d where del: "delete_kernel (send_b io) h (str_of (bi_show io) kid) (PFloat (bc_timeout config))
        (b\<lparr>bn_world := snd (bi_tick io (bn_world b))\<rparr>) = (q, c)" "q \<noteq> Stuck"
    and dis: "on_kernels (removeAll kid) kid (c\<lparr>bn_world := w\<rparr>) = (a, d)" "t = (d, l')" "r = a"
      "ir_kernel (ln_result l') = ir_kernel (ln_result l)"
    and res: "case q of Ret _ \<Rightarrow> ir_success (ln_result l') = ir_success (ln_result l) \<and> ir_error (ln_result l') = ir_error (ln_result l)
       | Raise e \<Rightarrow> l' = l\<lparr>ln_result := destroy_failed e (ln_result l)\<rparr> | Stuck \<Rightarrow> False"
    by blast
  have c: "bn_trace c = bn_trace b @ delete_call io config h kid" "bn_kernels c = bn_kernels b" "bn_daemons c = bn_daemons b"
    using del True by (auto simp: delete_kernel_def bind_p_def send_run delete_call_def split: prod.splits res.splits)
  have "ir_success (ln_result l') \<longleftrightarrow> ir_error (ln_result l') = None"
    using res assms(4) by (auto simp: destroy_failed_def failed_with_def split: res.splits)
  then show ?thesis
    using True c dis by (auto simp: on_kernels_def split: if_splits)
qed

lemma jupyter_run:
  fixes b :: "'w bench"
  assumes "benchmark_jupyter_runtime io config h key spec i warmup b = (r, b')" "r \<noteq> Stuck"
  defines "rq \<equiv> create_request h (sp_name spec) (PFloat (bc_timeout config))"
  defines "kid \<equiv> reply_id (fst (bi_open io rq (snd (bi_tick io (snd (bi_tick io (bn_world b)))))))"
  shows "bn_trace b' = bn_trace b @ Asked rq # delete_call io config h kid \<and>
     set (bn_kernels b') = set (bn_kernels b) - (if truthy kid \<and> hashable kid then {kid} else {}) \<and>
     bn_daemons b' = bn_daemons b \<and>
     (case r of
        Ret res \<Rightarrow> ir_kernel res = kid \<and> (ir_success res \<longleftrightarrow> ir_error res = None)
      | _ \<Rightarrow> truthy kid \<and> \<not> hashable kid)"
proof -
  let ?l = "\<lparr>ln_result = new_result key (sp_display spec) i warmup ''jupyter'', ln_kernel = PNone, ln_conn = None\<rparr>"
  let ?b1 = "b\<lparr>bn_world := snd (bi_tick io (bn_world b))\<rparr>" and ?t0 = "fst (bi_tick io (bn_world b))"
  let ?m = "catch_p (measure_kernel io config h spec ?t0) (\<lambda>e. on_result (failed_with (exn_msg e)))"
  obtain r1 t1 where m: "?m (?b1, ?l) = (r1, t1)" by (cases "?m (?b1, ?l)")
  have "r1 \<noteq> Stuck"
    using assms(1,2) m by (auto simp: benchmark_jupyter_runtime_def bind_tick finally_p_def split: prod.splits)
  then obtain ok e where one: "r1 = Ret ()" and view: "ok \<longleftrightarrow> e = None" "calls_view t1 = (bn_trace b @ [Asked rq],
     (if truthy kid \<and> hashable kid then List.insert kid (bn_kernels b) else bn_kernels b), bn_daemons b, kid, kid, ok, e)"
    using kernel_measured [OF m] by (auto simp: new_result_def rq_def kid_def cong: if_cong)
  obtain r2 b2 l2 where cl: "close_phase io t1 = (r2, (b2, l2))" by (cases "close_phase io t1") auto
  have r2: "r2 = Ret ()" if "r2 \<noteq> Stuck"
    using that cl by (auto simp: close_phase_def catch_p_def bind_p_def split: prod.splits option.splits res.splits)
  have run: "(r, b') = (case then_p (close_phase io) (delete_phase io config h ?t0) t1 of
      (Ret _, c, l) \<Rightarrow> (Ret (ln_result l), c) | (Raise e, c, l) \<Rightarrow> (Raise e, c) | (Stuck, c, l) \<Rightarrow> (Stuck, c))"
    using assms(1) m one
    by (cases "then_p (close_phase io) (delete_phase io config h ?t0) t1"; cases "fst (then_p (close_phase io) (delete_phase io config h ?t0) t1)")
      (simp_all add: benchmark_jupyter_runtime_def bind_tick finally_p_def split: prod.splits)
  have "r2 \<noteq> Stuck" using run assms(2) cl by (auto simp: then_p_def bind_p_def)
  with r2 have "r2 = Ret ()" by simp
  obtain r3 b3 l3 where d: "delete_phase io config h ?t0 (b2, l2) = (r3, (b3, l3))"
    by (cases "delete_phase io config h ?t0 (b2, l2)") auto
  have "then_p (close_phase io) (delete_phase io config h ?t0) t1 = (r3, (b3, l3))"
    using cl d \<open>r2 = Ret ()\<close> by (simp add: then_p_def bind_p_def)
  with run have r: "r = (case r3 of Ret _ \<Rightarrow> Ret (ln_result l3) | Raise e \<Rightarrow> Raise e | Stuck \<Rightarrow> Stuck)" and b': "b' = b3"
    by (cases r3; simp)+
  then have ns: "r3 \<noteq> Stuck" using assms(2) by auto
  have v2: "bn_trace b2 = bn_trace b @ [Asked rq]" "set (bn_kernels b2) = (if truthy kid \<and> hashable kid then {kid} else {}) \<union> set (bn_kernels b)"
    "bn_daemons b2 = bn_daemons b" "ln_kernel l2 = kid" "ir_kernel (ln_result l2) = kid" "ir_success (ln_result l2) \<longleftrightarrow> ir_error (ln_result l2) = None"
    using view keepsD [OF keeps_close cl] by (simp_all add: calls_view_def)
  show ?thesis
    using delete_phase_run [OF d ns v2(4,6)] v2 b' r by (cases r3) auto
qed

section \<open>The requests of one kernel\<close>

text \<open>
  C15. Every kernel the server created for a benchmark is deleted again: whatever fails after the
  creation, the run sends exactly the request that creates a kernel and, when the answer has an
  id, the request that deletes this id; the id is not left among the active kernels, and the
  others stay. The run only raises on an id that cannot be a member of a set, and a result is
  a success exactly when it has no error.
\<close>

theorem every_kernel_is_deleted:
  fixes b :: "'w bench"
  assumes "benchmark_jupyter_runtime io config h key spec i warmup b = (r, b')" "r \<noteq> Stuck"
  defines "rq \<equiv> create_request h (sp_name spec) (PFloat (bc_timeout config))"
  defines "kid \<equiv> reply_id (fst (bi_open io rq (snd (bi_tick io (snd (bi_tick io (bn_world b)))))))"
  shows "bn_trace b' = bn_trace b @ Asked rq # delete_call io config h kid \<and>
     set (bn_kernels b') = set (bn_kernels b) - (if truthy kid \<and> hashable kid then {kid} else {}) \<and>
     bn_daemons b' = bn_daemons b \<and>
     (case r of
        Ret res \<Rightarrow> ir_kernel res = kid \<and> (ir_success res \<longleftrightarrow> ir_error res = None)
      | _ \<Rightarrow> truthy kid \<and> \<not> hashable kid)"
  using jupyter_run [OF assms(1,2)] by (simp only: rq_def kid_def)

text \<open>A server that creates a kernel and then refuses the web socket.\<close>

definition sample_bench_io :: "(unit, unit) bench_io" where
  "sample_bench_io =
     \<lparr>bi_tick = (\<lambda>w. (0, w)), bi_millis = (\<lambda>w. (1700000012345678, w)),
      bi_open = (\<lambda>rq. if hr_method rq = ''POST'' then return_p ''{\"id\": \"k1\"}'' else return_p ''{}''), bi_jar = (\<lambda>_. []),
      bi_connect = (\<lambda>_ _. raise_p OSError ''Connection refused''),
      bi_ws = \<lparr>wi_uuid = return_p ''u'', wi_write = (\<lambda>_ _. return_p ()), wi_observe = (\<lambda>_. return_p (0, []))\<rparr>,
      bi_close = (\<lambda>_. return_p ()), bi_exchange = (\<lambda>_. return_p [Inr (''{\"ok\": true}'' @ [CHR 0x0A])]),
      bi_mkstemp = return_p ''/tmp/k'', bi_keygen = (\<lambda>_. return_p ()), bi_read = (\<lambda>_. return_p ''ssh-ed25519 AAAA''),
      bi_unlink = (\<lambda>_. return_p ()), bi_pid = 7, bi_show = (\<lambda>_. []), bi_round = round\<rparr>"

definition sample_config :: bench_config where
  "sample_config =
     \<lparr>bc_mode = ''jupyter'', bc_runtimes = [''jail''], bc_iterations = 1, bc_warmup = 0, bc_base_url = ''http://h'', bc_token = [],
      bc_socket = ''s'', bc_timeout = ''90.0'', bc_format = ''csv'', bc_output = None, bc_verbose = False, bc_quiet = True\<rparr>"

definition sample_helper :: jupyter_helper where
  "sample_helper = \<lparr>jh_base = ''http://h'', jh_ws = ''ws://h'', jh_token = [], jh_xsrf = None\<rparr>"

definition sample_bench :: "unit bench" where
  "sample_bench =
     \<lparr>bn_world = (), bn_results = [], bn_kernels = [], bn_daemons = [], bn_helper = Some sample_helper, bn_client = Some ''s'', bn_key = None,
      bn_public = None, bn_interrupted = False, bn_trace = []\<rparr>"

lemma sample_reply: "answer_json ''{\"id\": \"k1\"}'' = Inr (PDict [(''id'', PStr ''k1'')])" "answer_json ''{}'' = Inr (PDict [])"
  by code_simp+

lemma sample_runs: "fst (benchmark_jupyter_runtime sample_bench_io sample_config sample_helper ''jail'' (custom_spec ''jail'') 0 False sample_bench) \<noteq> Stuck"
  by (simp add: benchmark_jupyter_runtime_def bind_tick sample_bench_io_def finally_p_def catch_p_def measure_kernel_def create_phase_def
    create_kernel_def ask_json_def on_bench_run send_run create_request_def then_p_def bind_p_def tick_run sample_reply lift_p_def
    on_result_run value_get_def pget_default_def dir_get_def connect_phase_def connect_websocket_def ext_b_def zoom_p_def
    close_phase_def delete_phase_def timed_destroy_def delete_kernel_def delete_request_def on_kernels_def hashable_def when_p_def)

theorem every_kernel_is_deleted_witness:
  "map (\<lambda>c. case c of Asked rq \<Rightarrow> (hr_method rq, hr_url rq) | Told m \<Rightarrow> (''TELL'', m))
     (bn_trace (snd (benchmark_jupyter_runtime sample_bench_io sample_config sample_helper ''jail'' (custom_spec ''jail'') 0 False sample_bench)))
   = [(''POST'', ''http://h/api/kernels''), (''DELETE'', ''http://h/api/kernels/k1'')]"
proof -
  obtain r b' where run: "benchmark_jupyter_runtime sample_bench_io sample_config sample_helper ''jail'' (custom_spec ''jail'') 0 False sample_bench = (r, b')"
    by fastforce
  then have "r \<noteq> Stuck" using sample_runs by simp
  note trace = conjunct1 [OF every_kernel_is_deleted [OF run this]]
  have "reply_id (fst (bi_open sample_bench_io (create_request sample_helper n t) w)) = PStr ''k1''" for n t w
    using sample_reply(1) by (simp add: sample_bench_io_def create_request_def reply_id_def pget_default_def dir_get_def)
  note id = this
  show ?thesis
    unfolding run snd_conv trace id
    by (simp add: delete_call_def sample_helper_def sample_bench_def create_request_def delete_request_def str_of_def)
qed

section \<open>The requests of one runtime\<close>

text \<open>A request to the daemon.\<close>

lemma exchange_run:
  "exchange_b io m b = (case bi_exchange io m (bn_world b) of (r, w) \<Rightarrow> (r, b\<lparr>bn_trace := bn_trace b @ [Told m], bn_world := w\<rparr>))"
  by (simp add: exchange_b_def note_call_def ext_b_def zoom_p_def)

lemma client_request_run:
  assumes "client_request v p (exchange_b io) action payload b = (r, c)"
  shows "\<exists>w. c = b\<lparr>bn_trace := bn_trace b @ [Told (encode_request action payload)], bn_world := w\<rparr>"
  using assms
  by (auto simp: client_request_def bind_p_def catch_p_def exchange_run lift_p_def split: prod.splits res.splits sum.splits if_splits)

definition creation_bytes :: "('w, 'c) bench_io \<Rightarrow> runtime_spec \<Rightarrow> string \<Rightarrow> string \<Rightarrow> string" where
  "creation_bytes io spec name pubkey =
     (let common = [(''name'', PStr name), (''owner_pid'', PInt (bi_pid io)), (''ssh_public_key'', PStr pubkey)]
      in if sp_type spec = ''jail'' then encode_request ''create-jail'' common
         else encode_request ''create-bhyve'' (common @
           [(''profile'', PStr (case sp_profile spec of None \<Rightarrow> ''freebsd-python'' | Some p \<Rightarrow> if p = [] then ''freebsd-python'' else p))]))"

definition destruction_bytes :: "string \<Rightarrow> string" where
  "destruction_bytes name = encode_request ''destroy'' [(''name'', PStr name)]"

lemma ask_runtime_run:
  assumes "ask_runtime io socket spec name pubkey b = (r, c)"
  shows "\<exists>w. c = b\<lparr>bn_trace := bn_trace b @ [Told (creation_bytes io spec name pubkey)], bn_world := w\<rparr>"
  using assms client_request_run
  by (auto simp: ask_runtime_def creation_bytes_def client_create_jail_def client_create_bhyve_def Let_def split: if_splits)

lemma destroy_runtime_run:
  assumes "client_destroy v socket (exchange_b io) name b = (r, c)"
  shows "\<exists>w. c = b\<lparr>bn_trace := bn_trace b @ [Told (destruction_bytes name)], bn_world := w\<rparr>"
  using client_request_run [OF assms [unfolded client_destroy_def]] by (simp add: destruction_bytes_def)

lemma measure_runtime_run:
  fixes b :: "'w bench"
  assumes "catch_p (measure_runtime io socket spec name pubkey) (\<lambda>e. on_result (failed_with (exn_msg e))) (b, l) = (r, (c, l'))" "r \<noteq> Stuck"
  shows "r = Ret () \<and> bn_trace c = bn_trace b @ [Told (creation_bytes io spec name pubkey)] \<and> bn_kernels c = bn_kernels b \<and>
     (bn_daemons c = List.insert name (bn_daemons b) \<and> ir_success (ln_result l') = ir_success (ln_result l) \<and>
        ir_error (ln_result l') = ir_error (ln_result l) \<or>
      bn_daemons c = bn_daemons b \<and> \<not> ir_success (ln_result l') \<and> ir_error (ln_result l') \<noteq> None)"
proof -
  obtain q d where m: "ask_runtime io socket spec name pubkey (b\<lparr>bn_world := snd (bi_tick io (bn_world b))\<rparr>) = (q, d)"
    by (cases "ask_runtime io socket spec name pubkey (b\<lparr>bn_world := snd (bi_tick io (bn_world b))\<rparr>)")
  obtain w where d: "d = b\<lparr>bn_trace := bn_trace b @ [Told (creation_bytes io spec name pubkey)], bn_world := w\<rparr>"
    using ask_runtime_run [OF m] by auto
  show ?thesis
    using assms m
    by (cases q) (auto simp: d measure_runtime_def catch_p_def tick_run then_p_def bind_p_def on_bench_run on_result_run failed_with_def)
qed

definition forget_daemon :: "string \<Rightarrow> ('w bench, unit) prog" where
  "forget_daemon name = modify_p (\<lambda>c. c\<lparr>bn_daemons := removeAll name (bn_daemons c)\<rparr>)"

lemma destroy_phase_run:
  fixes b :: "'w bench"
  assumes "timed_destroy io t0 (client_destroy v socket (exchange_b io) name) (forget_daemon name) (b, l) = (r, (c, l'))" "r \<noteq> Stuck"
    "ir_success (ln_result l) \<longleftrightarrow> ir_error (ln_result l) = None"
  shows "r = Ret () \<and> bn_trace c = bn_trace b @ [Told (destruction_bytes name)] \<and> bn_kernels c = bn_kernels b \<and>
     bn_daemons c = removeAll name (bn_daemons b) \<and> (ir_success (ln_result l') \<longleftrightarrow> ir_error (ln_result l') = None)"
proof -
  from timed_destroy_run [OF assms(1,2)]
  obtain q d w a e where d: "client_destroy v socket (exchange_b io) name (b\<lparr>bn_world := snd (bi_tick io (bn_world b))\<rparr>) = (q, d)" "q \<noteq> Stuck"
    "forget_daemon name (d\<lparr>bn_world := w\<rparr>) = (a, e)" "c = e" "r = a"
    and res: "case q of Ret _ \<Rightarrow> ir_success (ln_result l') = ir_success (ln_result l) \<and> ir_error (ln_result l') = ir_error (ln_result l)
       | Raise e \<Rightarrow> l' = l\<lparr>ln_result := destroy_failed e (ln_result l)\<rparr> | Stuck \<Rightarrow> False"
    by blast
  have "ir_success (ln_result l') \<longleftrightarrow> ir_error (ln_result l') = None"
    using res assms(3) by (auto simp: destroy_failed_def failed_with_def split: res.splits)
  then show ?thesis
    using d destroy_runtime_run [OF d(1)] by (auto simp: forget_daemon_def)
qed

lemma ssh_key_run:
  assumes "get_ssh_key io b = (r, c)"
  shows "bn_trace c = bn_trace b \<and> bn_daemons c = bn_daemons b \<and> bn_kernels c = bn_kernels b \<and> bn_results c = bn_results b \<and>
    bn_interrupted c = bn_interrupted b \<and> bn_helper c = bn_helper b \<and> bn_client c = bn_client b"
proof -
  have "keeps (\<lambda>b. (bn_trace b, bn_daemons b, bn_kernels b, bn_results b, bn_interrupted b, bn_helper b, bn_client b)) (get_ssh_key io)"
    unfolding get_ssh_key_def by (intro keeps_intros) simp_all
  from keepsD [OF this assms] show ?thesis by simp
qed

text \<open>The name of a runtime of the benchmark is one the daemon accepts.\<close>

lemma nat_str_length: "n < 10 ^ Suc k \<Longrightarrow> length (nat_str n) \<le> Suc k"
proof (induction k arbitrary: n)
  case 0
  then show ?case by (simp add: nat_str.simps [of n])
next
  case (Suc k)
  then have "n div 10 < 10 ^ Suc k" by (simp add: less_mult_imp_div_less)
  then show ?case using Suc.IH [of "n div 10"] by (simp add: nat_str.simps [of n])
qed

lemma bench_name_ok: "runtime_name_ok (bench_name millis)"
proof -
  let ?d = "zero_pad 8 (nat_str (nat (millis mod 100000000)))"
  have "nat (millis mod 100000000) < 10 ^ Suc 7"
    using pos_mod_bound [of 100000000 millis] by (simp add: nat_less_iff)
  then have "length (nat_str (nat (millis mod 100000000))) \<le> 8" using nat_str_length [of _ 7] by fastforce
  then have "length ?d = 8" by (simp add: zero_pad_def)
  moreover have "list_all (\<lambda>c. ascii_lower c \<or> ascii_digit c) ?d"
    by (auto simp: zero_pad_def list_all_iff ascii_digit_def dest!: nat_str_digits)
  ultimately show ?thesis
    by (simp add: runtime_name_ok_def bench_name_def runtime_prefix_def starts_with_def Let_def ascii_lower_def)
qed

lemma daemon_run:
  fixes b :: "'w bench"
  assumes "benchmark_daemon_runtime io socket key spec i warmup b = (r, b')" "r \<noteq> Stuck"
  defines "name \<equiv> bench_name (fst (bi_millis io (bn_world b)))"
  assumes "name \<notin> set (bn_daemons b)"
  shows "runtime_name_ok name \<and> bn_daemons b' = bn_daemons b \<and> bn_kernels b' = bn_kernels b \<and>
     (case r of
        Ret res \<Rightarrow> (ir_success res \<longleftrightarrow> ir_error res = None) \<and>
          (\<exists>pubkey. bn_trace b' = bn_trace b @ [Told (creation_bytes io spec name pubkey), Told (destruction_bytes name)] \<or>
             bn_trace b' = bn_trace b @ [Told (creation_bytes io spec name pubkey)] \<and> \<not> ir_success res)
      | _ \<Rightarrow> bn_trace b' = bn_trace b)"
proof -
  let ?b0 = "b\<lparr>bn_world := snd (bi_millis io (bn_world b))\<rparr>"
  let ?l = "\<lparr>ln_result = new_result key (sp_display spec @ '' (Daemon)'') i warmup ''daemon'', ln_kernel = PNone, ln_conn = None\<rparr>"
  have clock: "read_clock (bi_millis io) b = (Ret (fst (bi_millis io (bn_world b))), ?b0)"
    by (simp add: read_clock_def ext_b_def zoom_p_def split: prod.splits)
  obtain q b1 where key: "get_ssh_key io ?b0 = (q, b1)" by (cases "get_ssh_key io ?b0")
  note k = ssh_key_run [OF key]
  have first: "bind_p (read_clock (bi_millis io)) f b = f (fst (bi_millis io (bn_world b))) ?b0" for f :: "int \<Rightarrow> ('w bench, iteration_result) prog"
    by (simp add: bind_p_def clock)
  have second: "bind_p (get_ssh_key io) f ?b0 = (case q of Ret x \<Rightarrow> f x b1 | Raise e \<Rightarrow> (Raise e, b1) | Stuck \<Rightarrow> (Stuck, b1))"
    for f :: "string \<Rightarrow> ('w bench, iteration_result) prog"
    by (simp add: bind_p_def key)
  show ?thesis
  proof (cases q)
    case (Ret pubkey)
    let ?b2 = "b1\<lparr>bn_world := snd (bi_tick io (bn_world b1))\<rparr>" and ?t0 = "fst (bi_tick io (bn_world b1))"
    let ?m = "catch_p (measure_runtime io socket spec name pubkey) (\<lambda>e. on_result (failed_with (exn_msg e)))"
    let ?f = "bind_p (gets_p (\<lambda>(c, l). name \<in> set (bn_daemons c)))
        (\<lambda>active. when_p active (timed_destroy io ?t0 (client_destroy (bi_show io) socket (exchange_b io) name) (forget_daemon name)))"
    obtain r1 b3 l3 where m: "?m (?b2, ?l) = (r1, (b3, l3))" by (cases "?m (?b2, ?l)") auto
    have run: "(r, b') = (case finally_p ?m ?f (?b2, ?l) of
        (Ret _, c, l) \<Rightarrow> (Ret (ln_result l), c) | (Raise e, c, l) \<Rightarrow> (Raise e, c) | (Stuck, c, l) \<Rightarrow> (Stuck, c))"
      using assms(1) unfolding benchmark_daemon_runtime_def first second [unfolded Ret]
      by (simp add: Let_def bind_tick forget_daemon_def name_def)
    have "r1 \<noteq> Stuck" using run m assms(2) by (auto simp: finally_p_def)
    note one = measure_runtime_run [OF m this]
    have new: "ir_success (ln_result ?l)" "ir_error (ln_result ?l) = None" by (simp_all add: new_result_def)
    show ?thesis
    proof (cases "name \<in> set (bn_daemons b3)")
      case False
      then have "finally_p ?m ?f (?b2, ?l) = (Ret (), (b3, l3))" using m one by (simp add: finally_p_def)
      with run have "r = Ret (ln_result l3)" "b' = b3" by simp_all
      then show ?thesis using one k False by (auto simp: bench_name_ok name_def)
    next
      case True
      obtain r4 b4 l4 where d: "timed_destroy io ?t0 (client_destroy (bi_show io) socket (exchange_b io) name) (forget_daemon name) (b3, l3) = (r4, (b4, l4))"
        by (cases "timed_destroy io ?t0 (client_destroy (bi_show io) socket (exchange_b io) name) (forget_daemon name) (b3, l3)") auto
      have fin: "finally_p ?m ?f (?b2, ?l) = (r4, (b4, l4))" using m one d True by (cases r4) (simp_all add: finally_p_def)
      with run assms(2) have "r4 \<noteq> Stuck" by auto
      from True one k assms(4) have ok: "ir_success (ln_result l3) \<longleftrightarrow> ir_error (ln_result l3) = None" "bn_daemons b3 = name # bn_daemons b"
        using new by auto
      note two = destroy_phase_run [OF d \<open>r4 \<noteq> Stuck\<close> ok(1)]
      with fin run have "r = Ret (ln_result l4)" "b' = b4" by simp_all
      then show ?thesis using one two k ok assms(4) by (auto simp: bench_name_ok name_def)
    qed
  qed (use assms(1,2) k in \<open>auto simp: benchmark_daemon_runtime_def first second bench_name_ok name_def\<close>)
qed


lemma sample_loads: "utf8_decode ''{\"ok\": true}'' = Some ''{\"ok\": true}''" "loads ''{\"ok\": true}'' = Some (PDict [(''ok'', PBool True)])"
  by code_simp+

lemma sample_answer: "read_response_line [Inr (''{\"ok\": true}'' @ [CHR 0x0A])] = Inr ''{\"ok\": true}''"
  "decode_response v ''{\"ok\": true}'' = Inr []"
  by (simp_all add: read_response_line_def finish_line_def max_response_bytes_def decode_response_def sample_loads pget_def pget_default_def dir_get_def)

lemma sample_request: "client_request v p (exchange_b sample_bench_io) a payload b =
   (Ret [], b\<lparr>bn_trace := bn_trace b @ [Told (encode_request a payload)]\<rparr>)"
  using sample_answer by (simp add: client_request_def bind_p_def catch_p_def exchange_run sample_bench_io_def lift_p_def)

lemma sample_tick: "tick sample_bench_io s = (Ret 0, s)"
  by (cases s) (simp add: tick_run sample_bench_io_def)

lemma sample_key: "\<exists>c. get_ssh_key sample_bench_io b = (Ret (case bn_public b of None \<Rightarrow> ''ssh-ed25519 AAAA'' | Some k \<Rightarrow> k), c) \<and> bn_daemons c = bn_daemons b \<and> bn_client c = bn_client b \<and> bn_interrupted c = bn_interrupted b"
  by (cases "bn_public b") (simp_all add: get_ssh_key_def bind_p_def then_p_def ext_b_def zoom_p_def sample_bench_io_def py_strip_def is_space_def)

lemma sample_daemon:
  "\<exists>res c. benchmark_daemon_runtime sample_bench_io p key spec i warmup b = (Ret res, c) \<and> bn_client c = bn_client b \<and> bn_interrupted c = bn_interrupted b"
proof -
  let ?b = "b\<lparr>bn_world := ()\<rparr>"
  obtain k c where key: "get_ssh_key sample_bench_io ?b = (Ret k, c)" "bn_client c = bn_client b" "bn_interrupted c = bn_interrupted b"
    using sample_key [of ?b] by auto
  have clock: "read_clock (bi_millis sample_bench_io) b = (Ret 1700000012345678, ?b)"
    by (simp add: read_clock_def ext_b_def zoom_p_def sample_bench_io_def)
  show ?thesis
    using key
    by (auto simp: benchmark_daemon_runtime_def bind_p_def clock sample_tick finally_p_def catch_p_def measure_runtime_def ask_runtime_def
      client_create_jail_def client_create_bhyve_def client_destroy_def sample_request on_bench_run then_p_def on_result_run timed_destroy_def when_p_def Let_def)
qed



end
