(* ===== verification/Bench_Schedule.thy ===== *)
theory Bench_Schedule
  imports Bench_Requests
begin

text \<open>
  The schedule of a whole benchmark, the exit status of the command, and the clean-up of an
  interrupted benchmark.
\<close>

section \<open>The schedule\<close>

definition labels :: "iteration_result \<Rightarrow> string \<times> string \<times> int \<times> bool" where
  "labels r = (ir_alias r, ir_mode r, ir_iteration r, ir_warmup r)"

abbreviation label_view :: "('w, 'c) attempt \<Rightarrow> string \<times> string \<times> int \<times> bool" where
  "label_view s \<equiv> labels (ln_result (snd s))"

lemma labels_update:
  "labels (r\<lparr>ir_create := x\<rparr>) = labels r" "labels (r\<lparr>ir_ws := x\<rparr>) = labels r" "labels (r\<lparr>ir_first := x\<rparr>) = labels r"
  "labels (r\<lparr>ir_spinup := x\<rparr>) = labels r" "labels (r\<lparr>ir_warm := x\<rparr>) = labels r" "labels (r\<lparr>ir_destroy := x\<rparr>) = labels r"
  "labels (r\<lparr>ir_lifecycle := x\<rparr>) = labels r" "labels (r\<lparr>ir_kernel := v\<rparr>) = labels r" "labels (r\<lparr>ir_meta := v\<rparr>) = labels r"
  "labels (failed_with m r) = labels r" "labels (destroy_failed e r) = labels r"
  by (simp_all add: labels_def failed_with_def destroy_failed_def)

lemma keeps_const: "keeps (\<lambda>_. c) m"
  by (simp add: keeps_def)

lemma keeps_label_bench [keeps_intros]: "keeps label_view (on_bench m)"
  by (intro keeps_on_bench) (simp add: keeps_const)

lemma keeps_label_tick [keeps_intros]: "keeps label_view (tick io)"
  unfolding tick_def by (rule keeps_label_bench)

lemma keeps_label_jupyter: "keeps label_view (bind_p (tick io) (\<lambda>t0.
     finally_p
       (catch_p (measure_kernel io config h spec t0) (\<lambda>e. on_result (failed_with (exn_msg e))))
       (then_p (close_phase io) (delete_phase io config h t0))))"
  unfolding measure_kernel_def create_phase_def connect_phase_def probe_phase_def warm_phase_def close_phase_def delete_phase_def
    timed_destroy_def ws_b_def connect_websocket_def
  by (intro keeps_intros) (simp_all add: labels_update keeps_label_bench keeps_const split: option.splits)

lemma keeps_label_daemon: "keeps label_view (bind_p (tick io) (\<lambda>t0.
     finally_p
       (catch_p (measure_runtime io socket spec name pubkey) (\<lambda>e. on_result (failed_with (exn_msg e))))
       (bind_p (gets_p (\<lambda>(c, l). name \<in> set (bn_daemons c))) (\<lambda>active.
          when_p active
            (timed_destroy io t0 (client_destroy (bi_show io) socket (exchange_b io) name)
              (modify_p (\<lambda>c. c\<lparr>bn_daemons := removeAll name (bn_daemons c)\<rparr>)))))))"
  unfolding measure_runtime_def timed_destroy_def
  by (intro keeps_intros) (simp_all add: labels_update keeps_label_bench keeps_const)

text \<open>What a benchmark of one runtime leaves to the schedule.\<close>

definition frame :: "'w bench \<Rightarrow> iteration_result list \<times> bool \<times> jupyter_helper option \<times> string option" where
  "frame b = (bn_results b, bn_interrupted b, bn_helper b, bn_client b)"

abbreviation frame_view :: "('w, 'c) attempt \<Rightarrow> iteration_result list \<times> bool \<times> jupyter_helper option \<times> string option" where
  "frame_view s \<equiv> frame (fst s)"

lemma keeps_frame_bench [keeps_intros]: "keeps frame m \<Longrightarrow> keeps frame_view (on_bench m)"
  by (intro keeps_on_bench) simp


text \<open>A view of the runner that sees neither the world nor the trace is kept by a request.\<close>

definition inner_view :: "('w bench \<Rightarrow> 'v) \<Rightarrow> bool" where
  "inner_view f \<longleftrightarrow> (\<forall>b w tr. f (b\<lparr>bn_world := w\<rparr>) = f b \<and> f (b\<lparr>bn_trace := tr\<rparr>) = f b)"

lemma keeps_inner:
  fixes f :: "'w bench \<Rightarrow> 'v"
  assumes "inner_view f"
  shows "keeps f (ext_b m)" "keeps f (send_b io rq)" "keeps f (exchange_b io bytes)" "keeps f (client_request v p (exchange_b io) a payload)"
proof -
  have world: "keeps f (ext_b m)" for m :: "('w, 'z) prog"
    by (rule keeps_ext_b) (use assms in \<open>simp add: inner_view_def\<close>)
  show "keeps f (ext_b m)" by (rule world)
  show "keeps f (send_b io rq)"
    unfolding send_b_def note_call_def by (intro keeps_then keeps_modify world) (use assms in \<open>simp add: inner_view_def\<close>)
  have told: "keeps f (exchange_b io bytes)" for bytes
    unfolding exchange_b_def note_call_def by (intro keeps_then keeps_modify world) (use assms in \<open>simp add: inner_view_def\<close>)
  then show "keeps f (exchange_b io bytes)" .
  show "keeps f (client_request v p (exchange_b io) a payload)"
    unfolding client_request_def by (intro keeps_intros told)
qed

lemma inner_frame: "inner_view frame"
  by (simp add: inner_view_def frame_def)

lemmas keeps_frame_calls [keeps_intros] = keeps_inner [OF inner_frame]

lemma keeps_frame_tick [keeps_intros]: "keeps frame_view (tick io)"
  unfolding tick_def read_clock_def by (intro keeps_intros)

lemma keeps_frame_kernels [keeps_intros]: "keeps frame (on_kernels f kid)"
  unfolding on_kernels_def by (intro keeps_intros) (simp add: frame_def)

lemma keeps_frame_jupyter: "keeps frame_view (bind_p (tick io) (\<lambda>t0.
     finally_p
       (catch_p (measure_kernel io config h spec t0) (\<lambda>e. on_result (failed_with (exn_msg e))))
       (then_p (close_phase io) (delete_phase io config h t0))))"
  unfolding measure_kernel_def create_phase_def connect_phase_def probe_phase_def warm_phase_def close_phase_def delete_phase_def
    timed_destroy_def ws_b_def connect_websocket_def create_kernel_def ask_json_def delete_kernel_def
  by (intro keeps_intros) (auto simp: keeps_frame_bench keeps_frame_calls split: option.splits)

lemma keeps_frame_daemon: "keeps frame_view (bind_p (tick io) (\<lambda>t0.
     finally_p
       (catch_p (measure_runtime io socket spec name pubkey) (\<lambda>e. on_result (failed_with (exn_msg e))))
       (bind_p (gets_p (\<lambda>(c, l). name \<in> set (bn_daemons c))) (\<lambda>active.
          when_p active
            (timed_destroy io t0 (client_destroy (bi_show io) socket (exchange_b io) name)
              (modify_p (\<lambda>c. c\<lparr>bn_daemons := removeAll name (bn_daemons c)\<rparr>)))))))"
  unfolding measure_runtime_def timed_destroy_def ask_runtime_def client_create_jail_def client_create_bhyve_def client_destroy_def
  by (intro keeps_intros) (auto simp: frame_def)

definition attempt_outcome :: "unit res \<times> ('w, 'c) attempt \<Rightarrow> iteration_result res \<times> 'w bench" where
  "attempt_outcome x = (case x of (Ret _, c, l) \<Rightarrow> (Ret (ln_result l), c) | (Raise e, c, l) \<Rightarrow> (Raise e, c) | (Stuck, c, l) \<Rightarrow> (Stuck, c))"

lemma outcome_labels:
  assumes "attempt_outcome (m (b, l)) = (r, b')" "keeps label_view m" "keeps frame_view m"
  shows "frame b' = frame b \<and> (case r of Ret res \<Rightarrow> labels res = labels (ln_result l) | _ \<Rightarrow> True)"
proof -
  obtain q c k where m: "m (b, l) = (q, (c, k))" by (cases "m (b, l)") auto
  then show ?thesis using assms(1) keepsD [OF assms(2) m] keepsD [OF assms(3) m] by (cases q) (auto simp: attempt_outcome_def)
qed

lemma jupyter_labels:
  assumes "benchmark_jupyter_runtime io config h key spec i warmup b = (r, b')"
  shows "frame b' = frame b \<and> (case r of Ret res \<Rightarrow> labels res = (key, ''jupyter'', int i + 1, warmup) | _ \<Rightarrow> True)"
  using outcome_labels [OF assms [unfolded benchmark_jupyter_runtime_def, folded attempt_outcome_def] keeps_label_jupyter keeps_frame_jupyter]
  by (auto simp: labels_def new_result_def split: res.splits)

lemma daemon_labels:
  assumes "benchmark_daemon_runtime io socket key spec i warmup b = (r, b')"
  shows "frame b' = frame b \<and> (case r of Ret res \<Rightarrow> labels res = (key, ''daemon'', int i + 1, warmup) | _ \<Rightarrow> True)"
proof -
  obtain m1 b1 where clock: "read_clock (bi_millis io) b = (Ret m1, b1)" "frame b1 = frame b"
    by (cases "bi_millis io (bn_world b)") (simp add: read_clock_def ext_b_def zoom_p_def frame_def)
  obtain q b2 where key: "get_ssh_key io b1 = (q, b2)" by (cases "get_ssh_key io b1")
  have f2: "frame b2 = frame b" using ssh_key_run [OF key] clock(2) by (simp add: frame_def)
  show ?thesis
  proof (cases q)
    case (Ret pubkey)
    then show ?thesis
      using assms outcome_labels [OF _ keeps_label_daemon keeps_frame_daemon] f2
      by (fastforce simp: benchmark_daemon_runtime_def bind_p_def [of "read_clock _"] bind_p_def [of "get_ssh_key _"] clock key Let_def labels_def new_result_def
          simp flip: attempt_outcome_def split: res.splits)
  qed (use assms f2 in \<open>auto simp: benchmark_daemon_runtime_def bind_p_def [of "read_clock _"] bind_p_def [of "get_ssh_key _"] clock key\<close>)
qed


text \<open>The schedule: warm-ups first, every runtime in turn, the kernel before the runtime.\<close>

definition turn_labels :: "bench_config \<Rightarrow> nat \<Rightarrow> string \<times> runtime_spec \<Rightarrow> (string \<times> string \<times> int \<times> bool) list" where
  "turn_labels config i = (\<lambda>(key, spec).
     map (\<lambda>mode. (key, mode, int i + 1, int i < bc_warmup config))
       ((if has_jupyter config then [''jupyter''] else []) @ (if has_daemon config then [''daemon''] else [])))"

definition schedule :: "bench_config \<Rightarrow> (string \<times> string \<times> int \<times> bool) list" where
  "schedule config =
     concat (map (\<lambda>i. concat (map (turn_labels config i) (map select_runtime (bc_runtimes config))))
       [0..<nat (bc_iterations config + bc_warmup config)])"

definition idle :: "'w bench \<Rightarrow> bool" where
  "idle b \<longleftrightarrow> \<not> bn_interrupted b \<and> bn_kernels b = [] \<and> bn_daemons b = [] \<and>
     list_all (\<lambda>r. ir_success r \<longleftrightarrow> ir_error r = None) (bn_results b)"

abbreviation done_labels :: "'w bench \<Rightarrow> (string \<times> string \<times> int \<times> bool) list" where
  "done_labels b \<equiv> map labels (bn_results b)"

lemma foreach_collects:
  assumes "\<And>x s t. I s \<Longrightarrow> f x s = (Ret (), t) \<Longrightarrow> I t \<and> g t = g s @ h x" "I s" "foreach_p xs f s = (Ret (), t)"
  shows "I t \<and> g t = g s @ concat (map h xs)"
  using assms(2,3)
proof (induction xs arbitrary: s)
  case (Cons x xs)
  then obtain u where u: "f x s = (Ret (), u)" "foreach_p xs f u = (Ret (), t)" by (auto simp: then_p_Ret_iff)
  then show ?case using assms(1) [OF Cons.prems(1) u(1)] Cons.IH [OF _ u(2)] by simp
qed simp

lemma keep_jupyter:
  assumes "keep_result (run_jupyter io config key spec i warmup) b = (Ret (), c)" "idle b"
  shows "idle c \<and> done_labels c = done_labels b @ [(key, ''jupyter'', int i + 1, warmup)]"
proof -
  obtain h r d where run: "benchmark_jupyter_runtime io config h key spec i warmup b = (Ret r, d)" and c: "c = d\<lparr>bn_results := bn_results d @ [r]\<rparr>"
    using assms(1) by (auto simp: keep_result_def run_jupyter_def bind_p_Ret_iff split: option.splits)
  show ?thesis
    using jupyter_labels [OF run] jupyter_run [OF run] assms(2) by (auto simp: c idle_def frame_def)
qed

lemma keep_daemon:
  assumes "keep_result (run_daemon io key spec i warmup) b = (Ret (), c)" "idle b"
  shows "idle c \<and> done_labels c = done_labels b @ [(key, ''daemon'', int i + 1, warmup)]"
proof -
  obtain p r d where run: "benchmark_daemon_runtime io p key spec i warmup b = (Ret r, d)" and c: "c = d\<lparr>bn_results := bn_results d @ [r]\<rparr>"
    using assms(1) by (auto simp: keep_result_def run_daemon_def bind_p_Ret_iff split: option.splits)
  show ?thesis
    using daemon_labels [OF run] daemon_run [OF run] assms(2) by (auto simp: c idle_def frame_def)
qed

lemma run_one_labels:
  assumes "idle b" "run_one io config i ks b = (Ret (), c)"
  shows "idle c \<and> done_labels c = done_labels b @ turn_labels config i ks"
proof -
  obtain key spec where ks: "ks = (key, spec)" by (cases ks)
  obtain d where d: "when_p (has_jupyter config) (keep_result (run_jupyter io config key spec i (int i < bc_warmup config))) b = (Ret (), d)"
    "when_p (has_daemon config) (keep_result (run_daemon io key spec i (int i < bc_warmup config))) d = (Ret (), c)"
    using assms by (auto simp: run_one_def ks idle_def then_p_Ret_iff)
  have one: "idle d \<and> done_labels d = done_labels b @ (if has_jupyter config then [(key, ''jupyter'', int i + 1, int i < bc_warmup config)] else [])"
    using d(1) assms(1) keep_jupyter [of io config key spec i "int i < bc_warmup config" b d] by (cases "has_jupyter config") auto
  have "idle c \<and> done_labels c = done_labels d @ (if has_daemon config then [(key, ''daemon'', int i + 1, int i < bc_warmup config)] else [])"
    using d(2) one keep_daemon [of io key spec i "int i < bc_warmup config" d c] by (cases "has_daemon config") auto
  then show ?thesis using one by (simp add: turn_labels_def ks)
qed

lemma keeps_preflight:
  assumes "inner_view f" "\<And>b h. f (b\<lparr>bn_helper := h\<rparr>) = f b" "\<And>b c. f (b\<lparr>bn_client := c\<rparr>) = f b"
  shows "keeps f (preflight_jupyter io config)" "keeps f (preflight_daemon io config)"
  unfolding preflight_jupyter_def new_helper_def authenticate_def helper_ping_def ask_json_def preflight_daemon_def client_ping_def Let_def
  by (intro keeps_intros keeps_inner [OF assms(1)]; simp add: assms)+

lemma cleanup_run:
  assumes "cleanup_temp_ssh_key io b = (Ret (), c)"
  shows "(bn_key c = None \<or> bn_key c = Some []) \<and> frame c = frame b \<and> bn_kernels c = bn_kernels b \<and> bn_daemons c = bn_daemons b"
proof -
  have "keeps (\<lambda>b. (frame b, bn_kernels b, bn_daemons b)) (cleanup_temp_ssh_key io)"
    unfolding cleanup_temp_ssh_key_def unlink_quietly_def by (intro keeps_intros) (simp_all add: frame_def)
  from keepsD [OF this assms] show ?thesis
    using assms by (auto simp: cleanup_temp_ssh_key_def then_p_Ret_iff split: option.splits if_splits)
qed


lemma foreach_returns:
  assumes "\<And>x s. I s \<Longrightarrow> \<exists>t. f x s = (Ret (), t) \<and> I t" "I s"
  shows "\<exists>t. foreach_p xs f s = (Ret (), t) \<and> I t"
  using assms(2)
proof (induction xs arbitrary: s)
  case (Cons x xs)
  obtain u where "f x s = (Ret (), u)" "I u" using assms(1) [OF Cons.prems] by blast
  with Cons.IH [of u] show ?case by (simp add: then_p_def bind_p_def)
qed simp

definition daemon_config :: bench_config where
  "daemon_config = sample_config\<lparr>bc_mode := ''daemon'', bc_runtimes := ['' Jail '', ''linux-bhyve''], bc_warmup := 1\<rparr>"

definition ready :: "unit bench \<Rightarrow> bool" where
  "ready b \<longleftrightarrow> bn_client b = Some ''s'' \<and> \<not> bn_interrupted b"

lemma sample_run: "\<exists>rs b'. run_benchmark sample_bench_io daemon_config sample_bench = (Ret rs, b')"
proof -
  have m: "\<not> has_jupyter daemon_config" "has_daemon daemon_config" by (simp_all add: has_jupyter_def has_daemon_def daemon_config_def)
  have pre: "\<exists>b. preflight_daemon sample_bench_io daemon_config sample_bench = (Ret (), b) \<and> ready b"
    by (simp add: preflight_daemon_def client_ping_def sample_request catch_p_def bind_p_def can_join_def pget_default_def dir_get_def lift_p_def
      ready_def daemon_config_def sample_config_def sample_bench_def)
  have one: "\<exists>t. run_one sample_bench_io daemon_config i ks b = (Ret (), t) \<and> ready t" if "ready b" for i ks b
    using that sample_daemon [of "''s''" "fst ks" "snd ks" i "int i < bc_warmup daemon_config" b]
    by (cases ks) (auto simp: run_one_def m keep_result_def run_daemon_def bind_p_def then_p_def ready_def)
  have turn: "\<exists>t. foreach_p (map select_runtime (bc_runtimes daemon_config)) (run_one sample_bench_io daemon_config i) s = (Ret (), t) \<and> ready t"
    if "ready s" for i s
    by (rule foreach_returns) (use one that in auto)
  obtain b where b: "preflight_daemon sample_bench_io daemon_config sample_bench = (Ret (), b)" "ready b" using pre by blast
  obtain c where c: "foreach_p [0..<nat (bc_iterations daemon_config + bc_warmup daemon_config)]
      (\<lambda>i. foreach_p (map select_runtime (bc_runtimes daemon_config)) (run_one sample_bench_io daemon_config i)) b = (Ret (), c)"
    using foreach_returns [where I = ready and f = "\<lambda>i. foreach_p (map select_runtime (bc_runtimes daemon_config)) (run_one sample_bench_io daemon_config i)"
      and s = b and xs = "[0..<nat (bc_iterations daemon_config + bc_warmup daemon_config)]"] turn b(2) by blast
  have "\<exists>d. cleanup_temp_ssh_key sample_bench_io c = (Ret (), d)"
    by (cases "bn_key c") (auto simp: cleanup_temp_ssh_key_def unlink_quietly_def catch_p_def then_p_def bind_p_def ext_b_def zoom_p_def sample_bench_io_def)
  then show ?thesis using b c m by (auto simp: run_benchmark_def then_p_def bind_p_def)
qed


section \<open>The exit status\<close>

lemma exit_code_failed:
  "exit_code rs = (if list_all (\<lambda>s. rs_failed s = 0) (summarize_results rnd rs) then 0 else 1)"
proof -
  have "list_all (\<lambda>s. rs_failed s = 0) (summarize_results rnd rs) \<longleftrightarrow> sum_list (map rs_failed (summarize_results rnd rs)) = 0"
    by (simp add: list_all_iff)
  also have "\<dots> \<longleftrightarrow> filter (\<lambda>r. \<not> ir_warmup r \<and> \<not> ir_success r) rs = []"
    using summaries_account [of rnd rs] by (simp add: Let_def)
  finally show ?thesis by (auto simp: exit_code_def list_ex_iff filter_empty_conv)
qed

lemma run_benchmark_results: "run_benchmark io config b = (Ret rs, b') \<Longrightarrow> rs = bn_results b'"
  by (auto simp: run_benchmark_def then_p_Ret_iff)

text \<open>
  C33. The status of the command agrees with its report: it is 0 when no summary of the report
  counts a failed run and 1 otherwise, and a report that was asked for as a file is what was
  written there.
\<close>

theorem exit_status_matches_report:
  assumes "async_main io save ms3 now host a (b, d) = (Ret n, (b', d'))"
  shows "let ss = summarize_results (bi_round io) (bn_results b') in
     n = (if list_all (\<lambda>s. rs_failed s = 0) ss then 0 else 1) \<and>
     (\<exists>report. make_report (bi_show io) ms3 now host ss (bn_results b') (config_of_args a) = Inr report \<and>
        (case ba_output a of None \<Rightarrow> d' = d
         | Some path \<Rightarrow> if path = [] then d' = d else write_output_file save path report d = (Ret (), d')))"
proof -
  obtain rs c report where run: "run_benchmark io (config_of_args a) b = (Ret rs, c)"
    and report: "make_report (bi_show io) ms3 now host (summarize_results (bi_round io) rs) rs (config_of_args a) = Inr report"
    and saved: "(case bc_output (config_of_args a) of None \<Rightarrow> return_p ()
        | Some path \<Rightarrow> when_p (path \<noteq> []) (zoom_p snd (\<lambda>d s. (fst s, d)) (write_output_file save path report))) (c, d) = (Ret (), (b', d'))"
    and n: "n = exit_code rs"
    using assms by (auto simp: async_main_def Let_def bind_p_Ret_iff then_p_Ret_iff lift_p_Ret zoom_p_def split: prod.splits)
  have "c = b' \<and> (case ba_output a of None \<Rightarrow> d' = d
         | Some path \<Rightarrow> if path = [] then d' = d else write_output_file save path report d = (Ret (), d'))"
    using saved by (auto simp: config_of_args_def zoom_p_def when_p_def split: option.splits if_splits prod.splits)
  then show ?thesis
    using run_benchmark_results [OF run] report n exit_code_failed [of rs "bi_round io"] by (simp add: Let_def)
qed

text \<open>A list of runtimes without a name in it: nothing is run, and the status is 0.\<close>

definition empty_args :: bench_args where
  "empty_args =
     \<lparr>ba_runtimes = '' , '', ba_mode = ''daemon'', ba_iterations = 0, ba_warmup = -1, ba_base_url = [], ba_token = [], ba_socket = ''s'',
      ba_timeout = ''90.0'', ba_format = ''csv'', ba_output = None, ba_verbose = False, ba_quiet = True\<rparr>"

lemma empty_run: "run_benchmark sample_bench_io (config_of_args empty_args) sample_bench =
    (Ret [], sample_bench\<lparr>bn_client := Some ''s'', bn_trace := [Told (encode_request ''ping'' [])]\<rparr>)"
proof -
  have "parse_runtimes_arg '' , '' = []" by code_simp
  then show ?thesis
    by (simp add: run_benchmark_def has_jupyter_def has_daemon_def config_of_args_def empty_args_def preflight_daemon_def client_ping_def
      sample_request catch_p_def then_p_def bind_p_def can_join_def pget_default_def dir_get_def lift_p_def cleanup_temp_ssh_key_def sample_bench_def)
qed

theorem exit_status_matches_report_witness:
  "\<forall>save ms3 now host. fst (async_main sample_bench_io save ms3 now host empty_args (sample_bench, [])) = Ret 0"
proof (intro allI)
  fix save :: save_io and ms3 now host
  have "\<exists>n b' d'. async_main sample_bench_io save ms3 now host empty_args (sample_bench, []) = (Ret n, (b', d')) \<and> bn_results b' = []"
  proof -
    have "bc_format (config_of_args empty_args) = ''csv''" "bc_output (config_of_args empty_args) = None" "bn_results sample_bench = []"
      by (simp_all add: config_of_args_def empty_args_def sample_bench_def)
    then show ?thesis
      by (simp add: async_main_def Let_def bind_p_def then_p_def zoom_p_def empty_run lift_p_def make_report_def format_csv_data_def csv_table_def)
  qed
  then obtain n b' d' where run: "async_main sample_bench_io save ms3 now host empty_args (sample_bench, []) = (Ret n, (b', d'))" "bn_results b' = []"
    by blast
  show "fst (async_main sample_bench_io save ms3 now host empty_args (sample_bench, [])) = Ret 0"
    using exit_status_matches_report [OF run(1)] run by (simp add: Let_def summarize_results_def group_results_def)
qed

section \<open>An interruption\<close>

definition quiet_io :: "('w, 'c) bench_io \<Rightarrow> bool" where
  "quiet_io io \<longleftrightarrow> (\<forall>rq w. fst (bi_open io rq w) \<noteq> Stuck) \<and> (\<forall>m w. fst (bi_exchange io m w) \<noteq> Stuck) \<and>
     (\<forall>p w. fst (bi_unlink io p w) = Ret () \<or> (\<exists>e. fst (bi_unlink io p w) = Raise e \<and> is_os_error (exn_kind e)))"

lemma delete_quietly_run:
  assumes "quiet_io io"
  shows "\<exists>w. delete_quietly io h kid b =
     (Ret (), b\<lparr>bn_trace := bn_trace b @ [Asked (delete_request h (str_of (bi_show io) kid) (PFloat ''10.0''))], bn_world := w\<rparr>)"
proof -
  obtain r w where "bi_open io (delete_request h (str_of (bi_show io) kid) (PFloat ''10.0'')) (bn_world b) = (r, w)" by fastforce
  moreover then have "r \<noteq> Stuck" using assms by (metis fst_conv quiet_io_def)
  ultimately show ?thesis by (cases r) (auto simp: delete_quietly_def delete_kernel_def catch_p_def bind_p_def send_run)
qed

lemma request_unstuck:
  assumes "quiet_io io"
  shows "fst (client_request v p (exchange_b io) a payload b) \<noteq> Stuck"
proof -
  obtain r w where "bi_exchange io (encode_request a payload) (bn_world b) = (r, w)" by fastforce
  moreover then have "r \<noteq> Stuck" using assms by (metis fst_conv quiet_io_def)
  ultimately show ?thesis
    by (cases r) (auto simp: client_request_def catch_p_def bind_p_def exchange_run lift_p_def split: sum.splits prod.splits res.splits if_splits)
qed

lemma destroy_quietly_run:
  assumes "quiet_io io"
  shows "\<exists>w. destroy_quietly io socket name b = (Ret (), b\<lparr>bn_trace := bn_trace b @ [Told (destruction_bytes name)], bn_world := w\<rparr>)"
proof -
  obtain r c where run: "client_destroy (bi_show io) socket (exchange_b io) name b = (r, c)" by fastforce
  then have "r \<noteq> Stuck" using request_unstuck [OF assms] unfolding client_destroy_def by (metis fst_conv)
  then show ?thesis using destroy_runtime_run [OF run] run by (cases r) (auto simp: destroy_quietly_def catch_p_def bind_p_def)
qed

lemma foreach_traces:
  assumes "\<And>x b. \<exists>w. f x b = (Ret (), b\<lparr>bn_trace := bn_trace b @ [g x], bn_world := w\<rparr>)"
  shows "\<exists>w. foreach_p xs f b = (Ret (), b\<lparr>bn_trace := bn_trace b @ map g xs, bn_world := w\<rparr>)"
proof (induction xs arbitrary: b)
  case Nil
  show ?case by (simp add: exI [of _ "bn_world b"])
next
  case (Cons x xs)
  obtain w where "f x b = (Ret (), b\<lparr>bn_trace := bn_trace b @ [g x], bn_world := w\<rparr>)" using assms by blast
  with Cons.IH [of "b\<lparr>bn_trace := bn_trace b @ [g x], bn_world := w\<rparr>"] show ?case by (auto simp: then_p_def bind_p_def)
qed

lemma unlink_quietly_run:
  assumes "quiet_io io"
  shows "\<exists>w. unlink_quietly io p b = (Ret (), b\<lparr>bn_world := w\<rparr>)"
proof -
  obtain r w where "bi_unlink io p (bn_world b) = (r, w)" by fastforce
  moreover then have "r = Ret () \<or> (\<exists>e. r = Raise e \<and> is_os_error (exn_kind e))" using assms by (metis fst_conv quiet_io_def)
  ultimately show ?thesis by (auto simp: unlink_quietly_def catch_p_def ext_b_def zoom_p_def)
qed

lemma cleanup_traces:
  assumes "quiet_io io"
  shows "\<exists>c. cleanup_temp_ssh_key io b = (Ret (), c) \<and> bn_trace c = bn_trace b"
proof (cases "bn_key b")
  case (Some p)
  obtain w where w: "unlink_quietly io p b = (Ret (), b\<lparr>bn_world := w\<rparr>)" using unlink_quietly_run [OF assms] by blast
  obtain w' where "unlink_quietly io (p @ ''.pub'') (b\<lparr>bn_world := w\<rparr>) = (Ret (), b\<lparr>bn_world := w\<rparr>\<lparr>bn_world := w'\<rparr>)"
    using unlink_quietly_run [OF assms] by blast
  then show ?thesis using w Some by (auto simp: cleanup_temp_ssh_key_def then_p_def bind_p_def)
qed (simp add: cleanup_temp_ssh_key_def)



end
