(* ===== verification/Bench_Args.thy ===== *)
theory Bench_Args
  imports Bench_Runner
begin

text \<open>
  benchmark.py, the options of the command: what \<open>build_arg_parser\<close> declares, as data, the arguments
  of an empty command line, and the configuration they give. The reading of a command line
  is argparse's; what it promises of a value it accepts is \<open>option_accepts\<close>.
\<close>

datatype option_kind = TextOption | IntOption | FloatOption | ChoiceOption "string list" | FlagOption

record cli_option =
  co_flags :: "string list"
  co_kind :: option_kind
  co_default :: pyval

definition declare_option :: "string \<Rightarrow> string list \<Rightarrow> option_kind \<Rightarrow> pyval \<Rightarrow> cli_option" where
  "declare_option flag short kind v = \<lparr>co_flags = flag # short, co_kind = kind, co_default = v\<rparr>"

text \<open>\<open>os.environ.get(name, v)\<close>\<close>

definition environ_get :: "(string \<Rightarrow> string option) \<Rightarrow> string \<Rightarrow> string \<Rightarrow> pyval" where
  "environ_get env name v = PStr (case env name of None \<Rightarrow> v | Some x \<Rightarrow> x)"

definition build_arg_parser :: "(string \<Rightarrow> string option) \<Rightarrow> cli_option list" where
  "build_arg_parser env =
     [declare_option ''--runtimes'' [''-r''] TextOption (PStr ''all''),
      declare_option ''--iterations'' [''-n''] IntOption (PInt 3),
      declare_option ''--warmup'' [''-w''] IntOption (PInt 0),
      declare_option ''--mode'' [''-m''] (ChoiceOption [''jupyter'', ''daemon'', ''both'']) (PStr ''jupyter''),
      declare_option ''--base-url'' [] TextOption (environ_get env ''JUPYTER_BASE_URL'' ''http://127.0.0.1:8888''),
      declare_option ''--token'' [] TextOption (environ_get env ''JUPYTER_TOKEN'' []),
      declare_option ''--socket'' [] TextOption (PStr ''/var/run/freebsd-laboratory/runtime.sock''),
      declare_option ''--format'' [''-f''] (ChoiceOption [''table'', ''markdown'', ''json'', ''csv'']) (PStr ''table''),
      declare_option ''--output'' [''-o''] TextOption PNone,
      declare_option ''--timeout'' [] FloatOption (PFloat ''90.0''),
      declare_option ''--quiet'' [''-q''] FlagOption (PBool False),
      declare_option ''--verbose'' [''-v''] FlagOption (PBool False)]"

text \<open>What argparse lets through as the value of an option.\<close>

definition option_accepts :: "option_kind \<Rightarrow> pyval \<Rightarrow> bool" where
  "option_accepts kind v =
     (case kind of
        TextOption \<Rightarrow> (case v of PStr _ \<Rightarrow> True | _ \<Rightarrow> False)
      | IntOption \<Rightarrow> (case v of PInt _ \<Rightarrow> True | _ \<Rightarrow> False)
      | FloatOption \<Rightarrow> (case v of PFloat _ \<Rightarrow> True | _ \<Rightarrow> False)
      | ChoiceOption cs \<Rightarrow> (case v of PStr t \<Rightarrow> t \<in> set cs | _ \<Rightarrow> False)
      | FlagOption \<Rightarrow> (case v of PBool _ \<Rightarrow> True | _ \<Rightarrow> False))"

text \<open>The namespace of parsed options: the given values over the defaults, by the first flag.\<close>

definition option_value :: "cli_option list \<Rightarrow> (string \<times> pyval) list \<Rightarrow> string \<Rightarrow> pyval" where
  "option_value opts given flag =
     (case dir_get given flag of
        Some v \<Rightarrow> v
      | None \<Rightarrow> (case find (\<lambda>x. flag \<in> set (co_flags x)) opts of None \<Rightarrow> PNone | Some x \<Rightarrow> co_default x))"

definition text_of :: "pyval \<Rightarrow> string" where
  "text_of v = (case v of PStr t \<Rightarrow> t | PFloat t \<Rightarrow> t | _ \<Rightarrow> [])"

definition int_of_value :: "pyval \<Rightarrow> int" where
  "int_of_value v = (case v of PInt i \<Rightarrow> i | _ \<Rightarrow> 0)"

definition namespace_of :: "(string \<Rightarrow> pyval) \<Rightarrow> bench_args" where
  "namespace_of v =
     \<lparr>ba_runtimes = text_of (v ''--runtimes''), ba_mode = text_of (v ''--mode''), ba_iterations = int_of_value (v ''--iterations''),
      ba_warmup = int_of_value (v ''--warmup''), ba_base_url = text_of (v ''--base-url''), ba_token = text_of (v ''--token''),
      ba_socket = text_of (v ''--socket''), ba_timeout = text_of (v ''--timeout''), ba_format = text_of (v ''--format''),
      ba_output = (case v ''--output'' of PStr t \<Rightarrow> Some t | _ \<Rightarrow> None), ba_verbose = (v ''--verbose'' = PBool True), ba_quiet = (v ''--quiet'' = PBool True)\<rparr>"

definition default_bench_config :: bench_config where
  "default_bench_config =
     \<lparr>bc_mode = ''jupyter'', bc_runtimes = [''jail'', ''freebsd-bhyve'', ''linux-bhyve''], bc_iterations = 3, bc_warmup = 0,
      bc_base_url = ''http://127.0.0.1:8888'', bc_token = [], bc_socket = ''/var/run/freebsd-laboratory/runtime.sock'', bc_timeout = ''90.0'',
      bc_format = ''table'', bc_output = None, bc_verbose = False, bc_quiet = False\<rparr>"

text \<open>An empty command line, in an empty environment, is the default of the configuration.\<close>

lemma default_options_config:
  "config_of_args (namespace_of (option_value (build_arg_parser (\<lambda>_. None)) [])) = default_bench_config"
proof -
  have "parse_runtimes_arg ''all'' = [''jail'', ''freebsd-bhyve'', ''linux-bhyve'']" by code_simp
  then show ?thesis
    by (simp add: config_of_args_def namespace_of_def option_value_def build_arg_parser_def declare_option_def environ_get_def
      dir_get_def text_of_def int_of_value_def default_bench_config_def)
qed

text \<open>Whatever the options are, a benchmark has at least one iteration and a number of warm-ups.\<close>

lemma options_bounds: "1 \<le> bc_iterations (config_of_args a) \<and> 0 \<le> bc_warmup (config_of_args a)"
  by (simp add: config_of_args_def)

text \<open>The mode and the format of accepted options are among the known ones.\<close>

lemma accepted_choices:
  assumes "option_accepts (ChoiceOption [''table'', ''markdown'', ''json'', ''csv'']) v"
  shows "text_of v \<in> {''table'', ''markdown'', ''json'', ''csv''}"
  using assms by (cases v) (auto simp: option_accepts_def text_of_def)

end
