(* ===== verification/Sentry_Diagnostics.thy ===== *)
theory Sentry_Diagnostics
  imports Json_Pretty
begin

text \<open>
  sentry_diagnostics.py: the parsing of a DSN, the name resolution with its retries, the
  connection, the judgement of a delivery, and the sequence of the checks with the exit status.
  \<open>urlsplit\<close> is the standard library's, as far as its results are used; \<open>check_netloc\<close> is its
  test of bracketed addresses and of letters outside ASCII. The resolver, the sockets, TLS
  and the Sentry SDK are parameters. The state keeps, beside the world, the sockets that are
  open and the number of look-ups made.
\<close>

section \<open>Parts of a URL\<close>

definition part_before :: "char \<Rightarrow> string \<Rightarrow> string" where
  "part_before c s = takeWhile (\<lambda>d. d \<noteq> c) s"

definition part_after :: "char \<Rightarrow> string \<Rightarrow> string" where
  "part_after c s = drop 1 (dropWhile (\<lambda>d. d \<noteq> c) s)"

definition before_last :: "char \<Rightarrow> string \<Rightarrow> string" where
  "before_last c s = take (length s - Suc (length (after_last c s))) s"

record url_parts =
  up_scheme :: string
  up_netloc :: string
  up_path :: string

definition scheme_char :: "char \<Rightarrow> bool" where
  "scheme_char c \<longleftrightarrow> ascii_lower c \<or> ascii_upper c \<or> ascii_digit c \<or> c = CHR ''+'' \<or> c = CHR ''-'' \<or> c = CHR ''.''"

definition has_scheme :: "string \<Rightarrow> bool" where
  "has_scheme url \<longleftrightarrow>
     CHR '':'' \<in> set url \<and>
     (let p = part_before (CHR '':'') url in p \<noteq> [] \<and> (ascii_lower (hd p) \<or> ascii_upper (hd p)) \<and> list_all scheme_char p)"

definition netloc_end :: "char \<Rightarrow> bool" where
  "netloc_end c \<longleftrightarrow> c = CHR ''/'' \<or> c = CHR ''?'' \<or> c = CHR ''#''"

definition clean_url :: "string \<Rightarrow> string" where
  "clean_url url =
     filter (\<lambda>c. c \<noteq> CHR 0x09 \<and> c \<noteq> CHR 0x0D \<and> c \<noteq> CHR 0x0A) (dropWhile (\<lambda>c. (of_char c :: nat) \<le> 32) url)"

definition urlsplit :: "(string \<Rightarrow> string option) \<Rightarrow> string \<Rightarrow> string + url_parts" where
  "urlsplit check_netloc text =
     (let url = clean_url text;
          scheme = (if has_scheme url then py_lower (part_before (CHR '':'') url) else []);
          rest = (if has_scheme url then part_after (CHR '':'') url else url);
          netloc = (if starts_with ''//'' rest then takeWhile (\<lambda>c. \<not> netloc_end c) (drop 2 rest) else []);
          tail = (if starts_with ''//'' rest then dropWhile (\<lambda>c. \<not> netloc_end c) (drop 2 rest) else rest)
      in if (CHR ''['' \<in> set netloc) \<noteq> (CHR '']'' \<in> set netloc) then Inl ''Invalid IPv6 URL''
         else case check_netloc netloc of
           Some m \<Rightarrow> Inl m
         | None \<Rightarrow> Inr \<lparr>up_scheme = scheme, up_netloc = netloc, up_path = part_before (CHR ''?'') (part_before (CHR ''#'') tail)\<rparr>)"

definition username :: "string \<Rightarrow> string" where
  "username netloc = (if CHR ''@'' \<in> set netloc then part_before (CHR '':'') (before_last (CHR ''@'') netloc) else [])"

definition host_port :: "string \<Rightarrow> string \<times> string" where
  "host_port netloc =
     (let info = after_last (CHR ''@'') netloc
      in if CHR ''['' \<in> set info
         then let b = part_after (CHR ''['') info in (part_before (CHR '']'') b, part_after (CHR '':'') (part_after (CHR '']'') b))
         else (part_before (CHR '':'') info, part_after (CHR '':'') info))"

definition url_hostname :: "string \<Rightarrow> string" where
  "url_hostname netloc =
     (let h = fst (host_port netloc)
      in py_lower (part_before (CHR ''%'') h) @ dropWhile (\<lambda>c. c \<noteq> CHR ''%'') h)"

definition url_port :: "string \<Rightarrow> string + nat option" where
  "url_port netloc =
     (let p = snd (host_port netloc)
      in if p = [] then Inr None
         else if \<not> list_all ascii_digit p then Inl (''Port could not be cast to integer value as '' @ py_repr p)
         else if 65535 < read_digits p then Inl ''Port out of range 0-65535''
         else Inr (Some (read_digits p)))"

section \<open>The target\<close>

record sentry_target =
  st_host :: string
  st_port :: nat
  st_tls :: bool

definition target_port :: "nat option \<Rightarrow> bool \<Rightarrow> nat" where
  "target_port port tls = (case port of Some n \<Rightarrow> if n = 0 then (if tls then 443 else 80) else n | None \<Rightarrow> if tls then 443 else 80)"

text \<open>The message of the DiagnosticFailure, or the target.\<close>

definition parse_sentry_target :: "(string \<Rightarrow> string option) \<Rightarrow> string \<Rightarrow> string + sentry_target" where
  "parse_sentry_target check_netloc dsn =
     (case urlsplit check_netloc dsn of
        Inl m \<Rightarrow> Inl (''invalid SENTRY_DSN: '' @ m)
      | Inr u \<Rightarrow>
     (case url_port (up_netloc u) of
        Inl m \<Rightarrow> Inl (''invalid SENTRY_DSN: '' @ m)
      | Inr port \<Rightarrow>
          if up_scheme u \<noteq> ''http'' \<and> up_scheme u \<noteq> ''https'' then Inl ''SENTRY_DSN must use http or https''
          else if url_hostname (up_netloc u) = [] then Inl ''SENTRY_DSN does not contain an ingest hostname''
          else if username (up_netloc u) = [] then Inl ''SENTRY_DSN does not contain a public key''
          else if list_all (\<lambda>c. c = CHR ''/'') (up_path u) then Inl ''SENTRY_DSN does not contain a project path''
          else Inr \<lparr>st_host = url_hostname (up_netloc u), st_port = target_port port (up_scheme u = ''https''),
                    st_tls = (up_scheme u = ''https'')\<rparr>))"

section \<open>The network\<close>

datatype 'a dns_answer = Found "'a list" | DnsError string "int option"

datatype transport_event = Responded int | Dropped string

text \<open>What the SDK did with the event; no events when the client has another transport.\<close>

record sdk_outcome =
  so_event_id :: "string option"
  so_events :: "transport_event list option"

record delivery_evidence =
  de_event_id :: "string option"
  de_status :: "int option"
  de_dropped :: "string list"

record ('w, 'a, 's) diag_io =
  di_sdk :: "string option option"
  di_env :: "string \<Rightarrow> string option"
  di_check_netloc :: "string \<Rightarrow> string option"
  di_again :: "int option"
  di_noname :: "int option"
  di_lookup :: "string \<Rightarrow> nat \<Rightarrow> 'w \<Rightarrow> 'a dns_answer \<times> 'w"
  di_sleep :: "'w \<Rightarrow> 'w"
  di_address :: "'a \<Rightarrow> string"
  di_socket :: "'a \<Rightarrow> ('w, 's) prog"
  di_connect :: "'s \<Rightarrow> 'a \<Rightarrow> ('w, unit) prog"
  di_tls :: "'s \<Rightarrow> string \<Rightarrow> ('w, string option) prog"
  di_send :: "string \<Rightarrow> ('w, sdk_outcome) prog"

record ('w, 's) diag =
  dg_world :: 'w
  dg_open :: "'s list"
  dg_lookups :: nat

definition ext_d :: "('w, 'b) prog \<Rightarrow> (('w, 's) diag, 'b) prog" where
  "ext_d = zoom_p dg_world (\<lambda>w s. s\<lparr>dg_world := w\<rparr>)"

definition close_connection :: "'s \<Rightarrow> (('w, 's) diag, unit) prog" where
  "close_connection x = modify_p (\<lambda>s. s\<lparr>dg_open := remove1 x (dg_open s)\<rparr>)"

definition lookup_d :: "('w, 'a, 's) diag_io \<Rightarrow> sentry_target \<Rightarrow> (('w, 's) diag, 'a dns_answer) prog" where
  "lookup_d io t s =
     (case di_lookup io (st_host t) (st_port t) (dg_world s) of
        (a, w) \<Rightarrow> (Ret a, s\<lparr>dg_world := w, dg_lookups := Suc (dg_lookups s)\<rparr>))"

definition dns_attempts :: nat where
  "dns_attempts = 3"

definition retryable :: "('w, 'a, 's) diag_io \<Rightarrow> int option \<Rightarrow> bool" where
  "retryable io errno \<longleftrightarrow> errno \<noteq> None \<and> (errno = di_again io \<or> errno = di_noname io)"

text \<open>An answer without an address is an error as well.\<close>

definition answer_error :: "('w, 'a, 's) diag_io \<Rightarrow> 'a dns_answer \<Rightarrow> string \<times> int option" where
  "answer_error io a =
     (case a of
        DnsError m errno \<Rightarrow> (m, errno)
      | Found _ \<Rightarrow> (let code = (case di_noname io of None \<Rightarrow> 8 | Some n \<Rightarrow> n)
                     in (''[Errno '' @ int_str code @ ''] resolver returned no addresses'', Some code)))"

text \<open>The loop, with the attempts that are left; the result has the number of the attempt.\<close>

fun resolve_from :: "('w, 'a, 's) diag_io \<Rightarrow> sentry_target \<Rightarrow> nat \<Rightarrow> nat \<Rightarrow> (('w, 's) diag, 'a list \<times> nat) prog" where
  "resolve_from io t 0 attempt = raise_p AssertionError []"
| "resolve_from io t (Suc left) attempt =
     bind_p (lookup_d io t) (\<lambda>a.
       let fail = (if left > 0 \<and> retryable io (snd (answer_error io a))
         then then_p (ext_d (\<lambda>w. (Ret (), di_sleep io w))) (resolve_from io t left (Suc attempt))
         else raise_p OSError (fst (answer_error io a)))
       in case a of Found addresses \<Rightarrow> if addresses \<noteq> [] then return_p (addresses, attempt) else fail | DnsError _ _ \<Rightarrow> fail)"

definition resolve_target :: "('w, 'a, 's) diag_io \<Rightarrow> sentry_target \<Rightarrow> (('w, 's) diag, 'a list \<times> nat) prog" where
  "resolve_target io t = resolve_from io t dns_attempts 1"

definition open_socket :: "('w, 'a, 's) diag_io \<Rightarrow> 'a \<Rightarrow> (('w, 's) diag, 's) prog" where
  "open_socket io a = bind_p (ext_d (di_socket io a)) (\<lambda>x. then_p (modify_p (\<lambda>s. s\<lparr>dg_open := x # dg_open s\<rparr>)) (return_p x))"

text \<open>The addresses in their order; the last error when none of them answers.\<close>

fun connect_resolved :: "('w, 'a, 's) diag_io \<Rightarrow> 'a list \<Rightarrow> exn \<Rightarrow> (('w, 's) diag, 's) prog" where
  "connect_resolved io [] last_error = throw_p last_error"
| "connect_resolved io (a # as) last_error =
     bind_p (open_socket io a) (\<lambda>x.
       bind_p
         (catch_p (then_p (ext_d (di_connect io x a)) (return_p None))
           (\<lambda>e. if is_os_error (exn_kind e) then then_p (close_connection x) (return_p (Some e)) else throw_p e))
         (\<lambda>failed. case failed of None \<Rightarrow> return_p x | Some e \<Rightarrow> connect_resolved io as e))"

definition no_address :: exn where
  "no_address = Exn OSError ''resolver returned no connectable addresses''"

section \<open>The delivery\<close>

definition last_response :: "transport_event list \<Rightarrow> int option" where
  "last_response es = fold (\<lambda>e st. case e of Responded n \<Rightarrow> Some n | Dropped _ \<Rightarrow> st) es None"

definition dropped_reasons :: "transport_event list \<Rightarrow> string list" where
  "dropped_reasons es = concat (map (\<lambda>e. case e of Dropped m \<Rightarrow> [m] | Responded _ \<Rightarrow> []) es)"

definition evidence_of :: "sdk_outcome \<Rightarrow> delivery_evidence" where
  "evidence_of x =
     (case so_events x of
        None \<Rightarrow> \<lparr>de_event_id = so_event_id x, de_status = None, de_dropped = [''unexpected_transport'']\<rparr>
      | Some es \<Rightarrow> \<lparr>de_event_id = so_event_id x, de_status = last_response es, de_dropped = dropped_reasons es\<rparr>)"

record diag_result =
  dr_check :: string
  dr_status :: string
  dr_detail :: string

definition mk_result :: "string \<Rightarrow> string \<Rightarrow> string \<Rightarrow> diag_result" where
  "mk_result check status detail = \<lparr>dr_check = check, dr_status = status, dr_detail = detail\<rparr>"

definition event_suffix :: "delivery_evidence \<Rightarrow> string" where
  "event_suffix ev = (case de_event_id ev of None \<Rightarrow> [] | Some i \<Rightarrow> if i = [] then [] else ''; event_id='' @ i)"

definition delivery_result :: "delivery_evidence \<Rightarrow> diag_result" where
  "delivery_result ev =
     (case de_status ev of
        Some n \<Rightarrow>
          if 200 \<le> n \<and> n < 300
          then mk_result ''event'' ''PASS'' (''Sentry ingest accepted the envelope with HTTP '' @ int_str n @ event_suffix ev)
          else mk_result ''event'' ''FAIL'' (''Sentry ingest returned HTTP '' @ int_str n @ event_suffix ev)
      | None \<Rightarrow>
          if de_dropped ev \<noteq> []
          then mk_result ''event'' ''FAIL'' (''SDK transport dropped the event: '' @ join_with '', '' (de_dropped ev) @ event_suffix ev)
          else if de_event_id ev = None then mk_result ''event'' ''FAIL'' ''SDK did not create an event ID''
          else mk_result ''event'' ''FAIL'' (''SDK created an event ID but no HTTP delivery response was observed'' @ event_suffix ev))"

definition attempt_delivery :: "('w, 'a, 's) diag_io \<Rightarrow> string \<Rightarrow> diag_result list \<Rightarrow> (('w, 's) diag, diag_result list) prog" where
  "attempt_delivery io dsn rs = bind_p (ext_d (di_send io dsn)) (\<lambda>x. return_p (rs @ [delivery_result (evidence_of x)]))"

section \<open>The checks\<close>

definition set_names :: "('w, 'a, 's) diag_io \<Rightarrow> string list" where
  "set_names io = filter (\<lambda>n. case di_env io n of None \<Rightarrow> False | Some v \<Rightarrow> v \<noteq> []) [''HTTPS_PROXY'', ''HTTP_PROXY'', ''ALL_PROXY'', ''NO_PROXY'']"

definition proxy_detail :: "('w, 'a, 's) diag_io \<Rightarrow> string" where
  "proxy_detail io =
     (if set_names io = [] then ''no proxy environment variables are set''
      else ''proxy environment variables set: '' @ join_with '', '' (set_names io))"

definition sdk_version :: "string option \<Rightarrow> string" where
  "sdk_version v = (case v of None \<Rightarrow> ''unknown'' | Some x \<Rightarrow> x)"

definition end_failed :: "('w, 'a, 's) diag_io \<Rightarrow> bool \<Rightarrow> string \<Rightarrow> diag_result list \<Rightarrow> (('w, 's) diag, diag_result list) prog" where
  "end_failed io send dsn rs = (if send then attempt_delivery io dsn rs else return_p rs)"

text \<open>A check that may raise an OSError: its value, or the message of the error.\<close>

definition os_result :: "('s, 'b) prog \<Rightarrow> ('s, string + 'b) prog" where
  "os_result m = catch_p (bind_p m (\<lambda>x. return_p (Inr x))) (\<lambda>e. if is_os_error (exn_kind e) then return_p (Inl (exn_msg e)) else throw_p e)"

definition skip_event :: diag_result where
  "skip_event = mk_result ''event'' ''SKIP'' ''use --send-test-event to perform a verified Sentry ingest request''"

definition finish_checks :: "('w, 'a, 's) diag_io \<Rightarrow> bool \<Rightarrow> string \<Rightarrow> diag_result list \<Rightarrow> (('w, 's) diag, diag_result list) prog" where
  "finish_checks io send dsn rs = (if send then attempt_delivery io dsn rs else return_p (rs @ [skip_event]))"

definition tls_check :: "('w, 'a, 's) diag_io \<Rightarrow> bool \<Rightarrow> string \<Rightarrow> sentry_target \<Rightarrow> 's \<Rightarrow> diag_result list \<Rightarrow> (('w, 's) diag, diag_result list) prog" where
  "tls_check io send dsn t x rs =
     bind_p (os_result (ext_d (di_tls io x (st_host t)))) (\<lambda>v.
       then_p (close_connection x)
         (case v of
            Inl m \<Rightarrow> end_failed io send dsn (rs @ [mk_result ''tls'' ''FAIL'' (''TLS verification error: '' @ m)])
          | Inr version \<Rightarrow>
              finish_checks io send dsn
                (rs @ [mk_result ''tls'' ''PASS''
                   (''certificate verification succeeded ('' @ (case version of None \<Rightarrow> ''unknown TLS version'' | Some n \<Rightarrow> if n = [] then ''unknown TLS version'' else n) @ '')'')])))"

definition tcp_check :: "('w, 'a, 's) diag_io \<Rightarrow> bool \<Rightarrow> string \<Rightarrow> sentry_target \<Rightarrow> 'a list \<Rightarrow> diag_result list \<Rightarrow> (('w, 's) diag, diag_result list) prog" where
  "tcp_check io send dsn t addresses rs =
     bind_p (os_result (connect_resolved io addresses no_address)) (\<lambda>c.
       case c of
         Inl m \<Rightarrow> end_failed io send dsn (rs @ [mk_result ''tcp'' ''FAIL'' (''connection error: '' @ m)])
       | Inr x \<Rightarrow>
           let passed = rs @ [mk_result ''tcp'' ''PASS'' ''TCP connection succeeded'']
           in if st_tls t then tls_check io send dsn t x passed
              else then_p (close_connection x) (finish_checks io send dsn passed))"

definition dns_detail :: "('w, 'a, 's) diag_io \<Rightarrow> sentry_target \<Rightarrow> 'a list \<Rightarrow> nat \<Rightarrow> string" where
  "dns_detail io t addresses attempts =
     ''resolved '' @ st_host t @ '' to '' @ nat_str (length (remdups (map (di_address io) addresses))) @ '' address(es)'' @
     (if attempts = 1 then [] else '' after '' @ nat_str attempts @ '' attempts'')"

definition dns_check :: "('w, 'a, 's) diag_io \<Rightarrow> bool \<Rightarrow> string \<Rightarrow> sentry_target \<Rightarrow> diag_result list \<Rightarrow> (('w, 's) diag, diag_result list) prog" where
  "dns_check io send dsn t rs =
     bind_p (os_result (resolve_target io t)) (\<lambda>v.
       case v of
         Inl m \<Rightarrow> end_failed io send dsn
           (rs @ [mk_result ''dns'' ''FAIL'' (''resolver error after '' @ nat_str dns_attempts @ '' attempts: '' @ m)])
       | Inr (addresses, attempts) \<Rightarrow>
           tcp_check io send dsn t addresses (rs @ [mk_result ''dns'' ''PASS'' (dns_detail io t addresses attempts)]))"

definition target_detail :: "sentry_target \<Rightarrow> string" where
  "target_detail t = ''configured for '' @ st_host t @ '':'' @ nat_str (st_port t) @ ''; credentials are hidden''"

definition run_diagnostics :: "('w, 'a, 's) diag_io \<Rightarrow> bool \<Rightarrow> (('w, 's) diag, diag_result list) prog" where
  "run_diagnostics io send =
     (case di_sdk io of
        None \<Rightarrow> return_p [mk_result ''sdk'' ''FAIL'' ''sentry-sdk is not importable in this Python environment'']
      | Some version \<Rightarrow>
          let sdk = mk_result ''sdk'' ''PASS'' (''sentry-sdk '' @ sdk_version version @ '' is importable'');
              dsn = (case di_env io ''SENTRY_DSN'' of None \<Rightarrow> [] | Some d \<Rightarrow> d)
          in if dsn = [] then return_p [sdk, mk_result ''dsn'' ''FAIL'' ''SENTRY_DSN is not set'']
             else case parse_sentry_target (di_check_netloc io) dsn of
               Inl m \<Rightarrow> return_p [sdk, mk_result ''dsn'' ''FAIL'' m]
             | Inr t \<Rightarrow>
                 dns_check io send dsn t
                   [sdk, mk_result ''dsn'' ''PASS'' (target_detail t), mk_result ''proxy'' ''INFO'' (proxy_detail io)])"

definition diag_exit_code :: "diag_result list \<Rightarrow> nat" where
  "diag_exit_code rs = (if list_ex (\<lambda>r. dr_status r = ''FAIL'') rs then 1 else 0)"

text \<open>What \<open>main\<close> prints, and its exit status. A JSON list has the keys of each result sorted.\<close>

definition diag_output :: "bool \<Rightarrow> diag_result list \<Rightarrow> string" where
  "diag_output json rs =
     (if json
      then json_spaced (PList (map (\<lambda>r. PDict [(''check'', PStr (dr_check r)), (''detail'', PStr (dr_detail r)), (''status'', PStr (dr_status r))]) rs)) @ [CHR 0x0A]
      else concat (map (\<lambda>r. ''['' @ dr_status r @ ''] '' @ dr_check r @ '': '' @ dr_detail r @ [CHR 0x0A]) rs))"

definition diag_main :: "('w, 'a, 's) diag_io \<Rightarrow> bool \<Rightarrow> bool \<Rightarrow> bool \<Rightarrow> (('w, 's) diag, string \<times> nat) prog" where
  "diag_main io positive_timeout send json =
     (if \<not> positive_timeout then return_p (''--timeout must be greater than zero'', 1)
      else bind_p (run_diagnostics io send) (\<lambda>rs. return_p (diag_output json rs, diag_exit_code rs)))"

section \<open>What a DSN gives away\<close>

definition user_part :: "string \<Rightarrow> bool" where
  "user_part u \<longleftrightarrow> u \<noteq> [] \<and> hd u \<noteq> CHR '':'' \<and>
     list_all (\<lambda>c. \<not> netloc_end c \<and> c \<noteq> CHR ''@'' \<and> c \<noteq> CHR ''['' \<and> c \<noteq> CHR '']'' \<and> c \<noteq> CHR 0x09 \<and> c \<noteq> CHR 0x0D \<and> c \<noteq> CHR 0x0A) u"

definition dsn_for :: "string \<Rightarrow> string \<Rightarrow> string" where
  "dsn_for u rest = ''https://'' @ u @ ''@'' @ rest"

lemma after_last_at: "after_last c (u @ c # h) = after_last c h"
proof -
  have "takeWhile (\<lambda>d. d \<noteq> c) (rev (u @ c # h)) = takeWhile (\<lambda>d. d \<noteq> c) (rev h @ [c] @ rev u)" by simp
  also have "\<dots> = takeWhile (\<lambda>d. d \<noteq> c) (rev h)"
  proof (cases "c \<in> set h")
    case False
    then have t: "takeWhile (\<lambda>d. d \<noteq> c) (rev h) = rev h" by (subst takeWhile_eq_all_conv) auto
    show ?thesis using False by (simp add: takeWhile_append t)
  qed (simp add: takeWhile_append1 [of c])
  finally show ?thesis by (simp only: after_last_def)
qed

lemma before_last_at: "\<exists>v. before_last c (u @ c # h) = u @ v"
proof -
  have "length (after_last c h) \<le> length h" using length_takeWhile_le [of "\<lambda>d. d \<noteq> c" "rev h"] by (simp add: after_last_def)
  then have "length u \<le> length (u @ c # h) - Suc (length (after_last c (u @ c # h)))" by (simp add: after_last_at)
  then show ?thesis unfolding before_last_def by (simp add: take_append)
qed

definition rest_netloc :: "string \<Rightarrow> string" where
  "rest_netloc rest = takeWhile (\<lambda>c. \<not> netloc_end c) (filter (\<lambda>c. c \<noteq> CHR 0x09 \<and> c \<noteq> CHR 0x0D \<and> c \<noteq> CHR 0x0A) rest)"

lemma urlsplit_dsn:
  assumes "user_part u"
  shows "urlsplit chk (dsn_for u rest) =
     (let h = rest_netloc rest; tail = dropWhile (\<lambda>c. \<not> netloc_end c) (filter (\<lambda>c. c \<noteq> CHR 0x09 \<and> c \<noteq> CHR 0x0D \<and> c \<noteq> CHR 0x0A) rest)
      in if (CHR ''['' \<in> set h) \<noteq> (CHR '']'' \<in> set h) then Inl ''Invalid IPv6 URL''
         else case chk (u @ CHR ''@'' # h) of Some m \<Rightarrow> Inl m
           | None \<Rightarrow> Inr \<lparr>up_scheme = ''https'', up_netloc = u @ CHR ''@'' # h, up_path = part_before (CHR ''?'') (part_before (CHR ''#'') tail)\<rparr>)"
proof -
  let ?f = "\<lambda>c. c \<noteq> CHR 0x09 \<and> c \<noteq> CHR 0x0D \<and> c \<noteq> CHR 0x0A"
  have u: "filter ?f u = u" "list_all (\<lambda>c. \<not> netloc_end c) u" "CHR ''['' \<notin> set u" "CHR '']'' \<notin> set u"
    using assms by (auto simp: user_part_def list_all_iff filter_id_conv)
  have clean: "clean_url (dsn_for u rest) = ''https://'' @ u @ CHR ''@'' # filter ?f rest"
    using u(1) by (simp add: clean_url_def dsn_for_def)
  have scheme: "has_scheme (''https://'' @ v)" "part_before (CHR '':'') (''https://'' @ v) = ''https''" "part_after (CHR '':'') (''https://'' @ v) = ''//'' @ v" for v
    by (simp_all add: has_scheme_def part_before_def part_after_def Let_def scheme_char_def ascii_lower_def)
  have low: "py_lower ''https'' = ''https''" by code_simp
  have at: "\<not> netloc_end (CHR ''@'')" by (simp add: netloc_end_def)
  have take: "takeWhile (\<lambda>c. \<not> netloc_end c) (u @ CHR ''@'' # filter ?f rest) = u @ CHR ''@'' # rest_netloc rest"
    using u(2) at by (simp add: rest_netloc_def takeWhile_append2 list_all_iff)
  have drop: "dropWhile (\<lambda>c. \<not> netloc_end c) (u @ CHR ''@'' # filter ?f rest) = dropWhile (\<lambda>c. \<not> netloc_end c) (filter ?f rest)"
    using u(2) at by (simp add: dropWhile_append2 list_all_iff)
  have slashes: "starts_with ''//'' (''//'' @ v)" "drop 2 (''//'' @ v) = v" for v by (simp_all add: starts_with_def)
  show ?thesis
    unfolding urlsplit_def clean Let_def
    using u(3,4) by (simp only: scheme if_True low slashes take drop) (simp cong: option.case_cong)
qed

lemma host_port_user: "host_port (u @ CHR ''@'' # h) = host_port (CHR ''@'' # h)"
  unfolding host_port_def using after_last_at [of "CHR ''@''" u h] after_last_at [of "CHR ''@''" "[]" h] by simp

lemma username_user:
  assumes "user_part u"
  shows "username (u @ CHR ''@'' # h) \<noteq> []"
proof -
  obtain v where "before_last (CHR ''@'') (u @ CHR ''@'' # h) = u @ v" using before_last_at by blast
  then show ?thesis using assms by (cases u) (auto simp: username_def part_before_def user_part_def)
qed

lemma parse_user:
  assumes "user_part u" "user_part v" "chk (u @ CHR ''@'' # rest_netloc rest) = None" "chk (v @ CHR ''@'' # rest_netloc rest) = None"
  shows "parse_sentry_target chk (dsn_for u rest) = parse_sentry_target chk (dsn_for v rest)"
proof -
  have same: "url_port (w @ CHR ''@'' # h) = url_port (CHR ''@'' # h)" "url_hostname (w @ CHR ''@'' # h) = url_hostname (CHR ''@'' # h)" for w h
    by (simp_all only: url_port_def url_hostname_def host_port_user)
  let ?h = "rest_netloc rest"
  show ?thesis
    by (cases "(CHR ''['' \<in> set ?h) \<noteq> (CHR '']'' \<in> set ?h)"; cases "url_port (CHR ''@'' # ?h)")
      (simp_all only: parse_sentry_target_def urlsplit_dsn [OF assms(1)] urlsplit_dsn [OF assms(2)] Let_def assms(3,4) if_True if_False
        sum.case option.case same username_user [OF assms(1)] username_user [OF assms(2)] url_parts.simps refl not_True_eq_False not_False_eq_True)
qed

text \<open>A DSN whose key has no host after it: the secret is taken for the port, and shown.\<close>

lemma misplaced_secret_shown:
  "parse_sentry_target (\<lambda>_. None) ''https://key:s3cret/42'' =
     Inl (''invalid SENTRY_DSN: Port could not be cast to integer value as '' @ [CHR 0x27] @ ''s3cret'' @ [CHR 0x27])"
  by code_simp

section \<open>Look-ups and sockets\<close>

lemma resolve_run:
  assumes "resolve_from io t n k s = (r, s')" "0 < n"
  shows "dg_open s' = dg_open s \<and> dg_lookups s < dg_lookups s' \<and> dg_lookups s' \<le> dg_lookups s + n \<and>
     (case r of Ret (as, j) \<Rightarrow> as \<noteq> [] \<and> j + dg_lookups s = k + dg_lookups s' - 1 | Raise e \<Rightarrow> exn_kind e = OSError | Stuck \<Rightarrow> False)"
  using assms
proof (induction n arbitrary: k s)
  case (Suc n)
  obtain a w where l: "di_lookup io (st_host t) (st_port t) (dg_world s) = (a, w)" by fastforce
  let ?s = "s\<lparr>dg_world := w, dg_lookups := Suc (dg_lookups s)\<rparr>"
  show ?case
  proof (cases "(\<exists>as. a = Found as \<and> as \<noteq> []) \<or> \<not> (n > 0 \<and> retryable io (snd (answer_error io a)))")
    case True
    then show ?thesis
      using Suc.prems(1) by (cases a) (auto simp: bind_p_def lookup_d_def l Let_def split: if_splits)
  next
    case False
    have "resolve_from io t n (Suc k) (?s\<lparr>dg_world := di_sleep io w\<rparr>) = (r, s')"
      using Suc.prems(1) False
      by (cases a) (auto simp: bind_p_def lookup_d_def l Let_def then_p_def ext_d_def zoom_p_def split: if_splits)
    from Suc.IH [OF this] False show ?thesis by (cases r) (auto split: prod.splits)
  qed
qed simp

lemma connect_run:
  assumes "connect_resolved io as e s = (r, s')" "r \<noteq> Stuck"
  shows "dg_lookups s' = dg_lookups s \<and>
     (case r of Ret x \<Rightarrow> dg_open s' = x # dg_open s
      | Raise e' \<Rightarrow> (is_os_error (exn_kind e') \<longrightarrow> dg_open s' = dg_open s) | Stuck \<Rightarrow> False)"
  using assms
proof (induction as arbitrary: e s)
  case (Cons a as)
  obtain q w where q: "di_socket io a (dg_world s) = (q, w)" by fastforce
  show ?case
  proof (cases q)
    case (Ret x)
    obtain p v where p: "di_connect io x a w = (p, v)" by fastforce
    let ?s = "s\<lparr>dg_world := v, dg_open := x # dg_open s\<rparr>"
    show ?thesis
    proof (cases p)
      case (Raise e')
      show ?thesis
      proof (cases "is_os_error (exn_kind e')")
        case True
        then have "connect_resolved io as e' (?s\<lparr>dg_open := dg_open s\<rparr>) = (r, s')"
          using Cons.prems(1) q Ret p Raise
          by (auto simp: bind_p_def open_socket_def then_p_def ext_d_def zoom_p_def catch_p_def close_connection_def)
        from Cons.IH [OF this Cons.prems(2)] show ?thesis by (cases r) simp_all
      next
        case False
        then show ?thesis
          using Cons.prems q Ret p Raise
          by (auto simp: bind_p_def open_socket_def then_p_def ext_d_def zoom_p_def catch_p_def)
      qed
    qed (use Cons.prems q Ret p in \<open>auto simp: bind_p_def open_socket_def then_p_def ext_d_def zoom_p_def catch_p_def\<close>)
  qed (use Cons.prems q in \<open>auto simp: bind_p_def open_socket_def then_p_def ext_d_def zoom_p_def\<close>)
qed auto


lemma zoom_frame: "ext_d m s = (r, s') \<Longrightarrow> dg_open s' = dg_open s \<and> dg_lookups s' = dg_lookups s"
  by (auto simp: ext_d_def zoom_p_def split: prod.splits)

lemma delivery_run:
  assumes "attempt_delivery io dsn rs s = (Ret qs, s')"
  shows "dg_open s' = dg_open s \<and> dg_lookups s' = dg_lookups s \<and>
     (\<exists>x w w'. di_send io dsn w = (Ret x, w') \<and> qs = rs @ [delivery_result (evidence_of x)])"
  using assms by (auto simp: attempt_delivery_def bind_p_Ret_iff ext_d_def zoom_p_def split: prod.splits)

text \<open>The last result of a run that ended well.\<close>

definition ends_well :: "('w, 'a, 's) diag_io \<Rightarrow> bool \<Rightarrow> string \<Rightarrow> diag_result \<Rightarrow> bool" where
  "ends_well io send dsn q \<longleftrightarrow>
     (if send then \<exists>x w w' n. di_send io dsn w = (Ret x, w') \<and> de_status (evidence_of x) = Some n \<and> 200 \<le> n \<and> n < 300 \<and>
        q = delivery_result (evidence_of x)
      else q = skip_event)"

definition no_fail :: "diag_result list \<Rightarrow> bool" where
  "no_fail rs \<longleftrightarrow> list_all (\<lambda>r. dr_status r \<noteq> ''FAIL'') rs"

lemma no_fail_append: "no_fail (rs @ qs) \<longleftrightarrow> no_fail rs \<and> no_fail qs"
  by (simp add: no_fail_def)

lemma delivered_well: "no_fail [delivery_result ev] \<Longrightarrow> \<exists>n. de_status ev = Some n \<and> 200 \<le> n \<and> n < 300"
  by (auto simp: no_fail_def delivery_result_def mk_result_def split: option.splits if_splits)

lemma delivery_check: "dr_check (delivery_result ev) = ''event''"
  by (simp add: delivery_result_def mk_result_def split: option.split)

lemma end_failed_run:
  assumes "end_failed io send dsn rs s = (Ret qs, s')" "\<not> no_fail rs"
  shows "dg_open s' = dg_open s \<and> dg_lookups s' = dg_lookups s \<and> \<not> no_fail qs"
  using assms delivery_run [of io dsn rs s qs s'] by (auto simp: end_failed_def no_fail_append split: if_splits)

lemma finish_checks_run:
  assumes "finish_checks io send dsn rs s = (Ret qs, s')"
  shows "dg_open s' = dg_open s \<and> dg_lookups s' = dg_lookups s \<and>
     (no_fail qs \<longrightarrow> (\<exists>q. qs = rs @ [q] \<and> dr_check q = ''event'' \<and> ends_well io send dsn q))"
proof (cases send)
  case True
  then have d: "attempt_delivery io dsn rs s = (Ret qs, s')" using assms by (simp add: finish_checks_def)
  obtain x w w' where x: "di_send io dsn w = (Ret x, w')" "qs = rs @ [delivery_result (evidence_of x)]"
    using delivery_run [OF d] by blast
  have "ends_well io send dsn (delivery_result (evidence_of x))" if "no_fail qs"
  proof -
    have "no_fail [delivery_result (evidence_of x)]" using that x(2) by (simp add: no_fail_append)
    then obtain n where "de_status (evidence_of x) = Some n" "200 \<le> n" "n < 300" using delivered_well by blast
    then show ?thesis using x(1) True unfolding ends_well_def by (simp only: refl if_True) blast
  qed
  then show ?thesis using delivery_run [OF d] x delivery_check by blast
next
  case False
  then show ?thesis using assms by (auto simp: finish_checks_def ends_well_def skip_event_def mk_result_def)
qed

lemma failing: "\<not> no_fail (rs @ [mk_result c ''FAIL'' m])"
  by (simp add: no_fail_def mk_result_def)

lemma os_result_run:
  "os_result m s = (Ret v, s') \<longleftrightarrow>
     (\<exists>x. m s = (Ret x, s') \<and> v = Inr x) \<or> (\<exists>e. m s = (Raise e, s') \<and> is_os_error (exn_kind e) \<and> v = Inl (exn_msg e))"
  by (auto simp: os_result_def catch_p_def bind_p_def split: prod.splits res.splits)

definition goes_on :: "('w, 'a, 's) diag_io \<Rightarrow> bool \<Rightarrow> string \<Rightarrow> string list \<Rightarrow> diag_result list \<Rightarrow> diag_result list \<Rightarrow> bool" where
  "goes_on io send dsn checks rs qs \<longleftrightarrow>
     (no_fail qs \<longrightarrow> (\<exists>more q. qs = rs @ more @ [q] \<and> map dr_check more = checks \<and> dr_check q = ''event'' \<and> ends_well io send dsn q))"

lemma goes_onI:
  assumes "no_fail qs \<longrightarrow> (\<exists>q. qs = (rs @ [r]) @ [q] \<and> dr_check q = ''event'' \<and> ends_well io send dsn q)" "dr_check r = c"
  shows "goes_on io send dsn [c] rs qs"
proof -
  have "\<exists>more q. qs = rs @ more @ [q] \<and> map dr_check more = [c] \<and> dr_check q = ''event'' \<and> ends_well io send dsn q" if nf: "no_fail qs"
  proof -
    obtain q where "qs = (rs @ [r]) @ [q]" "dr_check q = ''event''" "ends_well io send dsn q" using assms(1) nf by blast
    then have "qs = rs @ [r] @ [q] \<and> map dr_check [r] = [c] \<and> dr_check q = ''event'' \<and> ends_well io send dsn q"
      using assms(2) by simp
    then show ?thesis by (intro exI)
  qed
  then show ?thesis unfolding goes_on_def by blast
qed

lemma goes_on_Cons:
  assumes "goes_on io send dsn checks (rs @ [r]) qs" "dr_check r = c"
  shows "goes_on io send dsn (c # checks) rs qs"
proof -
  have "\<exists>more q. qs = rs @ more @ [q] \<and> map dr_check more = c # checks \<and> dr_check q = ''event'' \<and> ends_well io send dsn q" if nf: "no_fail qs"
  proof -
    obtain more q where "qs = (rs @ [r]) @ more @ [q]" "map dr_check more = checks" "dr_check q = ''event''" "ends_well io send dsn q"
      using assms(1) nf unfolding goes_on_def by blast
    then have "qs = rs @ (r # more) @ [q] \<and> map dr_check (r # more) = c # checks \<and> dr_check q = ''event'' \<and> ends_well io send dsn q"
      using assms(2) by simp
    then show ?thesis by (intro exI)
  qed
  then show ?thesis unfolding goes_on_def by blast
qed

lemma dr_check_result [simp]: "dr_check (mk_result c st m) = c"
  by (simp add: mk_result_def)

lemma tls_check_run:
  assumes "tls_check io send dsn t x rs s = (Ret qs, s')"
  shows "dg_open s' = remove1 x (dg_open s) \<and> dg_lookups s' = dg_lookups s \<and> goes_on io send dsn [''tls''] rs qs"
proof -
  obtain v s1 where v: "os_result (ext_d (di_tls io x (st_host t))) s = (Ret v, s1)"
    and rest: "(case v of
        Inl m \<Rightarrow> end_failed io send dsn (rs @ [mk_result ''tls'' ''FAIL'' (''TLS verification error: '' @ m)])
      | Inr version \<Rightarrow> finish_checks io send dsn
          (rs @ [mk_result ''tls'' ''PASS'' (''certificate verification succeeded ('' @
             (case version of None \<Rightarrow> ''unknown TLS version'' | Some n \<Rightarrow> if n = [] then ''unknown TLS version'' else n) @ '')'')]))
      (s1\<lparr>dg_open := remove1 x (dg_open s1)\<rparr>) = (Ret qs, s')"
    using assms by (auto simp: tls_check_def bind_p_Ret_iff then_p_Ret_iff close_connection_def)
  have s1: "dg_open s1 = dg_open s \<and> dg_lookups s1 = dg_lookups s" using v zoom_frame by (fastforce simp: os_result_run)
  show ?thesis
  proof (cases v)
    case (Inl m)
    then have "end_failed io send dsn (rs @ [mk_result ''tls'' ''FAIL'' (''TLS verification error: '' @ m)]) (s1\<lparr>dg_open := remove1 x (dg_open s1)\<rparr>) = (Ret qs, s')"
      using rest by simp
    from end_failed_run [OF this failing] s1 show ?thesis by (simp add: goes_on_def)
  next
    case (Inr version)
    then show ?thesis using finish_checks_run [OF rest [unfolded Inr sum.case]] s1 by (auto intro!: goes_onI)
  qed
qed

lemma tcp_check_run:
  assumes "tcp_check io send dsn t addresses rs s = (Ret qs, s')"
  shows "dg_open s' = dg_open s \<and> dg_lookups s' = dg_lookups s \<and>
     goes_on io send dsn (''tcp'' # (if st_tls t then [''tls''] else [])) rs qs"
proof -
  obtain c s1 where c: "os_result (connect_resolved io addresses no_address) s = (Ret c, s1)"
    and rest: "(case c of
         Inl m \<Rightarrow> end_failed io send dsn (rs @ [mk_result ''tcp'' ''FAIL'' (''connection error: '' @ m)])
       | Inr x \<Rightarrow>
           if st_tls t then tls_check io send dsn t x (rs @ [mk_result ''tcp'' ''PASS'' ''TCP connection succeeded''])
           else then_p (close_connection x) (finish_checks io send dsn (rs @ [mk_result ''tcp'' ''PASS'' ''TCP connection succeeded'']))) s1 = (Ret qs, s')"
    using assms unfolding tcp_check_def bind_p_Ret_iff Let_def by blast
  show ?thesis
  proof (cases c)
    case (Inl m)
    then have s1: "dg_open s1 = dg_open s" "dg_lookups s1 = dg_lookups s"
      using c by (auto simp: os_result_run dest!: connect_run)
    from end_failed_run [OF rest [unfolded Inl sum.case] failing] s1 show ?thesis by (simp add: goes_on_def)
  next
    case (Inr x)
    then have s1: "dg_open s1 = x # dg_open s" "dg_lookups s1 = dg_lookups s"
      using c by (auto simp: os_result_run dest!: connect_run)
    show ?thesis
    proof (cases "st_tls t")
      case True
      with Inr rest have "tls_check io send dsn t x (rs @ [mk_result ''tcp'' ''PASS'' ''TCP connection succeeded'']) s1 = (Ret qs, s')" by simp
      note tls = tls_check_run [OF this]
      have "goes_on io send dsn [''tcp'', ''tls''] rs qs" by (rule goes_on_Cons [OF _ dr_check_result]) (use tls in blast)
      then show ?thesis using tls s1 True by simp
    next
      case False
      with Inr rest have "finish_checks io send dsn (rs @ [mk_result ''tcp'' ''PASS'' ''TCP connection succeeded'']) (s1\<lparr>dg_open := remove1 x (dg_open s1)\<rparr>) = (Ret qs, s')"
        by (simp add: then_p_def close_connection_def)
      from finish_checks_run [OF this] s1 False show ?thesis by (auto intro!: goes_onI)
    qed
  qed
qed

lemma dns_check_run:
  assumes "dns_check io send dsn t rs s = (Ret qs, s')"
  shows "dg_open s' = dg_open s \<and> dg_lookups s' \<le> dg_lookups s + dns_attempts \<and>
     goes_on io send dsn (''dns'' # ''tcp'' # (if st_tls t then [''tls''] else [])) rs qs"
proof -
  obtain v s1 where v: "os_result (resolve_target io t) s = (Ret v, s1)"
    and rest: "(case v of
         Inl m \<Rightarrow> end_failed io send dsn (rs @ [mk_result ''dns'' ''FAIL'' (''resolver error after '' @ nat_str dns_attempts @ '' attempts: '' @ m)])
       | Inr (addresses, attempts) \<Rightarrow>
           tcp_check io send dsn t addresses (rs @ [mk_result ''dns'' ''PASS'' (dns_detail io t addresses attempts)])) s1 = (Ret qs, s')"
    using assms by (auto simp: dns_check_def bind_p_Ret_iff)
  obtain r where r: "resolve_from io t dns_attempts 1 s = (r, s1)" using v by (auto simp: os_result_run resolve_target_def)
  have s1: "dg_open s1 = dg_open s" "dg_lookups s1 \<le> dg_lookups s + dns_attempts"
    using resolve_run [OF r] by (simp_all add: dns_attempts_def)
  show ?thesis
  proof (cases v)
    case (Inl m)
    from end_failed_run [OF rest [unfolded Inl sum.case] failing] s1 show ?thesis by (simp add: goes_on_def)
  next
    case (Inr p)
    obtain addresses attempts where "p = (addresses, attempts)" by (cases p)
    then have "tcp_check io send dsn t addresses (rs @ [mk_result ''dns'' ''PASS'' (dns_detail io t addresses attempts)]) s1 = (Ret qs, s')"
      using rest Inr by simp
    note tcp = tcp_check_run [OF this]
    have "goes_on io send dsn (''dns'' # ''tcp'' # (if st_tls t then [''tls''] else [])) rs qs"
      by (rule goes_on_Cons [OF _ dr_check_result]) (use tcp in blast)
    then show ?thesis using tcp s1 by simp
  qed
qed

text \<open>The failure of the resolver is always said to come after three attempts.\<close>

lemma one_attempt_said_three:
  assumes "di_lookup io (st_host t) (st_port t) (dg_world s) = (DnsError m errno, w)" "\<not> retryable io errno"
  shows "dns_check io False dsn t rs s =
     (Ret (rs @ [mk_result ''dns'' ''FAIL'' (''resolver error after 3 attempts: '' @ m)]), s\<lparr>dg_world := w, dg_lookups := Suc (dg_lookups s)\<rparr>)"
proof -
  have "resolve_target io t s = (Raise (Exn OSError m), s\<lparr>dg_world := w, dg_lookups := Suc (dg_lookups s)\<rparr>)"
    using assms by (simp add: resolve_target_def dns_attempts_def eval_nat_numeral bind_p_def lookup_d_def answer_error_def)
  moreover have "nat_str dns_attempts = ''3''" by (simp add: dns_attempts_def nat_str.simps)
  ultimately show ?thesis by (simp add: dns_check_def bind_p_def os_result_def catch_p_def end_failed_def)
qed

section \<open>The environment\<close>

lemma resolve_env: "resolve_from (io\<lparr>di_env := e\<rparr>) t n k = resolve_from io t n k"
proof (induction n arbitrary: k)
  case (Suc n)
  have same: "lookup_d (io\<lparr>di_env := e\<rparr>) t = lookup_d io t" "answer_error (io\<lparr>di_env := e\<rparr>) = answer_error io"
    "retryable (io\<lparr>di_env := e\<rparr>) = retryable io" "di_sleep (io\<lparr>di_env := e\<rparr>) = di_sleep io"
    by (rule ext, simp add: lookup_d_def answer_error_def retryable_def cong: dns_answer.case_cong)+
  show ?case by (simp only: resolve_from.simps same Suc)
qed simp

lemma connect_env: "connect_resolved (io\<lparr>di_env := e\<rparr>) as x = connect_resolved io as x"
proof (induction as arbitrary: x)
  case (Cons a as)
  have "connect_resolved (io\<lparr>di_env := e\<rparr>) as = connect_resolved io as" by (rule ext) (rule Cons)
  then show ?case by (simp add: open_socket_def)
qed simp

lemma ends_env: "end_failed (io\<lparr>di_env := e\<rparr>) False dsn = end_failed io False dsn'" "finish_checks (io\<lparr>di_env := e\<rparr>) False dsn = finish_checks io False dsn'"
  by (rule ext, simp add: end_failed_def finish_checks_def)+

lemma tls_env: "tls_check (io\<lparr>di_env := e\<rparr>) False dsn t = tls_check io False dsn' t"
proof (intro ext)
  have same: "di_tls (io\<lparr>di_env := e\<rparr>) = di_tls io" by simp
  show "tls_check (io\<lparr>di_env := e\<rparr>) False dsn t x rs s = tls_check io False dsn' t x rs s" for x rs s
    unfolding tls_check_def same ends_env [where io = io and e = e and dsn = dsn and dsn' = dsn'] ..
qed

lemma tcp_env: "tcp_check (io\<lparr>di_env := e\<rparr>) False dsn t = tcp_check io False dsn' t"
proof (intro ext)
  show "tcp_check (io\<lparr>di_env := e\<rparr>) False dsn t as rs s = tcp_check io False dsn' t as rs s" for as rs s
    unfolding tcp_check_def connect_env ends_env [where io = io and e = e and dsn = dsn and dsn' = dsn'] tls_env [where io = io and e = e and dsn = dsn and dsn' = dsn'] ..
qed

lemma checks_env: "dns_check (io\<lparr>di_env := e\<rparr>) False dsn t rs = dns_check io False dsn' t rs"
proof -
  have same: "dns_detail (io\<lparr>di_env := e\<rparr>) t as n = dns_detail io t as n" for as n
  proof -
    have "di_address (io\<lparr>di_env := e\<rparr>) = di_address io" by simp
    then show ?thesis unfolding dns_detail_def by (rule arg_cong)
  qed
  show ?thesis
    unfolding dns_check_def resolve_target_def resolve_env ends_env [where io = io and e = e and dsn = dsn and dsn' = dsn'] tcp_env [where io = io and e = e and dsn = dsn and dsn' = dsn'] same ..
qed

section \<open>Properties\<close>



text \<open>A host that answers everything, over a resolver that has to be asked twice.\<close>

definition sample_diag_io :: "(nat, string, nat) diag_io" where
  "sample_diag_io =
     \<lparr>di_sdk = Some (Some ''2.0''), di_env = [''SENTRY_DSN'' \<mapsto> dsn_for ''key'' ''h/1''], di_check_netloc = (\<lambda>_. None),
      di_again = Some 2, di_noname = Some 8,
      di_lookup = (\<lambda>_ _ w. (if w = 0 then DnsError ''again'' (Some 2) else Found [''192.0.2.1''], Suc w)), di_sleep = id, di_address = id,
      di_socket = (\<lambda>_. return_p 5), di_connect = (\<lambda>_ _. return_p ()), di_tls = (\<lambda>_ _. return_p (Some ''TLSv1.3'')),
      di_send = (\<lambda>_. return_p \<lparr>so_event_id = Some ''e'', so_events = Some [Responded 200]\<rparr>)\<rparr>"


lemma sample_diag_run:
  "\<exists>rs s'. run_diagnostics sample_diag_io True \<lparr>dg_world = 0, dg_open = [], dg_lookups = 0\<rparr> = (Ret rs, s') \<and> diag_exit_code rs = 0"
proof -
  have "parse_sentry_target (\<lambda>_. None) (dsn_for ''key'' ''h/1'') = Inr \<lparr>st_host = ''h'', st_port = 443, st_tls = True\<rparr>" by code_simp
  moreover have "dsn_for ''key'' ''h/1'' \<noteq> []" by (simp add: dsn_for_def)
  ultimately show ?thesis
    by (simp add: run_diagnostics_def sample_diag_io_def Let_def dns_check_def resolve_target_def dns_attempts_def eval_nat_numeral
      bind_p_def lookup_d_def answer_error_def retryable_def os_result_def catch_p_def then_p_def ext_d_def zoom_p_def tcp_check_def open_socket_def
      tls_check_def close_connection_def finish_checks_def attempt_delivery_def evidence_of_def last_response_def delivery_result_def
      diag_exit_code_def mk_result_def)
qed


end
