(* ===== verification/Telemetry.thy ===== *)
theory Telemetry
  imports Redaction
begin

text \<open>
  telemetry.py and kernel_telemetry.py: what leaves for Sentry of a kernel's error, and which
  errors are reported. The redaction of events is in the theory \<open>Redaction\<close>, the calls of the
  Sentry SDK are in \<open>Sentry_Sdk\<close>; an event is the document given to it.
\<close>

section \<open>Kernel errors\<close>

text \<open>\<open>_SAFE_EXCEPTION_TYPE_RE.fullmatch\<close>\<close>

definition name_start :: "char \<Rightarrow> bool" where
  "name_start c \<longleftrightarrow> ascii_lower c \<or> ascii_upper c \<or> c = CHR ''_''"

definition name_char :: "char \<Rightarrow> bool" where
  "name_char c \<longleftrightarrow> name_start c \<or> ascii_digit c \<or> c = CHR ''.''"

definition safe_exception_type :: "string \<Rightarrow> bool" where
  "safe_exception_type s \<longleftrightarrow>
     (case s of [] \<Rightarrow> False | c # r \<Rightarrow> name_start c \<and> list_all name_char r \<and> length r \<le> 199)"

text \<open>\<open>show_value\<close> is \<open>str\<close> on a name that is no string.\<close>

definition error_type :: "(pyval \<Rightarrow> string) \<Rightarrow> pyval \<Rightarrow> string" where
  "error_type show_value error_name =
     (let name = (if truthy error_name then error_name else PStr ''KernelExecutionError'');
          raw_name = take 200 (case name of PStr t \<Rightarrow> t | v \<Rightarrow> show_value v)
      in if safe_exception_type raw_name then raw_name else ''KernelExecutionError'')"

definition kernel_error_event :: "(pyval \<Rightarrow> string) \<Rightarrow> pyval \<Rightarrow> pyval \<Rightarrow> string option \<Rightarrow> pyval" where
  "kernel_error_event show_value error_name error_value kernel_name =
     PDict [(''level'', PStr ''error''),
       (''exception'', PDict [(''values'', PList [PDict
          [(''type'', PStr (error_type show_value error_name)), (''value'', PStr ''Kernel execution failed''),
           (''mechanism'', PDict [(''type'', PStr ''jupyter-kernel''), (''handled'', PBool True)])]])])]"

section \<open>The connection\<close>

definition kernel_error_values :: "pyval \<Rightarrow> pyval \<Rightarrow> (pyval \<times> pyval) option" where
  "kernel_error_values header content =
     (case header of
        PDict h \<Rightarrow>
          (if \<not> py_eq_str (pget h ''msg_type'') ''error'' then None
           else case content of
             PDict c \<Rightarrow> Some (pget c ''ename'', pget c ''evalue'')
           | _ \<Rightarrow> None)
      | _ \<Rightarrow> None)"

text \<open>The identifiers of recent errors: the queue, with its limit, and the set.\<close>

record recent_errors =
  re_ids :: "string list"
  re_set :: "string list"

definition recent_limit :: nat where
  "recent_limit = 1024"

definition expire_oldest :: "recent_errors \<Rightarrow> recent_errors" where
  "expire_oldest d =
     (if length (re_ids d) = recent_limit
      then d\<lparr>re_ids := tl (re_ids d), re_set := removeAll (hd (re_ids d)) (re_set d)\<rparr> else d)"

definition first_observation :: "pyval \<Rightarrow> recent_errors \<Rightarrow> bool \<times> recent_errors" where
  "first_observation message_id d =
     (case message_id of
        PStr m \<Rightarrow>
          (if m = [] then (True, d)
           else if m \<in> set (re_set d) then (False, d)
           else let d' = expire_oldest d
                in (True, d'\<lparr>re_ids := re_ids d' @ [m], re_set := List.insert m (re_set d')\<rparr>))
      | _ \<Rightarrow> (True, d))"

text \<open>\<open>_on_error\<close>: the event to report, if any.\<close>

definition on_error ::
    "(pyval \<Rightarrow> string) \<Rightarrow> string option \<Rightarrow> string option \<Rightarrow> pyval \<Rightarrow> pyval \<Rightarrow> recent_errors \<Rightarrow> pyval option \<times> recent_errors" where
  "on_error show_value kernel_name channel header content d =
     (if channel \<noteq> Some ''iopub'' then (None, d)
      else case kernel_error_values header content of
        None \<Rightarrow> (None, d)
      | Some (ename, evalue) \<Rightarrow>
          (case first_observation (case header of PDict h \<Rightarrow> pget h ''msg_id'' | _ \<Rightarrow> PNone) d of
             (False, d') \<Rightarrow> (None, d')
           | (True, d') \<Rightarrow> (Some (kernel_error_event show_value ename evalue kernel_name), d')))"

section \<open>The queue and the set\<close>

definition recent_ok :: "recent_errors \<Rightarrow> bool" where
  "recent_ok d \<longleftrightarrow> distinct (re_ids d) \<and> set (re_set d) = set (re_ids d) \<and> length (re_ids d) \<le> recent_limit"

definition observe :: "recent_errors \<Rightarrow> pyval \<Rightarrow> recent_errors" where
  "observe d message_id = snd (first_observation message_id d)"

lemma expire_oldest_ok:
  assumes "recent_ok d"
  shows "distinct (re_ids (expire_oldest d)) \<and> set (re_set (expire_oldest d)) = set (re_ids (expire_oldest d)) \<and>
    length (re_ids (expire_oldest d)) < recent_limit \<and> set (re_ids (expire_oldest d)) \<subseteq> set (re_ids d)"
  using assms by (cases "re_ids d") (auto simp: recent_ok_def expire_oldest_def recent_limit_def)

lemma observe_ok: "recent_ok d \<Longrightarrow> True \<Longrightarrow> recent_ok (observe d v)"
  using expire_oldest_ok [of d]
  by (auto simp: observe_def first_observation_def Let_def recent_ok_def split: pyval.split)

interpretation recent: invariant_machine observe recent_ok "\<lambda>_. True"
  by unfold_locales (rule observe_ok)

text \<open>The identifier \<open>m\<close> is in the queue with at most \<open>k\<close> younger ones.\<close>

definition younger :: "string \<Rightarrow> nat \<Rightarrow> recent_errors \<Rightarrow> bool" where
  "younger m k d \<longleftrightarrow> (\<exists>xs ys. re_ids d = xs @ m # ys \<and> length ys \<le> k)"

lemma observe_younger:
  assumes "recent_ok d" "younger m k d" "Suc k < recent_limit"
  shows "younger m (Suc k) (observe d v)"
proof -
  obtain xs ys where q: "re_ids d = xs @ m # ys" "length ys \<le> k" using assms(2) by (auto simp: younger_def)
  show ?thesis
  proof (cases "re_ids (observe d v) = re_ids d")
    case True
    then show ?thesis using q by (auto simp: younger_def intro: le_SucI)
  next
    case False
    then obtain n where n: "re_ids (observe d v) = re_ids (expire_oldest d) @ [n]"
      by (auto simp: observe_def first_observation_def Let_def split: pyval.splits if_splits)
    show ?thesis
    proof (cases "length (re_ids d) = recent_limit")
      case True
      then have "xs \<noteq> []" using q assms(3) by (auto simp: recent_limit_def)
      then obtain x xs' where "xs = x # xs'" by (cases xs) auto
      then have "re_ids (observe d v) = xs' @ m # (ys @ [n])" using q True by (simp add: n expire_oldest_def)
      with q(2) show ?thesis unfolding younger_def by (metis length_append_singleton not_less_eq_eq)
    next
      case False
      then have "re_ids (observe d v) = xs @ m # (ys @ [n])" using q by (simp add: n expire_oldest_def)
      with q(2) show ?thesis unfolding younger_def by (metis length_append_singleton not_less_eq_eq)
    qed
  qed
qed

lemma run_younger:
  "recent_ok d \<Longrightarrow> younger m k d \<Longrightarrow> k + length vs < recent_limit \<Longrightarrow> younger m (k + length vs) (run_steps observe d vs)"
proof (induction vs arbitrary: d k)
  case (Cons v vs)
  from Cons.prems have "Suc k < recent_limit" by simp
  from Cons.IH [OF observe_ok [OF Cons.prems(1) TrueI] observe_younger [OF Cons.prems(1,2) this]] Cons.prems(3)
  show ?case by simp
qed simp

section \<open>Properties\<close>

text \<open>
  A kernel error is reported once. After an error's identifier was reported, none of
  the next thousand and more observations, fewer than 1,024, makes it reported again: the
  queue and the set agree throughout.
\<close>

lemma error_reported_once:
  assumes "recent_ok d" "first_observation (PStr m) d = (True, d')" "m \<noteq> []" "length vs < 1024"
  shows "fst (first_observation (PStr m) (run_steps observe d' vs)) = False"
proof -
  have d': "d' = observe d (PStr m)" using assms(2) by (simp add: observe_def)
  then have ok: "recent_ok d'" using observe_ok assms(1) by simp
  have "re_ids d' = re_ids (expire_oldest d) @ [m]"
    using assms(2,3) by (auto simp: first_observation_def Let_def split: if_splits)
  then have "younger m 0 d'" by (auto simp: younger_def)
  from run_younger [OF ok this, of vs] assms(4)
  have "m \<in> set (re_ids (run_steps observe d' vs))" by (auto simp: younger_def recent_limit_def)
  moreover have "recent_ok (run_steps observe d' vs)" using recent.run_inv [OF ok, of vs] by (simp add: list_all_iff)
  ultimately show ?thesis using assms(3) by (simp add: first_observation_def recent_ok_def)
qed

lemma error_reported_once_witness:
  "fst (first_observation (PStr ''a'') (run_steps observe \<lparr>re_ids = [''a''], re_set = [''a'']\<rparr> [PStr ''b'', PNone])) = False"
  by (rule error_reported_once [of "\<lparr>re_ids = [], re_set = []\<rparr>"])
    (simp_all add: recent_ok_def first_observation_def expire_oldest_def recent_limit_def)

text \<open>
  Nothing of a notebook leaves with a kernel error: the event is the same for every
  error value and kernel name, and of the error's own name it has only what is an
  identifier of at most 200 characters, or else a constant.
\<close>

lemma kernel_event_discloses_type_only:
  "kernel_error_event v name value kname = kernel_error_event v name value' kname' \<and>
   (kernel_error_event v name value kname = kernel_error_event v name' value' kname' \<longleftrightarrow> error_type v name = error_type v name') \<and>
   safe_exception_type (error_type v name) \<and> length (error_type v name) \<le> 200"
proof -
  have "safe_exception_type ''KernelExecutionError''" by code_simp
  then have "safe_exception_type (error_type v name)" by (auto simp: error_type_def Let_def)
  moreover from this have "length (error_type v name) \<le> 200"
    by (auto simp: safe_exception_type_def split: list.splits)
  ultimately show ?thesis by (auto simp: kernel_error_event_def)
qed

text \<open>
  What Sentry gets holds no secret: no value under a sensitive key, at any depth, and
  events that differ in such values only are sent as the same.
\<close>

lemma sent_event_redacted:
  assumes "py_value event" "same_public is_sensitive_key event other"
  shows "masked is_sensitive_key filtered_value (redact_event event) \<and> redact_event other = redact_event event"
  using telemetry_redaction.redact_masked [OF assms(1)] telemetry_redaction.redact_same_public [OF assms(2)] by simp

lemma sent_event_redacted_witness:
  "redact_event (PDict [(''X-Secret'', PInt 1)]) = redact_event (PDict [(''X-Secret'', PList [PNone])])"
proof -
  have "is_sensitive_key ''X-Secret''" by code_simp
  then have "same_public is_sensitive_key (PDict [(''X-Secret'', PList [PNone])]) (PDict [(''X-Secret'', PInt 1)])"
    by (intro same_dict) simp
  from sent_event_redacted [OF _ this] show ?thesis by simp
qed

end
