(* ===== verification/Sentry_Sdk.thy ===== *)
theory Sentry_Sdk
  imports Telemetry
begin

text \<open>
  telemetry.py, the calls of the Sentry SDK: when a client is made and with which options, and
  what is captured with which tags. The state is the SDK's as far as the program sees it: the
  options of the client, the tags of the current scope, and the events handed to the transport,
  each after \<open>before_send\<close>. What the SDK adds to an event, the event it makes of an exception,
  its refusal of a DSN and its event identifiers are parameters.
\<close>

section \<open>The SDK\<close>

record sdk_options =
  op_dsn :: string
  op_environment :: string
  op_release :: "string option"
  op_server_name :: string
  op_default_pii :: bool
  op_local_variables :: bool
  op_source_context :: bool
  op_max_request_body :: string
  op_traces_sample_rate :: "int option"
  op_before_send :: "pyval \<Rightarrow> exn + pyval"
  op_debug :: bool

record sdk =
  sk_options :: "sdk_options option"
  sk_tags :: "(string \<times> string) list"
  sk_sent :: "pyval list"
  sk_flushed :: nat

record sdk_lib =
  sl_importable :: bool
  sl_env :: "string \<Rightarrow> string option"
  sl_dsn_error :: "string \<Rightarrow> exn option"
  sl_exception_event :: "exn \<Rightarrow> pyval"
  sl_enrich :: "(string \<times> string) list \<Rightarrow> pyval \<Rightarrow> pyval"
  sl_event_id :: "nat \<Rightarrow> string"

definition sdk_init :: "sdk_lib \<Rightarrow> sdk_options \<Rightarrow> (sdk, unit) prog" where
  "sdk_init lib opts =
     (case sl_dsn_error lib (op_dsn opts) of
        Some e \<Rightarrow> throw_p e
      | None \<Rightarrow> modify_p (\<lambda>s. s\<lparr>sk_options := Some opts\<rparr>))"

text \<open>The tags of a new scope end with it.\<close>

definition new_scope :: "(sdk, 'a) prog \<Rightarrow> (sdk, 'a) prog" where
  "new_scope m s = (case m s of (r, t) \<Rightarrow> (r, t\<lparr>sk_tags := sk_tags s\<rparr>))"

definition set_tag :: "string \<Rightarrow> string \<Rightarrow> (sdk, unit) prog" where
  "set_tag key v = modify_p (\<lambda>s. s\<lparr>sk_tags := AList.update key v (sk_tags s)\<rparr>)"

text \<open>An event whose \<open>before_send\<close> raises is dropped by the SDK.\<close>

definition capture_event :: "sdk_lib \<Rightarrow> pyval \<Rightarrow> (sdk, string option) prog" where
  "capture_event lib event s =
     (case sk_options s of
        None \<Rightarrow> (Ret None, s)
      | Some opts \<Rightarrow>
          (case op_before_send opts (sl_enrich lib (sk_tags s) event) of
             Inl _ \<Rightarrow> (Ret None, s)
           | Inr sent \<Rightarrow> (Ret (Some (sl_event_id lib (length (sk_sent s)))), s\<lparr>sk_sent := sk_sent s @ [sent]\<rparr>)))"

definition sdk_flush :: "(sdk, unit) prog" where
  "sdk_flush = modify_p (\<lambda>s. s\<lparr>sk_flushed := length (sk_sent s)\<rparr>)"

section \<open>The operations\<close>

definition before_send :: "pyval \<Rightarrow> exn + pyval" where
  "before_send event =
     (case redact_event event of PDict d \<Rightarrow> Inr (PDict d) | _ \<Rightarrow> Inl (Exn AssertionError []))"

definition env_or :: "sdk_lib \<Rightarrow> string \<Rightarrow> string \<Rightarrow> string" where
  "env_or lib name v = (case sl_env lib name of None \<Rightarrow> v | Some x \<Rightarrow> x)"

definition client_options :: "sdk_lib \<Rightarrow> string \<Rightarrow> bool \<Rightarrow> sdk_options" where
  "client_options lib dsn debug =
     \<lparr>op_dsn = dsn, op_environment = env_or lib ''SENTRY_ENVIRONMENT'' ''lab'', op_release = sl_env lib ''SENTRY_RELEASE'',
      op_server_name = env_or lib ''SENTRY_SERVER_NAME'' ''freebsd-laboratory'', op_default_pii = False,
      op_local_variables = False, op_source_context = False, op_max_request_body = ''never'',
      op_traces_sample_rate = None, op_before_send = before_send, op_debug = debug\<rparr>"

definition initialized :: "sdk \<Rightarrow> bool" where
  "initialized s \<longleftrightarrow> sk_options s \<noteq> None"

definition init_sentry :: "sdk_lib \<Rightarrow> string \<Rightarrow> bool \<Rightarrow> (sdk, bool) prog" where
  "init_sentry lib component debug =
     (let dsn = env_or lib ''SENTRY_DSN'' []
      in if dsn = [] \<or> \<not> sl_importable lib then return_p False
         else bind_p (gets_p initialized) (\<lambda>on.
           then_p (when_p (\<not> on) (sdk_init lib (client_options lib dsn debug)))
             (then_p (new_scope (then_p (set_tag ''component'' component) (set_tag ''project'' ''freebsd-laboratory'')))
               (return_p True))))"

text \<open>\<open>sentry_sdk is None\<close>, or no client and none that can be made.\<close>

definition client_ready :: "sdk_lib \<Rightarrow> string \<Rightarrow> (sdk, bool) prog" where
  "client_ready lib component =
     (if \<not> sl_importable lib then return_p False
      else bind_p (gets_p initialized) (\<lambda>on. if on then return_p True else init_sentry lib component False))"

definition tagged :: "string \<Rightarrow> string \<Rightarrow> (sdk, 'a) prog \<Rightarrow> (sdk, 'a) prog" where
  "tagged component operation m =
     new_scope (then_p (set_tag ''component'' component)
       (then_p (set_tag ''operation'' operation) (then_p (set_tag ''project'' ''freebsd-laboratory'') m)))"

definition capture_exception :: "sdk_lib \<Rightarrow> exn \<Rightarrow> string \<Rightarrow> string \<Rightarrow> (sdk, string option) prog" where
  "capture_exception lib error component operation =
     bind_p (client_ready lib component) (\<lambda>ready.
       if ready then tagged component operation (capture_event lib (sl_exception_event lib error)) else return_p None)"

definition send_kernel_event :: "sdk_lib \<Rightarrow> pyval \<Rightarrow> (sdk, string option) prog" where
  "send_kernel_event lib event =
     bind_p (client_ready lib ''jupyter-kernel'') (\<lambda>ready.
       if ready then tagged ''jupyter-kernel'' ''kernel:execute'' (capture_event lib event) else return_p None)"

definition capture_kernel_error :: "sdk_lib \<Rightarrow> (pyval \<Rightarrow> string) \<Rightarrow> pyval \<Rightarrow> pyval \<Rightarrow> string option \<Rightarrow> (sdk, string option) prog" where
  "capture_kernel_error lib show_value error_name error_value kernel_name =
     send_kernel_event lib (kernel_error_event show_value error_name error_value kernel_name)"

definition flush_sentry :: "sdk_lib \<Rightarrow> (sdk, unit) prog" where
  "flush_sentry lib = bind_p (gets_p initialized) (\<lambda>on. when_p (sl_importable lib \<and> on) sdk_flush)"

text \<open>What the connection does with a message: \<open>_on_error\<close> and the report.\<close>

record kernel_message =
  km_channel :: "string option"
  km_header :: pyval
  km_content :: pyval

definition report_kernel_message ::
    "sdk_lib \<Rightarrow> (pyval \<Rightarrow> string) \<Rightarrow> string option \<Rightarrow> kernel_message \<Rightarrow> (recent_errors \<times> sdk, string option) prog" where
  "report_kernel_message lib show_value kernel_name m =
     (\<lambda>(d, s). case on_error show_value kernel_name (km_channel m) (km_header m) (km_content m) d of
        (None, d') \<Rightarrow> (Ret None, (d', s))
      | (Some event, d') \<Rightarrow> (case send_kernel_event lib event s of (r, s') \<Rightarrow> (r, (d', s'))))"

section \<open>What a call does to the SDK\<close>

lemma init_sentry_eq:
  "init_sentry lib component debug s =
     (let dsn = env_or lib ''SENTRY_DSN'' []
      in if dsn = [] \<or> \<not> sl_importable lib then (Ret False, s)
         else if initialized s then (Ret True, s)
         else case sl_dsn_error lib dsn of
           Some e \<Rightarrow> (Raise e, s)
         | None \<Rightarrow> (Ret True, s\<lparr>sk_options := Some (client_options lib dsn debug)\<rparr>))"
proof -
  have tags: "then_p (new_scope (then_p (set_tag k x) (set_tag l y))) (return_p True) t = (Ret True, t)" for k x l y t
    by (simp add: then_p_def new_scope_def set_tag_def bind_p_def)
  have dsn: "op_dsn (client_options lib d debug) = d" for d by (simp add: client_options_def)
  show ?thesis
    by (cases "sl_dsn_error lib (env_or lib ''SENTRY_DSN'' [])")
      (simp_all add: init_sentry_def Let_def tags dsn sdk_init_def then_p_def [of "when_p b m" for b m] bind_p_def [of "when_p b m" for b m])
qed

lemma env_dsn: "env_or lib n [] \<noteq> [] \<Longrightarrow> sl_env lib n = Some (env_or lib n [])"
  by (simp add: env_or_def split: option.splits)

lemma init_sentry_run:
  assumes "init_sentry lib component debug s = (r, t)"
  shows "(t = s \<or> (sk_options s = None \<and> sl_importable lib \<and>
     (\<exists>dsn. sl_env lib ''SENTRY_DSN'' = Some dsn \<and> dsn \<noteq> [] \<and> t = s\<lparr>sk_options := Some (client_options lib dsn debug)\<rparr>))) \<and>
     (r = Ret True \<longrightarrow> sk_options t \<noteq> None)"
  using assms env_dsn [of lib "''SENTRY_DSN''"]
  by (auto simp: init_sentry_eq Let_def initialized_def split: if_splits option.splits)

lemma client_ready_run:
  assumes "client_ready lib component s = (r, t)"
  shows "(t = s \<or> (sk_options s = None \<and> sl_importable lib \<and>
     (\<exists>dsn. sl_env lib ''SENTRY_DSN'' = Some dsn \<and> dsn \<noteq> [] \<and> t = s\<lparr>sk_options := Some (client_options lib dsn False)\<rparr>))) \<and>
     (r = Ret True \<longrightarrow> sk_options t \<noteq> None)"
proof (cases "initialized s \<or> \<not> sl_importable lib")
  case True
  then show ?thesis using assms by (auto simp: client_ready_def initialized_def split: if_splits)
next
  case False
  then have "init_sentry lib component False s = (r, t)" using assms by (simp add: client_ready_def)
  then show ?thesis by (rule init_sentry_run)
qed

lemma tagged_run:
  assumes "tagged component operation (capture_event lib event) s = (r, t)"
  shows "t = s \<or> (\<exists>opts tags sent. sk_options s = Some opts \<and> op_before_send opts (sl_enrich lib tags event) = Inr sent \<and>
     t = s\<lparr>sk_sent := sk_sent s @ [sent]\<rparr>)"
  using assms by (auto simp: tagged_def new_scope_def set_tag_def capture_event_def split: option.splits sum.splits)

text \<open>The tags that \<open>init_sentry\<close> sets are gone when it returns: no event ever has them.\<close>

lemma init_tags_lost: "sk_tags (snd (init_sentry lib component debug s)) = sk_tags s"
  using init_sentry_run [of lib component debug s] by (cases "init_sentry lib component debug s") auto

lemma before_send_Inr:
  assumes "before_send e = Inr v"
  shows "v = redact_event e" "py_value e \<Longrightarrow> masked is_sensitive_key filtered_value v"
proof -
  show v: "v = redact_event e" using assms by (simp add: before_send_def split: pyval.splits)
  show "masked is_sensitive_key filtered_value v" if "py_value e"
    unfolding v by (rule telemetry_redaction.redact_masked [OF that])
qed

lemma before_send_dict: "\<exists>e. before_send (PDict d) = Inr (PDict e) \<and> map fst e = map fst d"
  by (simp add: before_send_def comp_def)

section \<open>Histories of calls\<close>

datatype sentry_call =
    InitSentry string bool
  | CaptureException exn string string
  | CaptureKernelError "pyval \<Rightarrow> string" pyval pyval "string option"
  | FlushSentry

text \<open>Each call with the environment and the SDK it meets.\<close>

fun sentry_step :: "sdk \<Rightarrow> sdk_lib \<times> sentry_call \<Rightarrow> sdk" where
  "sentry_step s (lib, InitSentry component debug) = snd (init_sentry lib component debug s)"
| "sentry_step s (lib, CaptureException error component operation) = snd (capture_exception lib error component operation s)"
| "sentry_step s (lib, CaptureKernelError show_value name v kernel_name) = snd (capture_kernel_error lib show_value name v kernel_name s)"
| "sentry_step s (lib, FlushSentry) = snd (flush_sentry lib s)"

definition sdk_ok :: "sdk \<Rightarrow> bool" where
  "sdk_ok s \<longleftrightarrow>
     list_all (masked is_sensitive_key filtered_value) (sk_sent s) \<and> sk_tags s = [] \<and>
     (case sk_options s of None \<Rightarrow> sk_sent s = [] | Some o1 \<Rightarrow> \<exists>lib dsn debug. dsn \<noteq> [] \<and> o1 = client_options lib dsn debug)"

lemma client_made: "dsn \<noteq> [] \<Longrightarrow> \<exists>lib' dsn'. dsn' \<noteq> [] \<and> (\<exists>debug'. client_options lib dsn debug = client_options lib' dsn' debug')"
  by blast

definition builds_values :: "sdk_lib \<Rightarrow> bool" where
  "builds_values lib \<longleftrightarrow> (\<forall>tags e. py_value (sl_enrich lib tags e))"

definition reporting_off :: "sdk_lib \<Rightarrow> bool" where
  "reporting_off lib \<longleftrightarrow> sl_env lib ''SENTRY_DSN'' = None \<or> sl_env lib ''SENTRY_DSN'' = Some [] \<or> \<not> sl_importable lib"

lemma client_options_before_send [simp]: "op_before_send (client_options lib dsn debug) = before_send"
  by (simp add: client_options_def)

text \<open>A capture: a client is made first when there is none.\<close>

definition capturing :: "sdk_lib \<Rightarrow> string \<Rightarrow> string \<Rightarrow> pyval \<Rightarrow> (sdk, string option) prog" where
  "capturing lib component operation event =
     bind_p (client_ready lib component) (\<lambda>ready.
       if ready then tagged component operation (capture_event lib event) else return_p None)"

lemma captures:
  "capture_exception lib error component operation = capturing lib component operation (sl_exception_event lib error)"
  "send_kernel_event lib event = capturing lib ''jupyter-kernel'' ''kernel:execute'' event"
  by (simp_all add: capture_exception_def send_kernel_event_def capturing_def)

lemma capturing_run:
  assumes "capturing lib component operation event s = (r, t)"
  shows "\<exists>u. (client_ready lib component s = (Ret True, u) \<and> tagged component operation (capture_event lib event) u = (r, t)) \<or>
     (\<exists>q. client_ready lib component s = (q, t))"
  using assms by (auto simp: capturing_def bind_p_def split: prod.splits res.splits if_splits)

lemma client_ready_ok: "client_ready lib component s = (r, t) \<Longrightarrow> sdk_ok s \<Longrightarrow> sdk_ok t"
  using client_ready_run [of lib component s r t] client_made by (auto simp: sdk_ok_def)

lemma tagged_ok:
  assumes "tagged component operation (capture_event lib event) s = (r, t)" "builds_values lib" "sdk_ok s"
  shows "sdk_ok t"
  using tagged_run [OF assms(1)] assms(2,3) before_send_Inr(2)
  by (auto simp: sdk_ok_def builds_values_def)

lemma capturing_ok: "capturing lib component operation event s = (r, t) \<Longrightarrow> builds_values lib \<Longrightarrow> sdk_ok s \<Longrightarrow> sdk_ok t"
  using capturing_run client_ready_ok tagged_ok by metis

lemma flush_run: "snd (flush_sentry lib s) = s \<or> snd (flush_sentry lib s) = s\<lparr>sk_flushed := length (sk_sent s)\<rparr>"
  by (simp add: flush_sentry_def sdk_flush_def when_p_def)

lemma flush_ok: "sdk_ok s \<Longrightarrow> sdk_ok (snd (flush_sentry lib s))"
proof -
  assume ok: "sdk_ok s"
  then have "sdk_ok (s\<lparr>sk_flushed := n\<rparr>)" for n by (cases "sk_options s") (simp_all add: sdk_ok_def)
  then show ?thesis using flush_run [of lib s] ok by (elim disjE) simp_all
qed

lemma sentry_step_ok: "sdk_ok s \<Longrightarrow> builds_values (fst c) \<Longrightarrow> sdk_ok (sentry_step s c)"
proof (cases "(s, c)" rule: sentry_step.cases)
  case (1 s' lib component debug)
  moreover assume "sdk_ok s"
  ultimately show ?thesis using init_sentry_run [of lib component debug s] by (cases "init_sentry lib component debug s") (auto simp: sdk_ok_def intro: client_made)
next
  case (2 s' lib error component operation)
  moreover assume "sdk_ok s" "builds_values (fst c)"
  ultimately show ?thesis using capturing_ok by (simp add: captures) (metis prod.collapse)
next
  case (3 s' lib show_value n v kernel_name)
  moreover assume "sdk_ok s" "builds_values (fst c)"
  ultimately show ?thesis using capturing_ok by (simp add: captures capture_kernel_error_def) (metis prod.collapse)
next
  case (4 s' lib)
  moreover assume "sdk_ok s"
  ultimately show ?thesis using flush_ok by simp
qed

interpretation sentry: invariant_machine sentry_step sdk_ok "\<lambda>c. builds_values (fst c)"
  by unfold_locales (rule sentry_step_ok)

definition fresh_sdk :: sdk where
  "fresh_sdk = \<lparr>sk_options = None, sk_tags = [], sk_sent = [], sk_flushed = 0\<rparr>"

lemma off_step: "reporting_off (fst c) \<Longrightarrow> sentry_step fresh_sdk c = fresh_sdk"
proof (cases "(fresh_sdk, c)" rule: sentry_step.cases)
  assume off: "reporting_off (fst c)"
  have none: "client_ready lib k fresh_sdk = (Ret False, fresh_sdk)" "init_sentry lib k debug fresh_sdk = (Ret False, fresh_sdk)"
    if "reporting_off lib" for lib k debug
    using that by (auto simp: client_ready_def init_sentry_def env_or_def reporting_off_def fresh_sdk_def initialized_def)
  {
    case (1 s lib component debug)
    then show ?thesis using none off by simp
  next
    case (2 s lib error component operation)
    then show ?thesis using none off by (simp add: captures capturing_def bind_p_def)
  next
    case (3 s lib show_value n v kernel_name)
    then show ?thesis using none off by (simp add: captures capture_kernel_error_def capturing_def bind_p_def)
  next
    case (4 s lib)
    then show ?thesis by (auto simp: flush_sentry_def fresh_sdk_def initialized_def when_p_def)
  }
qed

lemma off_run: "list_all (\<lambda>c. reporting_off (fst c)) cs \<Longrightarrow> run_steps sentry_step fresh_sdk cs = fresh_sdk"
  by (induction cs) (simp_all add: off_step)

section \<open>Messages of a kernel\<close>

definition kernel_document :: "string \<Rightarrow> pyval" where
  "kernel_document t = kernel_error_event (\<lambda>_. []) (PStr t) PNone None"

definition kernel_tags :: "(string \<times> string) list" where
  "kernel_tags = [(''component'', ''jupyter-kernel''), (''operation'', ''kernel:execute''), (''project'', ''freebsd-laboratory'')]"

lemma error_type_safe: "safe_exception_type (error_type show_value name)" "error_type show_value' (PStr (error_type show_value name)) = error_type show_value name"
proof -
  have "safe_exception_type ''KernelExecutionError''" by code_simp
  then show safe: "safe_exception_type (error_type show_value name)" by (auto simp: error_type_def Let_def)
  then have "length (error_type show_value name) \<le> 200" "error_type show_value name \<noteq> []"
    by (auto simp: safe_exception_type_def split: list.splits)
  then show "error_type show_value' (PStr (error_type show_value name)) = error_type show_value name"
    using safe by (simp add: error_type_def [of show_value'])
qed

lemma kernel_event_document: "kernel_error_event show_value name v kname = kernel_document (error_type show_value name)"
  by (simp add: kernel_document_def kernel_error_event_def error_type_safe)

text \<open>Messages that differ at most in what an error said, beyond its type.\<close>

definition same_error_message :: "(pyval \<Rightarrow> string) \<Rightarrow> kernel_message \<Rightarrow> kernel_message \<Rightarrow> bool" where
  "same_error_message show_value m m' \<longleftrightarrow>
     km_channel m = km_channel m' \<and> km_header m = km_header m' \<and>
     (case (km_content m, km_content m') of
        (PDict c, PDict c') \<Rightarrow> error_type show_value (pget c ''ename'') = error_type show_value (pget c' ''ename'')
      | (v, w) \<Rightarrow> (case v of PDict _ \<Rightarrow> False | _ \<Rightarrow> True) \<and> (case w of PDict _ \<Rightarrow> False | _ \<Rightarrow> True))"

definition messages ::
    "sdk_lib \<Rightarrow> (pyval \<Rightarrow> string) \<Rightarrow> string option \<Rightarrow> recent_errors \<times> sdk \<Rightarrow> kernel_message \<Rightarrow> recent_errors \<times> sdk" where
  "messages lib show_value kernel_name x m = snd (report_kernel_message lib show_value kernel_name m x)"

lemma on_error_same:
  assumes "same_error_message show_value m m'"
  shows "on_error show_value kname (km_channel m) (km_header m) (km_content m) d =
     on_error show_value kname' (km_channel m') (km_header m') (km_content m') d"
  using assms
  by (auto simp: on_error_def kernel_error_values_def same_error_message_def kernel_event_document
      split: pyval.splits option.splits prod.splits bool.splits)

lemma messages_same:
  "list_all2 (same_error_message show_value) ms ms' \<Longrightarrow>
     run_steps (messages lib show_value kname) x ms = run_steps (messages lib show_value kname') x ms'"
proof (induction ms ms' arbitrary: x rule: list_all2_induct)
  case (Cons m ms m' ms')
  obtain d s where x: "x = (d, s)" by (cases x)
  have "messages lib show_value kname x m = messages lib show_value kname' x m'"
    using on_error_same [OF Cons.hyps(1), of kname d kname'] by (simp add: messages_def report_kernel_message_def x)
  then show ?case using Cons.IH by simp
qed simp

definition from_types :: "sdk_lib \<Rightarrow> pyval list \<Rightarrow> bool" where
  "from_types lib es \<longleftrightarrow> (\<forall>e \<in> set es. \<exists>t. safe_exception_type t \<and> e = redact_event (sl_enrich lib kernel_tags (kernel_document t)))"

lemma on_error_document:
  "on_error show_value kname channel header content d = (Some event, d') \<Longrightarrow>
     \<exists>t. safe_exception_type t \<and> event = kernel_document t"
  using error_type_safe(1)
  by (fastforce simp: on_error_def kernel_event_document split: if_splits option.splits prod.splits bool.splits)

lemma send_kernel_event_run:
  assumes "send_kernel_event lib event s = (r, t)" "builds_values lib" "sdk_ok s"
  shows "sdk_ok t \<and> (sk_sent t = sk_sent s \<or> sk_sent t = sk_sent s @ [redact_event (sl_enrich lib kernel_tags event)])"
proof -
  have ok: "sdk_ok t" using capturing_ok assms by (simp add: captures)
  obtain q u where q: "client_ready lib ''jupyter-kernel'' s = (q, u)" by fastforce
  have u: "sdk_ok u" "sk_sent u = sk_sent s" using client_ready_ok [OF q assms(3)] client_ready_run [OF q] by auto
  show ?thesis
  proof (cases "q = Ret True")
    case True
    then have t: "tagged ''jupyter-kernel'' ''kernel:execute'' (capture_event lib event) u = (r, t)"
      using assms(1) q by (simp add: send_kernel_event_def bind_p_def)
    obtain o1 where o1: "sk_options u = Some o1" "op_before_send o1 = before_send"
      using client_ready_run [OF q] True u(1) by (auto simp: sdk_ok_def)
    have "sk_tags u = []" using u(1) by (simp add: sdk_ok_def)
    then have "sk_sent t = sk_sent u \<or> sk_sent t = sk_sent u @ [redact_event (sl_enrich lib kernel_tags event)]"
      using t o1 by (auto simp: tagged_def new_scope_def set_tag_def capture_event_def kernel_tags_def dest!: before_send_Inr(1) split: sum.splits)
    then show ?thesis using ok u(2) by simp
  next
    case False
    then have "t = u" using assms(1) q by (cases q) (auto simp: send_kernel_event_def bind_p_def)
    then show ?thesis using ok u(2) by simp
  qed
qed

lemma messages_run:
  assumes "builds_values lib" "sdk_ok s" "run_steps (messages lib show_value kname) (d, s) ms = (d', s')"
  shows "sdk_ok s' \<and> (\<exists>es. sk_sent s' = sk_sent s @ es \<and> from_types lib es)"
  using assms(2,3)
proof (induction ms arbitrary: d s)
  case (Cons m ms)
  obtain e d1 where e: "on_error show_value kname (km_channel m) (km_header m) (km_content m) d = (e, d1)" by fastforce
  show ?case
  proof (cases e)
    case None
    then show ?thesis using Cons e by (simp add: messages_def report_kernel_message_def)
  next
    case (Some event)
    obtain r s1 where r: "send_kernel_event lib event s = (r, s1)" by fastforce
    obtain t where t: "safe_exception_type t" "event = kernel_document t" using on_error_document e Some by blast
    note sent = send_kernel_event_run [OF r assms(1) Cons.prems(1)]
    have "run_steps (messages lib show_value kname) (d1, s1) ms = (d', s')"
      using Cons.prems(2) e Some r by (simp add: messages_def [of lib show_value kname "(d, s)"] report_kernel_message_def)
    then obtain es where es: "sdk_ok s'" "sk_sent s' = sk_sent s1 @ es" "from_types lib es" using Cons.IH sent by blast
    moreover have "from_types lib (redact_event (sl_enrich lib kernel_tags event) # es)"
      using es(3) t by (auto simp: from_types_def)
    ultimately show ?thesis using sent by auto
  qed
qed (simp add: from_types_def)

section \<open>Properties\<close>

text \<open>
  C24. Telemetry is opt-in and redacted. From a process start on, over any history of calls, each in
  an environment of its own: nothing is sent and no client is made while no environment has
  a DSN; and whatever is sent holds no value under a sensitive key at any depth, through a client
  that adds no personal data, no local variables, no source context and no request body.
\<close>

theorem telemetry_opt_in_and_redacted:
  assumes "list_all (\<lambda>c. builds_values (fst c)) cs" "run_steps sentry_step fresh_sdk cs = s"
  shows "list_all (masked is_sensitive_key filtered_value) (sk_sent s) \<and>
     (list_all (\<lambda>c. reporting_off (fst c)) cs \<longrightarrow> sk_sent s = [] \<and> sk_options s = None) \<and>
     (sk_sent s \<noteq> [] \<longrightarrow> sk_options s \<noteq> None) \<and>
     (\<forall>opts. sk_options s = Some opts \<longrightarrow>
        op_dsn opts \<noteq> [] \<and> \<not> op_default_pii opts \<and> \<not> op_local_variables opts \<and> \<not> op_source_context opts \<and>
        op_max_request_body opts = ''never'' \<and> op_before_send opts = before_send)"
proof -
  have "sdk_ok fresh_sdk" by (simp add: sdk_ok_def fresh_sdk_def)
  then have ok: "sdk_ok s" using sentry.run_inv [of fresh_sdk cs] assms by simp
  have off: "list_all (\<lambda>c. reporting_off (fst c)) cs \<Longrightarrow> s = fresh_sdk" using off_run assms(2) by blast
  show ?thesis
  proof (intro conjI allI impI)
    show "list_all (masked is_sensitive_key filtered_value) (sk_sent s)" using ok by (simp add: sdk_ok_def)
    show "sk_options s \<noteq> None" if "sk_sent s \<noteq> []" using ok that by (auto simp: sdk_ok_def split: option.splits)
  qed (use ok off in \<open>auto simp: sdk_ok_def client_options_def fresh_sdk_def\<close>)
qed

text \<open>
  C25. Nothing of a notebook leaves with its errors. Two histories of kernel messages that differ only
  in what the errors said, in the traceback and in anything else of the content but the type of
  the exception, leave the connection and the SDK in the same state, whatever the kernel is
  called; and each event sent is, redacted, what the SDK makes of a fixed document with an
  exception type in it, an identifier of at most 200 characters.
\<close>

theorem notebook_errors_private:
  assumes "builds_values lib" "sdk_ok s" "list_all2 (same_error_message show_value) ms ms'"
    "run_steps (messages lib show_value kname) (d, s) ms = (d', s')"
  shows "run_steps (messages lib show_value kname') (d, s) ms' = (d', s') \<and>
     (\<exists>es. sk_sent s' = sk_sent s @ es \<and> from_types lib es)"
  using messages_same [OF assms(3), of lib kname "(d, s)" kname'] messages_run [OF assms(1,2,4)] assms(4) by simp

text \<open>An SDK that adds its tags, an application that starts with a DSN, and one without.\<close>

definition sample_sdk_lib :: "string option \<Rightarrow> sdk_lib" where
  "sample_sdk_lib dsn =
     \<lparr>sl_importable = True, sl_env = (\<lambda>n. if n = ''SENTRY_DSN'' then dsn else None), sl_dsn_error = (\<lambda>_. None),
      sl_exception_event = (\<lambda>e. PDict [(''message'', PStr (exn_msg e))]),
      sl_enrich = (\<lambda>tags e. PDict [(''password'', PInt 1), (''event'', PTuple [])]), sl_event_id = (\<lambda>_. ''id'')\<rparr>"

definition sample_calls :: "(sdk_lib \<times> sentry_call) list" where
  "sample_calls =
     [(sample_sdk_lib None, CaptureException (Exn OSError ''early'') ''jupyter-server'' ''gc''),
      (sample_sdk_lib (Some ''https://k@h/1''), CaptureException (Exn OSError ''late'') ''jupyter-server'' ''gc'')]"

lemma sample_builds_values: "builds_values (sample_sdk_lib dsn)"
  by (simp add: builds_values_def sample_sdk_lib_def)

lemma sample_calls_run:
  "sk_sent (run_steps sentry_step fresh_sdk sample_calls) = [PDict [(''password'', filtered_value), (''event'', PTuple [])]]"
proof -
  have keys: "is_sensitive_key ''password''" "\<not> is_sensitive_key ''event''" by code_simp+
  have off: "sentry_step fresh_sdk (sample_sdk_lib None, call) = fresh_sdk" for call
    by (rule off_step) (simp add: reporting_off_def sample_sdk_lib_def)
  show ?thesis
    by (simp add: sample_calls_def off)
      (simp add: captures capturing_def client_ready_def init_sentry_eq env_or_def initialized_def fresh_sdk_def sample_sdk_lib_def Let_def bind_p_def
        tagged_def new_scope_def set_tag_def capture_event_def client_options_def before_send_def keys)
qed

theorem telemetry_opt_in_and_redacted_witness:
  "list_all (masked is_sensitive_key filtered_value) (sk_sent (run_steps sentry_step fresh_sdk sample_calls)) \<and>
   sk_options (run_steps sentry_step fresh_sdk sample_calls) \<noteq> None"
proof -
  have "list_all (\<lambda>c. builds_values (fst c)) sample_calls" by (simp add: sample_calls_def sample_builds_values)
  note all = telemetry_opt_in_and_redacted [OF this refl]
  have "sk_sent (run_steps sentry_step fresh_sdk sample_calls) \<noteq> []" by (simp add: sample_calls_run)
  with all show ?thesis by blast
qed

definition sample_message :: "pyval \<Rightarrow> kernel_message" where
  "sample_message said =
     \<lparr>km_channel = Some ''iopub'', km_header = PDict [(''msg_type'', PStr ''error''), (''msg_id'', PStr ''1'')],
      km_content = PDict [(''ename'', PStr ''KeyError''), (''evalue'', said)]\<rparr>"

theorem notebook_errors_private_witness:
  "run_steps (messages (sample_sdk_lib (Some ''https://k@h/1'')) (\<lambda>_. []) None) (\<lparr>re_ids = [], re_set = []\<rparr>, fresh_sdk) [sample_message (PStr ''hunter2'')] =
   run_steps (messages (sample_sdk_lib (Some ''https://k@h/1'')) (\<lambda>_. []) (Some ''k'')) (\<lparr>re_ids = [], re_set = []\<rparr>, fresh_sdk) [sample_message PNone]"
proof -
  have "sdk_ok fresh_sdk" by (simp add: sdk_ok_def fresh_sdk_def)
  moreover have "list_all2 (same_error_message (\<lambda>_. [])) [sample_message (PStr ''hunter2'')] [sample_message PNone]"
    by (simp add: same_error_message_def sample_message_def pget_def dir_get_def)
  moreover obtain d' s' where r: "run_steps (messages (sample_sdk_lib (Some ''https://k@h/1'')) (\<lambda>_. []) None)
      (\<lparr>re_ids = [], re_set = []\<rparr>, fresh_sdk) [sample_message (PStr ''hunter2'')] = (d', s')"
    by (rule prod.exhaust)
  ultimately have "run_steps (messages (sample_sdk_lib (Some ''https://k@h/1'')) (\<lambda>_. []) (Some ''k''))
      (\<lparr>re_ids = [], re_set = []\<rparr>, fresh_sdk) [sample_message PNone] = (d', s')"
    using notebook_errors_private [OF sample_builds_values] by blast
  then show ?thesis by (simp only: r)
qed

end
