(* ===== verification/Daemon_Main.thy ===== *)
theory Daemon_Main
  imports Daemon_Service Sentry_Sdk
begin

text \<open>
  runtime_daemon.py from the socket to \<open>main\<close>, and runtime_entrypoint.py: the preparation of the
  socket's path, its group and mode, the reconciliation at the start, the service and its end, and
  the report of the error the daemon ends with. The state has the daemon's own state, the entry at
  the socket's path, whether the server listens, what was answered with the entry at that time, and
  the lines written to the standard error. The requests are served one after the other.
\<close>

section \<open>Arguments\<close>

record daemon_args =
  da_socket :: string
  da_group :: string
  da_registry_dir :: string
  da_lease_dir :: string
  da_network :: string
  da_host_address :: string
  da_address_start :: string
  da_address_end :: string
  da_bridge :: string
  da_jail_template :: string
  da_jail_dataset_parent :: string
  da_jail_mount_root :: string
  da_jail_ssh_user :: string
  da_vm_command :: string
  da_vm_template :: string
  da_vm_memdisk_template :: string
  da_vm_image :: string
  da_vm_switch :: string
  da_vm_disk_backend :: string
  da_vm_zvol_snapshot :: string
  da_vm_zvol_parent :: string
  da_vm_dataset_parent :: string
  da_vm_disk_size :: string
  da_vm_memdisk_type :: string
  da_ssh_public_key :: string
  da_no_reconcile :: bool

text \<open>The arguments of an empty command line.\<close>

definition default_args :: daemon_args where
  "default_args =
     \<lparr>da_socket = ''/var/run/freebsd-laboratory/runtime.sock'', da_group = ''freebsdlab'',
      da_registry_dir = ''/var/db/freebsd-laboratory/runtimes'', da_lease_dir = ''/var/db/freebsd-laboratory/network-leases'',
      da_network = ''172.31.254.0/24'', da_host_address = ''172.31.254.1'', da_address_start = ''172.31.254.10'',
      da_address_end = ''172.31.254.199'', da_bridge = ''labbridge0'', da_jail_template = ''zroot/jails/templates/freebsd-python@clean'',
      da_jail_dataset_parent = ''zroot/jails/containers'', da_jail_mount_root = ''/usr/local/jails/containers'',
      da_jail_ssh_user = ''freebsd'', da_vm_command = ''/usr/local/sbin/vm'', da_vm_template = ''freebsd-lab'',
      da_vm_memdisk_template = ''freebsd-lab-memdisk'', da_vm_image = ''freebsd-python.raw'', da_vm_switch = ''freebsdlab'',
      da_vm_disk_backend = ''zvol-clone'', da_vm_zvol_snapshot = ''zroot/vm/.zvol/freebsd-python@ready'',
      da_vm_zvol_parent = ''zroot/vm/.zvol'', da_vm_dataset_parent = ''zroot/vm'', da_vm_disk_size = ''3G'',
      da_vm_memdisk_type = ''swap'', da_ssh_public_key = ''/usr/local/etc/freebsd-laboratory/id_ed25519.pub'',
      da_no_reconcile = False\<rparr>"

definition config_of_daemon_args :: "daemon_args \<Rightarrow> runtime_config" where
  "config_of_daemon_args a = default_config
     \<lparr>c_socket_path := da_socket a, c_socket_group := da_group a, c_registry_dir := da_registry_dir a, c_lease_dir := da_lease_dir a,
      c_network_cidr := da_network a, c_host_address := da_host_address a, c_address_start := da_address_start a,
      c_address_end := da_address_end a, c_bridge_name := da_bridge a, c_jail_template_snapshot := da_jail_template a,
      c_jail_dataset_parent := da_jail_dataset_parent a, c_jail_mount_root := da_jail_mount_root a, c_jail_ssh_user := da_jail_ssh_user a,
      c_vm_command := da_vm_command a, c_vm_template := da_vm_template a, c_vm_memdisk_template := da_vm_memdisk_template a,
      c_vm_image := da_vm_image a, c_vm_switch := da_vm_switch a, c_vm_disk_backend := da_vm_disk_backend a,
      c_vm_zvol_snapshot := da_vm_zvol_snapshot a, c_vm_zvol_parent := da_vm_zvol_parent a, c_vm_dataset_parent := da_vm_dataset_parent a,
      c_vm_disk_size := da_vm_disk_size a, c_vm_memdisk_type := da_vm_memdisk_type a, c_ssh_public_key := da_ssh_public_key a\<rparr>"

lemma default_args_config: "config_of_daemon_args default_args = default_config"
  by (simp add: config_of_daemon_args_def default_args_def default_config_def)

section \<open>The socket\<close>

text \<open>What is at the socket's path: a socket with its owner, group and mode, a symbolic link, something else.\<close>

datatype socket_entry = SocketEntry int int nat | LinkEntry | OtherEntry

datatype socket_call = MakeParent | RemoveEntry | BindSocket | ListenSocket | ChownSocket int int | ChmodSocket nat

record main_io =
  mi_platform :: string
  mi_euid :: int
  mi_group :: "string \<Rightarrow> int option"
  mi_fail :: "socket_call \<Rightarrow> exn option"
  mi_umask_mode :: nat
  mi_serve_end :: "exn option"

record 'w main_state =
  sv_daemon :: "'w daemon"
  sv_path :: "socket_entry option"
  sv_listening :: bool
  sv_answers :: "(socket_entry option \<times> string option) list"
  sv_stderr :: "string list"

text \<open>A call that succeeds has the effect given with it, one that fails none.\<close>

definition socket_call_p :: "main_io \<Rightarrow> socket_call \<Rightarrow> ('w main_state \<Rightarrow> 'w main_state) \<Rightarrow> ('w main_state, unit) prog" where
  "socket_call_p io c effect = (case mi_fail io c of Some e \<Rightarrow> throw_p e | None \<Rightarrow> modify_p effect)"

definition remove_entry :: "main_io \<Rightarrow> ('w main_state, unit) prog" where
  "remove_entry io = socket_call_p io RemoveEntry (\<lambda>s. s\<lparr>sv_path := None\<rparr>)"

definition prepare_socket_path :: "main_io \<Rightarrow> string \<Rightarrow> ('w main_state, unit) prog" where
  "prepare_socket_path io path =
     then_p (socket_call_p io MakeParent id)
       (bind_p (gets_p sv_path) (\<lambda>entry.
          case entry of
            None \<Rightarrow> return_p ()
          | Some LinkEntry \<Rightarrow> remove_entry io
          | Some OtherEntry \<Rightarrow> raise_p RuntimeError (''Refusing to replace non-socket path: '' @ path)
          | Some (SocketEntry _ _ _) \<Rightarrow> remove_entry io))"

definition server_close :: "('w main_state, unit) prog" where
  "server_close = modify_p (\<lambda>s. s\<lparr>sv_listening := False\<rparr>)"

text \<open>The constructor of the server: bind and listen, and close when either fails.\<close>

definition open_server :: "main_io \<Rightarrow> ('w main_state, unit) prog" where
  "open_server io =
     catch_p
       (then_p
         (bind_p (gets_p sv_path) (\<lambda>entry.
            if entry \<noteq> None then raise_p OSError ''Address already in use''
            else socket_call_p io BindSocket (\<lambda>s. s\<lparr>sv_path := Some (SocketEntry 0 0 (mi_umask_mode io))\<rparr>)))
         (socket_call_p io ListenSocket (\<lambda>s. s\<lparr>sv_listening := True\<rparr>)))
       (\<lambda>e. then_p server_close (throw_p e))"

fun chown_entry :: "int \<Rightarrow> int \<Rightarrow> socket_entry \<Rightarrow> socket_entry" where
  "chown_entry uid gid (SocketEntry _ _ mode) = SocketEntry uid gid mode"
| "chown_entry uid gid p = p"

fun chmod_entry :: "nat \<Rightarrow> socket_entry \<Rightarrow> socket_entry" where
  "chmod_entry mode (SocketEntry uid gid _) = SocketEntry uid gid mode"
| "chmod_entry mode p = p"

definition socket_mode :: nat where
  "socket_mode = 6 * 64 + 6 * 8"

definition configure_socket :: "main_io \<Rightarrow> string \<Rightarrow> ('w main_state, unit) prog" where
  "configure_socket io group_name =
     (case mi_group io group_name of
        None \<Rightarrow> raise_p RuntimeError (''Runtime socket group does not exist: '' @ group_name)
      | Some gid \<Rightarrow>
          then_p (socket_call_p io (ChownSocket 0 gid) (\<lambda>s. s\<lparr>sv_path := map_option (chown_entry 0 gid) (sv_path s)\<rparr>))
            (socket_call_p io (ChmodSocket socket_mode) (\<lambda>s. s\<lparr>sv_path := map_option (chmod_entry socket_mode) (sv_path s)\<rparr>)))"

section \<open>The service\<close>

definition on_daemon :: "('w daemon, 'a) prog \<Rightarrow> ('w main_state, 'a) prog" where
  "on_daemon = zoom_p sv_daemon (\<lambda>d s. s\<lparr>sv_daemon := d\<rparr>)"

text \<open>The reconciliation of the start, whose errors are printed.\<close>

definition reconcile_error_line :: "string \<times> string \<Rightarrow> string" where
  "reconcile_error_line p = ''freebsd-lab-runtime-daemon: reconciliation failed for '' @ fst p @ '': '' @ snd p"

definition reply_errors :: "pyval \<Rightarrow> (string \<times> string) list" where
  "reply_errors result =
     (case result of
        PDict d \<Rightarrow>
          (case pget_default d ''errors'' (PDict []) of
             PDict errors \<Rightarrow> map (\<lambda>p. (fst p, case snd p of PStr t \<Rightarrow> t | v \<Rightarrow> json_text True v)) errors
           | _ \<Rightarrow> [])
      | _ \<Rightarrow> [])"

definition reconcile_start :: "manager \<Rightarrow> 'w host \<Rightarrow> ('w main_state, unit) prog" where
  "reconcile_start m h =
     bind_p (on_daemon (gc m h (PBool True) (PInt 0))) (\<lambda>result.
       modify_p (\<lambda>s. s\<lparr>sv_stderr := sv_stderr s @ map reconcile_error_line (reply_errors result)\<rparr>))"

text \<open>One connection in a thread of its own: whatever its result, the server goes on.\<close>

definition serve_connection :: "manager \<Rightarrow> 'w host \<Rightarrow> request_event \<Rightarrow> 'w main_state \<Rightarrow> 'w main_state" where
  "serve_connection m h c s =
     (case handle m h (fst c) (snd c) (sv_daemon s) of
        (r, d) \<Rightarrow> s\<lparr>sv_daemon := d, sv_answers := sv_answers s @ [(sv_path s, case r of Ret x \<Rightarrow> x | _ \<Rightarrow> None)]\<rparr>)"

definition serve_forever :: "main_io \<Rightarrow> manager \<Rightarrow> 'w host \<Rightarrow> request_event list \<Rightarrow> ('w main_state, unit) prog" where
  "serve_forever io m h cs =
     then_p (modify_p (\<lambda>s. fold (serve_connection m h) cs s))
       (case mi_serve_end io of None \<Rightarrow> return_p () | Some e \<Rightarrow> throw_p e)"

text \<open>\<open>unlink(missing_ok=True)\<close>\<close>

definition unlink_socket :: "main_io \<Rightarrow> ('w main_state, unit) prog" where
  "unlink_socket io = bind_p (gets_p sv_path) (\<lambda>entry. when_p (entry \<noteq> None) (remove_entry io))"

definition run_server :: "main_io \<Rightarrow> runtime_config \<Rightarrow> bool \<Rightarrow> manager \<Rightarrow> 'w host \<Rightarrow> request_event list \<Rightarrow> ('w main_state, unit) prog" where
  "run_server io cfg no_reconcile m h cs =
     then_p (configure_socket io (c_socket_group cfg))
       (then_p (when_p (\<not> no_reconcile) (reconcile_start m h))
         (finally_p (serve_forever io m h cs) (then_p server_close (unlink_socket io))))"

definition daemon_main :: "main_io \<Rightarrow> daemon_args \<Rightarrow> 'w host \<Rightarrow> request_event list \<Rightarrow> ('w main_state, unit) prog" where
  "daemon_main io args h cs =
     (if mi_platform io \<noteq> ''FreeBSD'' then raise_p SystemExit ''freebsd-lab-runtime-daemon requires FreeBSD''
      else if mi_euid io \<noteq> 0 then raise_p SystemExit ''freebsd-lab-runtime-daemon must run as root''
      else let cfg = config_of_daemon_args args
           in bind_p (lift_p (manager_init cfg)) (\<lambda>m.
                then_p (prepare_socket_path io (c_socket_path cfg))
                  (then_p (open_server io)
                    (finally_p (run_server io cfg (da_no_reconcile args) m h cs) server_close))))"

section \<open>The entry point\<close>

text \<open>\<open>KeyboardInterrupt\<close> is not an error of the model: the service ends by it.\<close>

definition on_service :: "('w main_state, 'a) prog \<Rightarrow> ('w main_state \<times> sdk, 'a) prog" where
  "on_service = zoom_p fst (\<lambda>x s. (x, snd s))"

definition on_sdk :: "(sdk, 'a) prog \<Rightarrow> ('w main_state \<times> sdk, 'a) prog" where
  "on_sdk = zoom_p snd (\<lambda>x s. (fst s, x))"

definition entrypoint :: "main_io \<Rightarrow> sdk_lib \<Rightarrow> daemon_args \<Rightarrow> 'w host \<Rightarrow> request_event list \<Rightarrow> ('w main_state \<times> sdk, unit) prog" where
  "entrypoint io lib args h cs =
     then_p (on_sdk (init_sentry lib ''runtime-daemon'' False))
       (catch_p (on_service (daemon_main io args h cs))
         (\<lambda>e. then_p (on_sdk (capture_exception lib e ''runtime-daemon'' ''runtime-daemon:main''))
           (then_p (on_sdk (flush_sentry lib)) (throw_p e))))"

section \<open>What the steps do to the socket\<close>

text \<open>A sequence of two programs without a result.\<close>

lemma then_unit:
  assumes "then_p m k s = (r, t)" "m s = (q, u)"
  shows "(q = Ret () \<longrightarrow> k u = (r, t)) \<and> (q \<noteq> Ret () \<longrightarrow> r = q \<and> t = u)"
  using assms by (cases q) (auto simp: then_p_def bind_p_def)

lemma finally_close:
  assumes "finally_p m server_close s = (r, t)" "m s = (q, u)"
  shows "r = q \<and> t = (if q = Stuck then u else u\<lparr>sv_listening := False\<rparr>)"
  using assms by (cases q) (auto simp: finally_p_def server_close_def)

lemma socket_call_run:
  "socket_call_p io c f s = (r, t) \<Longrightarrow> (t = f s \<and> r = Ret ()) \<or> (t = s \<and> (\<exists>e. r = Raise e))"
  by (auto simp: socket_call_p_def split: option.splits)

lemma prepare_run:
  assumes "prepare_socket_path io path s = (r, t)"
  shows "(t = s \<or> t = s\<lparr>sv_path := None\<rparr> \<and> sv_path s \<noteq> Some OtherEntry) \<and>
     (case r of Ret x \<Rightarrow> sv_path t = None | Raise e \<Rightarrow> True | Stuck \<Rightarrow> False)"
  using assms
  by (auto simp: prepare_socket_path_def then_p_def bind_p_def remove_entry_def socket_call_p_def
      split: option.splits socket_entry.splits)

lemma open_run:
  assumes "open_server io s = (r, t)" "\<not> sv_listening s" "sv_path s = None"
  shows "sv_daemon t = sv_daemon s \<and> sv_answers t = sv_answers s \<and>
     (case r of Ret x \<Rightarrow> sv_listening t \<and> sv_path t = Some (SocketEntry 0 0 (mi_umask_mode io)) | Raise e \<Rightarrow> \<not> sv_listening t | Stuck \<Rightarrow> False)"
  using assms
  by (auto simp: open_server_def then_p_def bind_p_def catch_p_def socket_call_p_def server_close_def split: option.splits)

lemma configure_run:
  assumes "configure_socket io g s = (r, t)" "sv_path s = Some (SocketEntry u k md)"
  shows "sv_daemon t = sv_daemon s \<and> sv_answers t = sv_answers s \<and> sv_listening t = sv_listening s \<and>
     (case r of Ret x \<Rightarrow> \<exists>gid. mi_group io g = Some gid \<and> sv_path t = Some (SocketEntry 0 gid socket_mode) | Raise e \<Rightarrow> True | Stuck \<Rightarrow> False)"
  using assms
  by (auto simp: configure_socket_def then_p_def bind_p_def socket_call_p_def split: option.splits)

text \<open>The daemon's state when the service begins.\<close>

definition started :: "manager \<Rightarrow> 'w host \<Rightarrow> bool \<Rightarrow> 'w daemon \<Rightarrow> 'w daemon \<Rightarrow> bool" where
  "started m h no_reconcile d d' \<longleftrightarrow> (if no_reconcile then d' = d else \<exists>result. gc m h (PBool True) (PInt 0) d = (Ret result, d'))"

lemma reconcile_keeps:
  "reconcile_start m h s = (r, t) \<Longrightarrow> sv_path t = sv_path s \<and> sv_answers t = sv_answers s \<and> sv_listening t = sv_listening s \<and>
     (r = Ret () \<longrightarrow> started m h False (sv_daemon s) (sv_daemon t))"
  by (auto simp: reconcile_start_def bind_p_def on_daemon_def zoom_p_def started_def split: prod.splits res.splits)

text \<open>The service is the daemon's request handler, connection by connection.\<close>

lemma serve_connections:
  "\<exists>as. fold (serve_connection m h) cs s = s\<lparr>sv_daemon := run_steps (serve m h) (sv_daemon s) cs, sv_answers := sv_answers s @ map (Pair (sv_path s)) as\<rparr> \<and>
     length as = length cs"
proof (induction cs arbitrary: s)
  case (Cons c cs)
  obtain r d where h: "handle m h (fst c) (snd c) (sv_daemon s) = (r, d)" by fastforce
  let ?s = "s\<lparr>sv_daemon := d, sv_answers := sv_answers s @ [(sv_path s, case r of Ret x \<Rightarrow> x | _ \<Rightarrow> None)]\<rparr>"
  obtain as where as: "fold (serve_connection m h) cs ?s = ?s\<lparr>sv_daemon := run_steps (serve m h) d cs, sv_answers := sv_answers ?s @ map (Pair (sv_path ?s)) as\<rparr>"
      "length as = length cs" using Cons.IH [of ?s] by auto
  have "serve_connection m h c s = ?s" "serve m h (sv_daemon s) c = d" using h by (simp_all add: serve_connection_def serve_def)
  then show ?case
    by (intro exI [of _ "(case r of Ret x \<Rightarrow> x | _ \<Rightarrow> None) # as"]) (use as in simp)
qed simp

lemma serve_forever_run:
  assumes "serve_forever io m h cs s = (r, t)"
  shows "r \<noteq> Stuck \<and> (r = Ret () \<longleftrightarrow> mi_serve_end io = None) \<and>
     (\<exists>as. t = s\<lparr>sv_daemon := run_steps (serve m h) (sv_daemon s) cs, sv_answers := sv_answers s @ map (Pair (sv_path s)) as\<rparr> \<and> length as = length cs)"
proof (intro conjI)
  have t: "t = fold (serve_connection m h) cs s" using assms by (auto simp: serve_forever_def split: option.splits)
  show "\<exists>as. t = s\<lparr>sv_daemon := run_steps (serve m h) (sv_daemon s) cs, sv_answers := sv_answers s @ map (Pair (sv_path s)) as\<rparr> \<and> length as = length cs"
    unfolding t by (rule serve_connections)
qed (use assms in \<open>auto simp: serve_forever_def split: option.splits\<close>)

lemma closing_run:
  "then_p server_close (unlink_socket io) s = (r, t) \<Longrightarrow>
     r \<noteq> Stuck \<and> sv_answers t = sv_answers s \<and> sv_daemon t = sv_daemon s \<and> \<not> sv_listening t \<and> (r = Ret () \<longrightarrow> sv_path t = None)"
  by (auto simp: server_close_def unlink_socket_def remove_entry_def socket_call_p_def when_p_def split: option.splits if_splits)

definition private_entry :: "main_io \<Rightarrow> runtime_config \<Rightarrow> socket_entry option \<Rightarrow> bool" where
  "private_entry io cfg p \<longleftrightarrow> (\<exists>gid. mi_group io (c_socket_group cfg) = Some gid \<and> p = Some (SocketEntry 0 gid socket_mode))"

lemma run_server_run:
  assumes "run_server io cfg nr m h cs s = (r, t)" "sv_path s = Some (SocketEntry u k md)" "sv_answers s = []"
  shows "(\<forall>p\<in>set (sv_answers t). private_entry io cfg (fst p)) \<and> (r = Ret () \<longrightarrow> sv_path t = None \<and> length (sv_answers t) = length cs \<and>
       (\<exists>d. started m h nr (sv_daemon s) d \<and> sv_daemon t = run_steps (serve m h) d cs))"
proof -
  obtain q u where q: "configure_socket io (c_socket_group cfg) s = (q, u)" by fastforce
  note conf = configure_run [OF q assms(2)]
  show ?thesis
  proof (cases q)
    case (Ret x)
    obtain q2 v where q2: "when_p (\<not> nr) (reconcile_start m h) u = (q2, v)" by fastforce
    then have v: "sv_path v = sv_path u" "sv_answers v = []" "q2 = Ret () \<longrightarrow> started m h nr (sv_daemon s) (sv_daemon v)"
      using reconcile_keeps [of m h u q2 v] conf assms(3) by (auto simp: when_p_def started_def split: if_splits)
    show ?thesis
    proof (cases q2)
      case (Ret y)
      obtain q3 w where q3: "serve_forever io m h cs v = (q3, w)" by fastforce
      obtain q4 x4 where q4: "then_p server_close (unlink_socket io) w = (q4, x4)" by fastforce
      note served = serve_forever_run [OF q3] and closed = closing_run [OF q4]
      have t: "t = x4" "r = Ret () \<longrightarrow> q4 = Ret ()"
        using assms(1) q \<open>q = Ret x\<close> q2 Ret q3 q4 served
        by (auto simp: run_server_def then_p_def [of "configure_socket io (c_socket_group cfg)"] then_p_def [of "when_p b c" for b c]
            bind_p_def finally_p_def split: res.splits)
      have "private_entry io cfg (sv_path v)" using conf v \<open>q = Ret x\<close> by (auto simp: private_entry_def)
      then show ?thesis using served closed t v Ret by auto
    next
      case (Raise e)
      then show ?thesis using assms(1) q \<open>q = Ret x\<close> q2 v
        by (auto simp: run_server_def then_p_def bind_p_def)
    next
      case Stuck
      then show ?thesis using assms(1) q \<open>q = Ret x\<close> q2 v
        by (auto simp: run_server_def then_p_def bind_p_def)
    qed
  qed (use assms q conf in \<open>auto simp: run_server_def then_p_def bind_p_def\<close>)
qed

lemma daemon_main_run:
  assumes "daemon_main io args h cs s = (r, t)" "\<not> sv_listening s" "sv_answers s = []"
  shows "(r \<noteq> Stuck \<longrightarrow> \<not> sv_listening t) \<and>
     (\<forall>p\<in>set (sv_answers t). private_entry io (config_of_daemon_args args) (fst p)) \<and>
     (r = Ret () \<longrightarrow> mi_euid io = 0 \<and> sv_path t = None \<and> length (sv_answers t) = length cs \<and>
       (\<exists>m d. manager_init (config_of_daemon_args args) = Inr m \<and> started m h (da_no_reconcile args) (sv_daemon s) d \<and>
          sv_daemon t = run_steps (serve m h) d cs)) \<and>
     (sv_path s = Some OtherEntry \<longrightarrow> t = s \<and> (\<exists>e. r = Raise e))"
proof (cases "mi_platform io = ''FreeBSD'' \<and> mi_euid io = 0 \<and> (\<exists>m. manager_init (config_of_daemon_args args) = Inr m)")
  case False
  then have "t = s \<and> (\<exists>e. r = Raise e)"
    using assms(1) by (cases "manager_init (config_of_daemon_args args)") (auto simp: daemon_main_def Let_def lift_p_def bind_p_def split: if_splits)
  then show ?thesis using assms(2,3) by auto
next
  case True
  then obtain m where m: "manager_init (config_of_daemon_args args) = Inr m" by blast
  have root: "mi_euid io = 0" using True by blast
  let ?cfg = "config_of_daemon_args args"
  let ?serve = "finally_p (run_server io ?cfg (da_no_reconcile args) m h cs) server_close"
  have run: "then_p (prepare_socket_path io (c_socket_path ?cfg)) (then_p (open_server io) ?serve) s = (r, t)"
    using assms(1) True m by (simp add: daemon_main_def Let_def lift_p_def bind_return)
  obtain q u where q: "prepare_socket_path io (c_socket_path ?cfg) s = (q, u)" by fastforce
  note prep = prepare_run [OF q]
  have u: "\<not> sv_listening u" "sv_answers u = []" "sv_daemon u = sv_daemon s" using prep assms(2,3) by auto
  show ?thesis
  proof (cases "q = Ret ()")
    case False
    then have "r = q" "t = u" "\<exists>e. q = Raise e" using then_unit [OF run q] prep by (auto split: res.splits)
    then show ?thesis using u prep by auto
  next
    case True
    have path: "sv_path u = None" "sv_path s \<noteq> Some OtherEntry" using prep True by auto
    have run2: "then_p (open_server io) ?serve u = (r, t)" using then_unit [OF run q] True by blast
    obtain q2 v where q2: "open_server io u = (q2, v)" by fastforce
    note opened = open_run [OF q2 u(1) path(1)]
    show ?thesis
    proof (cases "q2 = Ret ()")
      case False
      then have "r = q2" "t = v" "\<exists>e. q2 = Raise e" using then_unit [OF run2 q2] opened by (auto split: res.splits)
      then have "\<not> sv_listening t" "sv_answers t = []" "r \<noteq> Ret ()" using opened u(2) by (auto split: res.splits)
      then show ?thesis using path(2) by simp
    next
      case q2r: True
      have run3: "?serve v = (r, t)" using then_unit [OF run2 q2] q2r by blast
      obtain q3 w where q3: "run_server io ?cfg (da_no_reconcile args) m h cs v = (q3, w)" by fastforce
      have v: "sv_path v = Some (SocketEntry 0 0 (mi_umask_mode io))" "sv_answers v = []" and vd: "sv_daemon v = sv_daemon s"
        using opened q2r u by auto
      note served = run_server_run [OF q3 v, unfolded vd]
      have t: "r = q3" "t = (if q3 = Stuck then w else w\<lparr>sv_listening := False\<rparr>)"
        using finally_close [OF run3 q3] by blast+
      show ?thesis using served t path root m by (cases "q3 = Stuck") simp_all
    qed
  qed
qed

section \<open>A damaged record\<close>

text \<open>
  The reconciliation of the start is \<open>gc\<close>, which raises on a record that cannot be read: the daemon
  does not serve at all, and the socket it made stays.
\<close>

lemma damaged_record_stops_daemon:
  assumes "runtime_name_ok n" "load_registry (d_registry (sv_daemon s)) n = Inl e"
    "mi_platform io = ''FreeBSD''" "mi_euid io = 0" "\<And>c. mi_fail io c = None" "mi_group io (da_group args) = Some gid"
    "\<not> da_no_reconcile args" "manager_init (config_of_daemon_args args) = Inr m" "sv_path s = None"
  shows "\<exists>e'. daemon_main io args h cs s = (Raise e', s\<lparr>sv_path := Some (SocketEntry 0 gid socket_mode), sv_listening := False\<rparr>)"
proof -
  let ?cfg = "config_of_daemon_args args"
  have group: "mi_group io (c_socket_group ?cfg) = Some gid" using assms(6) by (simp add: config_of_daemon_args_def)
  have prep: "prepare_socket_path io (c_socket_path ?cfg) s = (Ret (), s)"
    using assms(5,9) by (simp add: prepare_socket_path_def socket_call_p_def)
  let ?o = "s\<lparr>sv_path := Some (SocketEntry 0 0 (mi_umask_mode io)), sv_listening := True\<rparr>"
  let ?c = "s\<lparr>sv_path := Some (SocketEntry 0 gid socket_mode), sv_listening := True\<rparr>"
  have opened: "open_server io s = (Ret (), ?o)"
    using assms(5,9) by (simp add: open_server_def socket_call_p_def catch_p_def then_p_def bind_p_def)
  have conf: "configure_socket io (c_socket_group ?cfg) ?o = (Ret (), ?c)"
    using assms(5) group by (simp add: configure_socket_def socket_call_p_def)
  obtain e' where g: "gc m h (PBool True) (PInt 0) (sv_daemon s) = (Raise e', sv_daemon s)"
    using gc_unreadable_record [OF assms(1,2), of 0 m h True] by auto
  have rec: "reconcile_start m h ?c = (Raise e', ?c)"
    using g by (simp add: reconcile_start_def on_daemon_def zoom_p_def bind_p_def)
  have "run_server io ?cfg (da_no_reconcile args) m h cs ?o =
      then_p (when_p (\<not> da_no_reconcile args) (reconcile_start m h)) (finally_p (serve_forever io m h cs) (then_p server_close (unlink_socket io))) ?c"
    unfolding run_server_def by (rule then_p_step) (rule conf)
  then have rest: "run_server io ?cfg (da_no_reconcile args) m h cs ?o = (Raise e', ?c)"
    using assms(7) by (simp add: then_p_def bind_p_def rec)
  have "daemon_main io args h cs s = then_p (prepare_socket_path io (c_socket_path ?cfg))
      (then_p (open_server io) (finally_p (run_server io ?cfg (da_no_reconcile args) m h cs) server_close)) s"
    using assms(3,4,8) by (simp add: daemon_main_def Let_def lift_p_def bind_return)
  also have "\<dots> = then_p (open_server io) (finally_p (run_server io ?cfg (da_no_reconcile args) m h cs) server_close) s"
    by (rule then_p_step) (rule prep)
  also have "\<dots> = finally_p (run_server io ?cfg (da_no_reconcile args) m h cs) server_close ?o" by (rule then_p_step) (rule opened)
  finally have "daemon_main io args h cs s = finally_p (run_server io ?cfg (da_no_reconcile args) m h cs) server_close ?o" .
  then show ?thesis by (simp add: finally_p_def rest server_close_def)
qed

section \<open>The report of the error\<close>

text \<open>
  The entry point raises again what the daemon raised, after the report; only a DSN that the SDK refuses ends
  it with another error, before the daemon has started.
\<close>

lemma entrypoint_reraises:
  assumes "entrypoint io lib args h cs (s, k) = (r, (t, k'))" "sdk_ok k" "builds_values lib"
  shows "sdk_ok k' \<and>
     (daemon_main io args h cs s = (r, t) \<or>
      (t = s \<and> (\<exists>e. r = Raise e \<and> sl_dsn_error lib (env_or lib ''SENTRY_DSN'' []) = Some e)))"
proof -
  obtain q k1 where q: "init_sentry lib ''runtime-daemon'' False k = (q, k1)" by fastforce
  have i: "on_sdk (init_sentry lib ''runtime-daemon'' False) (s, k) = (q, (s, k1))" using q by (simp add: on_sdk_def zoom_p_def)
  have k1: "sdk_ok k1" using init_sentry_run [OF q] assms(2) client_made by (auto simp: sdk_ok_def)
  show ?thesis
  proof (cases q)
    case (Raise e)
    then show ?thesis
      using assms(1) i q k1 by (auto simp: entrypoint_def then_p_def bind_p_def init_sentry_eq Let_def split: if_splits option.splits)
  next
    case Stuck
    then show ?thesis using q by (auto simp: init_sentry_eq Let_def split: if_splits option.splits)
  next
    case (Ret b)
    let ?report = "\<lambda>e. then_p (on_sdk (capture_exception lib e ''runtime-daemon'' ''runtime-daemon:main''))
           (then_p (on_sdk (flush_sentry lib)) (throw_p e))"
    have run: "catch_p (on_service (daemon_main io args h cs)) ?report (s, k1) = (r, (t, k'))"
      using assms(1) i Ret by (simp add: entrypoint_def then_p_def [of "on_sdk (init_sentry lib ''runtime-daemon'' False)"] bind_p_def [of "on_sdk (init_sentry lib ''runtime-daemon'' False)"])
    obtain p u where p: "daemon_main io args h cs s = (p, u)" by fastforce
    have o1: "on_service (daemon_main io args h cs) (s, k1) = (p, (u, k1))" using p by (simp add: on_service_def zoom_p_def)
    show ?thesis
    proof (cases p)
      case (Raise e)
      obtain c k2 where c: "capture_exception lib e ''runtime-daemon'' ''runtime-daemon:main'' k1 = (c, k2)" by fastforce
      have ready: "\<exists>x. client_ready lib ''runtime-daemon'' k1 = (Ret x, k1)"
        using q Ret by (auto simp: client_ready_def init_sentry_eq Let_def initialized_def split: if_splits option.splits)
      then have "\<exists>y. c = Ret y" using c
        by (auto simp: capture_exception_def bind_p_def tagged_def new_scope_def set_tag_def capture_event_def split: if_splits option.splits sum.splits)
      moreover have k2: "sdk_ok k2" using capturing_ok [of lib _ _ _ k1 c k2] c assms(3) k1 by (simp add: captures)
      moreover obtain k3 where k3: "flush_sentry lib k2 = (Ret (), k3)"
        by (cases "sl_importable lib \<and> initialized k2") (simp_all add: flush_sentry_def sdk_flush_def when_p_def)
      moreover have "sdk_ok k3" using flush_ok [OF k2, of lib] k3 by simp
      ultimately show ?thesis using run o1 Raise c p
        by (auto simp: catch_p_def then_p_def bind_p_def on_sdk_def zoom_p_def)
    qed (use run o1 p k1 in \<open>auto simp: catch_p_def\<close>)
  qed
qed

section \<open>Properties\<close>


text \<open>A host on which every call succeeds, and a ping of root.\<close>

definition sample_main_io :: main_io where
  "sample_main_io =
     \<lparr>mi_platform = ''FreeBSD'', mi_euid = 0, mi_group = (\<lambda>g. Some 1001), mi_fail = (\<lambda>_. None), mi_umask_mode = 493, mi_serve_end = None\<rparr>"

definition sample_args :: daemon_args where
  "sample_args = default_args
     \<lparr>da_network := ''0.0.0.0/30'', da_host_address := ''0.0.0.1'', da_address_start := ''0.0.0.2'', da_address_end := ''0.0.0.3'',
      da_no_reconcile := True\<rparr>"

definition sample_main_state :: "'w daemon \<Rightarrow> 'w main_state" where
  "sample_main_state d = \<lparr>sv_daemon = d, sv_path = Some LinkEntry, sv_listening = False, sv_answers = [], sv_stderr = []\<rparr>"

lemma sample_manager_init: "\<exists>m. manager_init (config_of_daemon_args sample_args) = Inr m"
proof -
  have "ipv4_pool_init ''0.0.0.0/30'' ''0.0.0.2'' ''0.0.0.3'' = Inr \<lparr>pool_network = \<lparr>net_base = 0, net_prefixlen = 30\<rparr>, pool_start = 2, pool_end = 3\<rparr>"
    "prefix_length ''0.0.0.0/30'' = Inr 30" "address_in_network ''0.0.0.1'' ''0.0.0.0/30'' = Inr True" by code_simp+
  then show ?thesis by (simp add: manager_init_def config_of_daemon_args_def sample_args_def)
qed


end
