(* ===== verification/Lab_App.thy ===== *)
theory Lab_App
  imports Runtime_Client Evidence_Http Sentry_Sdk Json_Pretty
begin

text \<open>
  The parts that tie the components together on Jupyter's side: the reports of the runtime
  client (runtime_client.py), the start of the server extension (app.py), the command that
  collects runtimes (gc.py) and the one that installs the kernel specifications (install.py).
  The state has the SDK, the world of the exchange with the daemon, the settings of the web
  application and the lines of its log.
\<close>

section \<open>The client and its reports\<close>

definition on_first :: "('a, 'r) prog \<Rightarrow> ('a \<times> 'b, 'r) prog" where
  "on_first = zoom_p fst (\<lambda>x s. (x, snd s))"

definition on_second :: "('b, 'r) prog \<Rightarrow> ('a \<times> 'b, 'r) prog" where
  "on_second = zoom_p snd (\<lambda>x s. (fst s, x))"

text \<open>Each control error is reported where it is raised, and raised again.\<close>

definition reported_request ::
    "sdk_lib \<Rightarrow> (pyval \<Rightarrow> string) \<Rightarrow> string \<Rightarrow> (string \<Rightarrow> ('s, (exn + string) list) prog) \<Rightarrow> string \<Rightarrow> record_doc \<Rightarrow>
     (sdk \<times> 's, record_doc) prog" where
  "reported_request lib show_value socket_path exchange action payload =
     then_p (on_first (init_sentry lib ''runtime-client'' False))
       (catch_p (on_second (client_request show_value socket_path exchange action payload))
         (\<lambda>e. if exn_kind e = RuntimeControlError
               then then_p (on_first (capture_exception lib e ''runtime-client'' (''runtime:'' @ action))) (throw_p e)
               else throw_p e))"

definition reported_gc where
  "reported_gc lib show_value socket_path exchange stale_only =
     reported_request lib show_value socket_path exchange ''gc'' [(''stale_only'', PBool stale_only)]"

section \<open>The collection command\<close>

text \<open>What \<open>main\<close> prints; \<open>json_norm\<close> has the members in the order of \<open>sort_keys\<close>.\<close>

definition gc_main where
  "gc_main lib show_value socket_path exchange collect_all =
     bind_p (reported_gc lib show_value socket_path exchange (\<not> collect_all)) (\<lambda>result.
       return_p (json_pretty 0 (json_norm (PDict result)) @ [CHR 0x0A]))"

section \<open>The extension\<close>

datatype setting = KernelConnectionClass string | LabService lab_service

record lab_app =
  la_settings :: "(string \<times> setting) list"
  la_handlers :: "(string \<times> string) list"
  la_warnings :: "string list"
  la_infos :: "string list"

record app_config =
  ac_platform :: string
  ac_reconcile :: bool
  ac_runtime_socket :: string
  ac_max_events :: pyval
  ac_max_bytes :: pyval
  ac_fsync :: bool

text \<open>What the service finds when it starts.\<close>

record app_files =
  af_lab_file :: "exn + string list"
  af_spec :: "exn + record_doc"
  af_evidence_root :: string
  af_dir_exists :: bool
  af_session_id :: string
  af_now :: string

definition service_settings_key :: string where
  "service_settings_key = ''freebsd_laboratory_service''"

definition put_setting :: "string \<Rightarrow> setting \<Rightarrow> (lab_app, unit) prog" where
  "put_setting key v = modify_p (\<lambda>a. a\<lparr>la_settings := AList.update key v (la_settings a)\<rparr>)"

text \<open>\<open>", ".join(str(item) for item in cleaned)\<close>\<close>

definition item_str :: "(pyval \<Rightarrow> string) \<Rightarrow> pyval \<Rightarrow> string" where
  "item_str show_value v = (case v of PStr t \<Rightarrow> t | _ \<Rightarrow> show_value v)"

definition cleaned_items :: "(pyval \<Rightarrow> string) \<Rightarrow> pyval \<Rightarrow> exn + string" where
  "cleaned_items show_value cleaned =
     (case cleaned of
        PList xs \<Rightarrow> Inr (join_with '', '' (map (item_str show_value) xs))
      | PStr t \<Rightarrow> Inr (join_with '', '' (map (\<lambda>c. [c]) t))
      | PDict d \<Rightarrow> Inr (join_with '', '' (map fst d))
      | _ \<Rightarrow> Inl (Exn TypeError ''object is not iterable''))"

definition reconcile_runtimes ::
    "sdk_lib \<Rightarrow> (pyval \<Rightarrow> string) \<Rightarrow> (string \<Rightarrow> ('s, (exn + string) list) prog) \<Rightarrow> string \<Rightarrow> ((sdk \<times> 's) \<times> lab_app, unit) prog" where
  "reconcile_runtimes lib show_value exchange socket_path =
     catch_p
       (bind_p (on_first (reported_gc lib show_value socket_path exchange True)) (\<lambda>result.
          let cleaned = pget_default result ''cleaned'' (PList [])
          in when_p (truthy cleaned)
               (bind_p (lift_p (cleaned_items show_value cleaned)) (\<lambda>items.
                  on_second (modify_p (\<lambda>a. a\<lparr>la_warnings := la_warnings a @ [''FreeBSD Laboratory reconciled stale runtimes: '' @ items]\<rparr>))))))
       (\<lambda>e. if exn_kind e = RuntimeControlError
             then on_second (modify_p (\<lambda>a. a\<lparr>la_warnings := la_warnings a @ [''FreeBSD Laboratory runtime reconciliation skipped: '' @ exn_msg e]\<rparr>))
             else throw_p e)"

definition start_service :: "(pyval \<Rightarrow> string) \<Rightarrow> app_config \<Rightarrow> app_files \<Rightarrow> (lab_app, unit) prog" where
  "start_service show_value c f =
     bind_p
       (lift_p (lab_service_init (ac_max_events c) (ac_max_bytes c) (ac_fsync c) (af_lab_file f) (af_spec f) (af_evidence_root f)
          (af_dir_exists f) (af_session_id f) (af_now f)))
       (\<lambda>svc. then_p (put_setting service_settings_key (LabService svc))
          (case dir_get (ls_spec svc) ''id'' of
             None \<Rightarrow> raise_p KeyError ''id''
           | Some i \<Rightarrow> modify_p (\<lambda>a. a\<lparr>la_infos := la_infos a @
               [''FreeBSD Laboratory session '' @ ls_session_id svc @ '' initialized for '' @ item_str show_value i]\<rparr>)))"

definition initialize_settings ::
    "sdk_lib \<Rightarrow> (pyval \<Rightarrow> string) \<Rightarrow> (string \<Rightarrow> ('s, (exn + string) list) prog) \<Rightarrow> app_config \<Rightarrow> app_files \<Rightarrow> ((sdk \<times> 's) \<times> lab_app, unit) prog" where
  "initialize_settings lib show_value exchange c f =
     then_p (on_first (on_first (init_sentry lib ''jupyter-server'' False)))
     (then_p (on_second (put_setting ''kernel_websocket_connection_class'' (KernelConnectionClass ''SentryKernelWebsocketConnection'')))
     (then_p (when_p (ac_reconcile c \<and> ac_platform c = ''FreeBSD'') (reconcile_runtimes lib show_value exchange (ac_runtime_socket c)))
       (on_second (start_service show_value c f))))"

definition lab_handlers :: "(string \<times> string) list" where
  "lab_handlers =
     [(''/freebsd-lab/api/state'', ''StateHandler''), (''/freebsd-lab/api/events'', ''EventHandler''),
      (''/freebsd-lab/api/export'', ''ExportHandler'')]"

definition initialize_handlers :: "(lab_app, unit) prog" where
  "initialize_handlers = modify_p (\<lambda>a. a\<lparr>la_handlers := la_handlers a @ lab_handlers\<rparr>)"

text \<open>\<open>LaboratoryHandler.service\<close>\<close>

definition handler_service :: "lab_app \<Rightarrow> exn + lab_service" where
  "handler_service a =
     (case dir_get (la_settings a) service_settings_key of
        Some (LabService svc) \<Rightarrow> Inr svc
      | _ \<Rightarrow> Inl (Exn RuntimeError ''FreeBSD Laboratory service is not initialized''))"

section \<open>The kernel specifications\<close>

definition kernelspecs :: "string list" where
  "kernelspecs = [''freebsd-python'', ''freebsd-python-bhyve'', ''linux-python-bhyve'']"

record kernelspec_dirs =
  ks_bundled :: "string list"
  ks_installed :: "(string \<times> string) list"
  ks_printed :: "string list"

text \<open>\<open>install_kernel_spec(replace=True)\<close> is Jupyter's: its destination, or its error.\<close>

definition install_spec :: "(string \<Rightarrow> exn + string) \<Rightarrow> string \<Rightarrow> string \<Rightarrow> (kernelspec_dirs, unit) prog" where
  "install_spec install root name =
     bind_p (gets_p ks_bundled) (\<lambda>bundled.
       if name \<notin> set bundled then raise_p RuntimeError (''Bundled kernelspec not found: '' @ root @ ''/'' @ name)
       else bind_p (lift_p (install name)) (\<lambda>destination.
         modify_p (\<lambda>k. k\<lparr>ks_installed := AList.update name (root @ ''/'' @ name) (ks_installed k),
                         ks_printed := ks_printed k @ [''Installed '' @ name @ '' at '' @ destination]\<rparr>)))"

definition install_main :: "(string \<Rightarrow> exn + string) \<Rightarrow> string \<Rightarrow> (kernelspec_dirs, unit) prog" where
  "install_main install root = foreach_p kernelspecs (install_spec install root)"

section \<open>Errors of the daemon\<close>

text \<open>A connection that fails, when it fails, with an OSError.\<close>

definition os_exchange :: "(string \<Rightarrow> ('s, (exn + string) list) prog) \<Rightarrow> bool" where
  "os_exchange exchange \<longleftrightarrow>
     (\<forall>sent s. case fst (exchange sent s) of
        Ret received \<Rightarrow> \<forall>e. Inl e \<in> set received \<longrightarrow> is_os_error (exn_kind e)
      | Raise e \<Rightarrow> is_os_error (exn_kind e)
      | Stuck \<Rightarrow> False)"

definition accepts_dsn :: "sdk_lib \<Rightarrow> bool" where
  "accepts_dsn lib \<longleftrightarrow> (\<forall>d. sl_dsn_error lib d = None)"

lemma init_returns: "accepts_dsn lib \<Longrightarrow> returns (init_sentry lib component debug)"
  by (auto simp: returns_def init_sentry_eq accepts_dsn_def Let_def)

lemma returns_new_scope: "returns m \<Longrightarrow> returns (new_scope m)"
  unfolding returns_def new_scope_def by (metis (mono_tags, lifting) case_prod_conv)

lemma capture_returns: "returns (tagged component operation (capture_event lib event))"
proof -
  have "returns (capture_event lib event)" by (simp add: returns_def capture_event_def split: option.split sum.split)
  then show ?thesis by (simp add: tagged_def set_tag_def returns_then returns_new_scope)
qed

lemma capture_exception_returns:
  assumes "accepts_dsn lib"
  shows "returns (capture_exception lib e component operation)"
proof -
  have "returns (client_ready lib component)"
    using init_returns [OF assms] by (simp add: client_ready_def returns_bind)
  then show ?thesis by (simp add: capture_exception_def returns_bind capture_returns)
qed

lemma os_exchangeD:
  assumes "os_exchange exchange" "exchange sent s = (r, t)"
  shows "case r of Ret received \<Rightarrow> \<forall>e. Inl e \<in> set received \<longrightarrow> is_os_error (exn_kind e) | Raise e \<Rightarrow> is_os_error (exn_kind e) | Stuck \<Rightarrow> False"
  using assms(1) [unfolded os_exchange_def, rule_format, of sent s] by (simp add: assms(2))

lemma client_request_unstuck:
  assumes "os_exchange exchange"
  shows "client_request v path exchange action payload s \<noteq> (Stuck, t)"
proof -
  have "exchange sent s \<noteq> (Stuck, t)" for sent s t using os_exchangeD [OF assms, of sent s Stuck t] by auto
  then show ?thesis
    by (auto simp: client_request_def bind_p_Stuck_iff catch_p_Stuck_iff lift_p_def split: sum.splits if_splits)
qed

lemma client_request_errors:
  assumes "os_exchange exchange" "client_request v path exchange action payload s = (Raise e, t)"
  shows "exn_kind e = RuntimeControlError"
proof (rule client_raises_control_errors [OF assms(2)])
  show "is_os_error (exn_kind f)" if "exchange sent u = (Raise f, w)" for sent u f w
    using os_exchangeD [OF assms(1) that] by simp
  show "is_os_error (exn_kind f)" if "exchange sent u = (Ret received, w)" "Inl f \<in> set received" for sent u received f w
    using os_exchangeD [OF assms(1) that(1)] that(2) by simp
qed

text \<open>The reports change neither the result of a request nor its effect on the world.\<close>

lemma reported_request_run:
  assumes "accepts_dsn lib"
  shows "\<exists>k'. reported_request lib v path exchange action payload (k, s) =
     (fst (client_request v path exchange action payload s), (k', snd (client_request v path exchange action payload s)))"
proof -
  obtain b k1 where i: "init_sentry lib ''runtime-client'' False k = (Ret b, k1)" using returnsD [OF init_returns [OF assms]] by blast
  obtain r t where c: "client_request v path exchange action payload s = (r, t)" by fastforce
  have run: "reported_request lib v path exchange action payload (k, s) =
      catch_p (on_second (client_request v path exchange action payload))
         (\<lambda>e. if exn_kind e = RuntimeControlError
               then then_p (on_first (capture_exception lib e ''runtime-client'' (''runtime:'' @ action))) (throw_p e)
               else throw_p e) (k1, s)"
    unfolding reported_request_def by (rule then_p_step) (simp add: on_first_def zoom_p_def i)
  show ?thesis
  proof (cases r)
    case (Raise e)
    obtain y k2 where "capture_exception lib e ''runtime-client'' (''runtime:'' @ action) k1 = (Ret y, k2)"
      using returnsD [OF capture_exception_returns [OF assms]] by blast
    then show ?thesis unfolding run using c Raise
      by (simp add: catch_p_def on_second_def on_first_def zoom_p_def then_p_def bind_p_def)
  qed (unfold run, simp_all add: catch_p_def on_second_def zoom_p_def c)
qed

text \<open>A control error of an initialised client is reported exactly once, redacted, with its operation.\<close>

lemma control_error_reported:
  assumes "sl_importable lib" "sdk_ok k" "initialized k"
    and "client_request v path exchange action payload s = (Raise e, t)" "exn_kind e = RuntimeControlError"
    and "redact_event (sl_enrich lib [(''component'', ''runtime-client''), (''operation'', ''runtime:'' @ action), (''project'', ''freebsd-laboratory'')]
           (sl_exception_event lib e)) = PDict sent"
  shows "\<exists>k'. reported_request lib v path exchange action payload (k, s) = (Raise e, (k', t)) \<and> sk_sent k' = sk_sent k @ [PDict sent]"
proof -
  obtain opts where opts: "sk_options k = Some opts" "op_before_send opts = before_send" "sk_tags k = []"
    using assms(2,3) by (auto simp: sdk_ok_def initialized_def)
  have client_is_ready: "client_ready lib ''runtime-client'' k = (Ret True, k)" using assms(1,3) by (simp add: client_ready_def)
  have i: "\<exists>b. init_sentry lib ''runtime-client'' False k = (Ret b, k)"
    using assms(3) by (auto simp: init_sentry_eq Let_def)
  have "tagged ''runtime-client'' (''runtime:'' @ action) (capture_event lib (sl_exception_event lib e)) k =
      (Ret (Some (sl_event_id lib (length (sk_sent k)))), k\<lparr>sk_sent := sk_sent k @ [PDict sent]\<rparr>)"
    using opts assms(6) by (simp add: tagged_def new_scope_def set_tag_def capture_event_def before_send_def)
  then have c: "capture_exception lib e ''runtime-client'' (''runtime:'' @ action) k =
      (Ret (Some (sl_event_id lib (length (sk_sent k)))), k\<lparr>sk_sent := sk_sent k @ [PDict sent]\<rparr>)"
    using client_is_ready by (simp add: capture_exception_def bind_p_def)
  show ?thesis
    using i c assms(4,5) by (auto simp: reported_request_def then_p_def bind_p_def catch_p_def on_first_def on_second_def zoom_p_def)
qed

section \<open>The start of the extension\<close>

lemma reconcile_runtimes_run:
  assumes "accepts_dsn lib" "os_exchange exchange" "reconcile_runtimes lib v exchange path (x, a) = (r, (x', a'))"
  shows "la_settings a' = la_settings a \<and> (r = Ret () \<or> (\<exists>e. r = Raise e \<and> exn_kind e = TypeError))"
proof -
  obtain k s where x: "x = (k, s)" by (cases x)
  obtain q t where c: "client_request v path exchange ''gc'' [(''stale_only'', PBool True)] s = (q, t)" by fastforce
  obtain k' where run: "reported_gc lib v path exchange True (k, s) = (q, (k', t))"
    using reported_request_run [OF assms(1), of v path exchange "''gc''" "[(''stale_only'', PBool True)]" k s] c by (auto simp: reported_gc_def)
  have first: "on_first (reported_gc lib v path exchange True) (x, a) = (q, ((k', t), a))" by (simp add: on_first_def zoom_p_def x run)
  show ?thesis
  proof (cases q)
    case (Ret result)
    have items: "cleaned_items v w = Inl e \<Longrightarrow> exn_kind e = TypeError" for w e by (auto simp: cleaned_items_def split: pyval.splits)
    show ?thesis
      using assms(3) first Ret
      by (auto simp: reconcile_runtimes_def Let_def catch_p_def bind_p_def when_p_def lift_p_def on_second_def zoom_p_def
          split: if_splits sum.splits dest: items)
  next
    case (Raise e)
    then have "exn_kind e = RuntimeControlError" using client_request_errors [OF assms(2)] c by blast
    then show ?thesis using assms(3) first Raise by (auto simp: reconcile_runtimes_def catch_p_def bind_p_def on_second_def zoom_p_def)
  next
    case Stuck
    then show ?thesis using client_request_unstuck [OF assms(2)] c by blast
  qed
qed

lemma initialize_settings_run:
  assumes "accepts_dsn lib" "os_exchange exchange" "initialize_settings lib v exchange c f (x, a) = (r, (x', a'))"
    and "lab_service_init (ac_max_events c) (ac_max_bytes c) (ac_fsync c) (af_lab_file f) (af_spec f) (af_evidence_root f)
          (af_dir_exists f) (af_session_id f) (af_now f) = Inr svc" "dir_get (ls_spec svc) ''id'' = Some i"
  shows "(r = Ret () \<and> handler_service a' = Inr svc) \<or> (\<exists>e. r = Raise e \<and> exn_kind e = TypeError)"
proof -
  obtain k s where x: "x = (k, s)" by (cases x)
  obtain b k1 where i: "init_sentry lib ''jupyter-server'' False k = (Ret b, k1)" using returnsD [OF init_returns [OF assms(1)]] by blast
  let ?a = "a\<lparr>la_settings := AList.update ''kernel_websocket_connection_class'' (KernelConnectionClass ''SentryKernelWebsocketConnection'') (la_settings a)\<rparr>"
  let ?rec = "when_p (ac_reconcile c \<and> ac_platform c = ''FreeBSD'') (reconcile_runtimes lib v exchange (ac_runtime_socket c))"
  have run: "then_p ?rec (on_second (start_service v c f)) ((k1, s), ?a) = (r, (x', a'))"
    using assms(3) i by (simp add: initialize_settings_def then_p_def bind_p_def on_first_def on_second_def zoom_p_def x put_setting_def)
  obtain q y b' where q: "?rec ((k1, s), ?a) = (q, (y, b'))" by (metis prod.exhaust)
  have rec: "q = Ret () \<or> (\<exists>e. q = Raise e \<and> exn_kind e = TypeError)"
    using q reconcile_runtimes_run [OF assms(1,2)] by (auto simp: when_p_def split: if_splits)
  have start: "\<exists>a''. start_service v c f b' = (Ret (), a'') \<and> handler_service a'' = Inr svc"
    using assms(4,5) dirs.get_put [of service_settings_key "LabService svc" "la_settings b'" service_settings_key]
    by (simp add: start_service_def lift_p_def bind_return put_setting_def handler_service_def dir_put_def)
  show ?thesis
  proof (cases "q = Ret ()")
    case True
    then have "on_second (start_service v c f) (y, b') = (r, (x', a'))" using run q by (simp add: then_p_def bind_p_def)
    then show ?thesis using start by (auto simp: on_second_def zoom_p_def)
  next
    case False
    then show ?thesis using rec run q by (auto simp: then_p_def bind_p_def)
  qed
qed

section \<open>Properties\<close>


text \<open>An application without a DSN, over a daemon that cannot be reached.\<close>

definition offline_lib :: sdk_lib where
  "offline_lib = sample_sdk_lib None"

definition sample_app_config :: app_config where
  "sample_app_config =
     \<lparr>ac_platform = ''FreeBSD'', ac_reconcile = True, ac_runtime_socket = ''/s'', ac_max_events = PInt 10000, ac_max_bytes = PInt 1048576, ac_fsync = True\<rparr>"

definition sample_app_files :: app_files where
  "sample_app_files =
     \<lparr>af_lab_file = Inr [''lab.yaml''], af_spec = Inr [(''id'', PStr ''lab-1'')], af_evidence_root = ''/e'', af_dir_exists = False,
      af_session_id = ''s1'', af_now = ''t0''\<rparr>"

definition sample_app :: lab_app where
  "sample_app = \<lparr>la_settings = [], la_handlers = [], la_warnings = [], la_infos = []\<rparr>"


end
