(* ===== verification/Lab_Prototype.thy ===== *)
theory Lab_Prototype
  imports Json_Pretty Sha256
begin

text \<open>
  prototype/: the first recorder of evidence, the stages of a laboratory and the executors. The
  commands' results and the clock are parameters.
\<close>

section \<open>progression.py\<close>

datatype lab_stage = Observed | Explained | Reproduced | Modified | Verified | Recovered | Designed

record stage_state =
  ss_evidence_events :: nat
  ss_explanation_present :: bool
  ss_reproduced :: bool
  ss_modified :: bool
  ss_assertions_passed :: bool
  ss_recovered :: bool
  ss_design_valid :: bool

definition add_if :: "bool \<Rightarrow> lab_stage \<Rightarrow> lab_stage set \<Rightarrow> lab_stage set" where
  "add_if b x s = (if b then insert x s else s)"

definition stages_completed :: "stage_state \<Rightarrow> lab_stage set" where
  "stages_completed s =
     add_if (ss_design_valid s) Designed (add_if (ss_recovered s) Recovered (add_if (ss_assertions_passed s) Verified
       (add_if (ss_modified s) Modified (add_if (ss_reproduced s) Reproduced (add_if (ss_explanation_present s) Explained
         (add_if (ss_evidence_events s > 0) Observed {}))))))"

section \<open>runtime.py\<close>

record executor_identity =
  ri_system :: string
  ri_release :: string
  ri_machine :: string

definition freebsd_identity :: "executor_identity \<Rightarrow> exn + executor_identity" where
  "freebsd_identity i =
     (if ri_system i \<noteq> ''FreeBSD''
      then Inl (Exn RuntimeError (''FreeBSD runtime required; executor is running on '' @ ri_system i)) else Inr i)"

section \<open>evidence.py\<close>

record completed_command =
  cc_returncode :: int
  cc_stdout :: string
  cc_stderr :: string

record command_event =
  ce_sequence :: nat
  ce_timestamp :: string
  ce_command :: "string list"
  ce_exit_code :: int
  ce_stdout :: string
  ce_stderr :: string
  ce_stdout_sha256 :: string
  ce_stderr_sha256 :: string

definition text_sha256 :: "string \<Rightarrow> string" where
  "text_sha256 s = hexdigest (utf8_encode s)"

text \<open>\<open>EvidenceRecorder.run\<close>; a command that cannot be started raises and records nothing.\<close>

definition run_command :: "(string list \<Rightarrow> exn + completed_command) \<Rightarrow> string \<Rightarrow> string list \<Rightarrow> (command_event list, completed_command) prog" where
  "run_command execute now command =
     bind_p (lift_p (execute command)) (\<lambda>x.
       then_p (modify_p (\<lambda>events. events @
         [\<lparr>ce_sequence = length events + 1, ce_timestamp = now, ce_command = command, ce_exit_code = cc_returncode x,
           ce_stdout = cc_stdout x, ce_stderr = cc_stderr x, ce_stdout_sha256 = text_sha256 (cc_stdout x),
           ce_stderr_sha256 = text_sha256 (cc_stderr x)\<rparr>]))
         (return_p x))"

definition command_event_dict :: "command_event \<Rightarrow> pyval" where
  "command_event_dict e =
     PDict [(''sequence'', PInt (int (ce_sequence e))), (''timestamp'', PStr (ce_timestamp e)),
            (''command'', PList (map PStr (ce_command e))), (''exit_code'', PInt (ce_exit_code e)), (''stdout'', PStr (ce_stdout e)),
            (''stderr'', PStr (ce_stderr e)), (''stdout_sha256'', PStr (ce_stdout_sha256 e)), (''stderr_sha256'', PStr (ce_stderr_sha256 e))]"

definition recorder_document :: "executor_identity \<Rightarrow> command_event list \<Rightarrow> string" where
  "recorder_document i events =
     json_pretty 0 (PDict
       [(''schema'', PStr ''softcloud.lab-evidence/v1''),
        (''runtime'', PDict [(''system'', PStr (ri_system i)), (''release'', PStr (ri_release i)), (''machine'', PStr (ri_machine i))]),
        (''events'', PList (map command_event_dict events))]) @ [CHR 0x0A]"

section \<open>The history of a recorder\<close>

definition recorder_step :: "command_event list \<Rightarrow> (string list \<Rightarrow> exn + completed_command) \<times> string \<times> string list \<Rightarrow> command_event list" where
  "recorder_step events c = (case c of (execute, now, command) \<Rightarrow> snd (run_command execute now command events))"

definition recorder_ok :: "command_event list \<Rightarrow> bool" where
  "recorder_ok events \<longleftrightarrow>
     (\<forall>i < length events. ce_sequence (events ! i) = i + 1 \<and>
        ce_stdout_sha256 (events ! i) = text_sha256 (ce_stdout (events ! i)) \<and>
        ce_stderr_sha256 (events ! i) = text_sha256 (ce_stderr (events ! i)))"

lemma recorder_step_run:
  "recorder_step events (execute, now, command) = events \<or>
   (\<exists>e. recorder_step events (execute, now, command) = events @ [e] \<and> ce_sequence e = length events + 1 \<and>
      ce_stdout_sha256 e = text_sha256 (ce_stdout e) \<and> ce_stderr_sha256 e = text_sha256 (ce_stderr e))"
  by (cases "execute command") (simp_all add: recorder_step_def run_command_def lift_p_def)

interpretation recorder: append_only_machine recorder_step recorder_ok "\<lambda>_. True" "\<lambda>events. events"
proof unfold_locales
  fix events :: "command_event list" and c :: "(string list \<Rightarrow> exn + completed_command) \<times> string \<times> string list"
  obtain execute now command where c: "c = (execute, now, command)" by (cases c)
  show "recorder_ok events \<Longrightarrow> recorder_ok (recorder_step events c)"
    using recorder_step_run [of events execute now command] by (auto simp: c recorder_ok_def nth_append less_Suc_eq)
  show "\<exists>es. recorder_step events c = events @ es"
    using recorder_step_run [of events execute now command] by (auto simp: c)
qed

text \<open>The recorder numbers its events from 1 without a gap, each with the digests of its own output.\<close>

lemma recorder_history: "recorder_ok (run_steps recorder_step [] cs)"
  by (rule recorder.run_inv) (simp_all add: recorder_ok_def list_all_iff)

text \<open>A state that has more has completed more.\<close>

lemma stages_grow:
  assumes "ss_evidence_events s \<le> ss_evidence_events t" "ss_explanation_present s \<le> ss_explanation_present t" "ss_reproduced s \<le> ss_reproduced t"
    "ss_modified s \<le> ss_modified t" "ss_assertions_passed s \<le> ss_assertions_passed t" "ss_recovered s \<le> ss_recovered t"
    "ss_design_valid s \<le> ss_design_valid t"
  shows "stages_completed s \<subseteq> stages_completed t"
  using assms by (auto simp: stages_completed_def add_if_def split: if_splits)

end
